(* ===== verification/Rust_Prelude.thy ===== *)
theory Rust_Prelude
  imports Complex_Main "HOL-Library.Word" "HOL-Library.Sublist"
begin

text \<open>
  Shared vocabulary of the development: the Rust integer types as words, \<open>Result\<close> as a sum,
  a panic as a value, and the parts of \<open>str\<close> and of the integer formatting and parsing
  routines of the standard library that the modelled code calls.  Text is modelled over the ASCII
  range: a Rust \<open>char\<close> is a HOL \<open>char\<close> and byte lengths and character counts agree.
  The collections \<open>rs_defs\<close> and \<open>rs_inv\<close> gather the unfolding equations and the
  preservation lemmas the component proofs share.
\<close>

named_theorems rs_defs \<open>definitions unfolded together in component proofs\<close>
named_theorems rs_inv \<open>preservation of component invariants\<close>

type_synonym u8 = "8 word"
type_synonym u16 = "16 word"
type_synonym u32 = "32 word"
type_synonym u64 = "64 word"

type_synonym ('e, 'a) result = "'e + 'a"

abbreviation Err :: "'e \<Rightarrow> ('e, 'a) result" where
  "Err \<equiv> Inl"

abbreviation Ok :: "'a \<Rightarrow> ('e, 'a) result" where
  "Ok \<equiv> Inr"

text \<open>A computation that may panic.\<close>

datatype 'a outcome = Done 'a | Panic

text \<open>Points of the monotonic clock and durations, in nanoseconds.\<close>

type_synonym instant = int
type_synonym duration = nat

subsection \<open>Results\<close>

definition is_ok :: "('e, 'a) result \<Rightarrow> bool" where
  "is_ok r = (case r of Inl _ \<Rightarrow> False | Inr _ \<Rightarrow> True)"

lemma map_sum_id_eq_Inl [simp]: "map_sum id f r = Inl e \<longleftrightarrow> r = Inl e"
  by (cases r) auto

lemma is_ok_simps [simp]: "is_ok (Inr x)" "\<not> is_ok (Inl e)"
  by (simp_all add: is_ok_def)

subsection \<open>Wrapping and saturating arithmetic\<close>

definition saturating_sub :: "'l::len word \<Rightarrow> 'l word \<Rightarrow> 'l word" where
  "saturating_sub a b = (if a < b then 0 else a - b)"

lemma unat_saturating_sub [simp]: "unat (saturating_sub a b) = unat a - unat b"
proof (cases "a < b")
  case True
  then show ?thesis by (simp add: saturating_sub_def word_less_nat_alt)
next
  case False
  then have "b \<le> a" by simp
  then show ?thesis using False by (simp add: saturating_sub_def unat_sub)
qed

lemma unat_add_no_overflow:
  "unat a + unat b < 2 ^ LENGTH('l) \<Longrightarrow> unat (a + b) = unat a + unat b" for a b :: "'l::len word"
  by (simp add: unat_word_ariths)

lemma unat_inc_no_overflow:
  "unat a + 1 < 2 ^ LENGTH('l) \<Longrightarrow> unat (a + 1) = unat a + 1" for a :: "'l::len word"
  by (simp add: unat_word_ariths)

lemma unat_ucast_up [simp]:
  fixes n :: "'a::len word"
  assumes "LENGTH('a) \<le> LENGTH('b::len)"
  shows "unat (ucast n :: 'b word) = unat n"
proof -
  have "unat n < 2 ^ LENGTH('a)" by (rule unsigned_less)
  also have "\<dots> \<le> 2 ^ LENGTH('b)" using power_increasing [OF assms, of "2::nat"] by simp
  finally have "unat n < 2 ^ LENGTH('b)" .
  then show ?thesis by (simp add: unsigned_ucast_eq take_bit_nat_eq_self)
qed

lemma eq_word_of_nat: "unat w = n \<Longrightarrow> w = word_of_nat n"
  by (auto simp: of_nat_unat)

subsection \<open>Strings\<close>

definition digit_char :: "nat \<Rightarrow> char" where
  "digit_char d = char_of (48 + d)"

text \<open>\<open>to_string\<close> of an unsigned integer.\<close>

fun show_nat :: "nat \<Rightarrow> string" where
  "show_nat n = (if n < 10 then [digit_char n] else show_nat (n div 10) @ [digit_char (n mod 10)])"

definition is_ascii_digit :: "char \<Rightarrow> bool" where
  "is_ascii_digit c = (48 \<le> (of_char c :: nat) \<and> (of_char c :: nat) \<le> 57)"

definition digit_value :: "char \<Rightarrow> nat" where
  "digit_value c = of_char c - 48"

text \<open>
  \<open>str::parse\<close> for an unsigned type with maximum \<open>mx\<close>: an optional plus sign, at least one
  digit, only digits, and no overflow.
\<close>

fun parse_digits :: "nat \<Rightarrow> nat \<Rightarrow> string \<Rightarrow> nat option" where
  "parse_digits mx acc [] = Some acc"
| "parse_digits mx acc (c # cs) =
     (if \<not> is_ascii_digit c then None
      else let acc' = 10 * acc + digit_value c
           in if mx < acc' then None else parse_digits mx acc' cs)"

definition parse_uint :: "nat \<Rightarrow> string \<Rightarrow> nat option" where
  "parse_uint mx s =
     (let ds = (case s of [] \<Rightarrow> [] | c # cs \<Rightarrow> if c = CHR ''+'' then cs else s)
      in if ds = [] then None else parse_digits mx 0 ds)"

text \<open>\<open>str::split\<close> on one character: always at least one part.\<close>

fun split_on :: "char \<Rightarrow> string \<Rightarrow> string list" where
  "split_on d [] = [[]]"
| "split_on d (c # cs) =
     (if c = d then [] # split_on d cs
      else case split_on d cs of [] \<Rightarrow> [[c]] | p # ps \<Rightarrow> (c # p) # ps)"

definition strip_prefix :: "string \<Rightarrow> string \<Rightarrow> string option" where
  "strip_prefix p s = (if take (length p) s = p then Some (drop (length p) s) else None)"

fun contains_str :: "string \<Rightarrow> string \<Rightarrow> bool" where
  "contains_str pat [] = (pat = [])"
| "contains_str pat (c # cs) = (take (length pat) (c # cs) = pat \<or> contains_str pat cs)"

definition to_ascii_upper :: "char \<Rightarrow> char" where
  "to_ascii_upper c =
     (if 97 \<le> (of_char c :: nat) \<and> (of_char c :: nat) \<le> 122 then char_of (of_char c - 32 :: nat) else c)"

definition to_ascii_lower :: "char \<Rightarrow> char" where
  "to_ascii_lower c =
     (if 65 \<le> (of_char c :: nat) \<and> (of_char c :: nat) \<le> 90 then char_of (of_char c + 32 :: nat) else c)"

declare show_nat.simps [simp del]

subsection \<open>Facts about strings\<close>

lemma digit_char_digit [simp]: "d < 10 \<Longrightarrow> is_ascii_digit (digit_char d)"
  by (simp add: is_ascii_digit_def digit_char_def)

lemma digit_value_char [simp]: "d < 10 \<Longrightarrow> digit_value (digit_char d) = d"
  by (simp add: digit_value_def digit_char_def)

lemma show_nat_not_Nil [simp]: "show_nat n \<noteq> []"
  by (subst show_nat.simps) simp

lemma show_nat_digits: "c \<in> set (show_nat n) \<Longrightarrow> is_ascii_digit c"
  by (induction n rule: show_nat.induct) (subst (asm) (2) show_nat.simps, auto split: if_splits)

lemma parse_digits_append:
  "parse_digits mx acc (xs @ ys) = Option.bind (parse_digits mx acc xs) (\<lambda>a. parse_digits mx a ys)"
  by (induction xs arbitrary: acc) (auto simp: Let_def)

lemma parse_digits_show_nat: "n \<le> mx \<Longrightarrow> parse_digits mx 0 (show_nat n) = Some n"
proof (induction n rule: show_nat.induct)
  case (1 n)
  show ?case
  proof (cases "n < 10")
    case True
    with 1 show ?thesis by (simp add: show_nat.simps [of n])
  next
    case False
    with 1 have "parse_digits mx 0 (show_nat (n div 10)) = Some (n div 10)" by simp
    with False 1 show ?thesis
      by (simp add: show_nat.simps [of n] parse_digits_append)
  qed
qed

text \<open>Printing an unsigned integer and parsing it back gives the integer.\<close>

lemma parse_uint_show_nat: "n \<le> mx \<Longrightarrow> parse_uint mx (show_nat n) = Some n"
proof -
  assume n: "n \<le> mx"
  obtain c cs where cs: "show_nat n = c # cs" using show_nat_not_Nil by (meson list.exhaust)
  then have "is_ascii_digit c" using show_nat_digits [of c n] by simp
  then have "c \<noteq> CHR ''+''" by (auto simp: is_ascii_digit_def)
  with parse_digits_show_nat [OF n] show ?thesis by (simp add: parse_uint_def cs)
qed

lemma parse_digits_bound: "parse_digits mx acc s = Some n \<Longrightarrow> acc \<le> mx \<Longrightarrow> n \<le> mx"
  by (induction s arbitrary: acc) (auto simp: Let_def split: if_splits)

lemma parse_uint_bound: "parse_uint mx s = Some n \<Longrightarrow> n \<le> mx"
  by (auto simp: parse_uint_def Let_def split: if_splits dest: parse_digits_bound)

lemma split_on_not_Nil [simp]: "split_on d s \<noteq> []"
  by (induction s) (auto split: list.splits)

lemma split_on_no_sep: "d \<notin> set s \<Longrightarrow> split_on d s = [s]"
  by (induction s) auto

lemma split_on_append: "d \<notin> set p \<Longrightarrow> split_on d (p @ d # s) = p # split_on d s"
  by (induction p) auto

lemma strip_prefix_append [simp]: "strip_prefix p (p @ s) = Some s"
  by (simp add: strip_prefix_def)

lemma strip_prefix_SomeD: "strip_prefix p s = Some r \<Longrightarrow> s = p @ r"
  by (auto simp: strip_prefix_def split: if_splits) (metis append_take_drop_id)

lemma contains_str_iff: "contains_str pat s \<longleftrightarrow> (\<exists>a b. s = a @ pat @ b)"
proof (induction s)
  case Nil
  show ?case by simp
next
  case (Cons c cs)
  have "(\<exists>a b. c # cs = a @ pat @ b) \<longleftrightarrow>
      (\<exists>b. c # cs = pat @ b) \<or> (\<exists>a b. cs = a @ pat @ b)"
    by (metis append_Cons append_Nil list.exhaust list.inject)
  moreover have "take (length pat) (c # cs) = pat \<longleftrightarrow> (\<exists>b. c # cs = pat @ b)"
    by (metis append_eq_conv_conj append_take_drop_id)
  ultimately show ?case using Cons.IH by simp
qed

end
