(* ===== verification/Errors.thy ===== *)
theory Errors
  imports Rust_Prelude
begin

text \<open>
  The unified error type (\<open>rszero/src/error/mod.rs\<close>): the variants of \<open>RszeroError\<close>, its
  constructors, \<open>Display\<close>, \<open>Clone\<close>, the numeric codes and the conversion to an HTTP response.
  A boxed source error and a \<open>serde_json::Error\<close> are observed through their \<open>Display\<close> text.
  \<open>StatusCode::from_u16\<close> of the http crate is a parameter; \<open>status_code_range\<close> states its
  documented range.
\<close>

datatype error_source = Source string

text \<open>A JSON error: whether it is of the I/O category, and its text.\<close>

datatype json_error = Json_Error bool string

datatype rszero_error =
    Config string "error_source option"
  | Database string "error_source option"
  | Cache string "error_source option"
  | Rpc string "error_source option"
  | Http u16 string
  | Auth string "error_source option"
  | RateLimit
  | CircuitBreaker
  | NotFound string
  | Discovery string "error_source option"
  | Queue string "error_source option"
  | Serialization json_error
  | Internal string "error_source option"

type_synonym 'a rszero_result = "(rszero_error, 'a) result"

fun json_display :: "json_error \<Rightarrow> string" where
  "json_display (Json_Error io txt) = txt"

subsection \<open>Display, source and clone\<close>

fun display :: "rszero_error \<Rightarrow> string" where
  "display (Config m s) = ''config error: '' @ m"
| "display (Database m s) = ''database error: '' @ m"
| "display (Cache m s) = ''cache error: '' @ m"
| "display (Rpc m s) = ''rpc error: '' @ m"
| "display (Http c m) = ''http error: '' @ show_nat (unat c) @ '' '' @ m"
| "display (Auth m s) = ''auth error: '' @ m"
| "display RateLimit = ''rate limit exceeded''"
| "display CircuitBreaker = ''circuit breaker open''"
| "display (NotFound m) = ''not found: '' @ m"
| "display (Discovery m s) = ''service discovery error: '' @ m"
| "display (Queue m s) = ''queue error: '' @ m"
| "display (Serialization e) = ''serialization error: '' @ json_display e"
| "display (Internal m s) = ''internal error: '' @ m"

text \<open>\<open>Error::source\<close> as thiserror derives it from the \<open>source\<close> fields; a \<open>Serialization\<close>
  error's source is the JSON error it wraps.\<close>

fun source_of :: "rszero_error \<Rightarrow> error_source option" where
  "source_of (Config m s) = s"
| "source_of (Database m s) = s"
| "source_of (Cache m s) = s"
| "source_of (Rpc m s) = s"
| "source_of (Auth m s) = s"
| "source_of (Discovery m s) = s"
| "source_of (Queue m s) = s"
| "source_of (Internal m s) = s"
| "source_of (Serialization e) = Some (Source (json_display e))"
| "source_of (Http c m) = None"
| "source_of RateLimit = None"
| "source_of CircuitBreaker = None"
| "source_of (NotFound m) = None"

text \<open>A cloned JSON error is rebuilt as an I/O error with the text of the original.\<close>

fun clone :: "rszero_error \<Rightarrow> rszero_error" where
  "clone (Config m s) = Config m s"
| "clone (Database m s) = Database m s"
| "clone (Cache m s) = Cache m s"
| "clone (Rpc m s) = Rpc m s"
| "clone (Http c m) = Http c m"
| "clone (Auth m s) = Auth m s"
| "clone RateLimit = RateLimit"
| "clone CircuitBreaker = CircuitBreaker"
| "clone (NotFound m) = NotFound m"
| "clone (Discovery m s) = Discovery m s"
| "clone (Queue m s) = Queue m s"
| "clone (Serialization e) = Serialization (Json_Error True (json_display e))"
| "clone (Internal m s) = Internal m s"

subsection \<open>Constructors\<close>

definition config :: "string \<Rightarrow> rszero_error" where
  "config m = Config m None"

definition config_with_source :: "string \<Rightarrow> error_source \<Rightarrow> rszero_error" where
  "config_with_source m s = Config m (Some s)"

definition database :: "string \<Rightarrow> rszero_error" where
  "database m = Database m None"

definition database_with_source :: "string \<Rightarrow> error_source \<Rightarrow> rszero_error" where
  "database_with_source m s = Database m (Some s)"

definition cache :: "string \<Rightarrow> rszero_error" where
  "cache m = Cache m None"

definition cache_with_source :: "string \<Rightarrow> error_source \<Rightarrow> rszero_error" where
  "cache_with_source m s = Cache m (Some s)"

definition rpc :: "string \<Rightarrow> rszero_error" where
  "rpc m = Rpc m None"

definition rpc_with_source :: "string \<Rightarrow> error_source \<Rightarrow> rszero_error" where
  "rpc_with_source m s = Rpc m (Some s)"

definition http :: "u16 \<Rightarrow> string \<Rightarrow> rszero_error" where
  "http c m = Http c m"

definition auth :: "string \<Rightarrow> rszero_error" where
  "auth m = Auth m None"

definition auth_with_source :: "string \<Rightarrow> error_source \<Rightarrow> rszero_error" where
  "auth_with_source m s = Auth m (Some s)"

definition discovery :: "string \<Rightarrow> rszero_error" where
  "discovery m = Discovery m None"

definition discovery_with_source :: "string \<Rightarrow> error_source \<Rightarrow> rszero_error" where
  "discovery_with_source m s = Discovery m (Some s)"

definition queue :: "string \<Rightarrow> rszero_error" where
  "queue m = Queue m None"

definition queue_with_source :: "string \<Rightarrow> error_source \<Rightarrow> rszero_error" where
  "queue_with_source m s = Queue m (Some s)"

definition not_found :: "string \<Rightarrow> rszero_error" where
  "not_found m = NotFound m"

definition internal :: "string \<Rightarrow> rszero_error" where
  "internal m = Internal m None"

definition internal_with_source :: "string \<Rightarrow> error_source \<Rightarrow> rszero_error" where
  "internal_with_source m s = Internal m (Some s)"

text \<open>The \<open>From\<close> conversions; the argument is the foreign error, seen as its text.\<close>

definition from_figment :: "string \<Rightarrow> rszero_error" where
  "from_figment e = Config e (Some (Source e))"

definition from_io :: "string \<Rightarrow> rszero_error" where
  "from_io e = Internal e (Some (Source e))"

definition from_sqlx :: "string \<Rightarrow> rszero_error" where
  "from_sqlx e = Database e (Some (Source e))"

subsection \<open>Codes and HTTP responses\<close>

fun status_code :: "rszero_error \<Rightarrow> u16" where
  "status_code (Http c m) = c"
| "status_code (Auth m s) = 401"
| "status_code RateLimit = 429"
| "status_code CircuitBreaker = 503"
| "status_code (NotFound m) = 404"
| "status_code _ = 500"

fun code :: "rszero_error \<Rightarrow> int" where
  "code (Http c m) = uint c"
| "code (Auth m s) = 401"
| "code RateLimit = 429"
| "code CircuitBreaker = 503"
| "code (NotFound m) = 404"
| "code _ = 500"

record error_response =
  er_code :: int
  er_msg :: string

definition error_response_new :: "int \<Rightarrow> string \<Rightarrow> error_response" where
  "error_response_new c m = \<lparr>er_code = c, er_msg = m\<rparr>"

definition from_error :: "rszero_error \<Rightarrow> error_response" where
  "from_error e = \<lparr>er_code = code e, er_msg = display e\<rparr>"

definition to_status_code :: "(u16 \<Rightarrow> u16 option) \<Rightarrow> rszero_error \<Rightarrow> u16" where
  "to_status_code from_u16 e = (case from_u16 (status_code e) of None \<Rightarrow> 500 | Some s \<Rightarrow> s)"

text \<open>The status line and the JSON body that \<open>ErrorResponse\<close> turns into.\<close>

definition into_response :: "(u16 \<Rightarrow> u16 option) \<Rightarrow> error_response \<Rightarrow> u16 \<times> error_response" where
  "into_response from_u16 r =
     (let status = (if 500 \<le> er_code r then 500
                    else if 400 \<le> er_code r
                      then (case from_u16 (word_of_int (er_code r)) of None \<Rightarrow> 400 | Some s \<Rightarrow> s)
                    else 200)
      in (status, r))"

text \<open>Documented range of \<open>StatusCode::from_u16\<close>: exactly 100 to 999 are accepted.\<close>

definition status_code_range :: "(u16 \<Rightarrow> u16 option) \<Rightarrow> bool" where
  "status_code_range f \<longleftrightarrow> (\<forall>c. f c = (if 100 \<le> c \<and> c < 1000 then Some c else None))"

subsection \<open>Lemmas\<close>

lemma code_status_code: "code e = uint (status_code e)"
  by (cases e) simp_all

lemma display_clone [simp]: "display (clone e) = display e"
  by (cases e) simp_all

lemma clone_observables [simp]:
  "status_code (clone e) = status_code e" "code (clone e) = code e"
  "source_of (clone e) = source_of e"
  by (cases e; simp)+

lemma from_error_clone [simp]: "from_error (clone e) = from_error e"
  by (simp add: from_error_def)

lemma into_response_status:
  assumes "status_code_range f"
  shows "fst (into_response f (from_error e)) =
    (let c = status_code e in if 500 \<le> c then 500 else if 400 \<le> c then c else 200)"
proof -
  have "uint (status_code e) \<ge> 500 \<longleftrightarrow> 500 \<le> status_code e"
    "uint (status_code e) \<ge> 400 \<longleftrightarrow> 400 \<le> status_code e"
    by (simp_all add: word_le_def)
  moreover have "400 \<le> c \<Longrightarrow> \<not> 500 \<le> c \<Longrightarrow> 100 \<le> c \<and> c < (1000 :: u16)" for c :: u16
    by unat_arith
  ultimately show ?thesis
    using assms by (auto simp: into_response_def from_error_def code_status_code
        status_code_range_def Let_def)
qed

lemma to_status_code_range:
  assumes "status_code_range f"
  shows "to_status_code f e =
    (let c = status_code e in if 100 \<le> c \<and> c < 1000 then c else 500)"
  using assms by (auto simp: to_status_code_def status_code_range_def Let_def)

text \<open>
  The two ways the framework turns an error into an HTTP status, \<open>to_status_code\<close> and
  the response built from \<open>ErrorResponse::from_error\<close>, agree exactly on the codes 200 and
  400 to 500 and on codes outside the range of HTTP; in particular an open circuit breaker is 503
  in one and 500 in the other.
\<close>

theorem response_status_agree_iff:
  assumes "status_code_range f"
  shows "fst (into_response f (from_error e)) = to_status_code f e \<longleftrightarrow>
    status_code e = 200 \<or> (400 \<le> status_code e \<and> status_code e \<le> 500) \<or> 1000 \<le> status_code e"
proof -
  have split: "fst (into_response f (from_error e)) = to_status_code f e \<longleftrightarrow>
    (let c = status_code e in
      (if 500 \<le> c then 500 else if 400 \<le> c then c else 200) =
      (if 100 \<le> c \<and> c < 1000 then c else 500))"
    by (simp only: into_response_status [OF assms] to_status_code_range [OF assms] Let_def)
  show ?thesis
    unfolding split Let_def by (simp split: if_splits) unat_arith
qed

theorem response_status_agree_iff_witness:
  "fst (into_response (\<lambda>c. if 100 \<le> c \<and> c < 1000 then Some c else None) (from_error CircuitBreaker))
     \<noteq> to_status_code (\<lambda>c. if 100 \<le> c \<and> c < 1000 then Some c else None) CircuitBreaker"
proof -
  have "status_code_range (\<lambda>c. if 100 \<le> c \<and> c < 1000 then Some c else None)"
    by (simp add: status_code_range_def)
  from response_status_agree_iff [OF this, of CircuitBreaker] show ?thesis by simp
qed

text \<open>
  Cloning an error keeps everything a caller can observe of it: the message, the status and
  numeric codes, the source and the response body; the clone is the same value for every variant
  but a serialization error that was not an I/O error.
\<close>

theorem clone_preserves:
  "display (clone e) = display e \<and> status_code (clone e) = status_code e \<and> code (clone e) = code e
   \<and> source_of (clone e) = source_of e \<and> from_error (clone e) = from_error e
   \<and> (clone e = e \<longleftrightarrow> (\<nexists>t. e = Serialization (Json_Error False t)))"
proof -
  have "clone e = e \<longleftrightarrow> (\<nexists>t. e = Serialization (Json_Error False t))"
  proof (cases e)
    case (Serialization j)
    then show ?thesis by (cases j) auto
  qed simp_all
  then show ?thesis by simp
qed

end
