(* ===== verification/F64.thy ===== *)
theory F64
  imports Rust_Prelude "HOL-Library.Log_Nat"
begin

text \<open>
  Binary64 arithmetic as the modelled code uses it: finite values are rationals, and every operation
  rounds its exact result to nearest, ties to even, with a 53-bit significand, gradual underflow
  below \<open>2 powi (- 1022)\<close> and overflow to an infinity.  The sign of a zero is not kept: the
  code only compares zeros and divides by the non-negative result of an integer cast.  Casts
  follow the reference manual: integers round, and \<open>as u64\<close> truncates and saturates, with NaN
  going to zero.  The theory ends with the facts used later: rounding is exact on the grid,
  monotone, and never crosses a representable bound.
\<close>

subsection \<open>Rounding\<close>

datatype f64 = Fin rat | PInf | NInf | NaN

text \<open>The binary exponent: the largest \<open>e\<close> with \<open>2 powi e \<le> x\<close>, for positive \<open>x\<close>.\<close>

definition ilog2 :: "rat \<Rightarrow> int" where
  "ilog2 x = (let (p, q) = quotient_of x; e = bitlen p - bitlen q
              in if 2 powi e \<le> x then e else e - 1)"

text \<open>Round to the nearest integer, ties to even.\<close>

definition rne :: "rat \<Rightarrow> int" where
  "rne x = (let f = \<lfloor>x\<rfloor>; d = x - of_int f
            in if d < 1/2 then f else if 1/2 < d then f + 1 else if even f then f else f + 1)"

definition f64_ulp_exp :: "rat \<Rightarrow> int" where
  "f64_ulp_exp x = max (ilog2 x - 52) (- 1074)"

definition f64_mag :: "rat \<Rightarrow> rat" where
  "f64_mag x = (if x = 0 then 0 else of_int (rne (x / 2 powi f64_ulp_exp x)) * 2 powi f64_ulp_exp x)"

definition f64_round :: "rat \<Rightarrow> f64" where
  "f64_round x =
     (let v = f64_mag \<bar>x\<bar>
      in if 2 powi 1024 \<le> v then (if 0 < x then PInf else NInf) else Fin (sgn x * v))"

subsection \<open>Operations and casts\<close>

definition f64_of_nat :: "nat \<Rightarrow> f64" where
  "f64_of_nat n = f64_round (of_nat n)"

fun f64_neg :: "f64 \<Rightarrow> f64" where
  "f64_neg (Fin x) = Fin (- x)"
| "f64_neg PInf = NInf"
| "f64_neg NInf = PInf"
| "f64_neg NaN = NaN"

definition f64_signed_inf :: "rat \<Rightarrow> f64" where
  "f64_signed_inf s = (if s = 0 then NaN else if 0 < s then PInf else NInf)"

fun f64_mul :: "f64 \<Rightarrow> f64 \<Rightarrow> f64" where
  "f64_mul (Fin x) (Fin y) = f64_round (x * y)"
| "f64_mul NaN _ = NaN"
| "f64_mul _ NaN = NaN"
| "f64_mul (Fin x) PInf = f64_signed_inf x"
| "f64_mul (Fin x) NInf = f64_signed_inf (- x)"
| "f64_mul PInf (Fin y) = f64_signed_inf y"
| "f64_mul NInf (Fin y) = f64_signed_inf (- y)"
| "f64_mul PInf PInf = PInf"
| "f64_mul PInf NInf = NInf"
| "f64_mul NInf PInf = NInf"
| "f64_mul NInf NInf = PInf"

fun f64_div :: "f64 \<Rightarrow> f64 \<Rightarrow> f64" where
  "f64_div (Fin x) (Fin y) = (if y = 0 then f64_signed_inf x else f64_round (x / y))"
| "f64_div NaN _ = NaN"
| "f64_div _ NaN = NaN"
| "f64_div (Fin x) _ = Fin 0"
| "f64_div PInf (Fin y) = (if y < 0 then NInf else PInf)"
| "f64_div NInf (Fin y) = (if y < 0 then PInf else NInf)"
| "f64_div _ _ = NaN"

fun f64_less :: "f64 \<Rightarrow> f64 \<Rightarrow> bool" where
  "f64_less (Fin x) (Fin y) \<longleftrightarrow> x < y"
| "f64_less NaN _ \<longleftrightarrow> False"
| "f64_less _ NaN \<longleftrightarrow> False"
| "f64_less PInf _ \<longleftrightarrow> False"
| "f64_less _ NInf \<longleftrightarrow> False"
| "f64_less _ PInf \<longleftrightarrow> True"
| "f64_less NInf _ \<longleftrightarrow> True"

fun f64_ge :: "f64 \<Rightarrow> f64 \<Rightarrow> bool" where
  "f64_ge (Fin x) (Fin y) \<longleftrightarrow> y \<le> x"
| "f64_ge NaN _ \<longleftrightarrow> False"
| "f64_ge _ NaN \<longleftrightarrow> False"
| "f64_ge PInf _ \<longleftrightarrow> True"
| "f64_ge _ NInf \<longleftrightarrow> True"
| "f64_ge _ PInf \<longleftrightarrow> False"
| "f64_ge NInf _ \<longleftrightarrow> False"

text \<open>\<open>f64::min\<close> returns the other operand when one is NaN.\<close>

definition f64_min :: "f64 \<Rightarrow> f64 \<Rightarrow> f64" where
  "f64_min a b = (if a = NaN then b else if b = NaN then a else if f64_less b a then b else a)"

text \<open>\<open>x as u64\<close>: truncation towards zero, saturating at the bounds, NaN to zero.\<close>

fun f64_to_u64 :: "f64 \<Rightarrow> u64" where
  "f64_to_u64 (Fin x) = (if x \<le> 0 then 0 else if 2 ^ 64 \<le> x then - 1 else word_of_int \<lfloor>x\<rfloor>)"
| "f64_to_u64 PInf = - 1"
| "f64_to_u64 NInf = 0"
| "f64_to_u64 NaN = 0"

subsection \<open>The binary exponent\<close>

lemma powi2_pos [simp]: "(0::rat) < 2 powi e"
  by simp

lemma powi2_strict_mono:
  assumes "a < b"
  shows "(2::rat) powi a < 2 powi b"
proof -
  have "(2::rat) powi b = 2 powi a * 2 powi (b - a)"
    by (simp flip: power_int_add)
  moreover have "(1::rat) < 2 powi (b - a)"
    using assms by (simp add: power_int_def)
  ultimately show ?thesis by simp
qed

lemma powi2_less_iff [simp]: "(2::rat) powi a < 2 powi b \<longleftrightarrow> a < b"
  by (metis linorder_less_linear order_less_asym order_less_irrefl powi2_strict_mono)

lemma powi2_le_iff [simp]: "(2::rat) powi a \<le> 2 powi b \<longleftrightarrow> a \<le> b"
  by (meson linorder_not_less powi2_less_iff)

lemma powi2_add: "(2::rat) powi (a + b) = 2 powi a * 2 powi b"
  by (simp add: power_int_add)

lemma bitlen_powi_bounds:
  fixes p :: int
  assumes "0 < p"
  shows "(2::rat) powi (bitlen p - 1) \<le> of_int p" and "of_int p < (2::rat) powi (bitlen p)"
proof -
  have b: "0 < bitlen p"
    using assms bitlen_nonneg [of p] by (simp add: bitlen_eq_zero_iff order_less_le)
  have lo: "2 ^ nat (bitlen p - 1) \<le> p" and hi: "p < 2 ^ nat (bitlen p)"
    using bitlen_bounds [of p] assms by auto
  have "(2::rat) powi (bitlen p - 1) = of_int (2 ^ nat (bitlen p - 1))"
    using b by (simp add: power_int_def)
  also have "\<dots> \<le> of_int p" using lo by (simp only: of_int_le_iff)
  finally show "(2::rat) powi (bitlen p - 1) \<le> of_int p" .
  have "of_int p < (of_int (2 ^ nat (bitlen p)) :: rat)" using hi by (simp only: of_int_less_iff)
  also have "\<dots> = 2 powi (bitlen p)" using b by (simp add: power_int_def)
  finally show "of_int p < (2::rat) powi (bitlen p)" .
qed

lemma ilog2_bounds:
  assumes "0 < x"
  shows "2 powi (ilog2 x) \<le> x" and "x < 2 powi (ilog2 x + 1)"
proof -
  obtain p q where pq: "quotient_of x = (p, q)" by fastforce
  have q: "0 < q" using quotient_of_denom_pos [OF pq] .
  have x: "x = of_int p / of_int q" using quotient_of_div [OF pq] .
  have p: "0 < p" using assms q by (simp add: x zero_less_divide_iff)
  let ?e = "bitlen p - bitlen q"
  have "x < 2 powi (bitlen p) / 2 powi (bitlen q - 1)"
    unfolding x using bitlen_powi_bounds [OF p] bitlen_powi_bounds [OF q] q p
    by (intro frac_less) auto
  also have "\<dots> = 2 powi (?e + 1)"
    by (simp add: power_int_diff power_int_add)
  finally have hi: "x < 2 powi (?e + 1)" .
  have "2 powi (bitlen p - 1) / 2 powi (bitlen q) \<le> x"
    unfolding x using bitlen_powi_bounds [OF p] bitlen_powi_bounds [OF q] q p
    by (intro frac_le) auto
  moreover have "(2::rat) powi (bitlen p - 1) / 2 powi (bitlen q) = 2 powi (?e - 1)"
    by (simp add: power_int_diff power_int_add)
  ultimately have lo: "2 powi (?e - 1) \<le> x" by simp
  show "2 powi (ilog2 x) \<le> x" and "x < 2 powi (ilog2 x + 1)"
    using lo hi by (auto simp: ilog2_def pq Let_def)
qed

lemma ilog2_unique:
  assumes "2 powi e \<le> x" and "x < 2 powi (e + 1)"
  shows "ilog2 x = e"
proof -
  have "0 < x" using assms(1) powi2_pos [of e] by linarith
  note b = ilog2_bounds [OF this]
  have "(2::rat) powi e < 2 powi (ilog2 x + 1)" "(2::rat) powi (ilog2 x) < 2 powi (e + 1)"
    using assms b by linarith+
  then show ?thesis by simp
qed

lemma ilog2_mono:
  assumes "0 < x" and "x \<le> y"
  shows "ilog2 x \<le> ilog2 y"
proof -
  have "(2::rat) powi (ilog2 x) < 2 powi (ilog2 y + 1)"
    using ilog2_bounds [of x] ilog2_bounds [of y] assms by linarith
  then show ?thesis by simp
qed

subsection \<open>Rounding is exact on the grid and monotone\<close>

lemma rne_bounds: "\<lfloor>x\<rfloor> \<le> rne x" "rne x \<le> \<lfloor>x\<rfloor> + 1"
  by (auto simp: rne_def Let_def)

lemma rne_of_int [simp]: "rne (of_int n) = n"
  by (simp add: rne_def)

lemma rne_mono:
  assumes "x \<le> y"
  shows "rne x \<le> rne y"
proof (cases "\<lfloor>x\<rfloor> = \<lfloor>y\<rfloor>")
  case True
  with assms show ?thesis by (auto simp: rne_def Let_def)
next
  case False
  then have "\<lfloor>x\<rfloor> + 1 \<le> \<lfloor>y\<rfloor>" using floor_mono [OF assms] by linarith
  then show ?thesis using rne_bounds [of x] rne_bounds [of y] by linarith
qed

lemma int_on_grid: "e \<le> 0 \<Longrightarrow> \<exists>k. (of_int n :: rat) = of_int k * 2 powi e"
  by (rule exI [of _ "n * 2 ^ nat (- e)"]) (auto simp: power_int_def field_simps)

lemma pow2_on_grid:
  assumes "e \<le> a"
  shows "\<exists>k. (2::rat) powi a = of_int k * 2 powi e"
proof (rule exI [of _ "2 ^ nat (a - e)"])
  have "(2::rat) powi a = 2 powi (a - e) * 2 powi e" by (simp flip: power_int_add)
  also have "(2::rat) powi (a - e) = of_int (2 ^ nat (a - e))"
    using assms by (simp add: power_int_def)
  finally show "(2::rat) powi a = of_int (2 ^ nat (a - e)) * 2 powi e" .
qed

lemma f64_mag_0 [simp]: "f64_mag 0 = 0"
  by (simp add: f64_mag_def)

lemma f64_mag_le_grid:
  assumes "x \<le> c" and "c = of_int k * 2 powi f64_ulp_exp x" and "x \<noteq> 0"
  shows "f64_mag x \<le> c"
proof -
  have "x / 2 powi f64_ulp_exp x \<le> of_int k"
    using assms by (simp add: pos_divide_le_eq)
  then have "rne (x / 2 powi f64_ulp_exp x) \<le> k"
    using rne_mono rne_of_int by metis
  then show ?thesis using assms by (simp add: f64_mag_def)
qed

lemma f64_mag_ge_grid:
  assumes "c \<le> x" and "c = of_int k * 2 powi f64_ulp_exp x" and "x \<noteq> 0"
  shows "c \<le> f64_mag x"
proof -
  have "of_int k \<le> x / 2 powi f64_ulp_exp x"
    using assms by (simp add: pos_le_divide_eq)
  then have "k \<le> rne (x / 2 powi f64_ulp_exp x)"
    using rne_mono rne_of_int by metis
  then show ?thesis using assms by (simp add: f64_mag_def)
qed

lemma f64_mag_nonneg: "0 \<le> x \<Longrightarrow> 0 \<le> f64_mag x"
  using f64_mag_ge_grid [of 0 x 0] by (cases "x = 0") auto

lemma f64_mag_of_int:
  assumes "0 < n" and "n < 2 ^ 53"
  shows "f64_mag (of_int n) = of_int n"
proof -
  have "(of_int n :: rat) < of_int (2 ^ 53)" using assms(2) by (simp only: of_int_less_iff)
  then have "(2::rat) powi (ilog2 (of_int n)) < 2 powi 53"
    using ilog2_bounds(1) [of "of_int n"] assms(1) by (simp add: power_int_def)
  then have "ilog2 (of_int n) < 53" by (simp only: powi2_less_iff)
  then have "f64_ulp_exp (of_int n) \<le> 0" by (simp add: f64_ulp_exp_def)
  then obtain k where k: "(of_int n :: rat) = of_int k * 2 powi f64_ulp_exp (of_int n)"
    using int_on_grid by blast
  show ?thesis
    using f64_mag_le_grid [OF order_refl k] f64_mag_ge_grid [OF order_refl k] assms(1) by force
qed

lemma f64_mag_pow2_ge:
  assumes "0 < x"
  shows "2 powi (ilog2 x) \<le> f64_mag x \<or> f64_ulp_exp x = - 1074"
proof (cases "f64_ulp_exp x = - 1074")
  case False
  then have "f64_ulp_exp x \<le> ilog2 x" by (simp add: f64_ulp_exp_def max_def split: if_splits)
  then obtain k where "(2::rat) powi (ilog2 x) = of_int k * 2 powi f64_ulp_exp x"
    using pow2_on_grid by blast
  then show ?thesis
    using f64_mag_ge_grid [OF ilog2_bounds(1) [OF assms]] assms by blast
qed simp

lemma f64_mag_pow2_le:
  assumes "0 < x" and "ilog2 x + 1 \<le> a" and "f64_ulp_exp x \<le> a"
  shows "f64_mag x \<le> 2 powi a"
proof -
  have "x \<le> 2 powi a"
    using ilog2_bounds(2) [OF assms(1)] assms(2)
    by (meson order_less_imp_le order_trans powi2_le_iff)
  moreover obtain k where "(2::rat) powi a = of_int k * 2 powi f64_ulp_exp x"
    using pow2_on_grid [OF assms(3)] by blast
  ultimately show ?thesis using f64_mag_le_grid assms(1) by blast
qed

lemma f64_mag_mono:
  assumes "0 \<le> x" and "x \<le> y"
  shows "f64_mag x \<le> f64_mag y"
proof (cases "x = 0")
  case True
  then show ?thesis using f64_mag_nonneg assms by simp
next
  case False
  then have x: "0 < x" and y: "0 < y" using assms by linarith+
  show ?thesis
  proof (cases "f64_ulp_exp x = f64_ulp_exp y")
    case True
    have "x / 2 powi f64_ulp_exp y \<le> y / 2 powi f64_ulp_exp y"
      using assms(2) by (simp add: divide_right_mono)
    from rne_mono [OF this] show ?thesis
      using x y True by (simp add: f64_mag_def)
  next
    case ne: False
    have m: "ilog2 x \<le> ilog2 y" by (rule ilog2_mono [OF x assms(2)])
    with ne have ly: "f64_ulp_exp y \<noteq> - 1074" and lt: "ilog2 x < ilog2 y"
      by (auto simp: f64_ulp_exp_def)
    have "f64_ulp_exp x \<le> ilog2 y"
      using m ly by (auto simp: f64_ulp_exp_def)
    then have "f64_mag x \<le> 2 powi (ilog2 y)"
      using f64_mag_pow2_le [OF x, of "ilog2 y"] lt by simp
    also have "\<dots> \<le> f64_mag y" using f64_mag_pow2_ge [OF y] ly by simp
    finally show ?thesis .
  qed
qed

subsection \<open>Facts about the operations\<close>

lemma f64_round_nonneg:
  "0 \<le> x \<Longrightarrow> f64_round x = (if 2 powi 1024 \<le> f64_mag x then PInf else Fin (f64_mag x))"
  by (cases "x = 0") (auto simp: f64_round_def)

lemma powi_1024_gt: "(2::rat) ^ 64 < 2 powi 1024"
  using powi2_strict_mono [of 64 1024] by simp

lemma f64_round_of_nat:
  assumes "n < 2 ^ 53"
  shows "f64_round (of_nat n) = Fin (of_nat n)"
proof -
  have m: "f64_mag (of_nat n) = of_nat n"
    using f64_mag_of_int [of "int n"] assms by (cases "n = 0") (auto simp: of_nat_less_iff)
  have "(of_nat n :: rat) < of_nat (2 ^ 53)" using assms by (simp only: of_nat_less_iff)
  then have "\<not> 2 powi 1024 \<le> (of_nat n :: rat)" using powi_1024_gt by simp
  then show ?thesis by (simp add: f64_round_nonneg m)
qed

lemma f64_round_01:
  assumes "0 \<le> x" and "x \<le> 1"
  shows "\<exists>v. f64_round x = Fin v \<and> 0 \<le> v \<and> v \<le> 1"
proof -
  have "f64_mag x \<le> f64_mag 1" using assms by (rule f64_mag_mono)
  also have "f64_mag 1 = 1" using f64_mag_of_int [of 1] by simp
  finally have "f64_mag x \<le> 1" .
  moreover have "\<not> 2 powi 1024 \<le> f64_mag x" using calculation powi_1024_gt by simp
  ultimately show ?thesis using f64_mag_nonneg [OF assms(1)] assms(1) by (simp add: f64_round_nonneg)
qed

text \<open>No rounding up to one: a value at most one ulp below it stays below it.\<close>

lemma f64_mag_below_one:
  assumes "0 \<le> x" and "x \<le> 1 - 2 powi (- 53)"
  shows "f64_mag x < 1"
proof (cases "x = 0")
  case False
  then have x: "0 < x" using assms(1) by simp
  have "x < 2 powi 0" using assms(2) powi2_pos [of "- 53"] by simp
  then have "(2::rat) powi (ilog2 x) < 2 powi 0" using ilog2_bounds(1) [OF x] by linarith
  then have "ilog2 x < 0" by (simp only: powi2_less_iff)
  then have e: "f64_ulp_exp x \<le> - 53" by (simp add: f64_ulp_exp_def)
  obtain j where j: "(2::rat) powi 0 = of_int j * 2 powi f64_ulp_exp x"
    using pow2_on_grid [of "f64_ulp_exp x" 0] e by auto
  obtain k where k: "(2::rat) powi (- 53) = of_int k * 2 powi f64_ulp_exp x"
    using pow2_on_grid [OF e] by blast
  have "1 - (2::rat) powi (- 53) = of_int (j - k) * 2 powi f64_ulp_exp x"
    using j k by (simp add: left_diff_distrib del: power_int_numeral_neg_numeral)
  from f64_mag_le_grid [OF assms(2) this False] show ?thesis
    using powi2_pos [of "- 53"] by linarith
qed simp

lemma f64_round_ratio_one:
  assumes "0 < n" and "m \<le> n" and "n < 2 ^ 53"
  shows "f64_round (of_nat m / of_nat n) = Fin 1 \<longleftrightarrow> m = n"
proof
  assume "m = n"
  then show "f64_round (of_nat m / of_nat n) = Fin 1"
    using f64_round_of_nat [of 1] assms(1) by simp
next
  assume one: "f64_round (of_nat m / of_nat n) = Fin 1"
  show "m = n"
  proof (rule ccontr)
    assume "m \<noteq> n"
    then have "(of_nat m :: rat) + 1 \<le> of_nat n"
      using assms(2) by (metis Suc_leI le_neq_implies_less of_nat_Suc of_nat_le_iff add.commute)
    then have "(of_nat m / of_nat n :: rat) \<le> 1 - 1 / of_nat n"
      using assms(1) by (simp add: field_simps)
    moreover have "(of_nat n :: rat) \<le> of_nat (2 ^ 53)"
      using assms(3) by (simp only: of_nat_le_iff)
    then have "(2::rat) powi (- 53) \<le> 1 / of_nat n"
      using assms(1) by (simp add: field_simps)
    ultimately have "(of_nat m / of_nat n :: rat) \<le> 1 - 2 powi (- 53)" by linarith
    then have "f64_mag (of_nat m / of_nat n) < 1" by (intro f64_mag_below_one) simp_all
    with one show False by (simp add: f64_round_nonneg split: if_splits)
  qed
qed

subsection \<open>Casts to integers\<close>

lemma f64_to_u64_of_nat: "n < 2 ^ 64 \<Longrightarrow> unat (f64_to_u64 (Fin (of_nat n))) = n"
proof -
  assume n: "n < 2 ^ 64"
  then have "(of_nat n :: rat) < of_nat (2 ^ 64)" by (simp only: of_nat_less_iff)
  then have "\<not> 2 ^ 64 \<le> (of_nat n :: rat)" by simp
  with n show ?thesis
    by (cases "n = 0") (simp_all add: unsigned_of_nat unsigned_of_int take_bit_nat_eq_self nat_take_bit_eq)
qed

lemma f64_to_u64_le:
  assumes "x \<le> of_nat n" and "n < 2 ^ 64"
  shows "unat (f64_to_u64 (Fin x)) \<le> n"
proof (cases "x \<le> 0")
  case False
  have "(of_nat n :: rat) < of_nat (2 ^ 64)" using assms(2) by (simp only: of_nat_less_iff)
  then have lt: "\<not> 2 ^ 64 \<le> x" using assms(1) by simp
  have fl: "0 \<le> \<lfloor>x\<rfloor>" "\<lfloor>x\<rfloor> \<le> int n" using False assms(1) by (auto simp: floor_le_iff)
  then have "unat (word_of_int \<lfloor>x\<rfloor> :: u64) = nat \<lfloor>x\<rfloor>"
    using assms(2) by (simp add: unsigned_of_int nat_take_bit_eq take_bit_nat_eq_self)
  with False lt fl show ?thesis by simp
qed simp

text \<open>A value clamped from above by \<open>min\<close> stays below the clamp, whatever it was.\<close>

lemma f64_to_u64_min_le:
  assumes "n < 2 ^ 64"
  shows "unat (f64_to_u64 (f64_min b (Fin (of_nat n)))) \<le> n"
proof (cases b)
  case (Fin x)
  then show ?thesis
    using f64_to_u64_le [OF _ assms] by (auto simp: f64_min_def simp del: f64_to_u64.simps)
qed (use f64_to_u64_le [OF order_refl assms] in \<open>simp_all add: f64_min_def del: f64_to_u64.simps(1)\<close>)

end
