(* ===== verification/Transition_Systems.thy ===== *)
theory Transition_Systems
  imports Rust_Prelude
begin

text \<open>
  Stateful components run as transition systems: an initial-state predicate and a labelled step
  relation.  The locale \<open>inductive_invariant\<close> is the contract a component discharges once, that
  its invariant holds initially and is kept by every step; its clients use the derived facts about
  every reachable state and every run.
\<close>

inductive reach :: "('s \<Rightarrow> bool) \<Rightarrow> ('s \<Rightarrow> 'e \<Rightarrow> 's \<Rightarrow> bool) \<Rightarrow> 's \<Rightarrow> bool"
  for init step where
  reach_init: "init s \<Longrightarrow> reach init step s"
| reach_step: "reach init step s \<Longrightarrow> step s e t \<Longrightarrow> reach init step t"

inductive run :: "('s \<Rightarrow> 'e \<Rightarrow> 's \<Rightarrow> bool) \<Rightarrow> 's \<Rightarrow> 'e list \<Rightarrow> 's \<Rightarrow> bool"
  for step where
  run_Nil: "run step s [] s"
| run_Cons: "step s e t \<Longrightarrow> run step t es u \<Longrightarrow> run step s (e # es) u"

inductive_simps run_Nil_iff [simp]: "run step s [] t"
inductive_simps run_Cons_iff [simp]: "run step s (e # es) u"

lemma run_append: "run step s (xs @ ys) u \<longleftrightarrow> (\<exists>t. run step s xs t \<and> run step t ys u)"
  by (induction xs arbitrary: s) auto

lemma reach_run: "reach init step s \<Longrightarrow> run step s es t \<Longrightarrow> reach init step t"
  by (induction es arbitrary: s) (auto intro: reach_step)

locale inductive_invariant =
  fixes init :: "'s \<Rightarrow> bool" and step :: "'s \<Rightarrow> 'e \<Rightarrow> 's \<Rightarrow> bool" and inv :: "'s \<Rightarrow> bool"
  assumes inv_init: "init s \<Longrightarrow> inv s"
    and inv_step: "inv s \<Longrightarrow> step s e t \<Longrightarrow> inv t"
begin

lemma reach_inv: "reach init step s \<Longrightarrow> inv s"
  by (induction rule: reach.induct) (auto intro: inv_init inv_step)

lemma run_inv: "inv s \<Longrightarrow> run step s es t \<Longrightarrow> inv t"
  by (induction es arbitrary: s) (auto intro: inv_step)

lemma run_from_init: "init s \<Longrightarrow> run step s es t \<Longrightarrow> inv t"
  by (blast intro: inv_init run_inv)

end

text \<open>How many tasks of a list are at a point of interest; one of them moves.\<close>

definition tally :: "('a \<Rightarrow> bool) \<Rightarrow> 'a list \<Rightarrow> nat" where
  "tally P xs = length (filter P xs)"

lemma tally_update:
  "i < length xs \<Longrightarrow> tally P (xs[i := x]) + (if P (xs ! i) then 1 else 0) = tally P xs + (if P x then 1 else 0)"
proof (induction xs arbitrary: i)
  case (Cons y ys)
  then show ?case by (cases i) (auto simp: tally_def)
qed simp

lemma tally_le: "tally P xs \<le> length xs"
  by (simp add: tally_def)

lemma tally_replicate [simp]: "tally P (replicate n x) = (if P x then n else 0)"
  by (simp add: tally_def)

lemma tally_all: "\<forall>x\<in>set xs. \<not> P x \<Longrightarrow> tally P xs = 0"
  by (induction xs) (auto simp: tally_def)

end
