(* ===== verification/Breaker.thy ===== *)
theory Breaker
  imports Errors F64 Transition_Systems
begin

text \<open>
  The circuit breaker (\<open>rszero/src/breaker/mod.rs\<close>).  Each method is one atomic transition of the
  record \<open>circuit_breaker\<close>, since its effects are made under the breaker's locks; \<open>execute\<close> is the
  composition of its admission check, the guarded future and the recording of the outcome, and the
  step relation at the end interleaves those parts of concurrent callers.  Every reading of the
  monotonic clock is an argument.  The failure rate is computed in binary64 as in the source.
  Logging and the pre-allocated capacity of the window are left out.
\<close>

datatype breaker_state = Closed | Open | HalfOpen

record window_entry =
  timestamp :: instant
  success :: bool

record breaker_config =
  failure_threshold :: f64
  min_requests :: u64
  cooldown :: duration
  max_probes :: u64
  window_span :: duration

record circuit_breaker =
  cb_config :: breaker_config
  state :: breaker_state
  opened_at :: "instant option"
  window :: "window_entry list"
  probe_count :: u64
  total_success :: u64
  total_failure :: u64

definition secs :: "nat \<Rightarrow> duration" where
  "secs n = n * 1000000000"

definition breaker_config_default :: breaker_config where
  "breaker_config_default =
     \<lparr>failure_threshold = Fin (1/2), min_requests = 10, cooldown = secs 30, max_probes = 5,
      window_span = secs 60\<rparr>"

definition breaker_new :: "breaker_config \<Rightarrow> circuit_breaker" where
  "breaker_new c = \<lparr>cb_config = c, state = Closed, opened_at = None, window = [],
            probe_count = 0, total_success = 0, total_failure = 0\<rparr>"

definition with_count_threshold :: "u32 \<Rightarrow> u64 \<Rightarrow> circuit_breaker" where
  "with_count_threshold n cooldown_secs =
     breaker_new \<lparr>failure_threshold = Fin 1, min_requests = ucast n,
          cooldown = secs (unat cooldown_secs), max_probes = 3, window_span = secs 300\<rparr>"

subsection \<open>Internal helpers\<close>

text \<open>\<open>Instant::elapsed\<close> saturates at zero.\<close>

definition elapsed :: "instant \<Rightarrow> instant \<Rightarrow> duration" where
  "elapsed now t = nat (now - t)"

definition evaluate_state :: "instant \<Rightarrow> circuit_breaker \<Rightarrow> breaker_state \<times> circuit_breaker" where
  "evaluate_state now cb =
     (if state cb \<noteq> Open then (state cb, cb)
      else case opened_at cb of
        None \<Rightarrow> (Open, cb)
      | Some t \<Rightarrow>
          if cooldown (cb_config cb) \<le> elapsed now t
          then (HalfOpen, cb\<lparr>state := HalfOpen, probe_count := 0\<rparr>)
          else (Open, cb))"

definition append_window :: "instant \<Rightarrow> bool \<Rightarrow> circuit_breaker \<Rightarrow> circuit_breaker" where
  "append_window now ok cb =
     (let cutoff = now - int (window_span (cb_config cb))
      in cb\<lparr>window := filter (\<lambda>e. cutoff \<le> timestamp e) (window cb) @ [\<lparr>timestamp = now, success = ok\<rparr>]\<rparr>)"

definition failure_rate :: "window_entry list \<Rightarrow> f64" where
  "failure_rate w = f64_div (f64_of_nat (length (filter (\<lambda>e. \<not> success e) w))) (f64_of_nat (length w))"

definition should_open :: "circuit_breaker \<Rightarrow> bool" where
  "should_open cb =
     (if length (window cb) < unat (min_requests (cb_config cb)) then False
      else f64_ge (failure_rate (window cb)) (failure_threshold (cb_config cb)))"

subsection \<open>Public operations\<close>

definition is_open :: "instant \<Rightarrow> circuit_breaker \<Rightarrow> bool \<times> circuit_breaker" where
  "is_open now cb = (let (s, cb') = evaluate_state now cb in (s = Open, cb'))"

definition is_closed :: "instant \<Rightarrow> circuit_breaker \<Rightarrow> bool \<times> circuit_breaker" where
  "is_closed now cb = (let (s, cb') = evaluate_state now cb in (s = Closed, cb'))"

definition record_success :: "instant \<Rightarrow> instant \<Rightarrow> circuit_breaker \<Rightarrow> circuit_breaker" where
  "record_success t1 t2 cb =
     (let cb1 = append_window t2 True (snd (evaluate_state t1 cb));
          cb2 = cb1\<lparr>total_success := total_success cb1 + 1\<rparr>
      in if state cb2 = HalfOpen
         then let probes = probe_count cb2 + 1;
                  cb3 = cb2\<lparr>probe_count := probes\<rparr>
              in if max_probes (cb_config cb3) \<le> probes
                 then cb3\<lparr>state := Closed, probe_count := 0\<rparr> else cb3
         else cb2)"

definition record_failure :: "instant \<Rightarrow> instant \<Rightarrow> instant \<Rightarrow> circuit_breaker \<Rightarrow> circuit_breaker" where
  "record_failure t1 t2 t3 cb =
     (let cb1 = append_window t2 False (snd (evaluate_state t1 cb));
          cb2 = cb1\<lparr>total_failure := total_failure cb1 + 1\<rparr>
      in case state cb2 of
           Closed \<Rightarrow> if should_open cb2 then cb2\<lparr>state := Open, opened_at := Some t3\<rparr> else cb2
         | HalfOpen \<Rightarrow> cb2\<lparr>state := Open, opened_at := Some t3, probe_count := 0\<rparr>
         | Open \<Rightarrow> cb2)"

definition reset :: "circuit_breaker \<Rightarrow> circuit_breaker" where
  "reset cb = cb\<lparr>state := Closed, opened_at := None, window := [], probe_count := 0\<rparr>"

text \<open>
  The admission check of \<open>execute\<close>: whether the guarded future is polled.  A half-open breaker
  counts the request before comparing, also when it then rejects it.
\<close>

definition execute_admit :: "instant \<Rightarrow> instant \<Rightarrow> circuit_breaker \<Rightarrow> bool \<times> circuit_breaker" where
  "execute_admit t1 t2 cb =
     (let (opn, cb1) = is_open t1 cb
      in if opn then (False, cb1)
         else let (s, cb2) = evaluate_state t2 cb1
              in if s = HalfOpen
                 then let probe = probe_count cb2;
                          cb3 = cb2\<lparr>probe_count := probe + 1\<rparr>
                      in (\<not> max_probes (cb_config cb3) \<le> probe, cb3)
                 else (True, cb2))"

text \<open>The clock readings one \<open>execute\<close> makes, in order.\<close>

record execute_clock =
  ck_open :: instant
  ck_eval :: instant
  ck_rec :: instant
  ck_window :: instant
  ck_opened :: instant

text \<open>
  \<open>execute\<close>: the future is a function on the world \<open>'w\<close>; its error is only used through its
  \<open>Display\<close> text.
\<close>

definition execute ::
  "execute_clock \<Rightarrow> ('w \<Rightarrow> (string, 'a) result \<times> 'w) \<Rightarrow> circuit_breaker \<times> 'w
   \<Rightarrow> 'a rszero_result \<times> circuit_breaker \<times> 'w" where
  "execute ck f s =
     (case s of (cb, w) \<Rightarrow>
       let (admitted, cb1) = execute_admit (ck_open ck) (ck_eval ck) cb
       in if \<not> admitted then (Err CircuitBreaker, cb1, w)
          else case f w of
            (Inr v, w') \<Rightarrow> (Ok v, record_success (ck_rec ck) (ck_window ck) cb1, w')
          | (Inl e, w') \<Rightarrow>
              (Err (Rpc e None), record_failure (ck_rec ck) (ck_window ck) (ck_opened ck) cb1, w'))"

text \<open>A caller that issues guarded calls one after the other.\<close>

fun execute_seq ::
  "execute_clock list \<Rightarrow> ('w \<Rightarrow> (string, 'a) result \<times> 'w) \<Rightarrow> circuit_breaker \<times> 'w
   \<Rightarrow> 'a rszero_result list \<times> circuit_breaker \<times> 'w" where
  "execute_seq [] f s = ([], s)"
| "execute_seq (ck # cks) f s =
     (let (r, s') = execute ck f s; (rs, s'') = execute_seq cks f s' in (r # rs, s''))"

subsection \<open>Concurrent callers\<close>

text \<open>
  A system state is the shared breaker and the last clock reading.  Callers interleave admission
  checks, recordings of outcomes, state queries and manual resets; the readings never go back.
\<close>

datatype cb_event =
    Query instant
  | Admit instant instant
  | RecSuccess instant instant
  | RecFailure instant instant instant
  | Reset

fun cb_apply :: "cb_event \<Rightarrow> circuit_breaker \<Rightarrow> circuit_breaker" where
  "cb_apply (Query t) cb = snd (evaluate_state t cb)"
| "cb_apply (Admit t1 t2) cb = snd (execute_admit t1 t2 cb)"
| "cb_apply (RecSuccess t1 t2) cb = record_success t1 t2 cb"
| "cb_apply (RecFailure t1 t2 t3) cb = record_failure t1 t2 t3 cb"
| "cb_apply Reset cb = reset cb"

fun readings :: "cb_event \<Rightarrow> instant list" where
  "readings (Query t) = [t]"
| "readings (Admit t1 t2) = [t1, t2]"
| "readings (RecSuccess t1 t2) = [t1, t2]"
| "readings (RecFailure t1 t2 t3) = [t1, t2, t3]"
| "readings Reset = []"

inductive cb_step :: "circuit_breaker \<times> instant \<Rightarrow> cb_event \<Rightarrow> circuit_breaker \<times> instant \<Rightarrow> bool" where
  cb_step: "sorted (now # readings e) \<Longrightarrow> now' = last (now # readings e) \<Longrightarrow>
     cb_step (cb, now) e (cb_apply e cb, now')"

inductive_simps cb_step_iff: "cb_step (cb, now) e s"

definition cb_init :: "circuit_breaker \<times> instant \<Rightarrow> bool" where
  "cb_init s \<longleftrightarrow> (\<exists>c. fst s = breaker_new c)"

definition cb_inv :: "circuit_breaker \<times> instant \<Rightarrow> bool" where
  "cb_inv s \<longleftrightarrow> (case s of (cb, now) \<Rightarrow>
     (state cb = Open \<longrightarrow> opened_at cb \<noteq> None) \<and>
     (\<forall>t. opened_at cb = Some t \<longrightarrow> t \<le> now) \<and>
     (state cb \<noteq> HalfOpen \<longrightarrow> probe_count cb = 0) \<and>
     sorted (map timestamp (window cb)) \<and>
     (\<forall>e \<in> set (window cb). timestamp e \<le> now \<and>
        timestamp (last (window cb)) - int (window_span (cb_config cb)) \<le> timestamp e))"

subsection \<open>Invariant of the shared breaker\<close>

lemmas cb_defs = evaluate_state_def append_window_def record_success_def record_failure_def
  reset_def execute_admit_def is_open_def is_closed_def

lemma evaluate_state_simps [simp]:
  "cb_config (snd (evaluate_state t cb)) = cb_config cb"
  "window (snd (evaluate_state t cb)) = window cb"
  "opened_at (snd (evaluate_state t cb)) = opened_at cb"
  "fst (evaluate_state t cb) = state (snd (evaluate_state t cb))"
  by (auto simp: evaluate_state_def split: option.splits)

lemma cb_config_apply [simp]: "cb_config (cb_apply e cb) = cb_config cb"
  by (cases e) (auto simp: cb_defs Let_def split: option.splits breaker_state.splits)

lemma cb_inv_new: "cb_init s \<Longrightarrow> cb_inv s"
  by (auto simp: cb_init_def cb_inv_def breaker_new_def split: prod.splits)

lemma cb_inv_later: "cb_inv (cb, now) \<Longrightarrow> now \<le> now' \<Longrightarrow> cb_inv (cb, now')"
  by (force simp: cb_inv_def)

lemma cb_inv_evaluate [rs_inv]: "cb_inv (cb, now) \<Longrightarrow> cb_inv (snd (evaluate_state t cb), now)"
  by (auto simp: cb_inv_def evaluate_state_def split: option.splits)

lemma cb_inv_append [rs_inv]:
  assumes "cb_inv (cb, now)" and "now \<le> t"
  shows "cb_inv (append_window t ok cb, t)"
proof -
  have "sorted (map timestamp (filter P (window cb)))" for P
    using assms(1) by (auto simp: cb_inv_def intro: sorted_filter)
  then show ?thesis
    using assms by (force simp: cb_inv_def append_window_def Let_def sorted_append)
qed

lemma cb_inv_admit [rs_inv]: "cb_inv (cb, now) \<Longrightarrow> cb_inv (snd (execute_admit t1 t2 cb), now)"
  by (auto simp: cb_inv_def execute_admit_def is_open_def evaluate_state_def Let_def
      split: option.splits)

lemma cb_inv_record_success [rs_inv]:
  assumes "cb_inv (cb, now)" and "now \<le> t2"
  shows "cb_inv (record_success t1 t2 cb, t2)"
proof -
  let ?cb1 = "append_window t2 True (snd (evaluate_state t1 cb))"
  have "cb_inv (?cb1, t2)" using assms by (intro cb_inv_append cb_inv_evaluate)
  then show ?thesis by (auto simp: cb_inv_def record_success_def Let_def)
qed

lemma cb_inv_record_failure [rs_inv]:
  assumes "cb_inv (cb, now)" and "now \<le> t2" and "t2 \<le> t3"
  shows "cb_inv (record_failure t1 t2 t3 cb, t3)"
proof -
  let ?cb1 = "append_window t2 False (snd (evaluate_state t1 cb))"
  have "cb_inv (?cb1, t3)"
    using assms by (intro cb_inv_later [OF cb_inv_append [OF cb_inv_evaluate]])
  then show ?thesis
    by (auto simp: cb_inv_def record_failure_def Let_def split: breaker_state.splits)
qed

lemma cb_inv_reset [rs_inv]: "cb_inv (reset cb, now)"
  by (simp add: cb_inv_def reset_def)

lemma cb_inv_cb_step: "cb_inv s \<Longrightarrow> cb_step s e t \<Longrightarrow> cb_inv t"
proof (cases s)
  case (Pair cb now)
  assume "cb_inv s" "cb_step s e t"
  with Pair show ?thesis
    by (cases e) (auto simp: cb_step_iff intro: rs_inv cb_inv_later)
qed

interpretation cb: inductive_invariant cb_init cb_step cb_inv
  by unfold_locales (rule cb_inv_new cb_inv_cb_step; assumption)+


subsection \<open>When the breaker opens\<close>

lemma f64_of_nat_small: "n < 2 ^ 53 \<Longrightarrow> f64_of_nat n = Fin (of_nat n)"
  by (simp add: f64_of_nat_def f64_round_of_nat)

lemma failure_rate_round:
  assumes "w \<noteq> []" and "length w < 2 ^ 53"
  shows "failure_rate w =
    f64_round (of_nat (length (filter (\<lambda>e. \<not> success e) w)) / of_nat (length w))"
proof -
  have "length (filter (\<lambda>e. \<not> success e) w) < 2 ^ 53"
    using assms(2) length_filter_le le_less_trans by blast
  with assms show ?thesis by (simp add: failure_rate_def f64_of_nat_small)
qed

lemma failure_rate_bounds:
  assumes "w \<noteq> []" and "length w < 2 ^ 53"
  shows "\<exists>v. failure_rate w = Fin v \<and> 0 \<le> v \<and> v \<le> 1"
proof -
  have "(of_nat (length (filter (\<lambda>e. \<not> success e) w)) / of_nat (length w) :: rat) \<le> 1"
    using assms(1) by (simp add: pos_divide_le_eq)
  then show ?thesis using f64_round_01 failure_rate_round [OF assms] by simp
qed

lemma failure_rate_ge_one_iff:
  assumes "w \<noteq> []" and "length w < 2 ^ 53"
  shows "f64_ge (failure_rate w) (Fin 1) \<longleftrightarrow> (\<forall>e \<in> set w. \<not> success e)"
proof -
  let ?m = "length (filter (\<lambda>e. \<not> success e) w)"
  obtain v where v: "failure_rate w = Fin v" "v \<le> 1"
    using failure_rate_bounds [OF assms] by blast
  then have "f64_ge (failure_rate w) (Fin 1) \<longleftrightarrow> failure_rate w = Fin 1" by auto
  also have "\<dots> \<longleftrightarrow> ?m = length w"
    unfolding failure_rate_round [OF assms]
    using assms by (intro f64_round_ratio_one) auto
  also have "\<dots> \<longleftrightarrow> (\<forall>e \<in> set w. \<not> success e)"
    by (metis (mono_tags, lifting) filter_True filter_id_conv length_filter_less less_irrefl)
  finally show ?thesis .
qed

text \<open>
  C2. A breaker built by \<open>with_count_threshold n\<close> opens on a failure exactly when at least \<open>n\<close>
  outcomes (with this one) lie in the last 300 seconds and none of them is a success; the
  binary64 rate never rounds a mixed window up to the threshold.
\<close>

theorem count_threshold_opens_iff:
  assumes "cb_config cb = cb_config (with_count_threshold n c)" and "state cb = Closed"
    and "length (window cb) < 2 ^ 53 - 1"
  shows "state (record_failure t1 t2 t3 cb) = Open \<longleftrightarrow>
    (let w = filter (\<lambda>e. t2 - int (secs 300) \<le> timestamp e) (window cb)
     in unat n \<le> length w + 1 \<and> (\<forall>e \<in> set w. \<not> success e))"
proof -
  let ?w = "filter (\<lambda>e. t2 - int (secs 300) \<le> timestamp e) (window cb)"
  let ?w' = "?w @ [\<lparr>timestamp = t2, success = False\<rparr>]"
  have cfg: "cb_config cb = \<lparr>failure_threshold = Fin 1, min_requests = ucast n,
      cooldown = secs (unat c), max_probes = 3, window_span = secs 300\<rparr>"
    using assms(1) by (simp add: with_count_threshold_def breaker_new_def)
  have n: "unat (ucast n :: u64) = unat n"
    by simp
  have "length ?w' < 2 ^ 53"
    using assms(3) le_less_trans [OF length_filter_le, of _ "2 ^ 53 - 1"] by simp
  then have "f64_ge (failure_rate ?w') (Fin 1) \<longleftrightarrow> (\<forall>e \<in> set ?w'. \<not> success e)"
    by (intro failure_rate_ge_one_iff) auto
  then show ?thesis
    using assms(2) by (simp add: record_failure_def append_window_def evaluate_state_def
        should_open_def cfg n Let_def not_less)
qed

text \<open>The witness: three failures in a row open a breaker with threshold three.\<close>

theorem count_threshold_opens_iff_witness:
  "state (record_failure 30 31 32
     ((with_count_threshold 3 10)\<lparr>window := [\<lparr>timestamp = 10, success = False\<rparr>,
        \<lparr>timestamp = 20, success = False\<rparr>]\<rparr>)) = Open
   \<and> state (record_failure 30 31 32
     ((with_count_threshold 3 10)\<lparr>window := [\<lparr>timestamp = 10, success = False\<rparr>,
        \<lparr>timestamp = 15, success = True\<rparr>, \<lparr>timestamp = 20, success = False\<rparr>]\<rparr>)) \<noteq> Open"
proof -
  let ?cb = "\<lambda>w. (with_count_threshold 3 10)\<lparr>window := w\<rparr>"
  have "cb_config (?cb w) = cb_config (with_count_threshold 3 10) \<and> state (?cb w) = Closed" for w
    by (simp add: with_count_threshold_def breaker_new_def)
  note count = count_threshold_opens_iff [OF conjunct1 [OF this] conjunct2 [OF this]]
  show ?thesis
    by (subst count; simp add: secs_def)+
qed


subsection \<open>Admission and recovery\<close>

lemma execute_admit_open:
  "state cb = Open \<Longrightarrow> opened_at cb = Some t \<Longrightarrow>
   execute_admit t1 t2 cb =
     (if elapsed t1 t < cooldown (cb_config cb) then (False, cb)
      else (max_probes (cb_config cb) \<noteq> 0, cb\<lparr>state := HalfOpen, probe_count := 1\<rparr>))"
  by (auto simp: execute_admit_def is_open_def evaluate_state_def Let_def)

lemma execute_admit_halfopen:
  "state cb = HalfOpen \<Longrightarrow>
   execute_admit t1 t2 cb =
     (probe_count cb < max_probes (cb_config cb), cb\<lparr>probe_count := probe_count cb + 1\<rparr>)"
  by (auto simp: execute_admit_def is_open_def evaluate_state_def Let_def)

text \<open>
  C3. A call guarded by an open breaker: before the cooldown has passed it fails with the
  circuit-breaker error, neither running the future nor touching the breaker; afterwards the
  breaker turns half-open and, unless no probes are allowed, the future runs as the first probe
  and its outcome is recorded.
\<close>

theorem execute_on_open:
  assumes "state cb = Open" and "opened_at cb = Some t"
  shows "execute ck f (cb, w) =
    (if elapsed (ck_open ck) t < cooldown (cb_config cb) then (Err CircuitBreaker, cb, w)
     else let cb' = cb\<lparr>state := HalfOpen, probe_count := 1\<rparr>
          in if max_probes (cb_config cb) = 0 then (Err CircuitBreaker, cb', w)
             else case f w of
                 (Inr v, w') \<Rightarrow> (Ok v, record_success (ck_rec ck) (ck_window ck) cb', w')
               | (Inl e, w') \<Rightarrow>
                   (Err (Rpc e None), record_failure (ck_rec ck) (ck_window ck) (ck_opened ck) cb', w'))"
  by (simp add: execute_def execute_admit_open [OF assms] Let_def)

theorem execute_on_open_witness:
  "let cb = (breaker_new breaker_config_default)\<lparr>state := Open, opened_at := Some 0\<rparr>;
       ck = \<lparr>ck_open = 5, ck_eval = 6, ck_rec = 7, ck_window = 8, ck_opened = 9\<rparr>
   in execute ck (\<lambda>w. (Inr (), Suc w)) (cb, 0) = (Err CircuitBreaker, cb, 0)"
  using execute_on_open [of "(breaker_new breaker_config_default)\<lparr>state := Open, opened_at := Some 0\<rparr>" 0
      "\<lparr>ck_open = 5, ck_eval = 6, ck_rec = 7, ck_window = 8, ck_opened = 9\<rparr>"
      "\<lambda>w. (Inr (), Suc w)" 0]
  by (simp add: elapsed_def breaker_new_def breaker_config_default_def secs_def)

lemma execute_halfopen_success:
  assumes "state cb = HalfOpen" and "\<And>w. \<exists>v w'. f w = (Inr v, w')"
    and "probe_count cb < max_probes (cb_config cb)" and "unat (probe_count cb) + 2 < 2 ^ 64"
  shows "\<exists>v cb' w'. execute ck f (cb, w) = (Ok v, cb', w') \<and> cb_config cb' = cb_config cb \<and>
    (if unat (max_probes (cb_config cb)) \<le> unat (probe_count cb) + 2
     then state cb' = Closed
     else state cb' = HalfOpen \<and> unat (probe_count cb') = unat (probe_count cb) + 2)"
proof -
  obtain v w' where f: "f w = (Inr v, w')" using assms(2) by blast
  have n: "unat (2 + probe_count cb) = unat (probe_count cb) + 2"
    using assms(4) by (subst unat_add_no_overflow) simp_all
  show ?thesis
    using assms(1,3) n
    by (simp add: execute_def execute_admit_halfopen f Let_def record_success_def evaluate_state_def
        append_window_def word_le_nat_alt)
qed

text \<open>
  C4. Probes are counted twice, once when they are admitted and once when they succeed: from the
  half-open state, callers that succeed one after the other leave the breaker half-open as long as
  fewer than half of \<open>max_probes\<close> calls were made, and close it with the next one.
\<close>

theorem sequential_probes_close:
  assumes "state cb = HalfOpen" and "probe_count cb = 0"
    and "\<And>w. \<exists>v w'. f w = (Inr v, w')"
    and "0 < max_probes (cb_config cb)" and "unat (max_probes (cb_config cb)) < 2 ^ 63"
    and "length cks \<le> (unat (max_probes (cb_config cb)) + 1) div 2"
  shows "state (fst (snd (execute_seq cks f (cb, w)))) =
      (if length cks = (unat (max_probes (cb_config cb)) + 1) div 2 then Closed else HalfOpen)
    \<and> (\<forall>r \<in> set (fst (execute_seq cks f (cb, w))). is_ok r)"
proof -
  define m where "m = unat (max_probes (cb_config cb))"
  have gen: "\<lbrakk>state cb = HalfOpen; unat (max_probes (cb_config cb)) = m; unat (probe_count cb) = p; p < m;
      length cks \<le> (m - p + 1) div 2\<rbrakk> \<Longrightarrow>
      state (fst (snd (execute_seq cks f (cb, w)))) =
        (if length cks = (m - p + 1) div 2 then Closed else HalfOpen)
      \<and> (\<forall>r \<in> set (fst (execute_seq cks f (cb, w))). is_ok r)" for cks p cb w
  proof (induction cks arbitrary: p cb w)
    case Nil
    then show ?case by simp
  next
    case (Cons ck cks)
    have "probe_count cb < max_probes (cb_config cb)" and "unat (probe_count cb) + 2 < 2 ^ 64"
      using Cons.prems assms(5) m_def by (auto simp: word_less_nat_alt)
    from execute_halfopen_success [where f = f and ck = ck and w = w, OF Cons.prems(1) assms(3) this]
    obtain v cb' w' where ex: "execute ck f (cb, w) = (Ok v, cb', w')"
      and cfg: "cb_config cb' = cb_config cb"
      and nxt: "if m \<le> p + 2 then state cb' = Closed
        else state cb' = HalfOpen \<and> unat (probe_count cb') = p + 2"
      using Cons.prems by auto
    show ?case
    proof (cases "m \<le> p + 2")
      case True
      then have "cks = []" and "(m - p + 1) div 2 = 1" using Cons.prems by (auto simp: le_Suc_eq)
      with True nxt ex show ?thesis by simp
    next
      case False
      then have len: "length cks \<le> (m - (p + 2) + 1) div 2"
        and eq: "Suc (m - p) div 2 = Suc (Suc (m - Suc (Suc p)) div 2)"
        using Cons.prems(4,5) by auto
      from Cons.IH [of cb' "p + 2" w'] nxt False cfg len Cons.prems(2)
      show ?thesis by (auto simp: ex eq Let_def split: prod.splits)
    qed
  qed
  have "0 < m" using assms(4) by (simp add: m_def word_less_nat_alt)
  with gen [of cb 0 cks w] assms(1,2,6) show ?thesis by (simp add: m_def)
qed

theorem sequential_probes_close_witness:
  "let cb = (breaker_new breaker_config_default)\<lparr>state := HalfOpen\<rparr>;
       ck = \<lparr>ck_open = 5, ck_eval = 6, ck_rec = 7, ck_window = 8, ck_opened = 9\<rparr>
   in state (fst (snd (execute_seq [ck, ck, ck] (\<lambda>w. (Inr (), Suc w)) (cb, 0)))) = Closed
      \<and> state (fst (snd (execute_seq [ck, ck] (\<lambda>w. (Inr (), Suc w)) (cb, 0)))) = HalfOpen"
proof -
  let ?cb = "(breaker_new breaker_config_default)\<lparr>state := HalfOpen\<rparr>"
  have h: "state ?cb = HalfOpen" "probe_count ?cb = 0" "max_probes (cb_config ?cb) = 5"
    by (simp_all add: breaker_new_def breaker_config_default_def)
  note seq = sequential_probes_close [of ?cb "\<lambda>w. (Inr (), Suc w)"]
  show ?thesis
    using seq [of "[_, _, _]"] seq [of "[_, _]"] h by simp
qed



end
