(* ===== verification/Saga.thy ===== *)
theory Saga
  imports Errors
begin

text \<open>
  The saga coordinator (\<open>rszero/src/saga/mod.rs\<close>) and its persistent variant
  (\<open>rszero/src/saga/persistence.rs\<close>).  A step's action and compensation are functions on the world
  \<open>'w\<close> they act on.  The persister behind the trait \<open>SagaPersister\<close> is the locale \<open>saga_persister\<close>;
  the SQL persister, with the rows its INSERT and SELECT statements see, is its interpretation.
  Random identifiers are arguments, logging is left out.
\<close>

section \<open>The coordinator\<close>

record ('t, 'w) saga_step =
  step_name :: string
  action :: "'w \<Rightarrow> 't rszero_result \<times> 'w"
  compensation :: "'w \<Rightarrow> unit rszero_result \<times> 'w"

definition saga_step_new ::
  "string \<Rightarrow> ('w \<Rightarrow> 't rszero_result \<times> 'w) \<Rightarrow> ('w \<Rightarrow> unit rszero_result \<times> 'w) \<Rightarrow> ('t, 'w) saga_step" where
  "saga_step_new n a c = \<lparr>step_name = n, action = a, compensation = c\<rparr>"

record 't saga_result =
  completed :: "string list"
  outputs :: "'t list"
  failed_step :: "string option"
  error :: "rszero_error option"
  compensation_errors :: "(string \<times> rszero_error) list"

record ('t, 'w) saga =
  saga_nm :: string
  steps :: "('t, 'w) saga_step list"

definition saga_new :: "string \<Rightarrow> ('t, 'w) saga" where
  "saga_new n = \<lparr>saga_nm = n, steps = []\<rparr>"

definition generate_id :: "string \<Rightarrow> ('t, 'w) saga \<Rightarrow> string" where
  "generate_id uuid s = saga_nm s @ ''-'' @ uuid"

definition add_step ::
  "string \<Rightarrow> ('w \<Rightarrow> 't rszero_result \<times> 'w) \<Rightarrow> ('w \<Rightarrow> unit rszero_result \<times> 'w) \<Rightarrow> ('t, 'w) saga \<Rightarrow> ('t, 'w) saga" where
  "add_step n a c s = s\<lparr>steps := steps s @ [saga_step_new n a c]\<rparr>"

definition step_count :: "('t, 'w) saga \<Rightarrow> nat" where
  "step_count s = length (steps s)"

text \<open>
  The attempts left of one compensation: whether it succeeded, the errors it pushed and the world.
  The last of the three attempts is the one with none left after it.
\<close>

fun compensate_retries :: "nat \<Rightarrow> ('t, 'w) saga_step \<Rightarrow> 'w \<Rightarrow> bool \<times> (string \<times> rszero_error) list \<times> 'w" where
  "compensate_retries 0 st w = (False, [], w)"
| "compensate_retries (Suc n) st w =
     (case compensation st w of
        (Inr _, w') \<Rightarrow> (True, [], w')
      | (Inl ce, w') \<Rightarrow>
          let (ok, errs, w'') = compensate_retries n st w'
          in (ok, (if n = 0 then [(step_name st, ce)] else []) @ errs, w''))"

text \<open>Compensation of the first \<open>i\<close> steps, the last of them first.\<close>

fun compensate_down :: "('t, 'w) saga_step list \<Rightarrow> nat \<Rightarrow> 'w \<Rightarrow> (string \<times> rszero_error) list \<times> 'w" where
  "compensate_down sts 0 w = ([], w)"
| "compensate_down sts (Suc i) w =
     (let (ok, errs, w') = compensate_retries 3 (sts ! i) w;
          (errs', w'') = compensate_down sts i w'
      in (errs @ errs', w''))"

text \<open>The loop over the remaining steps, with the completed names and outputs so far.\<close>

fun execute_steps ::
  "('t, 'w) saga_step list \<Rightarrow> ('t, 'w) saga_step list \<Rightarrow> string list \<Rightarrow> 't list \<Rightarrow> 'w \<Rightarrow> 't saga_result \<times> 'w" where
  "execute_steps sts [] cpl outs w =
     (\<lparr>completed = cpl, outputs = outs, failed_step = None, error = None, compensation_errors = []\<rparr>, w)"
| "execute_steps sts (st # rest) cpl outs w =
     (case action st w of
        (Inr v, w') \<Rightarrow> execute_steps sts rest (cpl @ [step_name st]) (outs @ [v]) w'
      | (Inl e, w') \<Rightarrow>
          let (errs, w'') = compensate_down sts (length cpl) w'
          in (\<lparr>completed = cpl, outputs = outs, failed_step = Some (step_name st), error = Some e,
               compensation_errors = errs\<rparr>, w''))"

definition saga_execute :: "('t, 'w) saga \<Rightarrow> 'w \<Rightarrow> 't saga_result \<times> 'w" where
  "saga_execute s w = execute_steps (steps s) (steps s) [] [] w"

definition is_success :: "'t saga_result \<Rightarrow> bool" where
  "is_success r \<longleftrightarrow> failed_step r = None"

definition has_compensation_failure :: "'t saga_result \<Rightarrow> bool" where
  "has_compensation_failure r \<longleftrightarrow> compensation_errors r \<noteq> []"

section \<open>Persistence\<close>

datatype saga_state = Running | Compensating | Completed | Failed | Compensated

fun saga_state_str :: "saga_state \<Rightarrow> string" where
  "saga_state_str Running = ''running''"
| "saga_state_str Compensating = ''compensating''"
| "saga_state_str Completed = ''completed''"
| "saga_state_str Failed = ''failed''"
| "saga_state_str Compensated = ''compensated''"

record saga_record =
  sr_saga_id :: string
  sr_saga_name :: string
  sr_step_name :: string
  sr_state :: saga_state
  sr_input :: "string option"
  sr_output :: "string option"
  sr_error :: "string option"
  sr_created_at :: string

text \<open>\<open>record_step\<close> of a persister, on the persister's own state \<open>'p\<close>.\<close>

type_synonym 'p record_fn =
  "string \<Rightarrow> string \<Rightarrow> string \<Rightarrow> saga_state \<Rightarrow> string option \<Rightarrow> string option \<Rightarrow> string option
   \<Rightarrow> 'p \<Rightarrow> unit rszero_result \<times> 'p"

text \<open>The calls of \<open>PersistentSaga::execute\<close> log a persister error and go on.\<close>

definition persist :: "'p record_fn \<Rightarrow> string \<Rightarrow> string \<Rightarrow> string \<Rightarrow> saga_state \<Rightarrow> string option \<Rightarrow> 'p \<Rightarrow> 'p" where
  "persist rec sid snm stp st err p = snd (rec sid snm stp st None None err p)"

fun p_compensate_retries ::
  "'p record_fn \<Rightarrow> string \<Rightarrow> string \<Rightarrow> nat \<Rightarrow> ('t, 'w) saga_step \<Rightarrow> 'w \<times> 'p
   \<Rightarrow> bool \<times> (string \<times> rszero_error) list \<times> 'w \<times> 'p" where
  "p_compensate_retries rec sid snm 0 st s = (False, [], s)"
| "p_compensate_retries rec sid snm (Suc n) st s =
     (case s of (w, p) \<Rightarrow>
      case compensation st w of
        (Inr _, w') \<Rightarrow> (True, [], w', persist rec sid snm (step_name st) Compensated None p)
      | (Inl ce, w') \<Rightarrow>
          let p' = (if n = 0 then persist rec sid snm (step_name st) Compensating (Some (display ce)) p else p);
              (ok, errs, s'') = p_compensate_retries rec sid snm n st (w', p')
          in (ok, (if n = 0 then [(step_name st, Internal (display ce) None)] else []) @ errs, s''))"

fun p_compensate_down ::
  "'p record_fn \<Rightarrow> string \<Rightarrow> string \<Rightarrow> ('t, 'w) saga_step list \<Rightarrow> nat \<Rightarrow> 'w \<times> 'p
   \<Rightarrow> (string \<times> rszero_error) list \<times> 'w \<times> 'p" where
  "p_compensate_down rec sid snm sts 0 s = ([], s)"
| "p_compensate_down rec sid snm sts (Suc i) s =
     (let (ok, errs, s') = p_compensate_retries rec sid snm 3 (sts ! i) s;
          (errs', s'') = p_compensate_down rec sid snm sts i s'
      in (errs @ errs', s''))"

fun p_execute_steps ::
  "'p record_fn \<Rightarrow> string \<Rightarrow> string \<Rightarrow> ('t, 'w) saga_step list \<Rightarrow> ('t, 'w) saga_step list
   \<Rightarrow> string list \<Rightarrow> 't list \<Rightarrow> 'w \<times> 'p \<Rightarrow> 't saga_result \<times> 'w \<times> 'p" where
  "p_execute_steps rec sid snm sts [] cpl outs s =
     (case s of (w, p) \<Rightarrow>
       (\<lparr>completed = cpl, outputs = outs, failed_step = None, error = None, compensation_errors = []\<rparr>,
        w, persist rec sid snm ''__end__'' Completed None p))"
| "p_execute_steps rec sid snm sts (st # rest) cpl outs s =
     (case s of (w, p) \<Rightarrow>
      let p0 = persist rec sid snm (step_name st) Running None p
      in case action st w of
           (Inr v, w') \<Rightarrow>
             p_execute_steps rec sid snm sts rest (cpl @ [step_name st]) (outs @ [v])
               (w', persist rec sid snm (step_name st) Completed None p0)
         | (Inl e, w') \<Rightarrow>
             let p1 = persist rec sid snm (step_name st) Failed (Some (display e)) p0;
                 p2 = persist rec sid snm ''__compensate__'' Compensating None p1;
                 (errs, w'', p3) = p_compensate_down rec sid snm sts (length cpl) (w', p2);
                 p4 = persist rec sid snm ''__end__'' Failed (Some (display e)) p3
             in (\<lparr>completed = cpl, outputs = outs, failed_step = Some (step_name st), error = Some e,
                  compensation_errors = errs\<rparr>, w'', p4))"

record ('t, 'w, 'p) persistent_saga =
  ps_saga :: "('t, 'w) saga"
  ps_record :: "'p record_fn"
  ps_id :: string

definition persistent_saga_new :: "string \<Rightarrow> ('t, 'w) saga \<Rightarrow> 'p record_fn \<Rightarrow> ('t, 'w, 'p) persistent_saga" where
  "persistent_saga_new uuid s r = \<lparr>ps_saga = s, ps_record = r, ps_id = ''saga:'' @ uuid\<rparr>"

definition with_id :: "string \<Rightarrow> ('t, 'w, 'p) persistent_saga \<Rightarrow> ('t, 'w, 'p) persistent_saga" where
  "with_id i ps = ps\<lparr>ps_id := i\<rparr>"

definition persistent_execute ::
  "('t, 'w, 'p) persistent_saga \<Rightarrow> 'w \<times> 'p \<Rightarrow> 't saga_result \<times> 'w \<times> 'p" where
  "persistent_execute ps s =
     (case s of (w, p) \<Rightarrow>
       let sid = ps_id ps; snm = saga_nm (ps_saga ps); sts = steps (ps_saga ps);
           p0 = persist (ps_record ps) sid snm ''__start__'' Running None p
       in p_execute_steps (ps_record ps) sid snm sts sts [] [] (w, p0))"

text \<open>The state transitions a run records, in order, as a journal of persister calls.\<close>

fun persist_all :: "'p record_fn \<Rightarrow> string \<Rightarrow> string \<Rightarrow> (string \<times> saga_state \<times> string option) list \<Rightarrow> 'p \<Rightarrow> 'p" where
  "persist_all rec sid snm [] p = p"
| "persist_all rec sid snm ((stp, st, err) # ls) p =
     persist_all rec sid snm ls (persist rec sid snm stp st err p)"

lemma persist_all_append:
  "persist_all rec sid snm (xs @ ys) p = persist_all rec sid snm ys (persist_all rec sid snm xs p)"
  by (induction xs arbitrary: p) auto

section \<open>The SQL persister\<close>

text \<open>
  The rows of the persister's table, in the order of their serial ids, with the columns as the
  INSERT statement fills them; \<open>row_created\<close> is what reading \<open>created_at\<close> as text yields.  The
  database may refuse a statement: \<open>db_error\<close> gives the driver's error for the \<open>n\<close>-th statement.
\<close>

record saga_row =
  row_saga_id :: string
  row_saga_name :: string
  row_step_name :: string
  row_state :: string
  row_input :: string
  row_output :: string
  row_error :: string
  row_created :: "string option"

record saga_db =
  rows :: "saga_row list"
  stmts :: nat
  db_error :: "nat \<Rightarrow> string option"
  db_now :: "nat \<Rightarrow> string option"

definition or_empty :: "string option \<Rightarrow> string" where
  "or_empty x = (case x of None \<Rightarrow> [] | Some v \<Rightarrow> v)"

definition sql_record_step :: "saga_db record_fn" where
  "sql_record_step sid snm stp st inp outp err db =
     (let db' = db\<lparr>stmts := Suc (stmts db)\<rparr>
      in case db_error db (stmts db) of
           Some e \<Rightarrow> (Err (Database (''saga persist failed: '' @ e) None), db')
         | None \<Rightarrow> (Ok (), db'\<lparr>rows := rows db @
             [\<lparr>row_saga_id = sid, row_saga_name = snm, row_step_name = stp, row_state = saga_state_str st,
               row_input = or_empty inp, row_output = or_empty outp, row_error = or_empty err,
               row_created = db_now db (stmts db)\<rparr>]\<rparr>))"

text \<open>\<open>try_get_by_index\<close> on the eight selected columns.\<close>

definition column :: "saga_row \<Rightarrow> nat \<Rightarrow> string option" where
  "column r i =
     (if i = 7 then row_created r
      else if i < 7 then Some ([row_saga_id r, row_saga_name r, row_step_name r, row_state r,
                                row_input r, row_output r, row_error r] ! i)
      else None)"

definition parse_record :: "(nat \<Rightarrow> string option) \<Rightarrow> saga_record" where
  "parse_record col =
     (let state_str = or_empty (col 3);
          st = (if state_str = ''running'' then Running
                else if state_str = ''compensating'' then Compensating
                else if state_str = ''completed'' then Completed
                else if state_str = ''failed'' then Failed
                else if state_str = ''compensated'' then Compensated
                else Running)
      in \<lparr>sr_saga_id = or_empty (col 0), sr_saga_name = or_empty (col 1), sr_step_name = or_empty (col 2),
          sr_state = st, sr_input = col 4, sr_output = col 5, sr_error = col 6,
          sr_created_at = or_empty (col 7)\<rparr>)"

text \<open>\<open>WHERE saga_id = $1 ORDER BY id DESC LIMIT 1\<close>: the last row with the id.\<close>

definition sql_latest :: "string \<Rightarrow> saga_db \<Rightarrow> saga_record option" where
  "sql_latest sid db =
     (let rs = filter (\<lambda>r. row_saga_id r = sid) (rows db)
      in if rs = [] then None else Some (parse_record (column (last rs))))"

definition sql_load_saga :: "string \<Rightarrow> saga_db \<Rightarrow> saga_record option rszero_result" where
  "sql_load_saga sid db =
     (case db_error db (stmts db) of
        Some e \<Rightarrow> Err (Database (''saga load failed: '' @ e) None)
      | None \<Rightarrow> Ok (sql_latest sid db))"

text \<open>
  \<open>list_sagas\<close> puts the name into the text of the statement as it is.  A name with a quote ends the literal early: what
  the database then answers is the argument \<open>broken\<close>.  \<open>order\<close> is the database's order of the identifiers.
\<close>

definition sql_list_sagas ::
  "(string list \<Rightarrow> string list) \<Rightarrow> (string \<Rightarrow> saga_db \<Rightarrow> saga_record list rszero_result) \<Rightarrow> string option \<Rightarrow> saga_db
   \<Rightarrow> saga_record list rszero_result" where
  "sql_list_sagas order broken snm db =
     (if (case snm of None \<Rightarrow> False | Some n \<Rightarrow> CHR 39 \<in> set n) then broken (the snm) db
      else case db_error db (stmts db) of
             Some e \<Rightarrow> Err (Database (''saga list failed: '' @ e) None)
           | None \<Rightarrow>
               (let rs = filter (\<lambda>r. case snm of None \<Rightarrow> True | Some n \<Rightarrow> row_saga_name r = n) (rows db)
                in Ok (map (\<lambda>sid. parse_record (column (last (filter (\<lambda>r. row_saga_id r = sid) rs))))
                         (order (remdups (map row_saga_id rs))))))"

section \<open>The persister contract\<close>

text \<open>
  What a saga relies on: a successful \<open>record_step\<close> is what a later load of the same saga returns,
  and neither a failed one nor one of another saga changes what is loaded.
\<close>

locale saga_persister =
  fixes rec :: "'p record_fn" and load :: "string \<Rightarrow> 'p \<Rightarrow> saga_record option" and up :: "'p \<Rightarrow> bool"
  assumes rec_load: "rec sid snm stp st i oo e p = (Inr (), p') \<Longrightarrow>
      \<exists>r. load sid p' = Some r \<and> sr_saga_id r = sid \<and> sr_saga_name r = snm \<and> sr_step_name r = stp
        \<and> sr_state r = st"
    and rec_other: "sid' \<noteq> sid \<Longrightarrow> load sid' (snd (rec sid snm stp st i oo e p)) = load sid' p"
    and rec_up: "up p \<Longrightarrow> \<exists>p'. rec sid snm stp st i oo e p = (Inr (), p') \<and> up p'"
begin

lemma persist_up: "up p \<Longrightarrow> up (persist rec sid snm stp st err p)"
  using rec_up [of p sid snm stp st None None err] by (auto simp: persist_def)

lemma persist_load:
  "up p \<Longrightarrow> \<exists>r. load sid (persist rec sid snm stp st err p) = Some r \<and> sr_step_name r = stp
     \<and> sr_saga_name r = snm \<and> sr_state r = st"
  using rec_up [of p sid snm stp st None None err] rec_load by (fastforce simp: persist_def)

lemma persist_other: "sid' \<noteq> sid \<Longrightarrow> load sid' (persist rec sid snm stp st err p) = load sid' p"
  by (simp add: persist_def rec_other)

lemma persist_all_up: "up p \<Longrightarrow> up (persist_all rec sid snm ls p)"
  by (induction ls arbitrary: p) (auto simp: persist_up)

lemma persist_all_other: "sid' \<noteq> sid \<Longrightarrow> load sid' (persist_all rec sid snm ls p) = load sid' p"
  by (induction ls arbitrary: p) (auto simp: persist_other)

text \<open>The last entry of a journal is what is loaded afterwards.\<close>

lemma persist_all_last:
  assumes "up p"
  shows "\<exists>r. load sid (persist_all rec sid snm (ls @ [(stp, st, err)]) p) = Some r
    \<and> sr_step_name r = stp \<and> sr_saga_name r = snm \<and> sr_state r = st"
  using persist_load [OF persist_all_up [OF assms]] by (simp add: persist_all_append)

end

lemma parse_record_column:
  "parse_record (column \<lparr>row_saga_id = sid, row_saga_name = snm, row_step_name = stp,
      row_state = saga_state_str st, row_input = i, row_output = oo, row_error = e, row_created = c\<rparr>) =
   \<lparr>sr_saga_id = sid, sr_saga_name = snm, sr_step_name = stp, sr_state = st, sr_input = Some i,
    sr_output = Some oo, sr_error = Some e, sr_created_at = or_empty c\<rparr>"
  by (cases st) (simp_all add: parse_record_def column_def or_empty_def)

lemma sql_latest_record:
  "db_error db (stmts db) = None \<Longrightarrow>
   sql_latest sid' (snd (sql_record_step sid snm stp st i oo e db)) =
     (if sid' = sid
      then Some \<lparr>sr_saga_id = sid, sr_saga_name = snm, sr_step_name = stp, sr_state = st,
        sr_input = Some (or_empty i), sr_output = Some (or_empty oo), sr_error = Some (or_empty e),
        sr_created_at = or_empty (db_now db (stmts db))\<rparr>
      else sql_latest sid' db)"
  by (auto simp: sql_record_step_def sql_latest_def parse_record_column Let_def)

definition sql_up :: "saga_db \<Rightarrow> bool" where
  "sql_up db \<longleftrightarrow> (\<forall>n. db_error db n = None)"

interpretation sql: saga_persister sql_record_step sql_latest sql_up
proof unfold_locales
  fix sid snm stp st i oo e p p'
  assume "sql_record_step sid snm stp st i oo e p = (Inr (), p')"
  moreover from this have "db_error p (stmts p) = None"
    by (auto simp: sql_record_step_def Let_def split: option.splits)
  ultimately show "\<exists>r. sql_latest sid p' = Some r \<and> sr_saga_id r = sid \<and> sr_saga_name r = snm
      \<and> sr_step_name r = stp \<and> sr_state r = st"
    using sql_latest_record [of p sid sid snm stp st i oo e] by auto
next
  fix sid' sid :: string and snm stp st i oo e p
  assume "sid' \<noteq> sid"
  then show "sql_latest sid' (snd (sql_record_step sid snm stp st i oo e p)) = sql_latest sid' p"
    by (cases "db_error p (stmts p)")
      (simp_all add: sql_latest_record, simp add: sql_record_step_def sql_latest_def)
next
  fix sid snm stp st i oo e p
  assume "sql_up p"
  then show "\<exists>p'. sql_record_step sid snm stp st i oo e p = (Inr (), p') \<and> sql_up p'"
    by (auto simp: sql_record_step_def sql_up_def)
qed

section \<open>The persistent saga refines the saga\<close>

definition wrap_error :: "string \<times> rszero_error \<Rightarrow> string \<times> rszero_error" where
  "wrap_error ne = (fst ne, Internal (display (snd ne)) None)"

lemma p_compensate_retries_sim:
  "\<exists>ls. p_compensate_retries rec sid snm n st (w, p) =
     (case compensate_retries n st w of (ok, errs, w') \<Rightarrow>
       (ok, map wrap_error errs, w', persist_all rec sid snm ls p))"
proof (induction n arbitrary: w p)
  case 0
  show ?case by (rule exI [of _ "[]"]) simp
next
  case (Suc n)
  obtain r w' where c: "compensation st w = (r, w')" by fastforce
  show ?case
  proof (cases r)
    case (Inr u)
    with c show ?thesis
      by (intro exI [of _ "[(step_name st, Compensated, None)]"]) simp
  next
    case (Inl ce)
    let ?j = "if n = 0 then [(step_name st, Compensating, Some (display ce))] else []"
    obtain ls where ls: "p_compensate_retries rec sid snm n st (w', persist_all rec sid snm ?j p) =
        (case compensate_retries n st w' of (ok, errs, w') \<Rightarrow>
          (ok, map wrap_error errs, w', persist_all rec sid snm ls (persist_all rec sid snm ?j p)))"
      using Suc.IH by blast
    have j: "(if n = 0 then persist rec sid snm (step_name st) Compensating (Some (display ce)) p else p) =
        persist_all rec sid snm ?j p" by simp
    show ?thesis
      by (rule exI [of _ "?j @ ls"])
        (simp add: c Inl j ls persist_all_append wrap_error_def Let_def split: prod.splits)
  qed
qed

lemma p_compensate_down_sim:
  "\<exists>ls. p_compensate_down rec sid snm sts i (w, p) =
     (case compensate_down sts i w of (errs, w') \<Rightarrow>
       (map wrap_error errs, w', persist_all rec sid snm ls p))"
proof (induction i arbitrary: w p)
  case 0
  show ?case by (rule exI [of _ "[]"]) simp
next
  case (Suc i)
  obtain ok errs w' where c: "compensate_retries 3 (sts ! i) w = (ok, errs, w')"
    by (metis prod_cases3)
  obtain l1 where l1: "p_compensate_retries rec sid snm 3 (sts ! i) (w, p) =
      (ok, map wrap_error errs, w', persist_all rec sid snm l1 p)"
    using p_compensate_retries_sim [of rec sid snm 3 "sts ! i" w p] c by auto
  obtain l2 where l2: "p_compensate_down rec sid snm sts i (w', persist_all rec sid snm l1 p) =
      (case compensate_down sts i w' of (errs, w') \<Rightarrow>
        (map wrap_error errs, w', persist_all rec sid snm l2 (persist_all rec sid snm l1 p)))"
    using Suc.IH by blast
  show ?case
    by (rule exI [of _ "l1 @ l2"])
      (simp add: l1 l2 c persist_all_append Let_def split: prod.splits)
qed

lemma p_execute_steps_sim:
  "\<exists>ls err. p_execute_steps rec sid snm sts rest cpl outs (w, p) =
     (case execute_steps sts rest cpl outs w of (r, w') \<Rightarrow>
       (r\<lparr>compensation_errors := map wrap_error (compensation_errors r)\<rparr>, w',
        persist_all rec sid snm
          (ls @ [(''__end__'', if is_success r then Completed else Failed, err)]) p))"
proof (induction rest arbitrary: cpl outs w p)
  case Nil
  show ?case by (rule exI [of _ "[]"], rule exI [of _ None]) (simp add: is_success_def)
next
  case (Cons st rest)
  obtain r w' where a: "action st w = (r, w')" by fastforce
  show ?case
  proof (cases r)
    case (Inr v)
    let ?j = "[(step_name st, Running, None), (step_name st, Completed, None)]"
    obtain ls err where "p_execute_steps rec sid snm sts rest (cpl @ [step_name st]) (outs @ [v])
        (w', persist_all rec sid snm ?j p) =
      (case execute_steps sts rest (cpl @ [step_name st]) (outs @ [v]) w' of (r, w') \<Rightarrow>
       (r\<lparr>compensation_errors := map wrap_error (compensation_errors r)\<rparr>, w',
        persist_all rec sid snm (ls @ [(''__end__'', if is_success r then Completed else Failed, err)])
          (persist_all rec sid snm ?j p)))"
      using Cons.IH by blast
    then show ?thesis
      by (intro exI [of _ "?j @ ls"] exI [of _ err])
        (simp add: a Inr persist_all_append Let_def split: prod.splits)
  next
    case (Inl e)
    let ?j = "[(step_name st, Running, None), (step_name st, Failed, Some (display e)),
      (''__compensate__'', Compensating, None)]"
    obtain ls where "p_compensate_down rec sid snm sts (length cpl) (w', persist_all rec sid snm ?j p) =
      (case compensate_down sts (length cpl) w' of (errs, w') \<Rightarrow>
       (map wrap_error errs, w', persist_all rec sid snm ls (persist_all rec sid snm ?j p)))"
      using p_compensate_down_sim [of rec sid snm sts "length cpl" w' "persist_all rec sid snm ?j p"] ..
    then show ?thesis
      by (intro exI [of _ "?j @ ls"] exI [of _ "Some (display e)"])
        (auto simp: a Inl persist_all_append is_success_def Let_def split: prod.splits)
  qed
qed

section \<open>The order of actions and compensations\<close>

text \<open>
  An instrumented saga: every attempt of an action or a compensation is noted in a trace beside the
  world, and nothing else changes.
\<close>

datatype saga_event = Act nat | Comp nat bool

definition traced :: "nat \<Rightarrow> ('t, 'w) saga_step \<Rightarrow> ('t, 'w \<times> saga_event list) saga_step" where
  "traced i st = \<lparr>step_name = step_name st,
     action = (\<lambda>(w, tr). let (r, w') = action st w in (r, w', tr @ [Act i])),
     compensation = (\<lambda>(w, tr). let (r, w') = compensation st w in (r, w', tr @ [Comp i (is_ok r)]))\<rparr>"

definition traced_steps :: "('t, 'w) saga_step list \<Rightarrow> ('t, 'w \<times> saga_event list) saga_step list" where
  "traced_steps sts = map (\<lambda>i. traced i (sts ! i)) [0..<length sts]"

definition traced_saga :: "('t, 'w) saga \<Rightarrow> ('t, 'w \<times> saga_event list) saga" where
  "traced_saga s = \<lparr>saga_nm = saga_nm s, steps = traced_steps (steps s)\<rparr>"

text \<open>The attempts of one compensation that fails \<open>a\<close> times: at most three, up to the first success.\<close>

definition comp_block :: "nat \<Rightarrow> nat \<Rightarrow> nat \<Rightarrow> saga_event list" where
  "comp_block n i a = replicate (min a n) (Comp i False) @ (if a < n then [Comp i True] else [])"

lemma comp_block_Suc: "Comp i False # comp_block n i a = comp_block (Suc n) i (Suc a)"
  by (simp add: comp_block_def)

lemma traced_step_simps [simp]:
  "step_name (traced i st) = step_name st"
  "action (traced i st) (w, tr) = (case action st w of (r, w') \<Rightarrow> (r, w', tr @ [Act i]))"
  "compensation (traced i st) (w, tr) = (case compensation st w of (r, w') \<Rightarrow> (r, w', tr @ [Comp i (is_ok r)]))"
  by (simp_all add: traced_def)

lemma compensate_retries_traced:
  assumes "compensate_retries n st w = (ok, errs, w')"
  shows "\<exists>a. compensate_retries n (traced i st) (w, tr) = (ok, errs, w', tr @ comp_block n i a)
    \<and> (0 < n \<longrightarrow> map fst errs = (if n \<le> a then [step_name st] else []))"
  using assms
proof (induction n arbitrary: w tr ok errs w')
  case 0
  then show ?case by (intro exI [of _ 0]) (simp add: comp_block_def)
next
  case (Suc n)
  obtain r v where c: "compensation st w = (r, v)" by fastforce
  show ?case
  proof (cases r)
    case (Inr u)
    with c Suc.prems show ?thesis
      by (intro exI [of _ 0]) (auto simp: comp_block_def is_ok_def)
  next
    case (Inl ce)
    obtain es where es: "compensate_retries n st v = (ok, es, w')"
      and errs: "errs = (if n = 0 then [(step_name st, ce)] else []) @ es"
      using Suc.prems c Inl by (auto split: prod.splits)
    obtain a where a: "compensate_retries n (traced i st) (v, tr @ [Comp i False]) =
        (ok, es, w', (tr @ [Comp i False]) @ comp_block n i a)"
      "0 < n \<longrightarrow> map fst es = (if n \<le> a then [step_name st] else [])"
      using Suc.IH [OF es] by blast
    have "n = 0 \<Longrightarrow> es = []" using es by auto
    with c Inl a errs show ?thesis
      by (intro exI [of _ "Suc a"]) (auto simp: is_ok_def comp_block_Suc Let_def)
  qed
qed

lemma compensate_down_traced:
  assumes "compensate_down sts k w = (errs, w')" and "k \<le> length sts"
  shows "\<exists>f. compensate_down (traced_steps sts) k (w, tr) =
      (errs, w', tr @ concat (map (\<lambda>i. comp_block 3 i (f i)) (rev [0..<k])))
    \<and> map fst errs = map (\<lambda>i. step_name (sts ! i)) (filter (\<lambda>i. 3 \<le> f i) (rev [0..<k]))"
  using assms
proof (induction k arbitrary: w tr errs)
  case 0
  then show ?case by simp
next
  case (Suc k)
  obtain ok e1 v where r: "compensate_retries 3 (sts ! k) w = (ok, e1, v)" by (metis prod_cases3)
  obtain e2 where d: "compensate_down sts k v = (e2, w')" and errs: "errs = e1 @ e2"
    using Suc.prems r by (auto split: prod.splits)
  obtain a where a: "compensate_retries 3 (traced k (sts ! k)) (w, tr) = (ok, e1, v, tr @ comp_block 3 k a)"
    "map fst e1 = (if 3 \<le> a then [step_name (sts ! k)] else [])"
    using compensate_retries_traced [OF r, of k tr] by auto
  obtain f where f: "compensate_down (traced_steps sts) k (v, tr @ comp_block 3 k a) =
      (e2, w', (tr @ comp_block 3 k a) @ concat (map (\<lambda>i. comp_block 3 i (f i)) (rev [0..<k])))"
    "map fst e2 = map (\<lambda>i. step_name (sts ! i)) (filter (\<lambda>i. 3 \<le> f i) (rev [0..<k]))"
    using Suc.IH [OF d] Suc.prems by fastforce
  have "traced_steps sts ! k = traced k (sts ! k)"
    using Suc.prems by (simp add: traced_steps_def)
  moreover have "filter (\<lambda>i. 3 \<le> (if i = k then a else f i)) (rev [0..<k]) = filter (\<lambda>i. 3 \<le> f i) (rev [0..<k])"
    by (auto intro!: filter_cong)
  ultimately show ?case
    using a f errs by (intro exI [of _ "\<lambda>i. if i = k then a else f i"]) (auto intro!: arg_cong [of _ _ concat])
qed

definition trace_spec ::
  "('t, 'w) saga_step list \<Rightarrow> 't saga_result \<Rightarrow> saga_event list \<Rightarrow> bool" where
  "trace_spec sts r tr \<longleftrightarrow>
     completed r = map step_name (take (length (completed r)) sts)
   \<and> length (outputs r) = length (completed r)
   \<and> (case failed_step r of
        None \<Rightarrow> length (completed r) = length sts \<and> tr = map Act [0..<length sts] \<and> compensation_errors r = []
      | Some nm \<Rightarrow>
          length (completed r) < length sts \<and> nm = step_name (sts ! length (completed r))
        \<and> (\<exists>f. tr = map Act [0..<Suc (length (completed r))]
                     @ concat (map (\<lambda>i. comp_block 3 i (f i)) (rev [0..<length (completed r)]))
             \<and> map fst (compensation_errors r)
                 = map (\<lambda>i. step_name (sts ! i)) (filter (\<lambda>i. 3 \<le> f i) (rev [0..<length (completed r)]))))"

lemma execute_steps_traced:
  assumes "sts = pre @ rest" and "length outs = length pre"
    and "execute_steps sts rest (map step_name pre) outs w = (r, w')"
  shows "\<exists>tr. execute_steps (traced_steps sts) (map (\<lambda>i. traced i (sts ! i)) [length pre..<length sts])
       (map step_name pre) outs (w, map Act [0..<length pre]) = (r, w', tr)
    \<and> trace_spec sts r tr"
  using assms
proof (induction rest arbitrary: pre outs w)
  case Nil
  then show ?case by (auto simp: trace_spec_def)
next
  case (Cons st rest)
  obtain q v where a: "action st w = (q, v)" by fastforce
  have less: "length pre < length sts" and nth: "sts ! length pre = st"
    using Cons.prems(1) by simp_all
  have upt: "[length pre..<length sts] = length pre # [Suc (length pre)..<length sts]"
    using less by (rule upt_conv_Cons)
  show ?case
  proof (cases q)
    case (Inr x)
    have "execute_steps sts rest (map step_name (pre @ [st])) (outs @ [x]) v = (r, w')"
      using Cons.prems(3) a Inr by simp
    from Cons.IH [OF _ _ this] Cons.prems(1,2) have
      "\<exists>tr. execute_steps (traced_steps sts) (map (\<lambda>i. traced i (sts ! i)) [Suc (length pre)..<length sts])
         (map step_name (pre @ [st])) (outs @ [x]) (v, map Act [0..<Suc (length pre)]) = (r, w', tr)
       \<and> trace_spec sts r tr" by simp
    then show ?thesis by (simp only: upt list.map nth) (simp add: a Inr)
  next
    case (Inl e)
    obtain errs where d: "compensate_down sts (length pre) v = (errs, w')"
      and r: "r = \<lparr>completed = map step_name pre, outputs = outs, failed_step = Some (step_name st),
        error = Some e, compensation_errors = errs\<rparr>"
      using Cons.prems(3) a Inl by (auto split: prod.splits)
    obtain f where f: "compensate_down (traced_steps sts) (length pre) (v, map Act [0..<Suc (length pre)]) =
        (errs, w', map Act [0..<Suc (length pre)] @ concat (map (\<lambda>i. comp_block 3 i (f i)) (rev [0..<length pre])))"
      "map fst errs = map (\<lambda>i. step_name (sts ! i)) (filter (\<lambda>i. 3 \<le> f i) (rev [0..<length pre]))"
      using compensate_down_traced [OF d, of "map Act [0..<Suc (length pre)]"] less by auto
    have "take (length pre) sts = pre" using Cons.prems(1) by simp
    with f less nth Cons.prems(2) have "trace_spec sts r (map Act [0..<Suc (length pre)]
        @ concat (map (\<lambda>i. comp_block 3 i (f i)) (rev [0..<length pre])))"
      by (auto simp: r trace_spec_def intro!: exI [of _ f])
    with f(1) show ?thesis by (simp only: upt list.map nth) (simp add: a Inl r)
  qed
qed

section \<open>Properties\<close>

text \<open>
  C6. Running a saga terminates and its trace of attempts is the one a saga promises.  When every
  action succeeds, the actions ran once each in the order of the steps and no compensation ran.
  When the action of step \<open>k\<close> fails, the actions \<open>0..k\<close> ran once each, then the steps \<open>k - 1\<close> down to
  \<open>0\<close> were compensated, each up to its first success and three times at most; step \<open>k\<close> itself is not
  compensated, and \<open>compensation_errors\<close> names exactly the steps whose three attempts failed, in the
  order of compensation.  The instrumentation changes neither the result nor the world.
\<close>

theorem saga_trace:
  "\<exists>r w' tr. saga_execute s w = (r, w') \<and> saga_execute (traced_saga s) (w, []) = (r, w', tr)
     \<and> trace_spec (steps s) r tr"
proof -
  obtain r w' where e: "saga_execute s w = (r, w')" by fastforce
  then have "execute_steps (steps s) (steps s) (map step_name []) [] w = (r, w')"
    by (simp add: saga_execute_def)
  from execute_steps_traced [OF _ _ this] obtain tr
    where "execute_steps (traced_steps (steps s)) (traced_steps (steps s)) [] [] (w, []) = (r, w', tr)"
      and "trace_spec (steps s) r tr"
    by (auto simp: traced_steps_def)
  with e show ?thesis by (auto simp: saga_execute_def traced_saga_def)
qed

text \<open>
  C7. The persistent saga refines the saga: whatever the persister does, refusing every statement
  included, \<open>PersistentSaga::execute\<close> leaves the world the saga leaves and returns the saga's result,
  with each compensation error wrapped as an internal error carrying its message.
\<close>

theorem persistent_refines_saga:
  "\<exists>p'. persistent_execute ps (w, p) =
     (case saga_execute (ps_saga ps) w of (r, w') \<Rightarrow>
       (r\<lparr>compensation_errors := map (\<lambda>(n, e). (n, Internal (display e) None)) (compensation_errors r)\<rparr>, w', p'))"
proof -
  obtain r w' where "execute_steps (steps (ps_saga ps)) (steps (ps_saga ps)) [] [] w = (r, w')" by fastforce
  moreover have "map (\<lambda>(n, e). (n, Internal (display e) None)) es = map wrap_error es" for es
    by (simp add: wrap_error_def split_def)
  ultimately show ?thesis
    using p_execute_steps_sim [of "ps_record ps" "ps_id ps" "saga_nm (ps_saga ps)" "steps (ps_saga ps)"
        "steps (ps_saga ps)" "[]" "[]" w
        "persist (ps_record ps) (ps_id ps) (saga_nm (ps_saga ps)) ''__start__'' Running None p"]
    by (auto simp: persistent_execute_def saga_execute_def Let_def split: prod.splits)
qed

text \<open>
  With a database that accepts the statements, a load of the saga's id after the run returns the
  \<open>__end__\<close> record of this saga, in state \<open>Completed\<close> exactly when the run succeeded and \<open>Failed\<close>
  otherwise, and what is loaded for every other saga id is what it was before the run.
\<close>

theorem persistent_end_recorded:
  assumes "sql_up db" and "ps_record ps = sql_record_step"
    and "persistent_execute ps (w, db) = (r, w', db')"
  shows "(\<exists>rec. sql_load_saga (ps_id ps) db' = Ok (Some rec) \<and> sr_step_name rec = ''__end__''
      \<and> sr_saga_name rec = saga_nm (ps_saga ps)
      \<and> sr_state rec = (if is_success r then Completed else Failed))
    \<and> (\<forall>sid. sid = ps_id ps \<or> sql_latest sid db' = sql_latest sid db)"
proof -
  let ?all = "persist_all sql_record_step (ps_id ps) (saga_nm (ps_saga ps))"
  obtain ls err where *: "p_execute_steps sql_record_step (ps_id ps) (saga_nm (ps_saga ps))
      (steps (ps_saga ps)) (steps (ps_saga ps)) [] [] (w, ?all [(''__start__'', Running, None)] db) =
    (case saga_execute (ps_saga ps) w of (r, w') \<Rightarrow>
      (r\<lparr>compensation_errors := map wrap_error (compensation_errors r)\<rparr>, w',
        ?all (ls @ [(''__end__'', if is_success r then Completed else Failed, err)])
          (?all [(''__start__'', Running, None)] db)))"
    using p_execute_steps_sim [of sql_record_step "ps_id ps" "saga_nm (ps_saga ps)" "steps (ps_saga ps)"
        "steps (ps_saga ps)" "[]" "[]" w "?all [(''__start__'', Running, None)] db"]
    by (elim exE) (rule that, simp only: saga_execute_def)
  obtain r0 v where v: "saga_execute (ps_saga ps) w = (r0, v)" by fastforce
  have succ: "is_success r0 = is_success r" and db': "db' =
      ?all (((''__start__'', Running, None) # ls) @ [(''__end__'', if is_success r0 then Completed else Failed, err)]) db"
    using * assms(2,3) v
    by (auto simp: persistent_execute_def Let_def is_success_def persist_all_append split: prod.splits)
  have "sql_up db'" using assms(1) db' sql.persist_all_up by blast
  then have "sql_load_saga (ps_id ps) db' = Ok (sql_latest (ps_id ps) db')"
    by (simp add: sql_load_saga_def sql_up_def)
  moreover obtain rec where "sql_latest (ps_id ps) db' = Some rec" "sr_step_name rec = ''__end__''"
      "sr_saga_name rec = saga_nm (ps_saga ps)" "sr_state rec = (if is_success r then Completed else Failed)"
    using sql.persist_all_last [OF assms(1)] unfolding db' succ by blast
  moreover have "sid \<noteq> ps_id ps \<Longrightarrow> sql_latest sid db' = sql_latest sid db" for sid
    unfolding db' by (rule sql.persist_all_other)
  ultimately show ?thesis by (auto intro!: exI [of _ rec])
qed

definition wit_step :: "string \<Rightarrow> bool \<Rightarrow> bool \<Rightarrow> (nat, nat list) saga_step" where
  "wit_step nm ok cok = saga_step_new nm
     (\<lambda>w. (if ok then Ok (length w) else Err (Internal ''boom'' None), w @ [1]))
     (\<lambda>w. (if cok then Ok () else Err (Internal ''stuck'' None), w @ [2]))"

definition wit_saga :: "(nat, nat list, saga_db) persistent_saga" where
  "wit_saga = with_id ''id'' (persistent_saga_new ''u''
     \<lparr>saga_nm = ''order'', steps = [wit_step ''a'' True True, wit_step ''b'' True False, wit_step ''c'' False True]\<rparr>
     sql_record_step)"

definition wit_db :: saga_db where
  "wit_db = \<lparr>rows = [], stmts = 0, db_error = (\<lambda>_. None), db_now = (\<lambda>_. None)\<rparr>"

lemma wit_saga_run:
  "\<exists>db'. persistent_execute wit_saga ([], wit_db) =
     (\<lparr>completed = [''a'', ''b''], outputs = [0, 1], failed_step = Some ''c'',
       error = Some (Internal ''boom'' None),
       compensation_errors = [(''b'', Internal ''internal error: stuck'' None)]\<rparr>, [1, 1, 1, 2, 2, 2, 2], db')"
  by (simp add: persistent_execute_def wit_saga_def with_id_def persistent_saga_new_def wit_step_def
      saga_step_new_def Let_def numeral_3_eq_3)

theorem persistent_end_recorded_witness:
  "\<exists>r w' db' rec. persistent_execute wit_saga ([], wit_db) = (r, w', db') \<and> \<not> is_success r
     \<and> w' = [1, 1, 1, 2, 2, 2, 2]
     \<and> sql_load_saga ''id'' db' = Ok (Some rec) \<and> sr_step_name rec = ''__end__'' \<and> sr_state rec = Failed"
proof -
  obtain r db' where run: "persistent_execute wit_saga ([], wit_db) = (r, [1, 1, 1, 2, 2, 2, 2], db')"
    and r: "\<not> is_success r"
    using wit_saga_run by (auto simp: is_success_def)
  have "sql_up wit_db" "ps_record wit_saga = sql_record_step" "ps_id wit_saga = ''id''"
    by (simp_all add: sql_up_def wit_db_def wit_saga_def with_id_def persistent_saga_new_def)
  with persistent_end_recorded [OF _ _ run] r run show ?thesis by auto
qed

text \<open>Without a name the list holds the latest record of every saga, the one that \<open>load_saga\<close> gives, once each.\<close>

theorem list_sagas_latest:
  assumes "sql_up db" and "\<forall>xs. set (order xs) = set xs"
  shows "\<exists>rs. sql_list_sagas order broken None db = Ok rs \<and>
    Some ` set rs = {sql_latest sid db | sid. sql_latest sid db \<noteq> None}"
proof -
  let ?f = "\<lambda>sid. parse_record (column (last (filter (\<lambda>r. row_saga_id r = sid) (rows db))))"
  have l: "sql_latest sid db = (if sid \<in> set (map row_saga_id (rows db)) then Some (?f sid) else None)" for sid
    by (auto simp: sql_latest_def Let_def filter_empty_conv)
  have ids: "set (order (remdups (map row_saga_id (rows db)))) = set (map row_saga_id (rows db))" using assms(2) by simp
  have "Some ` set (map ?f (order (remdups (map row_saga_id (rows db))))) = {sql_latest sid db | sid. sql_latest sid db \<noteq> None}"
    unfolding l set_map [of ?f] ids by auto
  moreover have "sql_list_sagas order broken None db = Ok (map ?f (order (remdups (map row_saga_id (rows db)))))"
    using assms(1) by (simp add: sql_list_sagas_def sql_up_def Let_def)
  ultimately show ?thesis by blast
qed

end
