(* ===== verification/Retry.thy ===== *)
theory Retry
  imports F64 Errors
begin

text \<open>
  Retry policies (\<open>rszero/src/retry/mod.rs\<close>) and the contract the retry loops of the program share:
  \<open>with_retry\<close>, the job worker's \<open>execute_with_retry\<close> and the RPC client's \<open>call\<close>.  An operation is a
  function on the world it acts on; a loop returns its result, the world and the list of the delays
  it slept.  The random draw of \<open>fastrand::u64\<close> and the platform's \<open>f64::powi\<close> are parameters.
\<close>

section \<open>The contract of a retry loop\<close>

text \<open>The world before the \<open>i\<close>-th attempt, counted from zero, and the result of that attempt.\<close>

definition op_world :: "('w \<Rightarrow> ('e, 't) result \<times> 'w) \<Rightarrow> nat \<Rightarrow> 'w \<Rightarrow> 'w" where
  "op_world op i w = ((\<lambda>v. snd (op v)) ^^ i) w"

definition op_result :: "('w \<Rightarrow> ('e, 't) result \<times> 'w) \<Rightarrow> nat \<Rightarrow> 'w \<Rightarrow> ('e, 't) result" where
  "op_result op i w = fst (op (op_world op i w))"

text \<open>The attempt after which at most \<open>n\<close> retries stop: the first success, or the last attempt.\<close>

definition stops_at :: "('w \<Rightarrow> ('e, 't) result \<times> 'w) \<Rightarrow> nat \<Rightarrow> 'w \<Rightarrow> nat \<Rightarrow> bool" where
  "stops_at op n w k \<longleftrightarrow>
     k \<le> n \<and> list_all (\<lambda>i. \<not> is_ok (op_result op i w)) [0..<k] \<and> (k = n \<or> is_ok (op_result op k w))"

lemma op_world_0 [simp]: "op_world op 0 w = w"
  by (simp add: op_world_def)

lemma op_world_step [simp]: "op_world op i (snd (op w)) = op_world op (Suc i) w"
  by (simp add: op_world_def funpow_Suc_right del: funpow.simps)

lemma op_result_step [simp]: "op_result op i (snd (op w)) = op_result op (Suc i) w"
  by (simp add: op_result_def)

lemma op_result_0: "op_result op 0 w = fst (op w)"
  by (simp add: op_result_def)

lemma stops_at_Suc:
  "\<not> is_ok (fst (op w)) \<Longrightarrow> stops_at op (Suc n) w (Suc k) \<longleftrightarrow> stops_at op n (snd (op w)) k"
proof -
  assume "\<not> is_ok (fst (op w))"
  moreover have "[0..<Suc k] = 0 # map Suc [0..<k]" by (simp add: upt_conv_Cons map_Suc_upt del: upt_Suc)
  ultimately show ?thesis by (simp add: stops_at_def op_result_0 list.pred_map comp_def del: upt_Suc)
qed

lemma stops_at_exists: "\<exists>k. stops_at op n w k"
proof (induction n arbitrary: w)
  case 0
  show ?case by (rule exI [of _ 0]) (simp add: stops_at_def)
next
  case (Suc n)
  show ?case
  proof (cases "is_ok (fst (op w))")
    case True
    then show ?thesis by (intro exI [of _ 0]) (simp add: stops_at_def op_result_0)
  next
    case False
    obtain k where "stops_at op n (snd (op w)) k" using Suc.IH by blast
    with False have "stops_at op (Suc n) w (Suc k)" by (simp add: stops_at_Suc)
    then show ?thesis ..
  qed
qed

text \<open>
  A loop with \<open>n\<close> retries left at attempt \<open>a\<close>: it returns a success at once, returns the failure of
  the last attempt, and otherwise sleeps and goes on.  \<open>lim\<close> bounds the attempts whose delay the
  loop can compute.
\<close>

locale retry_loop =
  fixes op :: "'w \<Rightarrow> ('e, 't) result \<times> 'w" and dly :: "nat \<Rightarrow> duration"
    and run :: "nat \<Rightarrow> nat \<Rightarrow> 'w \<Rightarrow> 'r \<times> 'w \<times> duration list"
    and ret :: "('e, 't) result \<Rightarrow> 'r" and lim :: nat
  assumes run_ok: "is_ok (fst (op w)) \<Longrightarrow> run a n w = (ret (fst (op w)), snd (op w), [])"
    and run_last: "run a 0 w = (ret (fst (op w)), snd (op w), [])"
    and run_retry: "\<not> is_ok (fst (op w)) \<Longrightarrow> a < lim \<Longrightarrow>
      run a (Suc n) w = (case run (Suc a) n (snd (op w)) of (r, w', ds) \<Rightarrow> (r, w', dly a # ds))"
begin

lemma run_stops_at:
  "stops_at op n w k \<Longrightarrow> a + n \<le> lim \<Longrightarrow>
   run a n w = (ret (op_result op k w), op_world op (Suc k) w, map dly [a..<a + k])"
proof (induction k arbitrary: a n w)
  case 0
  then show ?case
    by (cases "n = 0") (auto simp: stops_at_def run_ok run_last op_result_0 op_world_def)
next
  case (Suc k)
  then obtain m where n: "n = Suc m" by (cases n) (auto simp: stops_at_def)
  have "\<not> is_ok (op_result op 0 w)" using Suc.prems(1) by (auto simp: stops_at_def list_all_iff)
  then have f: "\<not> is_ok (fst (op w))" by (simp add: op_result_0)
  have "run (Suc a) m (snd (op w)) = (ret (op_result op k (snd (op w))), op_world op (Suc k) (snd (op w)),
      map dly [Suc a..<Suc a + k])"
    using Suc.prems n stops_at_Suc [where op = op and w = w, OF f] by (intro Suc.IH) auto
  then show ?case
    using run_retry [OF f] Suc.prems(2) n upt_conv_Cons [of a "Suc (a + k)"] by simp
qed

lemma run_stops: "n \<le> lim \<Longrightarrow>
  \<exists>k. stops_at op n w k \<and> run 0 n w = (ret (op_result op k w), op_world op (Suc k) w, map dly [0..<k])"
  using stops_at_exists run_stops_at [where a = 0] by fastforce

end

text \<open>
  The loops of the program count the attempts upwards and remember the last error for the return after
  the last one: \<open>loop mx a n le w\<close> has made \<open>a\<close> attempts of \<open>mx + 1\<close>, has \<open>n\<close> left and remembers \<open>le\<close>.
\<close>

locale remembering_loop =
  fixes op :: "'w \<Rightarrow> ('e, 't) result \<times> 'w" and dly :: "nat \<Rightarrow> duration"
    and loop :: "nat \<Rightarrow> nat \<Rightarrow> nat \<Rightarrow> 'e option \<Rightarrow> 'w \<Rightarrow> 'r \<times> 'w \<times> duration list"
    and ret :: "('e, 't) result \<Rightarrow> 'r"
  assumes loop_end: "loop mx a 0 (Some e) w = (ret (Err e), w, [])"
    and loop_ok: "op w = (Inr v, w') \<Longrightarrow> loop mx a (Suc n) le w = (ret (Ok v), w', [])"
    and loop_err: "op w = (Inl e, w') \<Longrightarrow> loop mx a (Suc n) le w =
      (case loop mx (Suc a) n (Some e) w' of (r, w'', ds) \<Rightarrow> (r, w'', (if a < mx then [dly a] else []) @ ds))"

sublocale remembering_loop < retry_loop op dly "\<lambda>a n w. loop (a + n) a (Suc n) None w" ret lim for lim
proof unfold_locales
  fix w a n
  obtain r w' where op: "op w = (r, w')" by fastforce
  show "is_ok (fst (op w)) \<Longrightarrow> loop (a + n) a (Suc n) None w = (ret (fst (op w)), snd (op w), [])"
    using op by (cases r) (auto simp: loop_ok)
  show "loop (a + 0) a (Suc 0) None w = (ret (fst (op w)), snd (op w), [])"
    using op by (cases r) (auto simp: loop_ok loop_err loop_end)
  have last: "loop mx b (Suc n) le w' = loop mx b (Suc n) None w'" for mx b le
    by (cases "op w'"; cases "fst (op w')") (auto simp: loop_ok loop_err)
  assume "\<not> is_ok (fst (op w))"
  then obtain e where "r = Inl e" using op by (cases r) auto
  then show "loop (a + Suc n) a (Suc (Suc n)) None w =
      (case loop (Suc a + n) (Suc a) (Suc n) None (snd (op w)) of (r, w', ds) \<Rightarrow> (r, w', dly a # ds))"
    using op last [of "a + Suc n" "Suc a" "Some e"] by (simp add: loop_err)
qed

section \<open>Retry policies\<close>

record retry_policy =
  rp_max_retries :: u32
  rp_initial_delay :: duration
  rp_max_delay :: duration
  rp_multiplier :: f64
  rp_jitter :: bool

definition from_millis :: "u64 \<Rightarrow> duration" where
  "from_millis ms = unat ms * 10 ^ 6"

definition from_secs :: "nat \<Rightarrow> duration" where
  "from_secs s = s * 10 ^ 9"

definition as_millis :: "duration \<Rightarrow> nat" where
  "as_millis d = d div 10 ^ 6"

lemma as_millis_from_millis [simp]: "as_millis (from_millis ms) = unat ms"
  by (simp add: as_millis_def from_millis_def)

definition retry_policy_new :: retry_policy where
  "retry_policy_new = \<lparr>rp_max_retries = 3, rp_initial_delay = from_millis 100,
     rp_max_delay = from_secs 5, rp_multiplier = Fin 2, rp_jitter = True\<rparr>"

definition set_max_retries :: "u32 \<Rightarrow> retry_policy \<Rightarrow> retry_policy" where
  "set_max_retries n p = p\<lparr>rp_max_retries := n\<rparr>"

definition set_initial_delay :: "duration \<Rightarrow> retry_policy \<Rightarrow> retry_policy" where
  "set_initial_delay d p = p\<lparr>rp_initial_delay := d\<rparr>"

definition set_max_delay :: "duration \<Rightarrow> retry_policy \<Rightarrow> retry_policy" where
  "set_max_delay d p = p\<lparr>rp_max_delay := d\<rparr>"

definition set_multiplier :: "f64 \<Rightarrow> retry_policy \<Rightarrow> retry_policy" where
  "set_multiplier x p = p\<lparr>rp_multiplier := x\<rparr>"

definition set_jitter :: "bool \<Rightarrow> retry_policy \<Rightarrow> retry_policy" where
  "set_jitter b p = p\<lparr>rp_jitter := b\<rparr>"

text \<open>
  \<open>pw\<close> is \<open>f64::powi\<close>, its exponent the attempt cast to \<open>i32\<close>; \<open>rnd b\<close> is the draw
  \<open>fastrand::u64(0..b)\<close>.  The last addition wraps as in a release build.
\<close>

definition base_delay_ms :: "(f64 \<Rightarrow> int \<Rightarrow> f64) \<Rightarrow> retry_policy \<Rightarrow> u32 \<Rightarrow> u64" where
  "base_delay_ms pw p attempt =
     (let b = f64_mul (f64_of_nat (as_millis (rp_initial_delay p))) (pw (rp_multiplier p) (sint attempt))
      in f64_to_u64 (f64_min b (f64_of_nat (as_millis (rp_max_delay p)))))"

definition delay_for_attempt ::
  "(f64 \<Rightarrow> int \<Rightarrow> f64) \<Rightarrow> (u64 \<Rightarrow> u64) \<Rightarrow> retry_policy \<Rightarrow> u32 \<Rightarrow> duration" where
  "delay_for_attempt pw rnd p attempt =
     (let delay_ms = base_delay_ms pw p attempt
      in if rp_jitter p \<and> 2 \<le> delay_ms
         then let jitter_ms = rnd (delay_ms div 2) in from_millis (delay_ms + jitter_ms)
         else from_millis delay_ms)"

text \<open>\<open>iters\<close> is the number of attempts left of \<open>0..=max_retries\<close>; an empty \<open>last_error\<close> panics.\<close>

fun with_retry_loop ::
  "(nat \<Rightarrow> duration) \<Rightarrow> nat \<Rightarrow> nat \<Rightarrow> nat \<Rightarrow> ('w \<Rightarrow> ('e, 't) result \<times> 'w) \<Rightarrow> 'e option \<Rightarrow> 'w
   \<Rightarrow> ('e, 't) result outcome \<times> 'w \<times> duration list" where
  "with_retry_loop dly mx attempt 0 op last_error w =
     (case last_error of None \<Rightarrow> Panic | Some e \<Rightarrow> Done (Err e), w, [])"
| "with_retry_loop dly mx attempt (Suc iters) op last_error w =
     (case op w of
        (Inr v, w') \<Rightarrow> (Done (Ok v), w', [])
      | (Inl e, w') \<Rightarrow>
          let slept = (if attempt < mx then [dly attempt] else []);
              (r, w'', ds) = with_retry_loop dly mx (Suc attempt) iters op (Some e) w'
          in (r, w'', slept @ ds))"

definition with_retry ::
  "(f64 \<Rightarrow> int \<Rightarrow> f64) \<Rightarrow> (nat \<Rightarrow> u64 \<Rightarrow> u64) \<Rightarrow> retry_policy \<Rightarrow> ('w \<Rightarrow> ('e, 't) result \<times> 'w) \<Rightarrow> 'w
   \<Rightarrow> ('e, 't) result outcome \<times> 'w \<times> duration list" where
  "with_retry pw rnd p op w =
     (let mx = unat (rp_max_retries p)
      in with_retry_loop (\<lambda>a. delay_for_attempt pw (rnd a) p (word_of_nat a)) mx 0 (Suc mx) op None w)"

interpretation wr: remembering_loop op dly "\<lambda>mx a n le w. with_retry_loop dly mx a n op le w" Done for op dly
  by unfold_locales simp_all

section \<open>The delays\<close>

lemma sint_small: "unat a < 2 ^ 31 \<Longrightarrow> sint a = int (unat a)" for a :: u32
proof -
  assume "unat a < 2 ^ 31"
  then have "int (unat a) < int (2 ^ 31)" by (simp only: of_nat_less_iff)
  then have "uint a < 2 ^ 31" by simp
  moreover have "sint a = signed_take_bit 31 (uint a)" by (simp add: sint_uint)
  moreover have "- (2 ^ 31) \<le> uint a" by (rule order_trans [OF _ uint_ge_0]) simp
  ultimately show ?thesis by (simp add: signed_take_bit_int_eq_self del: uint_ge_0)
qed

lemma base_delay_ms_le:
  "as_millis (rp_max_delay p) < 2 ^ 53 \<Longrightarrow> unat (base_delay_ms pw p a) \<le> as_millis (rp_max_delay p)"
  by (simp add: base_delay_ms_def f64_of_nat_def f64_round_of_nat f64_to_u64_min_le)

lemma f64_round_big:
  assumes "n < 2 ^ 53" and "of_nat n \<le> x"
  shows "f64_round x = PInf \<or> (\<exists>v. f64_round x = Fin v \<and> of_nat n \<le> v)"
proof -
  have "f64_mag (of_nat n) = of_nat n"
    using f64_round_of_nat [OF assms(1)] by (simp add: f64_round_nonneg split: if_splits)
  then have "of_nat n \<le> f64_mag x" using f64_mag_mono [of "of_nat n" x] assms(2) by simp
  moreover have "0 \<le> x" using assms(2) by (rule order_trans [rotated]) simp
  ultimately show ?thesis by (simp add: f64_round_nonneg)
qed

lemma f64_to_u64_min_big:
  assumes "n < 2 ^ 53" and "of_nat n \<le> x"
  shows "f64_to_u64 (f64_min (f64_round x) (Fin (of_nat n))) = word_of_nat n"
proof -
  have "f64_min (f64_round x) (Fin (of_nat n)) = Fin (of_nat n)"
    using f64_round_big [OF assms] by (auto simp: f64_min_def)
  moreover have "unat (f64_to_u64 (Fin (of_nat n))) = n"
    using assms(1) by (intro f64_to_u64_of_nat) simp
  ultimately show ?thesis by (simp add: eq_word_of_nat)
qed

section \<open>Properties\<close>


text \<open>
  For every multiplier, whatever \<open>powi\<close> computes from it, the delay before jitter is at most
  the maximal delay, and the jitter only lengthens it, by less than a half: the delay slept can
  exceed \<open>max_delay\<close> and is below one and a half times it.  The draw of \<open>fastrand::u64(0..b)\<close> is
  assumed below \<open>b\<close>.
\<close>

theorem delay_bounds:
  assumes "as_millis (rp_max_delay p) < 2 ^ 53" and "\<And>b. 0 < b \<Longrightarrow> rnd b < b"
  shows "unat (base_delay_ms pw p a) \<le> as_millis (rp_max_delay p)
    \<and> unat (base_delay_ms pw p a) \<le> as_millis (delay_for_attempt pw rnd p a)
    \<and> 2 * as_millis (delay_for_attempt pw rnd p a) \<le> 3 * unat (base_delay_ms pw p a)"
proof -
  let ?d = "base_delay_ms pw p a"
  have d: "unat ?d \<le> as_millis (rp_max_delay p)" by (rule base_delay_ms_le [OF assms(1)])
  show ?thesis
  proof (cases "rp_jitter p \<and> 2 \<le> ?d")
    case True
    then have "unat (?d div 2) = unat ?d div 2" "2 \<le> unat ?d"
      by (simp_all add: unat_div word_le_nat_alt)
    then have "0 < ?d div 2" by (simp add: word_less_nat_alt)
    then have r: "unat (rnd (?d div 2)) < unat ?d div 2"
      using assms(2) [of "?d div 2"] by (simp add: word_less_nat_alt unat_div)
    have "unat (?d + rnd (?d div 2)) = unat ?d + unat (rnd (?d div 2))"
      using r d assms(1) by (intro unat_add_no_overflow) simp
    with True r d show ?thesis by (simp add: delay_for_attempt_def Let_def)
  qed (use d in \<open>auto simp: delay_for_attempt_def Let_def\<close>)
qed

theorem delay_bounds_witness:
  "as_millis (delay_for_attempt (\<lambda>_ _. PInf) (\<lambda>b. b - 1) retry_policy_new 9) = 7499
   \<and> 2 * as_millis (delay_for_attempt (\<lambda>_ _. PInf) (\<lambda>b. b - 1) retry_policy_new 9) \<le> 3 * (5000::nat)"
proof -
  have b: "base_delay_ms (\<lambda>_ _. PInf) retry_policy_new 9 = 5000"
    using f64_round_of_nat [of 5000] f64_round_of_nat [of 100]
    by (simp add: base_delay_ms_def retry_policy_new_def as_millis_def from_millis_def from_secs_def
        f64_of_nat_def f64_min_def f64_signed_inf_def)
  have "b - 1 < b" if "0 < b" for b :: u64
    using that by (simp add: word_less_nat_alt unat_minus_one word_neq_0_conv)
  with delay_bounds [of retry_policy_new "\<lambda>b. b - 1" "\<lambda>_ _. PInf" 9] b show ?thesis
    by (simp add: retry_policy_new_def delay_for_attempt_def as_millis_def from_secs_def from_millis_def)
qed

text \<open>
  The default policy backs off exponentially: where \<open>powi\<close> gives the exact powers of two, the
  delay before jitter of attempt \<open>n\<close> is \<open>100 * 2 ^ n\<close> milliseconds up to the cap of five seconds,
  computed in binary64.
\<close>

theorem default_backoff:
  assumes "\<And>n. n < 1024 \<Longrightarrow> pw (Fin 2) (int n) = Fin (2 ^ n)" and "unat a < 1024"
  shows "base_delay_ms pw retry_policy_new a = word_of_nat (min (100 * 2 ^ unat a) 5000)"
proof -
  let ?x = "of_nat (100 * 2 ^ unat a) :: rat"
  have p: "pw (Fin 2) (sint a) = Fin (2 ^ unat a)" using assms sint_small [of a] by (simp del: of_nat_unat)
  have base: "base_delay_ms pw retry_policy_new a = f64_to_u64 (f64_min (f64_round ?x) (Fin (of_nat 5000)))"
    using p f64_round_of_nat [of 5000] f64_round_of_nat [of 100]
    by (simp add: base_delay_ms_def retry_policy_new_def as_millis_def from_millis_def from_secs_def f64_of_nat_def)
  show ?thesis
  proof (cases "5000 \<le> 100 * (2::nat) ^ unat a")
    case True
    then have "of_nat 5000 \<le> ?x" by (simp only: of_nat_le_iff)
    from f64_to_u64_min_big [OF _ this] True base show ?thesis by simp
  next
    case False
    then have x: "f64_round ?x = Fin ?x" by (intro f64_round_of_nat) simp
    have lt: "?x < of_nat 5000" using False by (simp only: of_nat_less_iff not_le)
    have "f64_to_u64 (Fin ?x) = word_of_nat (100 * 2 ^ unat a)"
      using False by (intro eq_word_of_nat f64_to_u64_of_nat) simp
    moreover have "f64_min (Fin ?x) (Fin (of_nat 5000)) = Fin ?x"
      using lt by (simp add: f64_min_def)
    ultimately have "base_delay_ms pw retry_policy_new a = word_of_nat (100 * 2 ^ unat a)"
      using base x by (simp only:)
    then show ?thesis using False by (simp add: min_def)
  qed
qed

theorem default_backoff_witness:
  "map (\<lambda>a. unat (base_delay_ms (\<lambda>m e. if m = Fin 2 then Fin (2 powi e) else NaN) retry_policy_new a)) [0, 3, 6]
   = [100, 800, 5000]"
proof -
  have "base_delay_ms (\<lambda>m e. if m = Fin 2 then Fin (2 powi e) else NaN) retry_policy_new a =
      word_of_nat (min (100 * 2 ^ unat a) 5000)" if "unat a < 1024" for a
    using that by (intro default_backoff) simp_all
  from this [of 0] this [of 3] this [of 6] show ?thesis by simp
qed

end
