(* ===== verification/Worker.thy ===== *)
theory Worker
  imports Retry Transition_Systems "HOL-Library.Multiset"
begin

text \<open>
  The background job worker (\<open>rszero/src/worker/mod.rs\<close>).  \<open>execute_with_retry\<close> is an instance of the
  retry contract.  \<open>Worker::run\<close> is a transition system: the receive loop holds one message while it
  waits for a permit of the semaphore, the spawned jobs run concurrently and finish in any order, and
  a failed or timed-out job offers its message to the bounded dead-letter channel.  Messages are of
  any type \<open>'m\<close>.
\<close>

record job_config =
  concurrency :: nat
  jc_max_retries :: u32
  jc_timeout :: duration
  retry_backoff :: duration

definition job_config_default :: job_config where
  "job_config_default =
     \<lparr>concurrency = 4, jc_max_retries = 3, jc_timeout = from_secs 30, retry_backoff = from_secs 1\<rparr>"

text \<open>The dead-letter sender is given by the capacity of its channel.\<close>

record worker =
  worker_nm :: string
  worker_config :: job_config
  dlq_tx :: "nat option"

definition worker_new :: "string \<Rightarrow> worker" where
  "worker_new n = \<lparr>worker_nm = n, worker_config = job_config_default, dlq_tx = None\<rparr>"

definition with_dlq :: "nat \<Rightarrow> worker \<Rightarrow> worker" where
  "with_dlq cap wk = wk\<lparr>dlq_tx := Some cap\<rparr>"

definition with_concurrency :: "nat \<Rightarrow> worker \<Rightarrow> worker" where
  "with_concurrency n wk = wk\<lparr>worker_config := (worker_config wk)\<lparr>concurrency := max n 1\<rparr>\<rparr>"

definition with_max_retries :: "u32 \<Rightarrow> worker \<Rightarrow> worker" where
  "with_max_retries n wk = wk\<lparr>worker_config := (worker_config wk)\<lparr>jc_max_retries := n\<rparr>\<rparr>"

definition with_timeout :: "duration \<Rightarrow> worker \<Rightarrow> worker" where
  "with_timeout d wk = wk\<lparr>worker_config := (worker_config wk)\<lparr>jc_timeout := d\<rparr>\<rparr>"

section \<open>One job with retries\<close>

text \<open>\<open>Duration::saturating_mul\<close> with the largest duration of the standard library.\<close>

definition duration_max :: duration where
  "duration_max = (2 ^ 64 - 1) * 10 ^ 9 + 999999999"

definition duration_saturating_mul :: "duration \<Rightarrow> u32 \<Rightarrow> duration" where
  "duration_saturating_mul d m = min (d * unat m) duration_max"

definition job_delay :: "duration \<Rightarrow> u32 \<Rightarrow> duration" where
  "job_delay backoff attempt =
     (let mult = (if 31 \<le> attempt then - 1 else push_bit (unat attempt) 1)
      in min (duration_saturating_mul backoff mult) (from_secs 60))"

fun execute_with_retry_loop ::
  "duration \<Rightarrow> nat \<Rightarrow> nat \<Rightarrow> nat \<Rightarrow> ('w \<Rightarrow> unit rszero_result \<times> 'w) \<Rightarrow> rszero_error option \<Rightarrow> 'w
   \<Rightarrow> unit rszero_result \<times> 'w \<times> duration list" where
  "execute_with_retry_loop backoff mx attempt 0 f last_error w =
     (Err (case last_error of Some e \<Rightarrow> e | None \<Rightarrow> Internal ''all retries exhausted'' None), w, [])"
| "execute_with_retry_loop backoff mx attempt (Suc iters) f last_error w =
     (case f w of
        (Inr _, w') \<Rightarrow> (Ok (), w', [])
      | (Inl e, w') \<Rightarrow>
          let slept = (if attempt < mx then [job_delay backoff (word_of_nat attempt)] else []);
              (r, w'', ds) = execute_with_retry_loop backoff mx (Suc attempt) iters f (Some e) w'
          in (r, w'', slept @ ds))"

definition execute_with_retry ::
  "('w \<Rightarrow> unit rszero_result \<times> 'w) \<Rightarrow> u32 \<Rightarrow> duration \<Rightarrow> 'w \<Rightarrow> unit rszero_result \<times> 'w \<times> duration list" where
  "execute_with_retry f max_retries backoff w =
     execute_with_retry_loop backoff (unat max_retries) 0 (Suc (unat max_retries)) f None w"

interpretation job: remembering_loop f "\<lambda>a. job_delay b (word_of_nat a)"
  "\<lambda>mx a n le w. execute_with_retry_loop b mx a n f le w" "\<lambda>r. r" for f b
  by unfold_locales simp_all

section \<open>The worker loop\<close>

datatype job_result = JobOk | JobFailed rszero_error | JobTimedOut

text \<open>
  \<open>inbox\<close> is the channel the loop receives from, \<open>holding\<close> the message received and not yet spawned,
  \<open>running\<close> the spawned jobs, each with its permit, \<open>dlq\<close> the dead-letter channel.  The last four
  components are history: the messages sent, processed, taken from the dead-letter channel, and lost.
\<close>

record 'm run_state =
  inbox :: "'m list"
  inbox_closed :: bool
  holding :: "'m option"
  running :: "'m multiset"
  dlq :: "'m list"
  loop_done :: bool
  returned :: bool
  sent :: "'m multiset"
  processed :: "'m multiset"
  dead_taken :: "'m multiset"
  lost :: "'m multiset"

definition run_init :: "'m run_state" where
  "run_init = \<lparr>inbox = [], inbox_closed = False, holding = None, running = {#}, dlq = [],
     loop_done = False, returned = False, sent = {#}, processed = {#}, dead_taken = {#}, lost = {#}\<rparr>"

text \<open>The end of a spawned job; \<open>try_send\<close> on a full dead-letter channel drops the message.\<close>

definition job_end :: "worker \<Rightarrow> 'm \<Rightarrow> job_result \<Rightarrow> 'm run_state \<Rightarrow> 'm run_state" where
  "job_end wk m r s =
     (let s' = s\<lparr>running := running s - {#m#}\<rparr>
      in case r of
           JobOk \<Rightarrow> s'\<lparr>processed := add_mset m (processed s)\<rparr>
         | _ \<Rightarrow> (case dlq_tx wk of
                  Some cap \<Rightarrow> if length (dlq s) < cap then s'\<lparr>dlq := dlq s @ [m]\<rparr>
                              else s'\<lparr>lost := add_mset m (lost s)\<rparr>
                | None \<Rightarrow> s'\<lparr>lost := add_mset m (lost s)\<rparr>))"

datatype 'm run_event = Send 'm | CloseInbox | Receive | Spawn | JobEnd 'm job_result
  | DlqTake | LoopExit | Return

inductive run_step :: "worker \<Rightarrow> 'm run_state \<Rightarrow> 'm run_event \<Rightarrow> 'm run_state \<Rightarrow> bool"
  for wk where
  send: "\<not> inbox_closed s \<Longrightarrow>
    run_step wk s (Send m) (s\<lparr>inbox := inbox s @ [m], sent := add_mset m (sent s)\<rparr>)"
| close: "run_step wk s CloseInbox (s\<lparr>inbox_closed := True\<rparr>)"
| receive: "\<not> loop_done s \<Longrightarrow> holding s = None \<Longrightarrow> inbox s = m # ms \<Longrightarrow>
    run_step wk s Receive (s\<lparr>inbox := ms, holding := Some m\<rparr>)"
| spawn: "holding s = Some m \<Longrightarrow> size (running s) < concurrency (worker_config wk) \<Longrightarrow>
    run_step wk s Spawn (s\<lparr>holding := None, running := add_mset m (running s)\<rparr>)"
| job_end: "m \<in># running s \<Longrightarrow> run_step wk s (JobEnd m r) (job_end wk m r s)"
| dlq_take: "dlq s = m # ms \<Longrightarrow>
    run_step wk s DlqTake (s\<lparr>dlq := ms, dead_taken := add_mset m (dead_taken s)\<rparr>)"
| loop_exit: "\<not> loop_done s \<Longrightarrow> holding s = None \<Longrightarrow> inbox s = [] \<Longrightarrow> inbox_closed s \<Longrightarrow>
    run_step wk s LoopExit (s\<lparr>loop_done := True\<rparr>)"
| return: "loop_done s \<Longrightarrow> \<not> returned s \<Longrightarrow> running s = {#} \<Longrightarrow>
    run_step wk s Return (s\<lparr>returned := True\<rparr>)"

inductive_cases run_stepE: "run_step wk s e t"

text \<open>Every message is in exactly one place, the semaphore bounds the jobs, and draining is orderly.\<close>

definition conserved :: "'m run_state \<Rightarrow> bool" where
  "conserved s \<longleftrightarrow>
     mset (inbox s) + mset_set (set_option (holding s)) + running s + processed s + mset (dlq s)
       + dead_taken s + lost s = sent s"

definition dlq_ok :: "worker \<Rightarrow> 'm run_state \<Rightarrow> bool" where
  "dlq_ok wk s \<longleftrightarrow>
     (case dlq_tx wk of
        None \<Rightarrow> dlq s = [] \<and> dead_taken s = {#}
      | Some cap \<Rightarrow> length (dlq s) \<le> cap \<and> (lost s = {#} \<or> cap < size (sent s)))"

definition draining_ok :: "'m run_state \<Rightarrow> bool" where
  "draining_ok s \<longleftrightarrow>
     (loop_done s \<longrightarrow> inbox s = [] \<and> holding s = None \<and> inbox_closed s)
   \<and> (returned s \<longrightarrow> loop_done s \<and> running s = {#})"

definition run_inv :: "worker \<Rightarrow> 'm run_state \<Rightarrow> bool" where
  "run_inv wk s \<longleftrightarrow> conserved s \<and> dlq_ok wk s \<and> draining_ok s
     \<and> size (running s) \<le> concurrency (worker_config wk)"

lemma conserved_size: "conserved s \<Longrightarrow> size (running s) + length (dlq s) \<le> size (sent s)"
proof -
  assume "conserved s"
  then have "size (sent s) = size (mset (inbox s) + mset_set (set_option (holding s)) + running s
      + processed s + mset (dlq s) + dead_taken s + lost s)" by (simp add: conserved_def)
  then show ?thesis by simp
qed

lemma conserved_step: "conserved s \<Longrightarrow> run_step wk s e t \<Longrightarrow> conserved t"
proof (erule run_stepE, goal_cases)
  case (5 m r)
  then obtain R where "running s = add_mset m R" by (metis mset_add)
  with 5 show ?case
    by (cases r; cases "dlq_tx wk") (simp_all add: conserved_def job_end_def Let_def)
qed (simp_all add: conserved_def)

lemma dlq_ok_step:
  assumes "conserved s" and "dlq_ok wk s" and "run_step wk s e t"
  shows "dlq_ok wk t"
  using assms(3)
proof (cases rule: run_step.cases)
  case (job_end m r)
  then have "0 < size (running s)" by (metis multi_member_this nonempty_has_size empty_iff set_mset_empty)
  with conserved_size [OF assms(1)] have "length (dlq s) < size (sent s)" by simp
  with job_end assms(2) show ?thesis
    by (cases r; cases "dlq_tx wk") (auto simp: dlq_ok_def job_end_def Let_def)
qed (use assms(2) in \<open>auto simp: dlq_ok_def split: option.splits\<close>)

lemma job_end_same [simp]:
  "inbox (job_end wk m r s) = inbox s" "holding (job_end wk m r s) = holding s"
  "inbox_closed (job_end wk m r s) = inbox_closed s" "loop_done (job_end wk m r s) = loop_done s"
  "returned (job_end wk m r s) = returned s" "running (job_end wk m r s) = running s - {#m#}"
  by (cases r; cases "dlq_tx wk"; simp add: job_end_def Let_def)+

lemma draining_ok_step: "draining_ok s \<Longrightarrow> run_step wk s e t \<Longrightarrow> draining_ok t"
  by (erule run_stepE) (auto simp: draining_ok_def)

lemma running_step:
  "size (running s) \<le> n \<Longrightarrow> n = concurrency (worker_config wk) \<Longrightarrow> run_step wk s e t \<Longrightarrow> size (running t) \<le> n"
  by (erule run_stepE) (auto simp: size_Diff_singleton)

lemma run_step_inv: "run_inv wk s \<Longrightarrow> run_step wk s e t \<Longrightarrow> run_inv wk t"
  unfolding run_inv_def using conserved_step dlq_ok_step draining_ok_step running_step by blast

interpretation wk: inductive_invariant "\<lambda>s. s = run_init" "run_step w" "run_inv w" for w
proof unfold_locales
  show "s = run_init \<Longrightarrow> run_inv w s" for s
    by (simp add: run_inv_def conserved_def dlq_ok_def draining_ok_def run_init_def split: option.splits)
qed (rule run_step_inv)

section \<open>Shutdown\<close>

definition worker_event :: "'m run_event \<Rightarrow> bool" where
  "worker_event e \<longleftrightarrow> (case e of Receive \<Rightarrow> True | Spawn \<Rightarrow> True | JobEnd _ _ \<Rightarrow> True | LoopExit \<Rightarrow> True
     | Return \<Rightarrow> True | _ \<Rightarrow> False)"

definition drain_measure :: "'m run_state \<Rightarrow> nat" where
  "drain_measure s = 3 * length (inbox s) + (if holding s = None then 0 else 2) + size (running s)
     + (if loop_done s then 0 else 1) + (if returned s then 0 else 1)"

lemma worker_event_decreases:
  "run_step wk s e t \<Longrightarrow> worker_event e \<Longrightarrow> drain_measure t < drain_measure s"
proof (erule run_stepE, goal_cases)
  case (5 m r)
  then have "size (running s - {#m#}) < size (running s)" by (simp add: size_Diff1_less)
  with 5 show ?case by (simp add: drain_measure_def)
qed (simp_all add: worker_event_def drain_measure_def)

lemma worker_steps_bounded:
  "run (run_step wk) s es t \<Longrightarrow> list_all worker_event es \<Longrightarrow> length es + drain_measure t \<le> drain_measure s"
proof (induction es arbitrary: s)
  case (Cons e es)
  then obtain u where u: "run_step wk s e u" "run (run_step wk) u es t" by auto
  with Cons.prems(2) have "drain_measure u < drain_measure s" by (auto intro: worker_event_decreases)
  with Cons.IH [OF u(2)] Cons.prems(2) show ?case by simp
qed simp

lemma worker_progress:
  assumes "run_inv wk s" and "inbox_closed s" and "0 < concurrency (worker_config wk)" and "\<not> returned s"
  shows "\<exists>e t. worker_event e \<and> run_step wk s e t \<and> inbox_closed t"
proof -
  have prog: "worker_event e \<Longrightarrow> run_step wk s e t \<Longrightarrow> inbox_closed t \<Longrightarrow> ?thesis" for e t by blast
  note ev = worker_event_def
  show ?thesis
  proof (cases "running s = {#}")
    case False
    then obtain m where "m \<in># running s" by (meson multiset_nonemptyE)
    then show ?thesis
      by - (rule prog [OF _ run_step.job_end [of m s wk JobOk]], use assms(2) in \<open>simp_all add: ev\<close>)
  next
    case idle: True
    consider "loop_done s" | m where "\<not> loop_done s" "holding s = Some m"
      | m ms where "\<not> loop_done s" "holding s = None" "inbox s = m # ms"
      | "\<not> loop_done s" "holding s = None" "inbox s = []"
      by (metis list.exhaust option.exhaust)
    then show ?thesis
    proof cases
      case 1
      then show ?thesis by - (rule prog [OF _ run_step.return], use assms idle in \<open>simp_all add: ev\<close>)
    next
      case 2
      then show ?thesis by - (rule prog [OF _ run_step.spawn], use assms idle in \<open>simp_all add: ev\<close>)
    next
      case 3
      then show ?thesis by - (rule prog [OF _ run_step.receive], use assms in \<open>simp_all add: ev\<close>)
    next
      case 4
      then show ?thesis by - (rule prog [OF _ run_step.loop_exit], use assms in \<open>simp_all add: ev\<close>)
    qed
  qed
qed

lemma worker_drains:
  assumes "run_inv wk s" and "inbox_closed s" and "0 < concurrency (worker_config wk)"
  shows "\<exists>es t. list_all worker_event es \<and> run (run_step wk) s es t \<and> returned t"
  using assms
proof (induction "drain_measure s" arbitrary: s rule: less_induct)
  case less
  show ?case
  proof (cases "returned s")
    case True
    then show ?thesis by (intro exI [of _ "[]"] exI [of _ s]) simp
  next
    case False
    obtain e u where e: "worker_event e" "run_step wk s e u" "inbox_closed u"
      using worker_progress [OF less.prems False] by blast
    then obtain es t where "list_all worker_event es" "run (run_step wk) u es t" "returned t"
      using less.hyps [OF worker_event_decreases [OF e(2,1)]] run_step_inv [OF less.prems(1) e(2)] less.prems(3)
      by blast
    with e show ?thesis by (intro exI [of _ "e # es"] exI [of _ t]) auto
  qed
qed

section \<open>Properties\<close>

lemma unat_pow2: "n < 32 \<Longrightarrow> unat (2 ^ n :: u32) = 2 ^ n"
proof -
  assume "n < 32"
  then have "(2::nat) ^ n < 2 ^ 32" by (rule power_strict_increasing) simp
  then have "take_bit 32 ((2::nat) ^ n) = 2 ^ n" by (rule take_bit_nat_eq_self)
  moreover have "unat (word_of_nat (2 ^ n) :: u32) = take_bit 32 (2 ^ n)" by (simp only: unsigned_of_nat) simp
  ultimately show ?thesis by simp
qed

lemma unat_word_of_nat_small: "n < 32 \<Longrightarrow> unat (word_of_nat n :: u32) = n"
  by (simp add: unsigned_of_nat take_bit_nat_eq_self)

text \<open>
  A job is tried until it first succeeds, at most \<open>max_retries + 1\<close> times, and its result is that
  of the last attempt, never the placeholder error; the sleep after failed attempt \<open>a\<close> doubles the
  backoff \<open>a\<close> times without overflow while \<open>a < 31\<close>, and no sleep is longer than a minute.
\<close>

theorem execute_with_retry_contract:
  "\<exists>k. stops_at f (unat max_retries) w k
     \<and> (\<exists>ds. execute_with_retry f max_retries backoff w = (op_result f k w, op_world f (Suc k) w, ds)
          \<and> length ds = k \<and> list_all (\<lambda>d. d \<le> from_secs 60) ds
          \<and> take 31 ds = take 31 (map (\<lambda>a. min (backoff * 2 ^ a) (from_secs 60)) [0..<k]))"
proof -
  obtain k where k: "stops_at f (unat max_retries) w k"
    "execute_with_retry f max_retries backoff w =
      (op_result f k w, op_world f (Suc k) w, map (\<lambda>a. job_delay backoff (word_of_nat a)) [0..<k])"
    using job.run_stops [where f = f and w = w and n = "unat max_retries" and b = backoff, OF order_refl]
    by (auto simp: execute_with_retry_def simp del: execute_with_retry_loop.simps)
  have "job_delay backoff (word_of_nat a) = min (backoff * 2 ^ a) (from_secs 60)" if "a < 31" for a
  proof -
    have "\<not> (31::u32) \<le> word_of_nat a" using that by (simp add: word_le_nat_alt unat_word_of_nat_small)
    with that have "job_delay backoff (word_of_nat a) = min (min (backoff * 2 ^ a) duration_max) (from_secs 60)"
      by (simp add: job_delay_def duration_saturating_mul_def unat_word_of_nat_small unat_pow2 push_bit_eq_mult)
    then show ?thesis by (simp add: duration_max_def from_secs_def)
  qed
  moreover have "job_delay backoff a \<le> from_secs 60" for a by (simp add: job_delay_def Let_def)
  moreover have "set (take 31 [0..<k]) \<subseteq> {0..<31}" by (cases "31 \<le> k") auto
  ultimately show ?thesis using k
    by (intro exI [of _ k] conjI exI [of _ "map (\<lambda>a. job_delay backoff (word_of_nat a)) [0..<k]"])
      (auto simp: list_all_iff take_map)
qed


text \<open>
  A worker shuts down: once its inbox is closed, however its jobs end and interleave, it makes at
  most a fixed number of further steps, and it can always go on until \<open>run\<close> has returned.
\<close>

theorem worker_shutdown:
  assumes "reach (\<lambda>s. s = run_init) (run_step wk) s" and "inbox_closed s"
    and "0 < concurrency (worker_config wk)"
  shows "(\<exists>es t. list_all worker_event es \<and> run (run_step wk) s es t \<and> returned t)
    \<and> (\<forall>es t. list_all worker_event es \<and> run (run_step wk) s es t \<longrightarrow>
        length es \<le> 3 * length (inbox s) + 2 + size (running s) + 2)"
proof
  show "\<exists>es t. list_all worker_event es \<and> run (run_step wk) s es t \<and> returned t"
    using worker_drains [OF wk.reach_inv [OF assms(1)] assms(2,3)] .
  have "drain_measure s \<le> 3 * length (inbox s) + 2 + size (running s) + 2"
    by (simp add: drain_measure_def)
  with worker_steps_bounded show "\<forall>es t. list_all worker_event es \<and> run (run_step wk) s es t \<longrightarrow>
      length es \<le> 3 * length (inbox s) + 2 + size (running s) + 2"
    by (meson add_leD1 order_trans)
qed

definition wit_worker :: worker where
  "wit_worker = with_dlq 0 (with_concurrency 0 (worker_new ''jobs''))"

lemma wit_run:
  "run (run_step wit_worker) run_init [Send (7::nat), Receive, Spawn, JobEnd 7 JobTimedOut, Send 8, CloseInbox]
     (run_init\<lparr>inbox := [8], inbox_closed := True, sent := {#7, 8#}, lost := {#7#}\<rparr>)"
  by (intro run_Cons run_Nil)
    (simp add: run_step.simps; simp add: run_init_def wit_worker_def with_dlq_def with_concurrency_def worker_new_def job_end_def job_config_default_def)+


theorem worker_shutdown_witness:
  "\<exists>es t. run (run_step wit_worker)
     (run_init\<lparr>inbox := [8::nat], inbox_closed := True, sent := {#7, 8#}, lost := {#7#}\<rparr>) es t \<and> returned t"
proof -
  let ?s = "run_init\<lparr>inbox := [8::nat], inbox_closed := True, sent := {#7, 8#}, lost := {#7#}\<rparr>"
  have "reach (\<lambda>s. s = run_init) (run_step wit_worker) ?s"
    using wit_run by (rule reach_run [rotated]) (rule reach_init, rule refl)
  from worker_shutdown [OF this] show ?thesis
    by (auto simp: wit_worker_def with_dlq_def with_concurrency_def worker_new_def)
qed

end
