(* ===== verification/Message_Queue.thy ===== *)
theory Message_Queue
  imports Errors
begin

text \<open>
  The message queue (\<open>rszero/src/queue/mod.rs\<close>): the envelope, the choice of a backend, and the
  backends.  What a client of the trait \<open>QueueBackend\<close> relies on is the locale \<open>queue_backend\<close>, a
  first-in first-out queue per topic; the in-memory backend is its interpretation, and the Redis LIST
  backend satisfies it under the documented behaviour of the LPUSH, RPOP and LLEN commands.
  Serialisation, the Redis client, the AMQP client and random identifiers are parameters.
\<close>

section \<open>Envelope\<close>

record message =
  msg_topic :: string
  msg_payload :: string
  msg_headers :: "string \<rightharpoonup> string"
  msg_id :: string

definition message_new ::
  "('t \<Rightarrow> (string, string) result) \<Rightarrow> string \<Rightarrow> string \<Rightarrow> 't \<Rightarrow> message rszero_result" where
  "message_new to_json uuid tpc pl =
     (case to_json pl of
        Inl e \<Rightarrow> Err (Queue e None)
      | Inr j \<Rightarrow> Ok \<lparr>msg_topic = tpc, msg_payload = j, msg_headers = Map.empty, msg_id = uuid\<rparr>)"

definition message_payload :: "(string \<Rightarrow> (string, 't) result) \<Rightarrow> message \<Rightarrow> 't rszero_result" where
  "message_payload of_json m =
     (case of_json (msg_payload m) of Inl e \<Rightarrow> Err (Queue e None) | Inr v \<Rightarrow> Ok v)"

section \<open>The backend contract\<close>

text \<open>The operations a client issues and their results, and the queue they should act on.\<close>

datatype queue_op = Publish message | Consume string | Pending string

datatype queue_res = Published | Consumed "message option" | PendingCount nat

fun fifo_op :: "queue_op \<Rightarrow> (string \<Rightarrow> message list) \<Rightarrow> queue_res \<times> (string \<Rightarrow> message list)" where
  "fifo_op (Publish m) q = (Published, q(msg_topic m := q (msg_topic m) @ [m]))"
| "fifo_op (Consume t) q =
     (case q t of [] \<Rightarrow> (Consumed None, q) | m # ms \<Rightarrow> (Consumed (Some m), q(t := ms)))"
| "fifo_op (Pending t) q = (PendingCount (length (q t)), q)"

fun fifo_run :: "queue_op list \<Rightarrow> (string \<Rightarrow> message list) \<Rightarrow> queue_res list \<times> (string \<Rightarrow> message list)" where
  "fifo_run [] q = ([], q)"
| "fifo_run (p # ps) q = (let (r, q') = fifo_op p q; (rs, q'') = fifo_run ps q' in (r # rs, q''))"

text \<open>The same operations on a backend, up to the first error.\<close>

fun backend_op ::
  "(message \<Rightarrow> 's \<Rightarrow> unit rszero_result \<times> 's) \<Rightarrow> (string \<Rightarrow> 's \<Rightarrow> message option rszero_result \<times> 's)
   \<Rightarrow> (string \<Rightarrow> 's \<Rightarrow> nat rszero_result \<times> 's) \<Rightarrow> queue_op \<Rightarrow> 's \<Rightarrow> queue_res rszero_result \<times> 's" where
  "backend_op pub con pen (Publish m) s = (case pub m s of (r, s') \<Rightarrow> (map_sum id (\<lambda>_. Published) r, s'))"
| "backend_op pub con pen (Consume t) s = (case con t s of (r, s') \<Rightarrow> (map_sum id Consumed r, s'))"
| "backend_op pub con pen (Pending t) s = (case pen t s of (r, s') \<Rightarrow> (map_sum id PendingCount r, s'))"

fun backend_run ::
  "(message \<Rightarrow> 's \<Rightarrow> unit rszero_result \<times> 's) \<Rightarrow> (string \<Rightarrow> 's \<Rightarrow> message option rszero_result \<times> 's)
   \<Rightarrow> (string \<Rightarrow> 's \<Rightarrow> nat rszero_result \<times> 's) \<Rightarrow> queue_op list \<Rightarrow> 's \<Rightarrow> queue_res list rszero_result \<times> 's" where
  "backend_run pub con pen [] s = (Ok [], s)"
| "backend_run pub con pen (p # ps) s =
     (case backend_op pub con pen p s of
        (Inl e, s') \<Rightarrow> (Err e, s')
      | (Inr r, s') \<Rightarrow> (case backend_run pub con pen ps s' of (rs, s'') \<Rightarrow> (map_sum id (\<lambda>l. r # l) rs, s'')))"

locale queue_backend =
  fixes pub :: "message \<Rightarrow> 's \<Rightarrow> unit rszero_result \<times> 's"
    and con :: "string \<Rightarrow> 's \<Rightarrow> message option rszero_result \<times> 's"
    and pen :: "string \<Rightarrow> 's \<Rightarrow> nat rszero_result \<times> 's"
    and contents :: "'s \<Rightarrow> string \<Rightarrow> message list"
  assumes pub_ok: "pub m s = (Inr u, s') \<Longrightarrow>
      contents s' = (contents s)(msg_topic m := contents s (msg_topic m) @ [m])"
    and con_ok: "con t s = (Inr r, s') \<Longrightarrow>
      (case contents s t of [] \<Rightarrow> r = None \<and> contents s' = contents s
       | m # ms \<Rightarrow> r = Some m \<and> contents s' = (contents s)(t := ms))"
    and pen_ok: "pen t s = (Inr n, s') \<Longrightarrow> n = length (contents s t) \<and> contents s' = contents s"
begin

lemma backend_op_refines:
  "backend_op pub con pen p s = (Inr r, s') \<Longrightarrow> fifo_op p (contents s) = (r, contents s')"
proof (cases p)
  case (Publish m)
  assume "backend_op pub con pen p s = (Inr r, s')"
  then show ?thesis using pub_ok by (auto simp: Publish map_sum_def split: prod.splits sum.splits)
next
  case (Consume t)
  assume "backend_op pub con pen p s = (Inr r, s')"
  then obtain x where "con t s = (Inr x, s')" "r = Consumed x"
    by (auto simp: Consume map_sum_def split: prod.splits sum.splits)
  then show ?thesis using con_ok [of t s x s'] by (auto simp: Consume split: list.splits)
next
  case (Pending t)
  assume "backend_op pub con pen p s = (Inr r, s')"
  then show ?thesis using pen_ok by (auto simp: Pending map_sum_def split: prod.splits sum.splits)
qed

lemma backend_run_refines:
  "backend_run pub con pen ps s = (Inr rs, s') \<Longrightarrow> fifo_run ps (contents s) = (rs, contents s')"
proof (induction ps arbitrary: s rs)
  case (Cons p ps)
  obtain r s1 rest where p: "backend_op pub con pen p s = (Inr r, s1)"
    and rest: "backend_run pub con pen ps s1 = (Inr rest, s')" and rs: "rs = r # rest"
    using Cons.prems by (auto simp: map_sum_def split: prod.splits sum.splits)
  from backend_op_refines [OF p] Cons.IH [OF rest] rs show ?case by simp
qed simp

end

section \<open>The memory backend\<close>

type_synonym memory_backend = "string \<rightharpoonup> message list"

definition memory_new :: memory_backend where
  "memory_new = Map.empty"

definition memory_publish :: "message \<Rightarrow> memory_backend \<Rightarrow> unit rszero_result \<times> memory_backend" where
  "memory_publish m s =
     (Ok (), s(msg_topic m \<mapsto> (case s (msg_topic m) of None \<Rightarrow> [] | Some q \<Rightarrow> q) @ [m]))"

definition memory_consume :: "string \<Rightarrow> memory_backend \<Rightarrow> message option rszero_result \<times> memory_backend" where
  "memory_consume t s =
     (case s t of
        None \<Rightarrow> (Ok None, s)
      | Some [] \<Rightarrow> (Ok None, s)
      | Some (m # q) \<Rightarrow> (Ok (Some m), s(t \<mapsto> q)))"

definition memory_pending :: "string \<Rightarrow> memory_backend \<Rightarrow> nat rszero_result \<times> memory_backend" where
  "memory_pending t s = (Ok (case s t of None \<Rightarrow> 0 | Some q \<Rightarrow> length q), s)"

definition memory_ack :: "string \<Rightarrow> memory_backend \<Rightarrow> unit rszero_result \<times> memory_backend" where
  "memory_ack i s = (Ok (), s)"

definition memory_nack :: "string \<Rightarrow> bool \<Rightarrow> memory_backend \<Rightarrow> unit rszero_result \<times> memory_backend" where
  "memory_nack i requeue s = (Ok (), s)"

definition memory_contents :: "memory_backend \<Rightarrow> string \<Rightarrow> message list" where
  "memory_contents s t = (case s t of None \<Rightarrow> [] | Some q \<Rightarrow> q)"

interpretation mem: queue_backend memory_publish memory_consume memory_pending memory_contents
proof unfold_locales
  fix m s u s'
  assume "memory_publish m s = (Inr u, s')"
  then have "s' = s(msg_topic m \<mapsto> memory_contents s (msg_topic m) @ [m])"
    by (simp add: memory_publish_def memory_contents_def)
  then show "memory_contents s' = (memory_contents s)(msg_topic m := memory_contents s (msg_topic m) @ [m])"
    by (auto simp: memory_contents_def)
next
  fix t s r s'
  assume "memory_consume t s = (Inr r, s')"
  then show "case memory_contents s t of [] \<Rightarrow> r = None \<and> memory_contents s' = memory_contents s
      | m # ms \<Rightarrow> r = Some m \<and> memory_contents s' = (memory_contents s)(t := ms)"
    by (auto simp: memory_consume_def memory_contents_def split: option.splits list.splits)
qed (auto simp: memory_pending_def memory_contents_def split: option.splits)

lemma memory_run_ok: "\<exists>rs s'. backend_run memory_publish memory_consume memory_pending ps s = (Ok rs, s')"
proof (induction ps arbitrary: s)
  case (Cons p ps)
  have "\<exists>r s1. backend_op memory_publish memory_consume memory_pending p s = (Ok r, s1)"
    by (cases p) (auto simp: memory_publish_def memory_consume_def memory_pending_def split: option.splits list.splits)
  then obtain r s1 where 1: "backend_op memory_publish memory_consume memory_pending p s = (Ok r, s1)"
    by blast
  obtain rs s2 where 2: "backend_run memory_publish memory_consume memory_pending ps s1 = (Ok rs, s2)"
    using Cons.IH by blast
  show ?case by (simp add: 1 2)
qed simp

section \<open>The Redis LIST backend\<close>

text \<open>Replies of the client; the other kinds of values are \<open>ROther\<close>.\<close>

datatype redis_value = RString string | RInteger int | RNull | RArray "redis_value list" | ROther

type_synonym 's redis_reply = "(string, redis_value) result \<times> 's"

definition queue_key :: "string \<Rightarrow> string" where
  "queue_key t = ''rszero:queue:'' @ t"

fun value_to_string :: "redis_value \<Rightarrow> string option" where
  "value_to_string (RString s) = Some s"
| "value_to_string _ = None"

fun value_to_i64 :: "redis_value \<Rightarrow> int" where
  "value_to_i64 (RInteger i) = i"
| "value_to_i64 _ = 0"

definition redis_publish ::
  "(message \<Rightarrow> (string, string) result) \<Rightarrow> (string \<Rightarrow> string \<Rightarrow> 's \<Rightarrow> 's redis_reply)
   \<Rightarrow> message \<Rightarrow> 's \<Rightarrow> unit rszero_result \<times> 's" where
  "redis_publish enc lpush m s =
     (case enc m of
        Inl e \<Rightarrow> (Err (Queue e None), s)
      | Inr json \<Rightarrow>
          (case lpush (queue_key (msg_topic m)) json s of
             (Inl e, s') \<Rightarrow> (Err (Queue (''redis lpush failed: '' @ e) None), s')
           | (Inr _, s') \<Rightarrow> (Ok (), s')))"

definition redis_consume ::
  "(string \<Rightarrow> (string, message) result) \<Rightarrow> (string \<Rightarrow> 's \<Rightarrow> 's redis_reply)
   \<Rightarrow> string \<Rightarrow> 's \<Rightarrow> message option rszero_result \<times> 's" where
  "redis_consume dec rpop t s =
     (case rpop (queue_key t) s of
        (Inl e, s') \<Rightarrow> (Err (Queue (''redis rpop failed: '' @ e) None), s')
      | (Inr val, s') \<Rightarrow>
          (case value_to_string val of
             Some json \<Rightarrow>
               (case dec json of
                  Inl e \<Rightarrow> (Err (Queue (''deserialize failed: '' @ e) None), s')
                | Inr m \<Rightarrow> (Ok (Some m), s'))
           | None \<Rightarrow> (Ok None, s')))"

text \<open>The cast \<open>as usize\<close> of a non-negative length is the length.\<close>

definition redis_pending ::
  "(string \<Rightarrow> 's \<Rightarrow> 's redis_reply) \<Rightarrow> string \<Rightarrow> 's \<Rightarrow> nat rszero_result \<times> 's" where
  "redis_pending llen t s =
     (case llen (queue_key t) s of
        (Inl e, s') \<Rightarrow> (Err (Queue (''redis llen failed: '' @ e) None), s')
      | (Inr val, s') \<Rightarrow> (Ok (nat (value_to_i64 val mod 2 ^ 64)), s'))"

text \<open>
  One round of the consumer task: the reply of \<open>brpop\<close>, the handler's verdict on the message, and a
  message that failed pushed again.
\<close>

definition redis_subscribe_round ::
  "(message \<Rightarrow> (string, string) result) \<Rightarrow> (string \<Rightarrow> (string, message) result)
   \<Rightarrow> (string \<Rightarrow> string \<Rightarrow> 's \<Rightarrow> 's redis_reply) \<Rightarrow> (string \<Rightarrow> 's \<Rightarrow> 's redis_reply)
   \<Rightarrow> (message \<Rightarrow> unit rszero_result) \<Rightarrow> string \<Rightarrow> 's \<Rightarrow> message option \<times> 's" where
  "redis_subscribe_round enc dec lpush brpop hdl t s =
     (case brpop (queue_key t) s of
        (Inr (RArray (k # RString json # _)), s') \<Rightarrow>
          (case dec json of
             Inr m \<Rightarrow>
               (case hdl m of
                  Inl e \<Rightarrow>
                    (Some m, snd (lpush (queue_key t) (case enc m of Inr j \<Rightarrow> j | Inl _ \<Rightarrow> []) s'))
                | Inr _ \<Rightarrow> (Some m, s'))
           | Inl _ \<Rightarrow> (None, s'))
      | (_, s') \<Rightarrow> (None, s'))"

definition redis_contents ::
  "(string \<Rightarrow> (string, message) result) \<Rightarrow> ('s \<Rightarrow> string \<Rightarrow> string list) \<Rightarrow> 's \<Rightarrow> string \<Rightarrow> message list" where
  "redis_contents dec lsts s t = map (\<lambda>j. projr (dec j)) (rev (lsts s (queue_key t)))"

lemma queue_key_eq [simp]: "queue_key t = queue_key u \<longleftrightarrow> t = u"
  by (simp add: queue_key_def)

section \<open>The choice of a backend\<close>

record queue_config =
  kind :: string
  url :: string
  group :: "string option"

datatype ('r, 'l, 'x) backend_choice = RabbitMq 'r | RedisList 'l | RedisStreams 'x | MemoryQ memory_backend

text \<open>The connecting constructors are parameters, run with the URL and, for streams, the group.\<close>

definition queue_new ::
  "(string \<Rightarrow> 'r rszero_result) \<Rightarrow> (string \<Rightarrow> 'l rszero_result) \<Rightarrow> (string \<Rightarrow> string option \<Rightarrow> 'x rszero_result)
   \<Rightarrow> queue_config \<Rightarrow> ('r, 'l, 'x) backend_choice rszero_result" where
  "queue_new rabbit redis streams c =
     (if kind c = ''rabbitmq'' then
        if url c = [] then Err (Queue ''rabbitmq URL is empty'' None)
        else map_sum id RabbitMq (rabbit (url c))
      else if kind c = ''redis'' then
        if url c = [] then Err (Queue ''redis URL is empty'' None)
        else map_sum id RedisList (redis (url c))
      else if kind c = ''redis-streams'' then
        if url c = [] then Err (Queue ''redis URL is empty'' None)
        else map_sum id RedisStreams (streams (url c) (group c))
      else Ok (MemoryQ memory_new))"

text \<open>\<open>Queue::push\<close> builds the envelope and publishes it.\<close>

definition queue_push ::
  "('t \<Rightarrow> (string, string) result) \<Rightarrow> string \<Rightarrow> (message \<Rightarrow> 's \<Rightarrow> unit rszero_result \<times> 's) \<Rightarrow> string \<Rightarrow> 't \<Rightarrow> 's
   \<Rightarrow> unit rszero_result \<times> 's" where
  "queue_push to_json uuid pub tpc pl s =
     (case message_new to_json uuid tpc pl of
        Inl e \<Rightarrow> (Err e, s)
      | Inr m \<Rightarrow> pub m s)"

text \<open>
  The connecting of \<open>RedisBackend::new\<close> with its two error branches, and the operations that the list has no use for.
  The client library is its configuration from a URL, its connecting, and its quitting.
\<close>

definition redis_backend_new ::
  "(string \<Rightarrow> (string, 'c) result) \<Rightarrow> ('c \<Rightarrow> (string, 's) result) \<Rightarrow> string \<Rightarrow> 's rszero_result" where
  "redis_backend_new from_url connect u =
     (case from_url u of
        Inl e \<Rightarrow> Err (Queue (''redis config failed: '' @ e) None)
      | Inr c \<Rightarrow> (case connect c of Inl e \<Rightarrow> Err (Queue (''redis connect failed: '' @ e) None) | Inr s \<Rightarrow> Ok s))"

definition redis_ack :: "string \<Rightarrow> 's \<Rightarrow> unit rszero_result \<times> 's" where
  "redis_ack i s = (Ok (), s)"

definition redis_nack :: "string \<Rightarrow> bool \<Rightarrow> 's \<Rightarrow> unit rszero_result \<times> 's" where
  "redis_nack i requeue s = (Ok (), s)"

definition redis_close :: "('s \<Rightarrow> (string, unit) result \<times> 's) \<Rightarrow> 's \<Rightarrow> unit rszero_result \<times> 's" where
  "redis_close quit s =
     (case quit s of (Inl e, s') \<Rightarrow> (Err (Queue (''redis quit failed: '' @ e) None), s') | (Inr _, s') \<Rightarrow> (Ok (), s'))"

text \<open>The subscription of the memory backend starts a task that ends at once, and its handler is never called.\<close>

definition memory_subscribe :: "string \<Rightarrow> (message \<Rightarrow> unit rszero_result) \<Rightarrow> memory_backend \<Rightarrow> unit rszero_result \<times> memory_backend" where
  "memory_subscribe t handler s = (Ok (), s)"

definition memory_close :: "memory_backend \<Rightarrow> unit rszero_result \<times> memory_backend" where
  "memory_close s = (Ok (), s)"

text \<open>The trait of the backends, and the client, which hands every call to the backend it holds.\<close>

record 's backend_ops =
  be_publish :: "message \<Rightarrow> 's \<Rightarrow> unit rszero_result \<times> 's"
  be_consume :: "string \<Rightarrow> 's \<Rightarrow> message option rszero_result \<times> 's"
  be_pending :: "string \<Rightarrow> 's \<Rightarrow> nat rszero_result \<times> 's"
  be_ack :: "string \<Rightarrow> 's \<Rightarrow> unit rszero_result \<times> 's"
  be_nack :: "string \<Rightarrow> bool \<Rightarrow> 's \<Rightarrow> unit rszero_result \<times> 's"
  be_subscribe :: "string \<Rightarrow> (message \<Rightarrow> unit rszero_result) \<Rightarrow> 's \<Rightarrow> unit rszero_result \<times> 's"
  be_close :: "'s \<Rightarrow> unit rszero_result \<times> 's"

definition memory_ops :: "memory_backend backend_ops" where
  "memory_ops = \<lparr>be_publish = memory_publish, be_consume = memory_consume, be_pending = memory_pending, be_ack = memory_ack,
     be_nack = memory_nack, be_subscribe = memory_subscribe, be_close = memory_close\<rparr>"

definition queue_pull :: "'s backend_ops \<Rightarrow> string \<Rightarrow> 's \<Rightarrow> message option rszero_result \<times> 's" where
  "queue_pull B t s = be_consume B t s"

definition queue_pending_count :: "'s backend_ops \<Rightarrow> string \<Rightarrow> 's \<Rightarrow> nat rszero_result \<times> 's" where
  "queue_pending_count B t s = be_pending B t s"

definition queue_ack :: "'s backend_ops \<Rightarrow> string \<Rightarrow> 's \<Rightarrow> unit rszero_result \<times> 's" where
  "queue_ack B i s = be_ack B i s"

definition queue_nack :: "'s backend_ops \<Rightarrow> string \<Rightarrow> bool \<Rightarrow> 's \<Rightarrow> unit rszero_result \<times> 's" where
  "queue_nack B i requeue s = be_nack B i requeue s"

definition queue_subscribe :: "'s backend_ops \<Rightarrow> string \<Rightarrow> (message \<Rightarrow> unit rszero_result) \<Rightarrow> 's \<Rightarrow> unit rszero_result \<times> 's" where
  "queue_subscribe B t handler s = be_subscribe B t handler s"

definition queue_close :: "'s backend_ops \<Rightarrow> 's \<Rightarrow> unit rszero_result \<times> 's" where
  "queue_close B s = be_close B s"

text \<open>
  A message that a client of the memory queue pulled is gone: no answer to it brings it back, not even a rejection
  that asks for it to be queued again.
\<close>

lemma memory_nack_loses:
  assumes "queue_pull memory_ops t s = (Ok (Some m), s1)" and "queue_nack memory_ops (msg_id m) True s1 = (r, s2)"
  shows "r = Ok () \<and> memory_contents s t = m # memory_contents s2 t"
  using assms
  by (auto simp: queue_pull_def queue_nack_def memory_ops_def memory_consume_def memory_nack_def memory_contents_def split: option.splits list.splits)

section \<open>Properties\<close>

text \<open>
  C13. The in-memory queue refines a first-in first-out queue per topic: every sequence of publish,
  consume and pending calls succeeds, returns what the abstract queues return, and leaves their
  contents.
\<close>

theorem memory_queue_fifo:
  "\<exists>rs s'. backend_run memory_publish memory_consume memory_pending ps s = (Ok rs, s')
     \<and> fifo_run ps (memory_contents s) = (rs, memory_contents s')"
  using memory_run_ok mem.backend_run_refines by metis

lemma redis_queue_backend:
  assumes enc: "\<And>m j. enc m = Inr j \<Longrightarrow> dec j = Inr m"
    and lpush: "\<And>k j s v s'. lpush k j s = (Inr v, s') \<Longrightarrow> lsts s' = (lsts s)(k := j # lsts s k)"
    and rpop: "\<And>k s v s'. rpop k s = (Inr v, s') \<Longrightarrow>
        (if lsts s k = [] then v = RNull \<and> lsts s' = lsts s
         else v = RString (last (lsts s k)) \<and> lsts s' = (lsts s)(k := butlast (lsts s k)))"
    and llen: "\<And>k s v s'. llen k s = (Inr v, s') \<Longrightarrow>
        v = RInteger (int (length (lsts s k))) \<and> length (lsts s k) < 2 ^ 63 \<and> lsts s' = lsts s"
  shows "queue_backend (redis_publish enc lpush) (redis_consume dec rpop) (redis_pending llen)
    (redis_contents dec lsts)"
proof
  fix m s u s'
  assume "redis_publish enc lpush m s = (Inr u, s')"
  then obtain j v where "enc m = Inr j" "lpush (queue_key (msg_topic m)) j s = (Inr v, s')"
    by (auto simp: redis_publish_def split: sum.splits prod.splits)
  with enc lpush show "redis_contents dec lsts s' =
      (redis_contents dec lsts s)(msg_topic m := redis_contents dec lsts s (msg_topic m) @ [m])"
    by (fastforce simp: redis_contents_def)
next
  fix t s r s'
  assume "redis_consume dec rpop t s = (Inr r, s')"
  then obtain v where v: "rpop (queue_key t) s = (Inr v, s')"
    and r: "r = None \<and> value_to_string v = None
      \<or> (\<exists>j m. value_to_string v = Some j \<and> dec j = Inr m \<and> r = Some m)"
    by (auto simp: redis_consume_def split: sum.splits prod.splits option.splits)
  show "case redis_contents dec lsts s t of
      [] \<Rightarrow> r = None \<and> redis_contents dec lsts s' = redis_contents dec lsts s
    | m # ms \<Rightarrow> r = Some m \<and> redis_contents dec lsts s' = (redis_contents dec lsts s)(t := ms)"
  proof (cases "lsts s (queue_key t) = []")
    case True
    with rpop [OF v] r show ?thesis by (auto simp: redis_contents_def)
  next
    case False
    then obtain xs x where xs: "lsts s (queue_key t) = xs @ [x]" by (metis rev_exhaust)
    with rpop [OF v] r show ?thesis by (auto simp: redis_contents_def fun_eq_iff)
  qed
next
  fix t s n s'
  assume "redis_pending llen t s = (Inr n, s')"
  then obtain v where v: "llen (queue_key t) s = (Inr v, s')" and n: "n = nat (value_to_i64 v mod 2 ^ 64)"
    by (auto simp: redis_pending_def split: sum.splits prod.splits)
  have "int (length (lsts s (queue_key t))) < 2 ^ 63" using llen [OF v] by simp
  with llen [OF v] n show "n = length (redis_contents dec lsts s t)
      \<and> redis_contents dec lsts s' = redis_contents dec lsts s"
    by (simp add: redis_contents_def fun_eq_iff)
qed

text \<open>
  C14. The Redis LIST queue is first-in first-out as well, for a client that behaves as LPUSH, RPOP and
  LLEN are documented and a serialiser whose output parses back: every sequence of calls that meets
  no error returns what the abstract queues return.
\<close>

theorem redis_queue_fifo:
  assumes "\<And>m j. enc m = Inr j \<Longrightarrow> dec j = Inr m"
    and "\<And>k j s v s'. lpush k j s = (Inr v, s') \<Longrightarrow> lsts s' = (lsts s)(k := j # lsts s k)"
    and "\<And>k s v s'. rpop k s = (Inr v, s') \<Longrightarrow>
        (if lsts s k = [] then v = RNull \<and> lsts s' = lsts s
         else v = RString (last (lsts s k)) \<and> lsts s' = (lsts s)(k := butlast (lsts s k)))"
    and "\<And>k s v s'. llen k s = (Inr v, s') \<Longrightarrow>
        v = RInteger (int (length (lsts s k))) \<and> length (lsts s k) < 2 ^ 63 \<and> lsts s' = lsts s"
    and "backend_run (redis_publish enc lpush) (redis_consume dec rpop) (redis_pending llen) ps s = (Ok rs, s')"
  shows "fifo_run ps (redis_contents dec lsts s) = (rs, redis_contents dec lsts s')"
  using queue_backend.backend_run_refines [OF redis_queue_backend, OF assms(1,2,3,4) assms(5)] .

text \<open>A list store and an escaping-free encoding of the payload, for the example below.\<close>

definition demo_lpush :: "string \<Rightarrow> string \<Rightarrow> (string \<Rightarrow> string list) \<Rightarrow> (string \<Rightarrow> string list) redis_reply" where
  "demo_lpush k j s = (Ok (RInteger (int (Suc (length (s k))))), s(k := j # s k))"

definition demo_rpop :: "string \<Rightarrow> (string \<Rightarrow> string list) \<Rightarrow> (string \<Rightarrow> string list) redis_reply" where
  "demo_rpop k s = (if s k = [] then (Ok RNull, s) else (Ok (RString (last (s k))), s(k := butlast (s k))))"

definition demo_llen :: "string \<Rightarrow> (string \<Rightarrow> string list) \<Rightarrow> (string \<Rightarrow> string list) redis_reply" where
  "demo_llen k s = (if length (s k) < 2 ^ 63 then (Ok (RInteger (int (length (s k)))), s) else (Err ''ERR'', s))"

definition demo_msg :: "string \<Rightarrow> message" where
  "demo_msg p = \<lparr>msg_topic = ''t'', msg_payload = p, msg_headers = Map.empty, msg_id = ''i''\<rparr>"

definition demo_enc :: "message \<Rightarrow> (string, string) result" where
  "demo_enc m = (if msg_topic m = ''t'' \<and> msg_headers m = Map.empty \<and> msg_id m = ''i'' then Ok (msg_payload m) else Err ''no'')"

definition demo_dec :: "string \<Rightarrow> (string, message) result" where
  "demo_dec j = Ok (demo_msg j)"

theorem redis_queue_fifo_witness:
  "\<exists>s'. backend_run (redis_publish demo_enc demo_lpush) (redis_consume demo_dec demo_rpop) (redis_pending demo_llen)
     [Publish (demo_msg ''a''), Publish (demo_msg ''b''), Pending ''t'', Consume ''t''] (\<lambda>_. [])
     = (Ok [Published, Published, PendingCount 2, Consumed (Some (demo_msg ''a''))], s')
   \<and> redis_contents demo_dec id s' ''t'' = [demo_msg ''b'']"
proof -
  note defs = redis_publish_def redis_consume_def redis_pending_def demo_enc_def demo_dec_def demo_msg_def
    demo_lpush_def demo_rpop_def demo_llen_def
  obtain s' where s': "backend_run (redis_publish demo_enc demo_lpush) (redis_consume demo_dec demo_rpop)
      (redis_pending demo_llen)
      [Publish (demo_msg ''a''), Publish (demo_msg ''b''), Pending ''t'', Consume ''t''] (\<lambda>_. [])
    = (Ok [Published, Published, PendingCount 2, Consumed (Some (demo_msg ''a''))], s')"
    by (simp add: defs)
  have "fifo_run [Publish (demo_msg ''a''), Publish (demo_msg ''b''), Pending ''t'', Consume ''t'']
      (redis_contents demo_dec id (\<lambda>_. [])) =
    ([Published, Published, PendingCount 2, Consumed (Some (demo_msg ''a''))], redis_contents demo_dec id s')"
    by (rule redis_queue_fifo [OF _ _ _ _ s'])
      (auto simp: demo_enc_def demo_dec_def demo_msg_def demo_lpush_def demo_rpop_def demo_llen_def
        split: if_splits)
  moreover have "redis_contents demo_dec id (\<lambda>_. []) = (\<lambda>_. [])"
    by (simp add: redis_contents_def fun_eq_iff)
  ultimately have "redis_contents demo_dec id s' ''t'' = [demo_msg ''b'']"
    by (simp add: demo_msg_def) (metis fun_upd_same)
  with s' show ?thesis by simp
qed

end
