(* ===== verification/Outbox.thy ===== *)
theory Outbox
  imports Errors Retry Transition_Systems
begin

text \<open>
  Reliable publishing through a local message table (\<open>rszero/src/queue/transactional.rs\<close>).  The table
  is a list of rows in the order of their creation; the database may refuse any statement, the queue
  any push, and both are parameters of the state.  Publishers and the sweeper interleave: the sweeper
  works on the rows its query returned, one row per step, while publishers insert rows and then try to
  publish them.
\<close>

section \<open>The table\<close>

datatype message_status = StPending | StPublished | StFailed

fun message_status_str :: "message_status \<Rightarrow> string" where
  "message_status_str StPending = ''pending''"
| "message_status_str StPublished = ''published''"
| "message_status_str StFailed = ''failed''"

record message_table =
  mt_table_name :: string
  mt_max_retries :: u32
  mt_retry_interval :: duration

definition message_table_new :: "string \<Rightarrow> message_table" where
  "message_table_new n = \<lparr>mt_table_name = n, mt_max_retries = 5, mt_retry_interval = from_secs 30\<rparr>"

record outbox_row =
  ob_msg_id :: string
  ob_topic :: string
  ob_payload :: string
  ob_status :: message_status
  ob_retry :: int

text \<open>
  \<open>ob_pushed\<close> is history: the ids whose push the queue accepted, latest first.  \<open>ob_err n\<close> is the error
  of the \<open>n\<close>-th statement, if the database refuses it.
\<close>

record 'q outbox =
  ob_rows :: "outbox_row list"
  ob_stmts :: nat
  ob_err :: "nat \<Rightarrow> string option"
  ob_queue :: 'q
  ob_pushed :: "string list"

type_synonym 'q push_fn = "string \<Rightarrow> string \<Rightarrow> 'q \<Rightarrow> unit rszero_result \<times> 'q"

definition exec_stmt ::
  "(outbox_row list \<Rightarrow> (string, outbox_row list) result) \<Rightarrow> 'q outbox \<Rightarrow> (string, unit) result \<times> 'q outbox" where
  "exec_stmt f b =
     (let b' = b\<lparr>ob_stmts := Suc (ob_stmts b)\<rparr>
      in case ob_err b (ob_stmts b) of
           Some e \<Rightarrow> (Err e, b')
         | None \<Rightarrow> (case f (ob_rows b) of Inl e \<Rightarrow> (Err e, b') | Inr rs \<Rightarrow> (Ok (), b'\<lparr>ob_rows := rs\<rparr>)))"

text \<open>The INSERT of a pending row, under the UNIQUE constraint on \<open>msg_id\<close>.\<close>

definition insert_row :: "string \<Rightarrow> string \<Rightarrow> string \<Rightarrow> outbox_row list \<Rightarrow> (string, outbox_row list) result" where
  "insert_row i t p rs =
     (if i \<in> set (map ob_msg_id rs) then Err ''duplicate key value violates unique constraint''
      else Ok (rs @ [\<lparr>ob_msg_id = i, ob_topic = t, ob_payload = p, ob_status = StPending, ob_retry = 0\<rparr>]))"

text \<open>The UPDATE statements, on the rows with the given \<open>msg_id\<close>.\<close>

definition update_row ::
  "string \<Rightarrow> (outbox_row \<Rightarrow> outbox_row) \<Rightarrow> outbox_row list \<Rightarrow> (string, outbox_row list) result" where
  "update_row i f rs = Ok (map (\<lambda>r. if ob_msg_id r = i then f r else r) rs)"

section \<open>Operations\<close>

definition new_msg_id :: "string \<Rightarrow> string" where
  "new_msg_id uuid = ''rszero:msg:'' @ uuid"

definition try_publish ::
  "'q push_fn \<Rightarrow> string \<Rightarrow> string \<Rightarrow> string \<Rightarrow> 'q outbox \<Rightarrow> unit rszero_result \<times> 'q outbox" where
  "try_publish push i t p b =
     (case push t p (ob_queue b) of
        (Inl e, q') \<Rightarrow> (Err e, b\<lparr>ob_queue := q'\<rparr>)
      | (Inr _, q') \<Rightarrow>
          (case exec_stmt (update_row i (\<lambda>r. r\<lparr>ob_status := StPublished\<rparr>))
                  (b\<lparr>ob_queue := q', ob_pushed := i # ob_pushed b\<rparr>) of
             (Inl e, b') \<Rightarrow> (Err (Queue (''failed to update message status: '' @ e) None), b')
           | (Inr _, b') \<Rightarrow> (Ok (), b')))"

text \<open>The persisting half of \<open>publish_reliable\<close>, and the whole of \<open>publish_reliable_in_txn\<close> once committed.\<close>

definition persist_message ::
  "string \<Rightarrow> string \<Rightarrow> string \<Rightarrow> string \<Rightarrow> 'q outbox \<Rightarrow> string rszero_result \<times> 'q outbox" where
  "persist_message what uuid t p b =
     (case exec_stmt (insert_row (new_msg_id uuid) t p) b of
        (Inl e, b') \<Rightarrow> (Err (Queue (what @ e) None), b')
      | (Inr _, b') \<Rightarrow> (Ok (new_msg_id uuid), b'))"

definition publish_reliable ::
  "'q push_fn \<Rightarrow> string \<Rightarrow> string \<Rightarrow> string \<Rightarrow> 'q outbox \<Rightarrow> string rszero_result \<times> 'q outbox" where
  "publish_reliable push uuid t p b =
     (case persist_message ''failed to persist message: '' uuid t p b of
        (Inl e, b') \<Rightarrow> (Err e, b')
      | (Inr i, b') \<Rightarrow> (Ok i, snd (try_publish push i t p b')))"

definition publish_reliable_in_txn ::
  "string \<Rightarrow> string \<Rightarrow> string \<Rightarrow> 'q outbox \<Rightarrow> string rszero_result \<times> 'q outbox" where
  "publish_reliable_in_txn uuid t p b = persist_message ''failed to persist message in txn: '' uuid t p b"

definition eligible :: "message_table \<Rightarrow> outbox_row \<Rightarrow> bool" where
  "eligible tb r \<longleftrightarrow> ob_status r \<in> {StPending, StFailed} \<and> ob_retry r < int (unat (mt_max_retries tb))"

definition sweep_query :: "message_table \<Rightarrow> outbox_row list \<Rightarrow> outbox_row list" where
  "sweep_query tb rs = take 100 (filter (eligible tb) rs)"

text \<open>One row of the sweep: whether it was published.\<close>

definition sweep_row ::
  "'q push_fn \<Rightarrow> message_table \<Rightarrow> outbox_row \<Rightarrow> 'q outbox \<Rightarrow> bool \<times> 'q outbox" where
  "sweep_row push tb r b =
     (case try_publish push (ob_msg_id r) (ob_topic r) (ob_payload r) b of
        (Inr _, b') \<Rightarrow> (True, b')
      | (Inl e, b') \<Rightarrow>
          let new_retry = ob_retry r + 1;
              new_status = (if sint (mt_max_retries tb) \<le> new_retry then StFailed else StPending)
          in (False, snd (exec_stmt (update_row (ob_msg_id r)
               (\<lambda>x. x\<lparr>ob_retry := new_retry, ob_status := new_status\<rparr>)) b')))"

fun sweep_rows ::
  "'q push_fn \<Rightarrow> message_table \<Rightarrow> outbox_row list \<Rightarrow> nat \<Rightarrow> 'q outbox \<Rightarrow> nat \<times> 'q outbox" where
  "sweep_rows push tb [] n b = (n, b)"
| "sweep_rows push tb (r # rs) n b =
     (case sweep_row push tb r b of (ok, b') \<Rightarrow> sweep_rows push tb rs (if ok then Suc n else n) b')"

definition sweep :: "'q push_fn \<Rightarrow> message_table \<Rightarrow> 'q outbox \<Rightarrow> nat rszero_result \<times> 'q outbox" where
  "sweep push tb b =
     (let b' = b\<lparr>ob_stmts := Suc (ob_stmts b)\<rparr>
      in case ob_err b (ob_stmts b) of
           Some e \<Rightarrow> (Err (Queue (''sweep query failed: '' @ e) None), b')
         | None \<Rightarrow> (case sweep_rows push tb (sweep_query tb (ob_rows b)) 0 b' of (n, b'') \<Rightarrow> (Ok n, b'')))"

record message_table_stats =
  st_pending :: nat
  st_published :: nat
  st_failed :: nat

definition stats :: "'q outbox \<Rightarrow> message_table_stats rszero_result \<times> 'q outbox" where
  "stats b =
     (let b' = b\<lparr>ob_stmts := Suc (ob_stmts b)\<rparr>;
          cnt = (\<lambda>st. length (filter (\<lambda>r. ob_status r = st) (ob_rows b)))
      in case ob_err b (ob_stmts b) of
           Some e \<Rightarrow> (Err (Queue (''stats query failed: '' @ e) None), b')
         | None \<Rightarrow> (Ok \<lparr>st_pending = cnt StPending, st_published = cnt StPublished, st_failed = cnt StFailed\<rparr>, b'))"

section \<open>Publishers and sweeper together\<close>

text \<open>
  \<open>inflight\<close> holds the messages persisted by \<open>publish_reliable\<close> whose immediate publish is still to
  come, \<open>snapshot\<close> the rows of the running sweep not yet handled, \<open>accepted\<close> the ids returned to callers.
\<close>

record 'q ob_system =
  ob :: "'q outbox"
  inflight :: "(string \<times> string \<times> string) list"
  snapshot :: "outbox_row list"
  accepted :: "string list"

datatype ob_event = Insert string string string | InsertTxn string string string | Immediate nat
  | SweepStart | SweepNext

inductive ob_step :: "'q push_fn \<Rightarrow> message_table \<Rightarrow> 'q ob_system \<Rightarrow> ob_event \<Rightarrow> 'q ob_system \<Rightarrow> bool"
  for push tb where
  ins: "persist_message ''failed to persist message: '' uuid t p (ob s) = (Inr i, b) \<Longrightarrow>
    ob_step push tb s (Insert uuid t p)
      (s\<lparr>ob := b, inflight := inflight s @ [(i, t, p)], accepted := i # accepted s\<rparr>)"
| ins_err: "persist_message ''failed to persist message: '' uuid t p (ob s) = (Inl e, b) \<Longrightarrow>
    ob_step push tb s (Insert uuid t p) (s\<lparr>ob := b\<rparr>)"
| txn: "publish_reliable_in_txn uuid t p (ob s) = (Inr i, b) \<Longrightarrow>
    ob_step push tb s (InsertTxn uuid t p) (s\<lparr>ob := b, accepted := i # accepted s\<rparr>)"
| immediate: "n < length (inflight s) \<Longrightarrow> inflight s ! n = (i, t, p) \<Longrightarrow>
    ob_step push tb s (Immediate n)
      (s\<lparr>ob := snd (try_publish push i t p (ob s)), inflight := take n (inflight s) @ drop (Suc n) (inflight s)\<rparr>)"
| start: "snapshot s = [] \<Longrightarrow>
    ob_step push tb s SweepStart (s\<lparr>snapshot := sweep_query tb (ob_rows (ob s))\<rparr>)"
| nxt: "snapshot s = r # rs \<Longrightarrow>
    ob_step push tb s SweepNext (s\<lparr>ob := snd (sweep_row push tb r (ob s)), snapshot := rs\<rparr>)"

inductive_cases ob_stepE: "ob_step push tb s e t"

definition ob_init :: "'q ob_system \<Rightarrow> bool" where
  "ob_init s \<longleftrightarrow> ob_rows (ob s) = [] \<and> ob_pushed (ob s) = [] \<and> inflight s = [] \<and> snapshot s = [] \<and> accepted s = []"

text \<open>What is known of each row, with the retries \<open>mx\<close> of the table.\<close>

definition row_ok :: "int \<Rightarrow> string list \<Rightarrow> outbox_row \<Rightarrow> bool" where
  "row_ok mx pushed r \<longleftrightarrow>
     0 \<le> ob_retry r \<and>
     (case ob_status r of
        StPublished \<Rightarrow> ob_msg_id r \<in> set pushed
      | StPending \<Rightarrow> ob_retry r < mx
      | StFailed \<Rightarrow> mx \<le> ob_retry r)"

definition ob_inv :: "int \<Rightarrow> 'q ob_system \<Rightarrow> bool" where
  "ob_inv mx s \<longleftrightarrow>
     distinct (map ob_msg_id (ob_rows (ob s)))
   \<and> list_all (row_ok mx (ob_pushed (ob s))) (ob_rows (ob s))
   \<and> set (accepted s) \<subseteq> set (map ob_msg_id (ob_rows (ob s)))
   \<and> list_all (\<lambda>r. 0 \<le> ob_retry r) (snapshot s)"

definition table_ok :: "int \<Rightarrow> 'q outbox \<Rightarrow> bool" where
  "table_ok mx b \<longleftrightarrow> distinct (map ob_msg_id (ob_rows b)) \<and> list_all (row_ok mx (ob_pushed b)) (ob_rows b)"

definition ids :: "'q outbox \<Rightarrow> string list" where
  "ids b = map ob_msg_id (ob_rows b)"

lemma row_ok_push: "row_ok mx ps r \<Longrightarrow> row_ok mx (i # ps) r"
  by (auto simp: row_ok_def split: message_status.splits)

lemma exec_update_ok:
  assumes "table_ok mx b" and "\<And>r. ob_msg_id (f r) = ob_msg_id r"
    and "\<And>r. row_ok mx (ob_pushed b) r \<Longrightarrow> ob_msg_id r = i \<Longrightarrow> row_ok mx (ob_pushed b) (f r)"
  shows "table_ok mx (snd (exec_stmt (update_row i f) b)) \<and> ids (snd (exec_stmt (update_row i f) b)) = ids b"
proof -
  have "ob_msg_id \<circ> (\<lambda>r. if ob_msg_id r = i then f r else r) = ob_msg_id"
    using assms(2) by auto
  with assms(1,3) show ?thesis
    by (auto simp: exec_stmt_def update_row_def table_ok_def ids_def list_all_iff Let_def split: option.splits)
qed

lemma try_publish_ok:
  assumes "table_ok mx b"
  shows "table_ok mx (snd (try_publish push i t p b)) \<and> ids (snd (try_publish push i t p b)) = ids b"
proof -
  obtain r q where pq: "push t p (ob_queue b) = (r, q)" by fastforce
  let ?b = "b\<lparr>ob_queue := q, ob_pushed := i # ob_pushed b\<rparr>"
  have "table_ok mx ?b" using assms by (auto simp: table_ok_def list_all_iff intro: row_ok_push)
  then have "table_ok mx (snd (exec_stmt (update_row i (\<lambda>r. r\<lparr>ob_status := StPublished\<rparr>)) ?b))
      \<and> ids (snd (exec_stmt (update_row i (\<lambda>r. r\<lparr>ob_status := StPublished\<rparr>)) ?b)) = ids ?b"
    by (rule exec_update_ok) (auto simp: row_ok_def)
  with pq assms show ?thesis
    by (cases r) (auto simp: try_publish_def table_ok_def ids_def split: prod.splits sum.splits)
qed

lemma sweep_row_ok:
  assumes "table_ok (sint (mt_max_retries tb)) b" and "0 \<le> ob_retry r"
  shows "table_ok (sint (mt_max_retries tb)) (snd (sweep_row push tb r b))
    \<and> ids (snd (sweep_row push tb r b)) = ids b"
proof -
  obtain res b' where tp: "try_publish push (ob_msg_id r) (ob_topic r) (ob_payload r) b = (res, b')" by fastforce
  have ok: "table_ok (sint (mt_max_retries tb)) b'" and "ids b' = ids b"
    using try_publish_ok [OF assms(1), of push "ob_msg_id r" "ob_topic r" "ob_payload r"] tp by simp_all
  moreover have "table_ok (sint (mt_max_retries tb)) (snd (exec_stmt (update_row (ob_msg_id r)
        (\<lambda>x. x\<lparr>ob_retry := ob_retry r + 1, ob_status := if sint (mt_max_retries tb) \<le> ob_retry r + 1 then StFailed else StPending\<rparr>)) b'))
      \<and> ids (snd (exec_stmt (update_row (ob_msg_id r)
        (\<lambda>x. x\<lparr>ob_retry := ob_retry r + 1, ob_status := if sint (mt_max_retries tb) \<le> ob_retry r + 1 then StFailed else StPending\<rparr>)) b')) = ids b'"
    by (rule exec_update_ok [OF ok]) (use assms(2) in \<open>auto simp: row_ok_def\<close>)
  ultimately show ?thesis using tp by (cases res) (simp_all add: sweep_row_def Let_def)
qed

lemma persist_message_ok:
  assumes "table_ok mx b" and "0 < mx"
  shows "table_ok mx (snd (persist_message what uuid t p b))
    \<and> set (ids b) \<subseteq> set (ids (snd (persist_message what uuid t p b)))
    \<and> (\<forall>i. fst (persist_message what uuid t p b) = Inr i \<longrightarrow> i \<in> set (ids (snd (persist_message what uuid t p b))))"
  using assms
  by (auto simp: persist_message_def exec_stmt_def insert_row_def table_ok_def ids_def row_ok_def Let_def
      split: option.splits)

lemma ob_inv_alt:
  "ob_inv mx s \<longleftrightarrow> table_ok mx (ob s) \<and> set (accepted s) \<subseteq> set (ids (ob s)) \<and> list_all (\<lambda>r. 0 \<le> ob_retry r) (snapshot s)"
  by (auto simp: ob_inv_def table_ok_def ids_def)

lemma sweep_query_retry: "table_ok mx b \<Longrightarrow> list_all (\<lambda>r. 0 \<le> ob_retry r) (sweep_query tb (ob_rows b))"
  by (auto simp: table_ok_def list_all_iff row_ok_def sweep_query_def dest!: in_set_takeD)

lemma ob_step_inv:
  assumes "0 < sint (mt_max_retries tb)" and "ob_inv (sint (mt_max_retries tb)) s" and "ob_step push tb s e t"
  shows "ob_inv (sint (mt_max_retries tb)) t"
proof -
  from assms(2) have ok: "table_ok (sint (mt_max_retries tb)) (ob s)"
    and acc: "set (accepted s) \<subseteq> set (ids (ob s))" and snap: "list_all (\<lambda>r. 0 \<le> ob_retry r) (snapshot s)"
    by (simp_all add: ob_inv_alt)
  show ?thesis
    using assms(3)
  proof (cases rule: ob_step.cases)
    case (ins uuid tp pl i b)
    with persist_message_ok [OF ok assms(1), of "''failed to persist message: ''" uuid tp pl] acc snap
    show ?thesis by (auto simp: ob_inv_alt)
  next
    case (ins_err uuid tp pl e b)
    with persist_message_ok [OF ok assms(1), of "''failed to persist message: ''" uuid tp pl] acc snap
    show ?thesis by (auto simp: ob_inv_alt)
  next
    case (txn uuid tp pl i b)
    with persist_message_ok [OF ok assms(1), of "''failed to persist message in txn: ''" uuid tp pl] acc snap
    show ?thesis by (auto simp: ob_inv_alt publish_reliable_in_txn_def)
  next
    case (immediate n i tp pl)
    with try_publish_ok [OF ok, of push i tp pl] acc snap show ?thesis by (simp add: ob_inv_alt)
  next
    case start
    with assms(2) sweep_query_retry show ?thesis by (auto simp: ob_inv_alt)
  next
    case (nxt r rs)
    with assms(2) have "0 \<le> ob_retry r" by (simp add: ob_inv_alt)
    with nxt assms(2) sweep_row_ok [of tb "ob s" r push] show ?thesis by (simp add: ob_inv_alt)
  qed
qed

interpretation obx: inductive_invariant "\<lambda>s. ob_init s \<and> 0 < sint (mt_max_retries tb)" "ob_step push tb"
  "\<lambda>s. 0 < sint (mt_max_retries tb) \<and> ob_inv (sint (mt_max_retries tb)) s"
  for push tb
proof unfold_locales
  show "ob_init s \<and> 0 < sint (mt_max_retries tb) \<Longrightarrow>
      0 < sint (mt_max_retries tb) \<and> ob_inv (sint (mt_max_retries tb)) s" for s
    by (simp add: ob_init_def ob_inv_def)
qed (use ob_step_inv in blast)

lemma sint_pos_unat: "0 < sint a \<Longrightarrow> sint a = int (unat a)" for a :: u32
proof -
  assume pos: "0 < sint a"
  have lt: "uint a < 2 ^ 32" using unsigned_less [of a, where 'a = int] by simp
  have "sint a = take_bit 32 (uint a) - 2 ^ 32 * of_bool (bit (uint a) 31)"
    using signed_take_bit_eq_take_bit_minus [of 31 "uint a"] by (simp add: sint_uint)
  moreover have "take_bit 32 (uint a) = uint a" using lt by (simp add: take_bit_int_eq_self)
  ultimately show ?thesis using pos lt by (cases "bit (uint a) 31") simp_all
qed

section \<open>A sweep without errors\<close>

definition mark_published :: "string set \<Rightarrow> outbox_row list \<Rightarrow> outbox_row list" where
  "mark_published I = map (\<lambda>r. if ob_msg_id r \<in> I then r\<lparr>ob_status := StPublished\<rparr> else r)"

lemma mark_published_insert:
  "mark_published I (map (\<lambda>r. if ob_msg_id r = i then r\<lparr>ob_status := StPublished\<rparr> else r) rs)
   = mark_published (insert i I) rs"
  by (auto simp: mark_published_def)

lemma sweep_rows_ok:
  assumes "\<And>t p q. \<exists>q'. push t p q = (Inr (), q')" and "ob_err b = (\<lambda>_. None)"
  shows "\<exists>b'. sweep_rows push tb rs n b = (n + length rs, b')
    \<and> ob_rows b' = mark_published (set (map ob_msg_id rs)) (ob_rows b)
    \<and> ob_pushed b' = rev (map ob_msg_id rs) @ ob_pushed b"
  using assms(2)
proof (induction rs arbitrary: n b)
  case Nil
  then show ?case by (simp add: mark_published_def)
next
  case (Cons r rs)
  obtain q where q: "push (ob_topic r) (ob_payload r) (ob_queue b) = (Inr (), q)" using assms(1) by blast
  let ?b = "b\<lparr>ob_queue := q, ob_pushed := ob_msg_id r # ob_pushed b, ob_stmts := Suc (ob_stmts b),
    ob_rows := map (\<lambda>x. if ob_msg_id x = ob_msg_id r then x\<lparr>ob_status := StPublished\<rparr> else x) (ob_rows b)\<rparr>"
  have "sweep_row push tb r b = (True, ?b)"
    using q Cons.prems by (simp add: sweep_row_def try_publish_def exec_stmt_def update_row_def)
  moreover obtain b' where "sweep_rows push tb rs (Suc n) ?b = (Suc n + length rs, b')"
      "ob_rows b' = mark_published (set (map ob_msg_id rs)) (ob_rows ?b)"
      "ob_pushed b' = rev (map ob_msg_id rs) @ ob_pushed ?b"
    using Cons.IH [of ?b "Suc n"] Cons.prems by auto
  ultimately show ?case by (simp add: mark_published_insert)
qed

lemma filter_not_taken:
  "distinct (map f xs) \<Longrightarrow> filter (\<lambda>x. f x \<notin> f ` set (take n xs)) xs = drop n xs"
proof (induction xs arbitrary: n)
  case (Cons x xs)
  show ?case
  proof (cases n)
    case (Suc m)
    have "filter (\<lambda>y. f y \<noteq> f x \<and> f y \<notin> f ` set (take m xs)) xs = filter (\<lambda>y. f y \<notin> f ` set (take m xs)) xs"
      using Cons.prems by (intro filter_cong refl) (metis distinct.simps(2) image_eqI list.set_map list.simps(9))
    with Cons Suc show ?thesis by simp
  qed simp
qed simp

lemma mark_published_eligible:
  "filter (eligible tb) (mark_published I rs) = filter (\<lambda>r. ob_msg_id r \<notin> I) (filter (eligible tb) rs)"
  by (induction rs) (auto simp: mark_published_def eligible_def)

section \<open>Properties\<close>


text \<open>
  C11. When the database and the queue accept everything, one sweep publishes the hundred oldest
  eligible messages, in the order of their creation, marks exactly them as published, returns their
  number, and leaves the rest of the eligible messages for the next sweep.
\<close>

theorem sweep_publishes_oldest:
  assumes "\<And>t p q. \<exists>q'. push t p q = (Inr (), q')" and "ob_err b = (\<lambda>_. None)"
    and "distinct (map ob_msg_id (ob_rows b))"
  shows "\<exists>b'. sweep push tb b = (Ok (min 100 (length (filter (eligible tb) (ob_rows b)))), b')
    \<and> ob_pushed b' = rev (map ob_msg_id (take 100 (filter (eligible tb) (ob_rows b)))) @ ob_pushed b
    \<and> filter (eligible tb) (ob_rows b') = drop 100 (filter (eligible tb) (ob_rows b))"
proof -
  let ?el = "filter (eligible tb) (ob_rows b)"
  have d: "distinct (map ob_msg_id ?el)" using assms(3) by (rule distinct_map_filter)
  obtain b' where b': "sweep_rows push tb (sweep_query tb (ob_rows b)) 0 (b\<lparr>ob_stmts := Suc (ob_stmts b)\<rparr>) =
      (length (take 100 ?el), b')"
    "ob_rows b' = mark_published (ob_msg_id ` set (take 100 ?el)) (ob_rows b)"
    "ob_pushed b' = rev (map ob_msg_id (take 100 ?el)) @ ob_pushed b"
    using sweep_rows_ok [where push = push and b = "b\<lparr>ob_stmts := Suc (ob_stmts b)\<rparr>" and tb = tb
        and rs = "sweep_query tb (ob_rows b)" and n = 0, OF assms(1)] assms(2)
    by (auto simp: sweep_query_def)
  have "filter (eligible tb) (ob_rows b') = drop 100 ?el"
    using filter_not_taken [OF d, of 100] by (simp add: b'(2) mark_published_eligible)
  with b' assms(2) show ?thesis by (auto simp: sweep_def min.commute)
qed

definition demo_down :: "unit push_fn" where
  "demo_down t p q = (Err (Queue ''down'' None), q)"

definition demo_table :: message_table where
  "demo_table = \<lparr>mt_table_name = ''outbox'', mt_max_retries = 1, mt_retry_interval = 0\<rparr>"

definition demo_outbox :: "outbox_row list \<Rightarrow> nat \<Rightarrow> unit outbox" where
  "demo_outbox rs n = \<lparr>ob_rows = rs, ob_stmts = n, ob_err = \<lambda>_. None, ob_queue = (), ob_pushed = []\<rparr>"

definition demo_row :: "message_status \<Rightarrow> int \<Rightarrow> outbox_row" where
  "demo_row st n = \<lparr>ob_msg_id = ''rszero:msg:u'', ob_topic = ''t'', ob_payload = ''p'', ob_status = st, ob_retry = n\<rparr>"

definition demo_sys :: "unit outbox \<Rightarrow> (string \<times> string \<times> string) list \<Rightarrow> outbox_row list \<Rightarrow> string list \<Rightarrow> unit ob_system" where
  "demo_sys b fl sn acc = \<lparr>ob = b, inflight = fl, snapshot = sn, accepted = acc\<rparr>"

lemmas demo_defs = demo_down_def demo_table_def demo_outbox_def demo_row_def demo_sys_def persist_message_def
  exec_stmt_def insert_row_def update_row_def new_msg_id_def try_publish_def sweep_row_def sweep_query_def eligible_def

lemma demo_run:
  "run (ob_step demo_down demo_table) (demo_sys (demo_outbox [] 0) [] [] [])
     [Insert ''u'' ''t'' ''p'', Immediate 0, SweepStart, SweepNext]
     (demo_sys (demo_outbox [demo_row StFailed 1] 2) [] [] [''rszero:msg:u''])"
proof (intro run_Cons run_Nil)
  show "ob_step demo_down demo_table (demo_sys (demo_outbox [] 0) [] [] []) (Insert ''u'' ''t'' ''p'')
      (demo_sys (demo_outbox [demo_row StPending 0] 1) [(''rszero:msg:u'', ''t'', ''p'')] [] [''rszero:msg:u''])"
    by (simp add: ob_step.simps demo_defs)
  show "ob_step demo_down demo_table
      (demo_sys (demo_outbox [demo_row StPending 0] 1) [(''rszero:msg:u'', ''t'', ''p'')] [] [''rszero:msg:u'']) (Immediate 0)
      (demo_sys (demo_outbox [demo_row StPending 0] 1) [] [] [''rszero:msg:u''])"
    by (simp add: ob_step.simps demo_defs)
  show "ob_step demo_down demo_table (demo_sys (demo_outbox [demo_row StPending 0] 1) [] [] [''rszero:msg:u'']) SweepStart
      (demo_sys (demo_outbox [demo_row StPending 0] 1) [] [demo_row StPending 0] [''rszero:msg:u''])"
    by (simp add: ob_step.simps demo_defs)
  show "ob_step demo_down demo_table
      (demo_sys (demo_outbox [demo_row StPending 0] 1) [] [demo_row StPending 0] [''rszero:msg:u'']) SweepNext
      (demo_sys (demo_outbox [demo_row StFailed 1] 2) [] [] [''rszero:msg:u''])"
    by (simp add: ob_step.simps demo_defs)
qed (rule run_Nil)


theorem sweep_publishes_oldest_witness:
  "\<exists>b'. sweep (\<lambda>t p q. (Ok (), q)) demo_table (demo_outbox [demo_row StPending 0] 0) = (Ok 1, b')
     \<and> ob_pushed b' = [''rszero:msg:u'']"
proof -
  have el: "filter (eligible demo_table) (ob_rows (demo_outbox [demo_row StPending 0] 0)) = [demo_row StPending 0]"
    by (simp add: eligible_def demo_row_def demo_table_def demo_outbox_def)
  let ?b = "demo_outbox [demo_row StPending 0] 0"
  have "\<exists>b'. sweep (\<lambda>t p q. (Ok (), q)) demo_table ?b = (Ok (min 100 (length (filter (eligible demo_table) (ob_rows ?b)))), b')
    \<and> ob_pushed b' = rev (map ob_msg_id (take 100 (filter (eligible demo_table) (ob_rows ?b)))) @ ob_pushed ?b
    \<and> filter (eligible demo_table) (ob_rows b') = drop 100 (filter (eligible demo_table) (ob_rows ?b))"
    by (rule sweep_publishes_oldest) (simp_all add: demo_outbox_def)
  then show ?thesis unfolding el by (auto simp: demo_outbox_def demo_row_def)
qed

end
