(* ===== verification/Hashing.thy ===== *)
theory Hashing
  imports Rust_Prelude
begin

text \<open>
  The FNV-1a hash used for traffic allocation (\<open>rszero/src/experiment/mod.rs\<close>) and for shard routing
  (\<open>rszero/src/store/sharding.rs\<close>), on 32-bit words with wrapping multiplication.
\<close>

unbundle bit_operations_syntax

text \<open>\<open>as_bytes\<close> of an ASCII string.\<close>

definition as_bytes :: "string \<Rightarrow> u8 list" where
  "as_bytes s = map (\<lambda>c. word_of_nat (of_char c)) s"

fun fnv1a_from :: "u32 \<Rightarrow> u8 list \<Rightarrow> u32" where
  "fnv1a_from hash [] = hash"
| "fnv1a_from hash (b # bs) = fnv1a_from ((hash XOR ucast b) * 0x01000193) bs"

definition fnv1a_32 :: "u8 list \<Rightarrow> u32" where
  "fnv1a_32 data = fnv1a_from 0x811c9dc5 data"

end
