(* ===== verification/Experiment.thy ===== *)
theory Experiment
  imports Hashing
begin

text \<open>
  A/B experiments (\<open>rszero/src/experiment/mod.rs\<close>): weighted assignment of users to variants and the
  registry of experiments.  The sum of the weights is kept at 32 bits, as in the code.
\<close>

record variant =
  v_id :: string
  weight :: u8
  is_control :: bool
  metadata :: "string \<rightharpoonup> string"

definition variant_control :: "string \<Rightarrow> variant" where
  "variant_control i = \<lparr>v_id = i, weight = 50, is_control = True, metadata = Map.empty\<rparr>"

definition variant_treatment :: "string \<Rightarrow> u8 \<Rightarrow> variant" where
  "variant_treatment i w = \<lparr>v_id = i, weight = min w 100, is_control = False, metadata = Map.empty\<rparr>"

definition with_metadata :: "string \<Rightarrow> string \<Rightarrow> variant \<Rightarrow> variant" where
  "with_metadata k x v = v\<lparr>metadata := (metadata v)(k \<mapsto> x)\<rparr>"

record ab_experiment =
  exp_name :: string
  variants :: "variant list"
  enabled :: bool

definition experiment_new :: "string \<Rightarrow> variant list \<Rightarrow> ab_experiment" where
  "experiment_new n vs = \<lparr>exp_name = n, variants = vs, enabled = True\<rparr>"

definition disable :: "ab_experiment \<Rightarrow> ab_experiment" where
  "disable e = e\<lparr>enabled := False\<rparr>"

definition control_fallback :: variant where
  "control_fallback = variant_control ''default''"

definition total_weight :: "variant list \<Rightarrow> u32" where
  "total_weight vs = foldl (\<lambda>s v. s + ucast (weight v)) 0 vs"

text \<open>The scan for the slot; \<open>None\<close> when the loop ends without returning.\<close>

fun scan :: "u32 \<Rightarrow> u32 \<Rightarrow> variant list \<Rightarrow> variant option" where
  "scan slot cumulative [] = None"
| "scan slot cumulative (v # vs) =
     (let c = cumulative + ucast (weight v) in if slot < c then Some v else scan slot c vs)"

definition pick :: "variant list \<Rightarrow> u32 \<Rightarrow> variant" where
  "pick vs slot = (case scan slot 0 vs of Some v \<Rightarrow> v | None \<Rightarrow> last vs)"

definition user_hash :: "string \<Rightarrow> string \<Rightarrow> u32" where
  "user_hash nm user = fnv1a_32 (as_bytes (nm @ '':'' @ user))"

definition experiment_assign :: "ab_experiment \<Rightarrow> string \<Rightarrow> variant" where
  "experiment_assign e user =
     (if variants e = [] then control_fallback
      else if \<not> enabled e then hd (variants e)
      else if total_weight (variants e) = 0 then hd (variants e)
      else pick (variants e) (user_hash (exp_name e) user mod total_weight (variants e)))"

section \<open>The registry\<close>

type_synonym registry = "string \<rightharpoonup> ab_experiment"

definition registry_new :: registry where
  "registry_new = Map.empty"

definition register :: "ab_experiment \<Rightarrow> registry \<Rightarrow> registry" where
  "register e r = r(exp_name e \<mapsto> e)"

definition unregister :: "string \<Rightarrow> registry \<Rightarrow> registry" where
  "unregister n r = r(n := None)"

definition registry_assign :: "registry \<Rightarrow> string \<Rightarrow> string \<Rightarrow> variant" where
  "registry_assign r n user =
     (case r n of Some e \<Rightarrow> experiment_assign e user | None \<Rightarrow> variant_control ''default'')"

definition is_enabled :: "registry \<Rightarrow> string \<Rightarrow> bool" where
  "is_enabled r n = (case r n of Some e \<Rightarrow> enabled e | None \<Rightarrow> False)"

definition registry_get :: "registry \<Rightarrow> string \<Rightarrow> ab_experiment option" where
  "registry_get r n = r n"

record experiment_exposure =
  exposure_experiment :: string
  exposure_variant :: string
  exposure_user :: string
  exposure_timestamp :: int

definition exposure_new :: "int \<Rightarrow> string \<Rightarrow> string \<Rightarrow> string \<Rightarrow> experiment_exposure" where
  "exposure_new now e v u =
     \<lparr>exposure_experiment = e, exposure_variant = v, exposure_user = u, exposure_timestamp = now\<rparr>"

section \<open>Weights\<close>

definition wsum :: "variant list \<Rightarrow> nat" where
  "wsum vs = sum_list (map (\<lambda>v. unat (weight v)) vs)"

lemma wsum_simps [simp]: "wsum [] = 0" "wsum (v # vs) = unat (weight v) + wsum vs"
  "wsum (vs @ us) = wsum vs + wsum us"
  by (simp_all add: wsum_def)

lemma total_weight_from:
  "unat acc + wsum vs < 2 ^ 32 \<Longrightarrow>
   unat (foldl (\<lambda>s v. s + ucast (weight v)) acc vs :: u32) = unat acc + wsum vs"
proof (induction vs arbitrary: acc)
  case (Cons v vs)
  have u: "unat (acc + ucast (weight v)) = unat acc + unat (weight v)"
    using Cons.prems by (subst unat_add_no_overflow) simp_all
  with Cons.IH [of "acc + ucast (weight v)"] Cons.prems show ?case by simp
qed simp

lemma unat_total_weight: "wsum vs < 2 ^ 32 \<Longrightarrow> unat (total_weight vs) = wsum vs"
  using total_weight_from [of 0 vs] by (simp add: total_weight_def)

text \<open>The scan finds the variant whose interval of slots holds the slot.\<close>

lemma scan_interval:
  assumes "unat cum + wsum vs < 2 ^ 32" and "unat cum \<le> unat slot" and "unat slot < unat cum + wsum vs"
  shows "\<exists>i < length vs. scan slot cum vs = Some (vs ! i)
    \<and> unat cum + wsum (take i vs) \<le> unat slot \<and> unat slot < unat cum + wsum (take (Suc i) vs)"
  using assms
proof (induction vs arbitrary: cum)
  case (Cons v vs)
  have u: "unat (cum + ucast (weight v)) = unat cum + unat (weight v)"
    using Cons.prems by (subst unat_add_no_overflow) simp_all
  show ?case
  proof (cases "slot < cum + ucast (weight v)")
    case True
    then have "unat slot < unat cum + unat (weight v)" using u by (simp add: word_less_nat_alt)
    with True Cons.prems show ?thesis by (intro exI [of _ 0]) simp
  next
    case False
    then have "unat cum + unat (weight v) \<le> unat slot" using u by (simp add: word_less_nat_alt not_less)
    then obtain i where "i < length vs" "scan slot (cum + ucast (weight v)) vs = Some (vs ! i)"
      "unat cum + unat (weight v) + wsum (take i vs) \<le> unat slot"
      "unat slot < unat cum + unat (weight v) + wsum (take (Suc i) vs)"
      using Cons.IH [of "cum + ucast (weight v)"] Cons.prems u by auto
    with False show ?thesis by (intro exI [of _ "Suc i"]) (simp add: Let_def)
  qed
qed simp

lemma interval_unique:
  assumes "wsum (take i vs) \<le> s" "s < wsum (take (Suc i) vs)" "wsum (take j vs) \<le> s" "s < wsum (take (Suc j) vs)"
  shows "i = j"
proof -
  have mono: "a \<le> b \<Longrightarrow> wsum (take a vs) \<le> wsum (take b vs)" for a b
    by (metis le_iff_add take_add wsum_simps(3) le_add1)
  show ?thesis
    using assms mono [of "Suc i" j] mono [of "Suc j" i] by (cases i j rule: linorder_cases) auto
qed

section \<open>Properties\<close>

text \<open>
  C15. Traffic allocation of an enabled experiment: the slots \<open>0..<total\<close> a user's hash is reduced to
  are divided among the variants in order, variant \<open>i\<close> owning exactly as many consecutive slots as its
  weight; a user gets the variant that owns the slot of the hash, so a variant of weight zero gets
  nobody, and the fallback after the loop is never taken.
\<close>

theorem assignment_by_weight:
  assumes "enabled e" and "0 < wsum (variants e)" and "wsum (variants e) < 2 ^ 32"
  shows "\<exists>!i. i < length (variants e)
      \<and> wsum (take i (variants e)) \<le> unat (user_hash (exp_name e) user) mod wsum (variants e)
      \<and> unat (user_hash (exp_name e) user) mod wsum (variants e)
          < wsum (take i (variants e)) + unat (weight (variants e ! i))
      \<and> experiment_assign e user = variants e ! i"
proof -
  let ?vs = "variants e" and ?h = "user_hash (exp_name e) user"
  have t: "unat (total_weight ?vs) = wsum ?vs" using assms(3) by (rule unat_total_weight)
  then have nz: "total_weight ?vs \<noteq> 0" using assms(2) by auto
  have ne: "?vs \<noteq> []" using assms(2) by auto
  have s: "unat (?h mod total_weight ?vs) = unat ?h mod wsum ?vs" by (simp add: unat_mod t)
  have "\<exists>i < length ?vs. scan (?h mod total_weight ?vs) 0 ?vs = Some (?vs ! i)
      \<and> unat (0::u32) + wsum (take i ?vs) \<le> unat (?h mod total_weight ?vs)
      \<and> unat (?h mod total_weight ?vs) < unat (0::u32) + wsum (take (Suc i) ?vs)"
    using assms(2,3) by (intro scan_interval) (simp_all add: s)
  then obtain i where i: "i < length ?vs" "scan (?h mod total_weight ?vs) 0 ?vs = Some (?vs ! i)"
      "wsum (take i ?vs) \<le> unat ?h mod wsum ?vs" "unat ?h mod wsum ?vs < wsum (take (Suc i) ?vs)"
    by (auto simp: s)
  have a: "experiment_assign e user = ?vs ! i"
    using assms(1) ne nz i(2) by (simp add: experiment_assign_def pick_def)
  have suc: "j < length ?vs \<Longrightarrow> wsum (take (Suc j) ?vs) = wsum (take j ?vs) + unat (weight (?vs ! j))" for j
    by (simp add: take_Suc_conv_app_nth)
  show ?thesis
  proof (rule ex1I [of _ i], goal_cases)
    case 1
    then show ?case using i a suc [OF i(1)] by simp
  next
    case (2 j)
    then have "unat ?h mod wsum ?vs < wsum (take (Suc j) ?vs)" using suc [of j] by simp
    with 2 i show ?case using interval_unique [of j ?vs "unat ?h mod wsum ?vs" i] by blast
  qed
qed

definition demo_experiment :: ab_experiment where
  "demo_experiment = experiment_new ''e''
     [variant_treatment ''off'' 0, variant_control ''old'', variant_treatment ''new'' 250]"

theorem assignment_by_weight_witness:
  "v_id (experiment_assign demo_experiment ''u1'') \<in> {''old'', ''new''}"
proof -
  have d: "enabled demo_experiment" "wsum (variants demo_experiment) = 150" "length (variants demo_experiment) = 3"
    by (simp_all add: demo_experiment_def experiment_new_def variant_treatment_def variant_control_def min_def)
  have "\<exists>!i. i < length (variants demo_experiment)
      \<and> wsum (take i (variants demo_experiment)) \<le> unat (user_hash (exp_name demo_experiment) ''u1'') mod wsum (variants demo_experiment)
      \<and> unat (user_hash (exp_name demo_experiment) ''u1'') mod wsum (variants demo_experiment)
          < wsum (take i (variants demo_experiment)) + unat (weight (variants demo_experiment ! i))
      \<and> experiment_assign demo_experiment ''u1'' = variants demo_experiment ! i"
    using d by (intro assignment_by_weight) simp_all
  then obtain i where "i < 3" "experiment_assign demo_experiment ''u1'' = variants demo_experiment ! i"
      "0 < unat (weight (variants demo_experiment ! i))"
    using d by (auto dest!: ex1_implies_ex)
  then show ?thesis
    by (auto simp: demo_experiment_def experiment_new_def variant_treatment_def variant_control_def min_def
        less_Suc_eq numeral_3_eq_3)
qed

end
