(* ===== verification/Sharding.thy ===== *)
theory Sharding
  imports Hashing Errors
begin

text \<open>
  Shard routing (\<open>rszero/src/store/sharding.rs\<close>).  The hash ring is scanned as the code scans it, with
  the distances on 64-bit words; \<open>nearest\<close> is the specification, the first virtual node clockwise from
  the key on the ring of 32-bit hashes.  \<open>usize\<close> is a natural number, and the one subtraction that can
  underflow depends on whether the build checks overflow.
\<close>

datatype shard_strategy = Hash u32 | Range "(u64 \<times> u64) list" | Modulo

definition key_hash :: "string \<Rightarrow> u32" where
  "key_hash k = fnv1a_32 (as_bytes k)"

definition vnode_hash :: "nat \<Rightarrow> nat \<Rightarrow> u32" where
  "vnode_hash shard v = fnv1a_32 (as_bytes (show_nat shard @ '':'' @ show_nat v))"

text \<open>One comparison of the double loop, on the state \<open>(best_shard, min_distance)\<close>.\<close>

definition ring_step :: "u64 \<Rightarrow> nat \<Rightarrow> nat \<Rightarrow> nat \<times> u64 \<Rightarrow> nat \<times> u64" where
  "ring_step kh shard v bm =
     (let distance = ucast (vnode_hash shard v) - kh
      in if distance < snd bm then (shard, distance) else bm)"

definition ring_shard :: "u64 \<Rightarrow> nat \<Rightarrow> nat \<Rightarrow> nat \<times> u64 \<Rightarrow> nat \<times> u64" where
  "ring_shard kh vnodes shard bm = fold (ring_step kh shard) [0..<vnodes] bm"

definition ring_search :: "u64 \<Rightarrow> nat \<Rightarrow> nat \<Rightarrow> nat \<times> u64" where
  "ring_search kh vnodes n = fold (ring_shard kh vnodes) [0..<n] (0, - 1)"

text \<open>The first range that holds the number.\<close>

fun find_range :: "u64 \<Rightarrow> nat \<Rightarrow> (u64 \<times> u64) list \<Rightarrow> nat option" where
  "find_range num i [] = None"
| "find_range num i ((s, e) # rs) = (if s \<le> num \<and> num \<le> e then Some i else find_range num (Suc i) rs)"

definition range_number :: "string \<Rightarrow> u64" where
  "range_number k = (case parse_uint (2 ^ 64 - 1) k of Some n \<Rightarrow> word_of_nat n | None \<Rightarrow> 0)"

definition shard_index :: "bool \<Rightarrow> shard_strategy \<Rightarrow> string \<Rightarrow> nat \<Rightarrow> nat outcome" where
  "shard_index checked strategy k n =
     (case strategy of
        Hash slots \<Rightarrow> Done (fst (ring_search (ucast (key_hash k)) (max (unat slots) 1) n))
      | Range rs \<Rightarrow>
          (case find_range (range_number k) 0 rs of
             Some i \<Rightarrow> if n = 0 then (if checked then Panic else Done i) else Done (min i (n - 1))
           | None \<Rightarrow> Done 0)
      | Modulo \<Rightarrow> Done (unat (key_hash k) mod max n 1))"

section \<open>The sharded store\<close>

record 's sharding_store =
  shards :: "'s list"
  strategy :: shard_strategy

text \<open>The stores are connected one after the other up to the first error; \<open>connect\<close> is \<open>Store::new\<close>.\<close>

fun connect_all :: "('c \<Rightarrow> 's rszero_result) \<Rightarrow> 'c list \<Rightarrow> 's list rszero_result" where
  "connect_all connect [] = Ok []"
| "connect_all connect (c # cs) =
     (case connect c of
        Inl e \<Rightarrow> Err e
      | Inr s \<Rightarrow> (case connect_all connect cs of Inl e \<Rightarrow> Err e | Inr ss \<Rightarrow> Ok (s # ss)))"

definition sharding_store_new ::
  "('c \<Rightarrow> 's rszero_result) \<Rightarrow> 'c list \<Rightarrow> shard_strategy \<Rightarrow> 's sharding_store rszero_result" where
  "sharding_store_new connect configs st =
     (if configs = [] then Err (Database ''sharding requires at least one shard'' None)
      else case connect_all connect configs of
             Inl e \<Rightarrow> Err e
           | Inr ss \<Rightarrow> Ok \<lparr>shards = ss, strategy = st\<rparr>)"

definition shard_count :: "'s sharding_store \<Rightarrow> nat" where
  "shard_count s = length (shards s)"

text \<open>Indexing out of range panics.\<close>

definition route :: "bool \<Rightarrow> 's sharding_store \<Rightarrow> string \<Rightarrow> 's outcome" where
  "route checked s k =
     (case shard_index checked (strategy s) k (length (shards s)) of
        Panic \<Rightarrow> Panic
      | Done i \<Rightarrow> if i < length (shards s) then Done (shards s ! i) else Panic)"

definition with_shard ::
  "bool \<Rightarrow> 's sharding_store \<Rightarrow> string \<Rightarrow> ('s \<Rightarrow> 't rszero_result) \<Rightarrow> 't rszero_result outcome" where
  "with_shard checked s k f = (case route checked s k of Panic \<Rightarrow> Panic | Done st \<Rightarrow> Done (f st))"

text \<open>A task that panics becomes an error in the place of its result; \<open>msg\<close> is the text of the join error.\<close>

definition scatter :: "'s sharding_store \<Rightarrow> ('s \<Rightarrow> 't rszero_result outcome) \<Rightarrow> string \<Rightarrow> 't rszero_result list" where
  "scatter s f msg =
     map (\<lambda>st. case f st of Done r \<Rightarrow> r | Panic \<Rightarrow> Err (Internal (''shard task panicked: '' @ msg) None)) (shards s)"

definition shard :: "'s sharding_store \<Rightarrow> nat \<Rightarrow> 's option" where
  "shard s i = (if i < length (shards s) then Some (shards s ! i) else None)"

datatype store_health = Healthy | Unhealthy string

definition shards_health_check :: "('s \<Rightarrow> store_health) \<Rightarrow> 's sharding_store \<Rightarrow> (nat \<times> store_health) list" where
  "shards_health_check chk s = enumerate 0 (map chk (shards s))"

definition all_healthy :: "('s \<Rightarrow> store_health) \<Rightarrow> 's sharding_store \<Rightarrow> bool" where
  "all_healthy chk s = list_all (\<lambda>(_, h). h = Healthy) (shards_health_check chk s)"

section \<open>The ring\<close>

text \<open>The clockwise distance on the ring of 32-bit hashes.\<close>

definition clockwise :: "u32 \<Rightarrow> nat \<times> nat \<Rightarrow> nat" where
  "clockwise kh p = unat (vnode_hash (fst p) (snd p) - kh)"

definition vnodes_of :: "nat \<Rightarrow> nat \<Rightarrow> (nat \<times> nat) list" where
  "vnodes_of vnodes n = concat (map (\<lambda>s. map (Pair s) [0..<vnodes]) [0..<n])"

lemma ring_search_Suc: "ring_search kh vnodes (Suc n) = ring_shard kh vnodes n (ring_search kh vnodes n)"
  by (simp add: ring_search_def)

lemma ring_shard_cases:
  "fst (ring_shard kh vnodes s bm) = fst bm \<or> fst (ring_shard kh vnodes s bm) = s"
proof -
  have "fst (fold (ring_step kh s) vs bm) = fst bm \<or> fst (fold (ring_step kh s) vs bm) = s" for vs
  proof (induction vs arbitrary: bm)
    case (Cons a vs)
    have "fst (ring_step kh s a bm) = fst bm \<or> fst (ring_step kh s a bm) = s"
      by (simp add: ring_step_def Let_def)
    with Cons.IH [of "ring_step kh s a bm"] show ?case by auto
  qed simp
  then show ?thesis by (simp add: ring_shard_def)
qed

lemma ring_search_bound: "0 < n \<Longrightarrow> fst (ring_search kh vnodes n) < n"
proof (induction n)
  case (Suc n)
  have "fst (ring_search kh vnodes 0) = 0" by (simp add: ring_search_def)
  with Suc.IH ring_shard_cases [of kh vnodes n "ring_search kh vnodes n"] show ?case
    by (cases n) (auto simp: ring_search_Suc)
qed simp

lemma ring_search_flat:
  "ring_search kh vnodes n = fold (\<lambda>p. ring_step kh (fst p) (snd p)) (vnodes_of vnodes n) (0, - 1)"
proof (induction n)
  case (Suc n)
  have "fold (ring_step kh n) vs bm = fold (\<lambda>p. ring_step kh (fst p) (snd p)) (map (Pair n) vs) bm" for vs bm
    by (induction vs arbitrary: bm) simp_all
  with Suc show ?case by (simp add: ring_search_Suc ring_shard_def vnodes_of_def)
qed (simp add: ring_search_def vnodes_of_def)

lemma set_vnodes_of: "set (vnodes_of vnodes n) = {0..<n} \<times> {0..<vnodes}"
  by (auto simp: vnodes_of_def)

lemma sorted_vnodes_of: "sorted (map fst (vnodes_of vnodes n))"
  by (induction n) (auto simp: vnodes_of_def sorted_append map_concat comp_def map_replicate_const)

definition distance64 :: "u64 \<Rightarrow> nat \<times> nat \<Rightarrow> u64" where
  "distance64 kh p = ucast (vnode_hash (fst p) (snd p)) - kh"

lemma ring_fold_first_min:
  assumes "sorted (map fst ps)"
  shows "case fold (\<lambda>p. ring_step kh (fst p) (snd p)) ps (0, - 1) of (b, m) \<Rightarrow>
      (\<forall>q\<in>set ps. m \<le> distance64 kh q) \<and>
      (m = - 1 \<and> b = 0 \<or>
       (\<exists>p\<in>set ps. b = fst p \<and> m = distance64 kh p \<and> (\<forall>q\<in>set ps. distance64 kh q = m \<longrightarrow> fst p \<le> fst q)))"
  using assms
proof (induction ps rule: rev_induct)
  case (snoc p ps)
  obtain b m where bm: "fold (\<lambda>p. ring_step kh (fst p) (snd p)) ps (0, - 1) = (b, m)" by fastforce
  have srt: "\<forall>q\<in>set ps. fst q \<le> fst p" using snoc.prems by (auto simp: sorted_append)
  have ih: "\<forall>q\<in>set ps. m \<le> distance64 kh q"
    "m = - 1 \<and> b = 0 \<or>
       (\<exists>p\<in>set ps. b = fst p \<and> m = distance64 kh p \<and> (\<forall>q\<in>set ps. distance64 kh q = m \<longrightarrow> fst p \<le> fst q))"
    using snoc bm by (auto simp: sorted_append)
  have step: "fold (\<lambda>p. ring_step kh (fst p) (snd p)) (ps @ [p]) (0, - 1) =
      (if distance64 kh p < m then (fst p, distance64 kh p) else (b, m))"
    using bm by (simp add: ring_step_def distance64_def)
  show ?case
  proof (cases "distance64 kh p < m")
    case True
    then have "\<forall>q\<in>set ps. distance64 kh p < distance64 kh q" using ih(1) by (meson less_le_trans)
    with True show ?thesis unfolding step by auto
  next
    case False
    with ih srt show ?thesis unfolding step by (auto simp: not_less)
  qed
qed simp

text \<open>On zero-extended hashes, the 64-bit distance orders the nodes as the clockwise distance does.\<close>

lemma distance64_clockwise:
  fixes a b k :: u32
  shows "(ucast a - ucast k :: u64) \<le> ucast b - ucast k \<longleftrightarrow> unat (a - k) \<le> unat (b - k)"
proof -
  have lt: "unat x < 2 ^ 32" for x :: u32 using unsigned_less [of x, where 'a = nat] by simp
  have d32: "unat (x - k) = (if unat k \<le> unat x then unat x - unat k else unat x + 2 ^ 32 - unat k)" for x :: u32
    using lt [of x] lt [of k] by (simp add: unat_sub_if_size word_size word_le_nat_alt)
  have d64: "unat (ucast x - ucast k :: u64) =
      (if unat k \<le> unat x then unat x - unat k else unat x + 2 ^ 64 - unat k)" for x :: u32
    using lt [of x] lt [of k] by (simp add: unat_sub_if_size word_size)
  show ?thesis
    using lt [of a] lt [of b] lt [of k] by (auto simp: word_le_nat_alt d32 d64)
qed

lemma ring_search_nearest:
  assumes "0 < n" and "0 < vnodes"
  shows "\<exists>v < vnodes. \<forall>s' < n. \<forall>v' < vnodes.
      clockwise kh (fst (ring_search (ucast kh) vnodes n), v) \<le> clockwise kh (s', v')
    \<and> (clockwise kh (s', v') = clockwise kh (fst (ring_search (ucast kh) vnodes n), v)
        \<longrightarrow> fst (ring_search (ucast kh) vnodes n) \<le> s')"
proof -
  let ?ps = "vnodes_of vnodes n" and ?D = "distance64 (ucast kh)"
  obtain b m where bm: "ring_search (ucast kh) vnodes n = (b, m)" by fastforce
  have min: "\<forall>q\<in>set ?ps. m \<le> ?D q"
    and arg: "m = - 1 \<and> b = 0 \<or>
      (\<exists>p\<in>set ?ps. b = fst p \<and> m = ?D p \<and> (\<forall>q\<in>set ?ps. ?D q = m \<longrightarrow> fst p \<le> fst q))"
    using ring_fold_first_min [OF sorted_vnodes_of [of vnodes n], of "ucast kh"] bm ring_search_flat [of "ucast kh" vnodes n]
    by auto
  have cw: "?D p \<le> ?D q \<longleftrightarrow> clockwise kh p \<le> clockwise kh q" for p q
    by (simp add: distance64_def clockwise_def distance64_clockwise)
  have "\<exists>p\<in>set ?ps. b = fst p \<and> m = ?D p \<and> (\<forall>q\<in>set ?ps. ?D q = m \<longrightarrow> fst p \<le> fst q)"
  proof (cases "m = - 1 \<and> b = 0")
    case True
    have "(0, 0) \<in> set ?ps" using assms by (simp add: set_vnodes_of)
    moreover from this min True have "?D (0, 0) = m" by (metis order_antisym word_order.extremum)
    ultimately show ?thesis using True by (intro bexI [of _ "(0, 0)"]) auto
  qed (use arg in blast)
  then obtain v where v: "(b, v) \<in> set ?ps" "m = ?D (b, v)" "\<forall>q\<in>set ?ps. ?D q = m \<longrightarrow> b \<le> fst q" by auto
  have "clockwise kh (b, v) \<le> clockwise kh q \<and> (clockwise kh q = clockwise kh (b, v) \<longrightarrow> b \<le> fst q)"
    if "q \<in> set ?ps" for q
    using that min v cw [of "(b, v)" q] cw [of q "(b, v)"] by (metis order_antisym order_refl)
  with v(1) bm show ?thesis by (intro exI [of _ v]) (auto simp: set_vnodes_of)
qed

section \<open>Properties\<close>

text \<open>
  C16. Routing is total: every store that \<open>ShardingStore::new\<close> builds has a shard for every key under
  every strategy, in a build with overflow checks and in one without, and it is one of its shards.
\<close>

theorem route_total:
  assumes "sharding_store_new connect configs st = Ok s"
  shows "\<exists>i. shard_index checked (strategy s) k (shard_count s) = Done i \<and> i < shard_count s
    \<and> route checked s k = Done (shards s ! i)"
proof -
  have "connect_all connect cs = Inr ss \<Longrightarrow> length ss = length cs" for cs ss
    by (induction cs arbitrary: ss) (auto split: sum.splits)
  then have n: "0 < length (shards s)"
    using assms by (fastforce simp: sharding_store_new_def split: if_splits sum.splits)
  have "\<exists>i. shard_index checked (strategy s) k (length (shards s)) = Done i \<and> i < length (shards s)"
    using n ring_search_bound [OF n]
    by (auto simp: shard_index_def max_def min_less_iff_disj split: shard_strategy.splits option.splits)
  then show ?thesis by (auto simp: route_def shard_count_def)
qed

text \<open>
  C17. The hash strategy is a hash ring: a key goes to a shard that owns a virtual node at the least
  clockwise distance from the key's hash on the ring of 32-bit hashes, the lowest such shard when
  several nodes collide, although the code compares 64-bit wrap-around distances.
\<close>

theorem hash_routes_to_nearest:
  assumes "0 < n"
  shows "\<exists>s < n. shard_index checked (Hash slots) k n = Done s
    \<and> (\<exists>v < max (unat slots) 1. \<forall>s' < n. \<forall>v' < max (unat slots) 1.
        clockwise (key_hash k) (s, v) \<le> clockwise (key_hash k) (s', v')
      \<and> (clockwise (key_hash k) (s', v') = clockwise (key_hash k) (s, v) \<longrightarrow> s \<le> s'))"
  using ring_search_nearest [OF assms, of "max (unat slots) 1" "key_hash k"] ring_search_bound [OF assms]
  by (auto simp: shard_index_def)

text \<open>
  C18. Adding a shard to a hash-routed store moves a key either not at all or to the new shard.
\<close>

theorem hash_add_shard:
  assumes "shard_index checked (Hash slots) k n = Done i" and "shard_index checked (Hash slots) k (Suc n) = Done j"
  shows "j = i \<or> j = n"
  using assms ring_shard_cases [of "ucast (key_hash k)" "max (unat slots) 1" n "ring_search (ucast (key_hash k)) (max (unat slots) 1) n"]
  by (auto simp: shard_index_def ring_search_Suc)

definition demo_store :: "string sharding_store" where
  "demo_store = \<lparr>shards = [''a'', ''b''], strategy = Range [(0, 9), (10, 99), (100, 999)]\<rparr>"

theorem route_total_witness:
  "route True demo_store ''250'' = Done ''b'' \<and> route True demo_store ''oops'' = Done ''a''
   \<and> (\<exists>i. shard_index True (strategy demo_store) ''250'' 2 = Done i \<and> i < 2)"
proof -
  have "sharding_store_new Ok [''a'', ''b''] (Range [(0, 9), (10, 99), (100, 999)]) = Ok demo_store"
    by (simp add: sharding_store_new_def demo_store_def)
  from route_total [OF this, of True "''250''"] show ?thesis
    by (simp add: demo_store_def route_def shard_index_def range_number_def parse_uint_def is_ascii_digit_def
        digit_value_def shard_count_def)
qed

theorem hash_routes_to_nearest_witness:
  "\<exists>s < (1::nat). shard_index False (Hash 1) ''k'' 1 = Done s"
  using hash_routes_to_nearest [of 1 False 1 "''k''"] by auto

theorem hash_add_shard_witness:
  "\<exists>j. shard_index True (Hash 1) ''k'' 2 = Done j \<and> (j = 0 \<or> j = 1)"
proof -
  have 0: "shard_index True (Hash 1) ''k'' 1 = Done 0"
    using ring_search_bound [of 1] by (simp add: shard_index_def)
  obtain j where j: "shard_index True (Hash 1) ''k'' (Suc 1) = Done j" by (simp add: shard_index_def)
  from hash_add_shard [OF 0 j] j show ?thesis by (simp add: numeral_2_eq_2)
qed

end
