(* ===== verification/Api_Lexer.thy ===== *)
theory Api_Lexer
  imports Errors
begin

text \<open>
  The lexer of \<open>.api\<close> files (\<open>rszero/src/api/lexer.rs\<close>).  The source is ASCII text; the lexer's state is
  the text not yet read with the position of its first character.
\<close>

datatype token_kind =
    Eof | Newline | Ident string | Str string | Number string
  | LBrace | RBrace | LParen | RParen | LBracket | RBracket
  | Colon | Semi | Comma | Eq | Star | At | Slash
  | Backtick string | Unknown char

record token =
  tkind :: token_kind
  tline :: nat
  tcolumn :: nat

record lexer =
  rest :: string
  line :: nat
  lcolumn :: nat

definition lexer_new :: "string \<Rightarrow> lexer" where
  "lexer_new src = \<lparr>rest = src, line = 1, lcolumn = 1\<rparr>"

definition nl :: char where
  "nl = CHR 0x0A"

definition is_alphabetic :: "char \<Rightarrow> bool" where
  "is_alphabetic c \<longleftrightarrow> (let n = of_char c :: nat in (65 \<le> n \<and> n \<le> 90) \<or> (97 \<le> n \<and> n \<le> 122))"

definition is_alphanumeric :: "char \<Rightarrow> bool" where
  "is_alphanumeric c \<longleftrightarrow> is_alphabetic c \<or> is_ascii_digit c"

definition lex_advance :: "lexer \<Rightarrow> lexer" where
  "lex_advance lx =
     (case rest lx of
        [] \<Rightarrow> lx\<lparr>lcolumn := Suc (lcolumn lx)\<rparr>
      | c # cs \<Rightarrow>
          if c = nl then lx\<lparr>rest := cs, line := Suc (line lx), lcolumn := 1\<rparr>
          else lx\<lparr>rest := cs, lcolumn := Suc (lcolumn lx)\<rparr>)"

text \<open>The reading loops: advance over the characters that satisfy \<open>P\<close> and collect them.\<close>

function advance_while :: "(char \<Rightarrow> bool) \<Rightarrow> lexer \<Rightarrow> string \<times> lexer" where
  "advance_while P lx =
     (case rest lx of
        [] \<Rightarrow> ([], lx)
      | c # cs \<Rightarrow>
          if P c then let (v, lx') = advance_while P (lex_advance lx) in (c # v, lx')
          else ([], lx))"
  by pat_completeness auto
termination
  by (relation "measure (\<lambda>(P, lx). length (rest lx))") (auto simp: lex_advance_def)

declare advance_while.simps [simp del]

definition skip_whitespace :: "lexer \<Rightarrow> lexer" where
  "skip_whitespace lx = snd (advance_while (\<lambda>c. c = CHR '' '' \<or> c = CHR 0x09 \<or> c = CHR 0x0D) lx)"

definition skip_line_comment :: "lexer \<Rightarrow> lexer" where
  "skip_line_comment lx = snd (advance_while (\<lambda>c. c \<noteq> nl) lx)"

text \<open>A quoted token up to its closing quote, which is consumed when there is one.\<close>

definition read_quoted :: "char \<Rightarrow> (string \<Rightarrow> token_kind) \<Rightarrow> lexer \<Rightarrow> token \<times> lexer" where
  "read_quoted q mk lx =
     (let (v, lx') = advance_while (\<lambda>c. c \<noteq> q) (lex_advance lx);
          lx'' = (if rest lx' = [] then lx' else lex_advance lx')
      in (\<lparr>tkind = mk v, tline = line lx, tcolumn = lcolumn lx\<rparr>, lx''))"

definition read_string :: "lexer \<Rightarrow> token \<times> lexer" where
  "read_string = read_quoted (CHR 0x22) Str"

definition read_backtick :: "lexer \<Rightarrow> token \<times> lexer" where
  "read_backtick = read_quoted (CHR 0x60) Backtick"

definition read_number :: "lexer \<Rightarrow> token \<times> lexer" where
  "read_number lx =
     (let (v, lx') = advance_while is_ascii_digit lx
      in (\<lparr>tkind = Number v, tline = line lx, tcolumn = lcolumn lx\<rparr>, lx'))"

definition is_ident_char :: "char \<Rightarrow> bool" where
  "is_ident_char c \<longleftrightarrow> is_alphanumeric c \<or> c = CHR ''_'' \<or> c = CHR ''-''"

definition read_ident :: "lexer \<Rightarrow> token \<times> lexer" where
  "read_ident lx =
     (let (v, lx') = advance_while is_ident_char lx
      in (\<lparr>tkind = Ident v, tline = line lx, tcolumn = lcolumn lx\<rparr>, lx'))"

text \<open>The single-character tokens.\<close>

definition punct :: "char \<Rightarrow> token_kind option" where
  "punct = map_of
     [(nl, Newline), (CHR ''{'', LBrace), (CHR ''}'', RBrace), (CHR ''('', LParen), (CHR '')'', RParen),
      (CHR ''['', LBracket), (CHR '']'', RBracket), (CHR '':'', Colon), (CHR '';'', Semi),
      (CHR '','', Comma), (CHR ''='', Eq), (CHR ''*'', Star), (CHR ''@'', At)]"

subsection \<open>The reading loops\<close>

lemma advance_while_spec:
  "fst (advance_while P lx) = takeWhile P (rest lx)"
  "rest (snd (advance_while P lx)) = dropWhile P (rest lx)"
proof (induction P lx rule: advance_while.induct)
  case (1 P lx)
  {
    case 1
    show ?case using "1.IH"(1) by (subst advance_while.simps) (auto simp: Let_def lex_advance_def split: list.splits prod.splits)
  next
    case 2
    show ?case using "1.IH"(2) by (subst advance_while.simps) (auto simp: Let_def lex_advance_def split: list.splits prod.splits)
  }
qed

lemma rest_lex_advance [simp]: "rest (lex_advance lx) = tl (rest lx)"
  by (auto simp: lex_advance_def split: list.splits)

lemma length_dropWhile_tl: "length (dropWhile P (tl xs)) \<le> length xs"
  by (metis diff_le_self length_dropWhile_le length_tl order_trans)

lemma rest_skip [simp]:
  "rest (skip_whitespace lx) = dropWhile (\<lambda>c. c = CHR '' '' \<or> c = CHR 0x09 \<or> c = CHR 0x0D) (rest lx)"
  "rest (skip_line_comment lx) = dropWhile (\<lambda>c. c \<noteq> nl) (rest lx)"
  by (simp_all add: skip_whitespace_def skip_line_comment_def advance_while_spec)

section \<open>Tokens\<close>

text \<open>The token that starts with the character \<open>c\<close>, when it does not start a comment.\<close>

definition plain_token :: "lexer \<Rightarrow> char \<Rightarrow> token \<times> lexer" where
  "plain_token lx c =
     (let tok = (\<lambda>k. \<lparr>tkind = k, tline = line lx, tcolumn = lcolumn lx\<rparr>)
      in case punct c of
           Some k \<Rightarrow> (tok k, lex_advance lx)
         | None \<Rightarrow>
             if c = CHR ''/'' then (tok Slash, lex_advance lx)
             else if c = CHR 0x22 then read_string lx
             else if c = CHR 0x60 then read_backtick lx
             else if is_ascii_digit c then read_number lx
             else if is_alphabetic c \<or> c = CHR ''_'' then read_ident lx
             else (tok (Unknown c), lex_advance lx))"

function next_token :: "lexer \<Rightarrow> token \<times> lexer" where
  "next_token lx0 =
     (let lx = skip_whitespace lx0
      in case rest lx of
           [] \<Rightarrow> (\<lparr>tkind = Eof, tline = line lx, tcolumn = lcolumn lx\<rparr>, lx)
         | c # cs \<Rightarrow>
             if c = CHR ''/'' \<and> take 1 (rest (lex_advance lx)) = ''/''
             then next_token (skip_line_comment (lex_advance lx))
             else plain_token lx c)"
  by pat_completeness auto
termination
proof (relation "measure (\<lambda>lx. length (rest lx))", goal_cases)
  case (2 lx0 lx c cs)
  have "length (c # cs) \<le> length (rest lx0)"
    using 2(1,2) length_dropWhile_le by (metis rest_skip(1))
  moreover have "length (rest (skip_line_comment (lex_advance lx))) \<le> length cs"
    using 2 by (simp add: length_dropWhile_le)
  ultimately show ?case by simp
qed simp

declare next_token.simps [simp del] rest_skip(1) [simp del]

lemma next_token_eof:
  "rest (skip_whitespace lx) = [] \<Longrightarrow> tkind (fst (next_token lx)) = Eof"
  by (simp add: next_token.simps [of lx] Let_def)

lemma next_token_comment:
  "rest (skip_whitespace lx) = CHR ''/'' # CHR ''/'' # cs \<Longrightarrow>
   next_token lx = next_token (skip_line_comment (lex_advance (skip_whitespace lx)))"
  by (simp add: next_token.simps [of lx] Let_def)

lemma next_token_plain:
  "rest (skip_whitespace lx) = c # cs \<Longrightarrow> \<not> (c = CHR ''/'' \<and> take 1 cs = ''/'') \<Longrightarrow>
   next_token lx = plain_token (skip_whitespace lx) c"
  by (auto simp: next_token.simps [of lx] Let_def)

lemma read_quoted_spec:
  assumes "rest lx = c # cs"
  shows "tkind (fst (read_quoted q mk lx)) = mk (takeWhile (\<lambda>c. c \<noteq> q) cs)"
    and "rest (snd (read_quoted q mk lx)) = tl (dropWhile (\<lambda>c. c \<noteq> q) cs)"
  using assms advance_while_spec [of "\<lambda>c. c \<noteq> q" "lex_advance lx"]
  by (auto simp: read_quoted_def Let_def split: prod.splits)

lemma read_number_spec:
  "tkind (fst (read_number lx)) = Number (takeWhile is_ascii_digit (rest lx))"
  "rest (snd (read_number lx)) = dropWhile is_ascii_digit (rest lx)"
  using advance_while_spec [of is_ascii_digit lx] by (auto simp: read_number_def split: prod.splits)

lemma read_ident_spec:
  "tkind (fst (read_ident lx)) = Ident (takeWhile is_ident_char (rest lx))"
  "rest (snd (read_ident lx)) = dropWhile is_ident_char (rest lx)"
  using advance_while_spec [of is_ident_char lx] by (auto simp: read_ident_def split: prod.splits)

lemmas read_specs = read_quoted_spec read_number_spec read_ident_spec

lemma length_tl_dropWhile: "length (dropWhile P xs) - Suc 0 \<le> length xs"
  by (metis diff_le_self length_dropWhile_le order_trans)

lemma plain_token_consumes:
  "rest lx = c # cs \<Longrightarrow> length (rest (snd (plain_token lx c))) \<le> length cs"
proof -
  assume r: "rest lx = c # cs"
  have id: "is_ident_char c" if "is_alphabetic c \<or> c = CHR ''_''"
    using that by (auto simp: is_ident_char_def is_alphanumeric_def)
  from r show ?thesis
    by (cases "punct c")
      (simp_all add: plain_token_def Let_def read_string_def read_backtick_def read_specs id
        length_tl_dropWhile length_dropWhile_le)
qed

lemma punct_not_eof: "punct c = Some k \<Longrightarrow> k \<noteq> Eof"
  unfolding punct_def by (drule map_of_SomeD) auto

lemma plain_token_not_eof: "rest lx = c # cs \<Longrightarrow> tkind (fst (plain_token lx c)) \<noteq> Eof"
  using punct_not_eof
  by (auto simp: plain_token_def Let_def read_string_def read_backtick_def read_specs split: option.splits)

lemma next_token_consumes:
  "tkind (fst (next_token lx)) \<noteq> Eof \<Longrightarrow> length (rest (snd (next_token lx))) < length (rest lx)"
proof (induction "length (rest lx)" arbitrary: lx rule: less_induct)
  case less
  let ?lx = "skip_whitespace lx"
  have le: "length (rest ?lx) \<le> length (rest lx)" by (simp add: length_dropWhile_le rest_skip)
  show ?case
  proof (cases "rest ?lx")
    case Nil
    with less.prems show ?thesis by (simp add: next_token_eof)
  next
    case (Cons c cs)
    show ?thesis
    proof (cases "c = CHR ''/'' \<and> take 1 cs = ''/''")
      case True
      let ?s = "skip_line_comment (lex_advance ?lx)"
      from True Cons have eq: "next_token lx = next_token ?s"
        by (intro next_token_comment [of lx "tl cs"]) (cases cs; auto)
      have "length (rest ?s) \<le> length cs" using Cons by (simp add: length_dropWhile_le)
      with less.hyps [of ?s] less.prems le Cons show ?thesis by (simp add: eq)
    next
      case False
      with plain_token_consumes [OF Cons] le Cons show ?thesis by (simp add: next_token_plain)
    qed
  qed
qed

function tokenize_loop :: "lexer \<Rightarrow> token list" where
  "tokenize_loop lx =
     (let (tok, lx') = next_token lx
      in if tkind tok = Eof then [tok] else tok # tokenize_loop lx')"
  by pat_completeness auto
termination
  by (relation "measure (\<lambda>lx. length (rest lx))") (auto, metis fst_conv next_token_consumes snd_conv)

declare tokenize_loop.simps [simp del]

definition tokenize :: "string \<Rightarrow> token list rszero_result" where
  "tokenize src = Ok (tokenize_loop (lexer_new src))"

section \<open>Printing\<close>

text \<open>Source text for a token, and the tokens the lexer reads back from their text.\<close>

fun kind_text :: "token_kind \<Rightarrow> string" where
  "kind_text Eof = []"
| "kind_text Newline = [nl]"
| "kind_text (Ident s) = s"
| "kind_text (Str s) = CHR 0x22 # s @ [CHR 0x22]"
| "kind_text (Number s) = s"
| "kind_text LBrace = ''{''"
| "kind_text RBrace = ''}''"
| "kind_text LParen = ''(''"
| "kind_text RParen = '')''"
| "kind_text LBracket = ''[''"
| "kind_text RBracket = '']''"
| "kind_text Colon = '':''"
| "kind_text Semi = '';''"
| "kind_text Comma = '',''"
| "kind_text Eq = ''=''"
| "kind_text Star = ''*''"
| "kind_text At = ''@''"
| "kind_text Slash = ''/''"
| "kind_text (Backtick s) = CHR 0x60 # s @ [CHR 0x60]"
| "kind_text (Unknown c) = [c]"

definition is_ident :: "string \<Rightarrow> bool" where
  "is_ident s \<longleftrightarrow> s \<noteq> [] \<and> (is_alphabetic (hd s) \<or> hd s = CHR ''_'') \<and> list_all is_ident_char s"

definition is_number :: "string \<Rightarrow> bool" where
  "is_number s \<longleftrightarrow> s \<noteq> [] \<and> list_all is_ascii_digit s"

fun wf_kind :: "token_kind \<Rightarrow> bool" where
  "wf_kind Eof = False"
| "wf_kind (Unknown c) = False"
| "wf_kind (Ident s) = is_ident s"
| "wf_kind (Number s) = is_number s"
| "wf_kind (Str s) = (CHR 0x22 \<notin> set s)"
| "wf_kind (Backtick s) = (CHR 0x60 \<notin> set s)"
| "wf_kind _ = True"

definition print_kinds :: "token_kind list \<Rightarrow> string" where
  "print_kinds ks = concat (map (\<lambda>k. CHR '' '' # kind_text k) ks)"

lemma takeWhile_dropWhile_sep:
  assumes "list_all P s" and "cs = [] \<or> \<not> P (hd cs)"
  shows "takeWhile P (s @ cs) = s" "dropWhile P (s @ cs) = cs"
  using assms by (induction s) (cases cs; auto)+

lemma takeWhile_dropWhile_quote:
  assumes "q \<notin> set s"
  shows "takeWhile (\<lambda>c. c \<noteq> q) (s @ q # cs) = s" "dropWhile (\<lambda>c. c \<noteq> q) (s @ q # cs) = q # cs"
  using assms by (induction s) auto

lemma space_not_ident [simp]: "\<not> is_ident_char CHR '' ''" "\<not> is_ascii_digit CHR '' ''"
  by (simp_all add: is_ident_char_def is_alphanumeric_def is_alphabetic_def is_ascii_digit_def)

lemma punct_SomeD:
  "punct c = Some k \<Longrightarrow> \<not> is_alphanumeric c \<and> c \<notin> {CHR ''_'', CHR ''/'', CHR 0x22, CHR 0x60, CHR '' '', CHR 0x09, CHR 0x0D}"
  unfolding punct_def
  by (drule map_of_SomeD) (auto simp: nl_def is_alphanumeric_def is_alphabetic_def is_ascii_digit_def)

lemma punct_alnum:
  assumes "is_alphanumeric c \<or> c = CHR ''_''"
  shows "punct c = None \<and> c \<notin> {CHR ''/'', CHR 0x22, CHR 0x60, CHR '' '', CHR 0x09, CHR 0x0D}"
proof
  show "punct c = None" using assms punct_SomeD by (cases "punct c") blast+
  show "c \<notin> {CHR ''/'', CHR 0x22, CHR 0x60, CHR '' '', CHR 0x09, CHR 0x0D}"
    using assms by (auto simp: is_alphanumeric_def is_alphabetic_def is_ascii_digit_def)
qed

lemma skip_whitespace_space:
  "rest lx = CHR '' '' # c # cs \<Longrightarrow> c \<notin> {CHR '' '', CHR 0x09, CHR 0x0D} \<Longrightarrow> rest (skip_whitespace lx) = c # cs"
  by (simp add: rest_skip)

lemma digit_not_alpha: "is_alphabetic c \<or> c = CHR ''_'' \<Longrightarrow> \<not> is_ascii_digit c"
  by (auto simp: is_alphabetic_def is_ascii_digit_def)

lemma next_token_ident:
  assumes "is_ident s" and "rest lx = CHR '' '' # s @ cs" and "cs = [] \<or> hd cs = CHR '' ''"
  shows "tkind (fst (next_token lx)) = Ident s \<and> rest (snd (next_token lx)) = cs"
proof -
  obtain c t where s: "s = c # t" using assms(1) by (cases s) (auto simp: is_ident_def)
  have c: "is_alphabetic c \<or> c = CHR ''_''" using assms(1) by (simp add: s is_ident_def)
  have p: "punct c = None" "c \<notin> {CHR ''/'', CHR 0x22, CHR 0x60, CHR '' '', CHR 0x09, CHR 0x0D}"
    using punct_alnum [of c] c by (auto simp: is_alphanumeric_def)
  then have r: "rest (skip_whitespace lx) = c # t @ cs" using assms(2) s by (intro skip_whitespace_space) auto
  then have "next_token lx = read_ident (skip_whitespace lx)"
    using next_token_plain [OF r] p c digit_not_alpha [OF c] by (simp add: plain_token_def)
  with r s assms(1,3) takeWhile_dropWhile_sep [of is_ident_char s cs] show ?thesis
    by (auto simp: read_specs is_ident_def)
qed

lemma next_token_number:
  assumes "is_number s" and "rest lx = CHR '' '' # s @ cs" and "cs = [] \<or> hd cs = CHR '' ''"
  shows "tkind (fst (next_token lx)) = Number s \<and> rest (snd (next_token lx)) = cs"
proof -
  obtain c t where s: "s = c # t" using assms(1) by (cases s) (auto simp: is_number_def)
  have c: "is_ascii_digit c" using assms(1) by (simp add: s is_number_def)
  have p: "punct c = None" "c \<notin> {CHR ''/'', CHR 0x22, CHR 0x60, CHR '' '', CHR 0x09, CHR 0x0D}"
    using punct_alnum [of c] c by (auto simp: is_alphanumeric_def)
  then have r: "rest (skip_whitespace lx) = c # t @ cs" using assms(2) s by (intro skip_whitespace_space) auto
  then have "next_token lx = read_number (skip_whitespace lx)"
    using next_token_plain [OF r] p c by (simp add: plain_token_def)
  with r s assms(1,3) takeWhile_dropWhile_sep [of is_ascii_digit s cs] show ?thesis
    by (auto simp: read_specs is_number_def)
qed

lemma next_token_quoted:
  assumes "rest lx = CHR '' '' # q # s @ q # cs" and "q \<notin> set s" and "q = CHR 0x22 \<or> q = CHR 0x60"
  shows "tkind (fst (next_token lx)) = (if q = CHR 0x22 then Str s else Backtick s)
    \<and> rest (snd (next_token lx)) = cs"
proof -
  have r: "rest (skip_whitespace lx) = q # s @ q # cs" using assms by (intro skip_whitespace_space) auto
  have "punct q = None" using assms(3) punct_SomeD by (cases "punct q") blast+
  moreover have "q \<noteq> CHR ''/''" using assms(3) by auto
  ultimately have "next_token lx = (if q = CHR 0x22 then read_string (skip_whitespace lx) else read_backtick (skip_whitespace lx))"
    using next_token_plain [OF r] assms(3) by (auto simp: plain_token_def)
  with r assms(3) takeWhile_dropWhile_quote [OF assms(2), of cs] show ?thesis
    by (auto simp: read_string_def read_backtick_def read_specs)
qed

lemma next_token_punct:
  assumes "rest lx = CHR '' '' # c # cs" and "punct c = Some k"
  shows "tkind (fst (next_token lx)) = k \<and> rest (snd (next_token lx)) = cs"
proof -
  have c: "c \<notin> {CHR '' '', CHR 0x09, CHR 0x0D, CHR ''/''}" using punct_SomeD [OF assms(2)] by blast
  then have r: "rest (skip_whitespace lx) = c # cs" using assms(1) by (intro skip_whitespace_space) auto
  have "c \<noteq> CHR ''/''" using c by blast
  with r have "next_token lx = plain_token (skip_whitespace lx) c" by (intro next_token_plain) auto
  with r assms(2) show ?thesis by (simp add: plain_token_def)
qed

lemma next_token_slash:
  assumes "rest lx = CHR '' '' # CHR ''/'' # cs" and "cs = [] \<or> hd cs = CHR '' ''"
  shows "tkind (fst (next_token lx)) = Slash \<and> rest (snd (next_token lx)) = cs"
proof -
  have r: "rest (skip_whitespace lx) = CHR ''/'' # cs" using assms(1) by (intro skip_whitespace_space) auto
  have "punct (CHR ''/'') = None" using punct_SomeD by (cases "punct (CHR ''/'')") blast+
  with r assms(2) show ?thesis
    by (cases cs) (auto simp: next_token_plain [OF r] plain_token_def)
qed

lemma next_token_print:
  assumes "wf_kind k" and "rest lx = CHR '' '' # kind_text k @ cs" and "cs = [] \<or> hd cs = CHR '' ''"
  shows "tkind (fst (next_token lx)) = k \<and> rest (snd (next_token lx)) = cs"
proof -
  have p: "punct nl = Some Newline" "punct (CHR ''{'') = Some LBrace" "punct (CHR ''}'') = Some RBrace"
    "punct (CHR ''('') = Some LParen" "punct (CHR '')'') = Some RParen" "punct (CHR ''['') = Some LBracket"
    "punct (CHR '']'') = Some RBracket" "punct (CHR '':'') = Some Colon" "punct (CHR '';'') = Some Semi"
    "punct (CHR '','') = Some Comma" "punct (CHR ''='') = Some Eq" "punct (CHR ''*'') = Some Star"
    "punct (CHR ''@'') = Some At"
    by (simp_all add: punct_def nl_def)
  show ?thesis
  proof (cases k)
    case (Str s)
    with assms next_token_quoted [of lx "CHR 0x22" s cs] show ?thesis by simp
  next
    case (Backtick s)
    with assms next_token_quoted [of lx "CHR 0x60" s cs] show ?thesis by simp
  qed (use assms in \<open>simp_all add: next_token_ident next_token_number next_token_slash next_token_punct [OF _ p(1)]
      next_token_punct [OF _ p(2)] next_token_punct [OF _ p(3)] next_token_punct [OF _ p(4)] next_token_punct [OF _ p(5)]
      next_token_punct [OF _ p(6)] next_token_punct [OF _ p(7)] next_token_punct [OF _ p(8)] next_token_punct [OF _ p(9)]
      next_token_punct [OF _ p(10)] next_token_punct [OF _ p(11)] next_token_punct [OF _ p(12)] next_token_punct [OF _ p(13)]\<close>)
qed

lemma print_kinds_Cons: "print_kinds (k # ks) = CHR '' '' # kind_text k @ print_kinds ks"
  by (simp add: print_kinds_def)

lemma print_kinds_start: "print_kinds ks = [] \<or> hd (print_kinds ks) = CHR '' ''"
  by (cases ks) (simp_all add: print_kinds_def)

lemma tokenize_loop_print:
  "list_all wf_kind ks \<Longrightarrow> rest lx = print_kinds ks \<Longrightarrow> map tkind (tokenize_loop lx) = ks @ [Eof]"
proof (induction ks arbitrary: lx)
  case Nil
  then have "tkind (fst (next_token lx)) = Eof" by (intro next_token_eof) (simp add: rest_skip print_kinds_def)
  then show ?case by (subst tokenize_loop.simps) (auto simp: Let_def split: prod.splits)
next
  case (Cons k ks)
  obtain tok lx' where n: "next_token lx = (tok, lx')" by fastforce
  have "tkind tok = k" "rest lx' = print_kinds ks"
    using next_token_print [of k lx "print_kinds ks"] Cons.prems print_kinds_start [of ks] n
    by (simp_all add: print_kinds_Cons)
  moreover have "k \<noteq> Eof" using Cons.prems by auto
  ultimately show ?case using Cons.IH [of lx'] Cons.prems n by (subst tokenize_loop.simps) simp
qed

text \<open>Every source ends with one end-of-file token, and with no other.\<close>

lemma tokenize_loop_eof:
  "\<exists>ts t. tokenize_loop lx = ts @ [t] \<and> tkind t = Eof \<and> list_all (\<lambda>t. tkind t \<noteq> Eof) ts"
proof (induction lx rule: tokenize_loop.induct)
  case (1 lx)
  obtain tok lx' where n: "next_token lx = (tok, lx')" by fastforce
  show ?case
  proof (cases "tkind tok = Eof")
    case True
    with n show ?thesis by (subst tokenize_loop.simps) (intro exI [of _ "[]"] exI [of _ tok], simp)
  next
    case False
    obtain ts t where "tokenize_loop lx' = ts @ [t]" "tkind t = Eof" "list_all (\<lambda>t. tkind t \<noteq> Eof) ts"
      using "1.IH" [OF n [symmetric] refl False] by blast
    with n False show ?thesis
      by (subst tokenize_loop.simps) (intro exI [of _ "tok # ts"] exI [of _ t], simp)
  qed
qed

end
