(* ===== verification/Api_Parser.thy ===== *)
theory Api_Parser
  imports Api_Lexer
begin

text \<open>
  The parser of \<open>.api\<close> files (\<open>rszero/src/api/parser.rs\<close>).  The parser's position is the list of the
  tokens not yet consumed.  Error messages are those of the code, with the \<open>Debug\<close> text of tokens.
\<close>

section \<open>Syntax trees\<close>

record api_field =
  field_name :: string
  field_ty :: string
  field_tag :: "string option"

record api_type =
  type_name :: string
  ty_fields :: "api_field list"

datatype route_method = Get | Post | Put | Delete | Patch | Head

fun method_str :: "route_method \<Rightarrow> string" where
  "method_str Get = ''GET''"
| "method_str Post = ''POST''"
| "method_str Put = ''PUT''"
| "method_str Delete = ''DELETE''"
| "method_str Patch = ''PATCH''"
| "method_str Head = ''HEAD''"

record api_route =
  handler :: string
  meth :: route_method
  path :: string
  request_type :: "string option"
  response_type :: "string option"

record api_service =
  service_name :: string
  routes :: "api_route list"

record api_file =
  api_syntax :: string
  api_info :: "(string \<times> string) list"
  types :: "api_type list"
  services :: "api_service list"

section \<open>Debug text\<close>

definition hex_digit :: "nat \<Rightarrow> char" where
  "hex_digit n = (if n < 10 then char_of (48 + n) else char_of (87 + n))"

definition escape_debug :: "char \<Rightarrow> char \<Rightarrow> string" where
  "escape_debug q c =
     (let n = of_char c :: nat; bs = CHR 0x5C
      in if n = 0 then [bs, CHR ''0'']
         else if n = 9 then [bs, CHR ''t'']
         else if n = 10 then [bs, CHR ''n'']
         else if n = 13 then [bs, CHR ''r'']
         else if c = q \<or> c = bs then [bs, c]
         else if n < 32 \<or> n = 127 then
           bs # ''u{'' @ (if n < 16 then [] else [hex_digit (n div 16)]) @ [hex_digit (n mod 16)] @ ''}''
         else [c])"

definition debug_str :: "string \<Rightarrow> string" where
  "debug_str s = CHR 0x22 # concat (map (escape_debug (CHR 0x22)) s) @ [CHR 0x22]"

definition debug_char :: "char \<Rightarrow> string" where
  "debug_char c = CHR 0x27 # escape_debug (CHR 0x27) c @ [CHR 0x27]"

fun debug_kind :: "token_kind \<Rightarrow> string" where
  "debug_kind Eof = ''Eof''"
| "debug_kind Newline = ''Newline''"
| "debug_kind (Ident s) = ''Ident('' @ debug_str s @ '')''"
| "debug_kind (Str s) = ''String('' @ debug_str s @ '')''"
| "debug_kind (Number s) = ''Number('' @ debug_str s @ '')''"
| "debug_kind LBrace = ''LBrace''"
| "debug_kind RBrace = ''RBrace''"
| "debug_kind LParen = ''LParen''"
| "debug_kind RParen = ''RParen''"
| "debug_kind LBracket = ''LBracket''"
| "debug_kind RBracket = ''RBracket''"
| "debug_kind Colon = ''Colon''"
| "debug_kind Semi = ''Semi''"
| "debug_kind Comma = ''Comma''"
| "debug_kind Eq = ''Eq''"
| "debug_kind Star = ''Star''"
| "debug_kind At = ''At''"
| "debug_kind Slash = ''Slash''"
| "debug_kind (Backtick s) = ''Backtick('' @ debug_str s @ '')''"
| "debug_kind (Unknown c) = ''Unknown('' @ debug_char c @ '')''"

definition debug_peek :: "token list \<Rightarrow> string" where
  "debug_peek ts =
     (case ts of
        [] \<Rightarrow> ''None''
      | t # _ \<Rightarrow> ''Some(Token { kind: '' @ debug_kind (tkind t) @ '', line: '' @ show_nat (tline t)
                 @ '', column: '' @ show_nat (tcolumn t) @ '' })'')"

section \<open>Helpers\<close>

definition current_line :: "token list \<Rightarrow> nat" where
  "current_line ts = (case ts of [] \<Rightarrow> 0 | t # _ \<Rightarrow> tline t)"

definition is_eof :: "token list \<Rightarrow> bool" where
  "is_eof ts \<longleftrightarrow> ts = [] \<or> tkind (hd ts) = Eof"

definition advance :: "token list \<Rightarrow> token list" where
  "advance ts = tl ts"

definition peek_ident :: "token list \<Rightarrow> string option" where
  "peek_ident ts =
     (case ts of [] \<Rightarrow> None | t # _ \<Rightarrow> (case tkind t of Ident s \<Rightarrow> Some s | _ \<Rightarrow> None))"

text \<open>The discriminant of a kind, as a number: the variants in their order.\<close>

fun discriminant :: "token_kind \<Rightarrow> nat" where
  "discriminant Eof = 0"
| "discriminant Newline = 1"
| "discriminant (Ident _) = 2"
| "discriminant (Str _) = 3"
| "discriminant (Number _) = 4"
| "discriminant LBrace = 5"
| "discriminant RBrace = 6"
| "discriminant LParen = 7"
| "discriminant RParen = 8"
| "discriminant LBracket = 9"
| "discriminant RBracket = 10"
| "discriminant Colon = 11"
| "discriminant Semi = 12"
| "discriminant Comma = 13"
| "discriminant Eq = 14"
| "discriminant Star = 15"
| "discriminant At = 16"
| "discriminant Slash = 17"
| "discriminant (Backtick _) = 18"
| "discriminant (Unknown _) = 19"

definition check :: "token_kind \<Rightarrow> token list \<Rightarrow> bool" where
  "check k ts = (case ts of [] \<Rightarrow> False | t # _ \<Rightarrow> discriminant (tkind t) = discriminant k)"

fun skip_newlines :: "token list \<Rightarrow> token list" where
  "skip_newlines [] = []"
| "skip_newlines (t # ts) = (if check Newline (t # ts) then skip_newlines ts else t # ts)"

definition perr :: "string \<Rightarrow> rszero_error" where
  "perr s = Internal s None"

definition at_line :: "token list \<Rightarrow> string" where
  "at_line ts = '' at line '' @ show_nat (current_line ts) @ '', got '' @ debug_peek ts"

type_synonym 'a parsed = "('a \<times> token list) rszero_result"

definition expect :: "token_kind \<Rightarrow> token list \<Rightarrow> unit parsed" where
  "expect k ts =
     (if check k ts then Ok ((), advance ts)
      else Err (perr (''expected '' @ debug_kind k @ at_line ts)))"

definition expect_ident :: "string \<Rightarrow> token list \<Rightarrow> unit parsed" where
  "expect_ident s ts =
     (if peek_ident ts = Some s then Ok ((), advance ts)
      else Err (perr (''expected '' @ [CHR 0x27] @ s @ [CHR 0x27] @ at_line ts)))"

definition expect_ident_str :: "token list \<Rightarrow> string parsed" where
  "expect_ident_str ts =
     (case peek_ident ts of
        Some s \<Rightarrow> Ok (s, advance ts)
      | None \<Rightarrow> Err (perr (''expected identifier'' @ at_line ts)))"

definition expect_string :: "token list \<Rightarrow> string parsed" where
  "expect_string ts =
     (case map tkind (take 1 ts) of
        [Str s] \<Rightarrow> Ok (s, advance ts)
      | _ \<Rightarrow> Err (perr (''expected string'' @ at_line ts)))"

definition expect_backtick :: "token list \<Rightarrow> string parsed" where
  "expect_backtick ts =
     (case map tkind (take 1 ts) of
        [Backtick s] \<Rightarrow> Ok (s, advance ts)
      | _ \<Rightarrow> Err (perr (''expected backtick string'' @ at_line ts)))"

fun path_loop :: "string \<Rightarrow> token list \<Rightarrow> string \<times> token list" where
  "path_loop p [] = (p, [])"
| "path_loop p (t # ts) =
     (case tkind t of
        Ident s \<Rightarrow> path_loop (p @ s) ts
      | Number s \<Rightarrow> path_loop (p @ s) ts
      | Colon \<Rightarrow> path_loop (p @ '':'') ts
      | Slash \<Rightarrow> path_loop (p @ ''/'') ts
      | Unknown c \<Rightarrow> if c = CHR ''/'' then path_loop (p @ ''/'') ts else (p, t # ts)
      | _ \<Rightarrow> (p, t # ts))"

definition expect_path :: "token list \<Rightarrow> string parsed" where
  "expect_path ts =
     (let (p, ts') = path_loop [] ts
      in if p = [] then Err (perr (''expected path at line '' @ show_nat (current_line ts')))
         else Ok (p, ts'))"

text \<open>Sequencing of fallible parsers, the \<open>?\<close> operator.\<close>

definition pbind :: "'a parsed \<Rightarrow> ('a \<Rightarrow> token list \<Rightarrow> 'b parsed) \<Rightarrow> 'b parsed" where
  "pbind r f = (case r of Inl e \<Rightarrow> Err e | Inr (v, ts) \<Rightarrow> f v ts)"

section \<open>Productions\<close>

definition parse_syntax :: "token list \<Rightarrow> string parsed" where
  "parse_syntax ts =
     pbind (expect_ident ''syntax'' ts) (\<lambda>_ ts. pbind (expect Eq ts) (\<lambda>_ ts. expect_string ts))"

text \<open>One round of the loop of \<open>parse_info\<close>.\<close>

definition info_item :: "token list \<Rightarrow> (string \<times> string) list parsed" where
  "info_item ts =
     (case peek_ident ts of
        Some key \<Rightarrow>
          pbind (expect Colon (advance ts)) (\<lambda>_ ts. pbind (expect_string ts) (\<lambda>v ts. Ok ([(key, v)], ts)))
      | None \<Rightarrow> Ok ([], advance ts))"

text \<open>One round of the loop of \<open>parse_type_def\<close>.\<close>

definition field_item :: "token list \<Rightarrow> api_field list parsed" where
  "field_item ts =
     (case peek_ident ts of
        Some n \<Rightarrow>
          pbind (expect_ident_str (advance ts)) (\<lambda>ty ts.
            if check (Backtick []) ts
            then pbind (expect_backtick ts) (\<lambda>tag ts. Ok ([\<lparr>field_name = n, field_ty = ty, field_tag = Some tag\<rparr>], ts))
            else Ok ([\<lparr>field_name = n, field_ty = ty, field_tag = None\<rparr>], ts))
      | None \<Rightarrow> Ok ([], advance ts))"

definition parse_method :: "string \<Rightarrow> route_method rszero_result" where
  "parse_method s =
     (let m = map to_ascii_lower s
      in if m = ''get'' then Ok Get
         else if m = ''post'' then Ok Post
         else if m = ''put'' then Ok Put
         else if m = ''delete'' then Ok Delete
         else if m = ''patch'' then Ok Patch
         else if m = ''head'' then Ok Head
         else Err (perr (''unknown HTTP method: '' @ m)))"

text \<open>An optional parenthesised type name.\<close>

definition paren_type :: "token list \<Rightarrow> string option parsed" where
  "paren_type ts =
     pbind (expect LParen ts) (\<lambda>_ ts. pbind (expect_ident_str ts) (\<lambda>n ts.
       pbind (expect RParen ts) (\<lambda>_ ts. Ok (Some n, ts))))"

definition parse_route :: "token list \<Rightarrow> api_route parsed" where
  "parse_route ts =
     pbind (expect At ts) (\<lambda>_ ts.
     pbind (expect_ident ''handler'' ts) (\<lambda>_ ts.
     pbind (expect_ident_str ts) (\<lambda>h ts.
     pbind (expect_ident_str (skip_newlines ts)) (\<lambda>ms ts.
     pbind (map_sum id (\<lambda>m. (m, ts)) (parse_method ms)) (\<lambda>m ts.
     pbind (expect_path ts) (\<lambda>p ts.
     pbind (if check LParen ts then paren_type ts else Ok (None, ts)) (\<lambda>rq ts.
     pbind (if peek_ident ts = Some ''returns'' then paren_type (advance ts) else Ok (None, ts)) (\<lambda>rs ts.
     Ok (\<lparr>handler = h, meth = m, path = p, request_type = rq, response_type = rs\<rparr>, ts)))))))))"

definition route_item :: "token list \<Rightarrow> api_route list parsed" where
  "route_item ts =
     (if check At ts then pbind (parse_route ts) (\<lambda>r ts. Ok ([r], ts)) else Ok ([], advance ts))"

subsection \<open>Progress of the productions\<close>

lemma pbind_Inr: "pbind r f = Inr x \<longleftrightarrow> (\<exists>v ts. r = Inr (v, ts) \<and> f v ts = Inr x)"
  by (auto simp: pbind_def split: sum.splits)

lemma map_sum_Inr: "map_sum id f r = Inr x \<longleftrightarrow> (\<exists>y. r = Inr y \<and> x = f y)"
  by (cases r) auto

lemma peek_ident_Some: "peek_ident ts = Some s \<longleftrightarrow> (\<exists>t rest. ts = t # rest \<and> tkind t = Ident s)"
  by (auto simp: peek_ident_def split: list.splits token_kind.splits)

lemma check_not_Nil: "check k ts \<Longrightarrow> ts \<noteq> []"
  by (auto simp: check_def)

lemma length_advance: "ts \<noteq> [] \<Longrightarrow> length (advance ts) < length ts"
  by (simp add: advance_def)

lemma length_advance_le: "length (advance ts) \<le> length ts"
  by (simp add: advance_def)

lemma expect_progress:
  "expect k ts = Inr (u, ts') \<Longrightarrow> length ts' < length ts"
  "expect_ident s ts = Inr (u, ts') \<Longrightarrow> length ts' < length ts"
  "expect_ident_str ts = Inr (v, ts') \<Longrightarrow> length ts' < length ts"
  "expect_string ts = Inr (v, ts') \<Longrightarrow> length ts' < length ts"
  "expect_backtick ts = Inr (v, ts') \<Longrightarrow> length ts' < length ts"
proof -
  show "expect k ts = Inr (u, ts') \<Longrightarrow> length ts' < length ts"
    by (auto simp: expect_def dest: check_not_Nil intro: length_advance split: if_splits)
  show "expect_ident s ts = Inr (u, ts') \<Longrightarrow> length ts' < length ts"
    by (auto simp: expect_ident_def peek_ident_Some advance_def split: if_splits)
  show "expect_ident_str ts = Inr (v, ts') \<Longrightarrow> length ts' < length ts"
    by (auto simp: expect_ident_str_def peek_ident_Some advance_def split: option.splits)
  show "expect_string ts = Inr (v, ts') \<Longrightarrow> length ts' < length ts"
    by (cases ts) (auto simp: expect_string_def advance_def split: token_kind.splits)
  show "expect_backtick ts = Inr (v, ts') \<Longrightarrow> length ts' < length ts"
    by (cases ts) (auto simp: expect_backtick_def advance_def split: token_kind.splits)
qed

lemma path_loop_le: "path_loop p ts = (q, ts') \<Longrightarrow> length ts' \<le> length ts"
  by (induction p ts rule: path_loop.induct) (auto split: token_kind.splits if_splits)

lemma expect_path_le: "expect_path ts = Inr (p, ts') \<Longrightarrow> length ts' \<le> length ts"
  by (auto simp: expect_path_def Let_def split: prod.splits if_splits dest: path_loop_le)

lemma skip_newlines_le: "length (skip_newlines ts) \<le> length ts"
  by (induction ts) auto

lemma info_item_progress:
  "info_item ts = Inr (v, ts') \<Longrightarrow> ts \<noteq> [] \<Longrightarrow> length ts' < length ts"
  using length_advance [of ts]
  by (auto simp: info_item_def pbind_Inr split: option.splits dest!: expect_progress)

lemma field_item_progress:
  "field_item ts = Inr (v, ts') \<Longrightarrow> ts \<noteq> [] \<Longrightarrow> length ts' < length ts"
  using length_advance [of ts]
  by (auto simp: field_item_def pbind_Inr split: option.splits if_splits dest!: expect_progress)

lemma paren_type_progress: "paren_type ts = Inr (v, ts') \<Longrightarrow> length ts' < length ts"
  by (auto simp: paren_type_def pbind_Inr dest!: expect_progress)

lemma parse_route_progress:
  assumes "parse_route ts = Inr (v, ts')"
  shows "length ts' < length ts"
proof -
  obtain u1 t1 u2 t2 h t3 ms t4 p t5 rq t6 rs where
    1: "expect At ts = Inr (u1, t1)" "expect_ident ''handler'' t1 = Inr (u2, t2)" "expect_ident_str t2 = Inr (h, t3)"
      "expect_ident_str (skip_newlines t3) = Inr (ms, t4)" "expect_path t4 = Inr (p, t5)"
    and 2: "(if check LParen t5 then paren_type t5 else Ok (None, t5)) = Inr (rq, t6)"
      "(if peek_ident t6 = Some ''returns'' then paren_type (advance t6) else Ok (None, t6)) = Inr (rs, ts')"
    using assms by (auto simp: parse_route_def pbind_Inr map_sum_Inr)
  have "length t6 \<le> length t5" using 2(1) by (auto split: if_splits dest: paren_type_progress)
  moreover have "length ts' \<le> length t6"
    using 2(2) length_advance_le [of t6] by (auto split: if_splits dest!: paren_type_progress)
  ultimately show ?thesis
    using expect_progress(1) [OF 1(1)] expect_progress(2) [OF 1(2)] expect_progress(3) [OF 1(3)]
      expect_progress(3) [OF 1(4)] expect_path_le [OF 1(5)] skip_newlines_le [of t3] by linarith
qed

lemma route_item_progress:
  "route_item ts = Inr (v, ts') \<Longrightarrow> ts \<noteq> [] \<Longrightarrow> length ts' < length ts"
  using length_advance [of ts] by (auto simp: route_item_def pbind_Inr split: if_splits dest: parse_route_progress)

subsection \<open>Loops\<close>

function info_loop :: "(string \<times> string) list \<Rightarrow> token list \<Rightarrow> (string \<times> string) list parsed" where
  "info_loop acc ts =
     (if check RParen ts \<or> is_eof ts then Ok (acc, ts)
      else case info_item ts of
             Inl e \<Rightarrow> Err e
           | Inr (v, ts') \<Rightarrow> info_loop (acc @ v) (skip_newlines ts'))"
  by pat_completeness auto
termination
  by (relation "measure (\<lambda>(_, ts). length ts)")
    (auto simp: is_eof_def intro: le_less_trans [OF skip_newlines_le] info_item_progress)

function field_loop :: "api_field list \<Rightarrow> token list \<Rightarrow> api_field list parsed" where
  "field_loop acc ts =
     (if check RBrace ts \<or> is_eof ts then Ok (acc, ts)
      else case field_item ts of
             Inl e \<Rightarrow> Err e
           | Inr (v, ts') \<Rightarrow> field_loop (acc @ v) (skip_newlines ts'))"
  by pat_completeness auto
termination
  by (relation "measure (\<lambda>(_, ts). length ts)")
    (auto simp: is_eof_def intro: le_less_trans [OF skip_newlines_le] field_item_progress)

function route_loop :: "api_route list \<Rightarrow> token list \<Rightarrow> api_route list parsed" where
  "route_loop acc ts =
     (if check RBrace ts \<or> is_eof ts then Ok (acc, ts)
      else case route_item ts of
             Inl e \<Rightarrow> Err e
           | Inr (v, ts') \<Rightarrow> route_loop (acc @ v) (skip_newlines ts'))"
  by pat_completeness auto
termination
  by (relation "measure (\<lambda>(_, ts). length ts)")
    (auto simp: is_eof_def intro: le_less_trans [OF skip_newlines_le] route_item_progress)

declare info_loop.simps [simp del] field_loop.simps [simp del] route_loop.simps [simp del]

definition parse_info :: "token list \<Rightarrow> (string \<times> string) list parsed" where
  "parse_info ts =
     pbind (expect_ident ''info'' ts) (\<lambda>_ ts. pbind (expect LParen ts) (\<lambda>_ ts.
       pbind (info_loop [] (skip_newlines ts)) (\<lambda>ps ts. pbind (expect RParen ts) (\<lambda>_ ts. Ok (ps, ts)))))"

definition parse_type_def :: "token list \<Rightarrow> api_type parsed" where
  "parse_type_def ts =
     pbind (expect_ident ''type'' ts) (\<lambda>_ ts. pbind (expect_ident_str ts) (\<lambda>n ts. pbind (expect LBrace ts) (\<lambda>_ ts.
       pbind (field_loop [] (skip_newlines ts)) (\<lambda>fs ts. pbind (expect RBrace ts) (\<lambda>_ ts.
       Ok (\<lparr>type_name = n, ty_fields = fs\<rparr>, ts))))))"

definition parse_service :: "token list \<Rightarrow> api_service parsed" where
  "parse_service ts =
     pbind (expect_ident ''service'' ts) (\<lambda>_ ts. pbind (expect_ident_str ts) (\<lambda>n ts. pbind (expect LBrace ts) (\<lambda>_ ts.
       pbind (route_loop [] (skip_newlines ts)) (\<lambda>rs ts. pbind (expect RBrace ts) (\<lambda>_ ts.
       Ok (\<lparr>service_name = n, routes = rs\<rparr>, ts))))))"

text \<open>One round of the main loop, on the file parsed so far.\<close>

definition file_item :: "api_file \<Rightarrow> token list \<Rightarrow> api_file parsed" where
  "file_item f ts =
     (case peek_ident ts of
        Some ident \<Rightarrow>
          if ident = ''syntax'' then pbind (parse_syntax ts) (\<lambda>s ts. Ok (f\<lparr>api_syntax := s\<rparr>, ts))
          else if ident = ''info'' then pbind (parse_info ts) (\<lambda>i ts. Ok (f\<lparr>api_info := i\<rparr>, ts))
          else if ident = ''type'' then pbind (parse_type_def ts) (\<lambda>t ts. Ok (f\<lparr>types := types f @ [t]\<rparr>, ts))
          else if ident = ''service'' then pbind (parse_service ts) (\<lambda>s ts. Ok (f\<lparr>services := services f @ [s]\<rparr>, ts))
          else Err (perr (''unexpected keyword '' @ [CHR 0x27] @ ident @ [CHR 0x27] @ '' at line '' @ show_nat (current_line ts)))
      | None \<Rightarrow> Ok (f, advance ts))"

lemma info_loop_le: "info_loop acc ts = Inr (v, ts') \<Longrightarrow> length ts' \<le> length ts"
proof (induction acc ts rule: info_loop.induct)
  case (1 acc ts)
  show ?case
  proof (cases "check RParen ts \<or> is_eof ts")
    case True
    with 1(2) show ?thesis by (simp add: info_loop.simps [of acc ts])
  next
    case False
    obtain w us where w: "info_item ts = Inr (w, us)"
      and "info_loop (acc @ w) (skip_newlines us) = Inr (v, ts')"
      using 1(2) False by (auto simp: info_loop.simps [of acc ts] split: sum.splits prod.splits)
    then have "length ts' \<le> length (skip_newlines us)" using 1(1) False by blast
    with info_item_progress [OF w] False skip_newlines_le [of us] show ?thesis by (auto simp: is_eof_def)
  qed
qed

lemma field_loop_le: "field_loop acc ts = Inr (v, ts') \<Longrightarrow> length ts' \<le> length ts"
proof (induction acc ts rule: field_loop.induct)
  case (1 acc ts)
  show ?case
  proof (cases "check RBrace ts \<or> is_eof ts")
    case True
    with 1(2) show ?thesis by (simp add: field_loop.simps [of acc ts])
  next
    case False
    obtain w us where w: "field_item ts = Inr (w, us)"
      and "field_loop (acc @ w) (skip_newlines us) = Inr (v, ts')"
      using 1(2) False by (auto simp: field_loop.simps [of acc ts] split: sum.splits prod.splits)
    then have "length ts' \<le> length (skip_newlines us)" using 1(1) False by blast
    with field_item_progress [OF w] False skip_newlines_le [of us] show ?thesis by (auto simp: is_eof_def)
  qed
qed

lemma route_loop_le: "route_loop acc ts = Inr (v, ts') \<Longrightarrow> length ts' \<le> length ts"
proof (induction acc ts rule: route_loop.induct)
  case (1 acc ts)
  show ?case
  proof (cases "check RBrace ts \<or> is_eof ts")
    case True
    with 1(2) show ?thesis by (simp add: route_loop.simps [of acc ts])
  next
    case False
    obtain w us where w: "route_item ts = Inr (w, us)"
      and "route_loop (acc @ w) (skip_newlines us) = Inr (v, ts')"
      using 1(2) False by (auto simp: route_loop.simps [of acc ts] split: sum.splits prod.splits)
    then have "length ts' \<le> length (skip_newlines us)" using 1(1) False by blast
    with route_item_progress [OF w] False skip_newlines_le [of us] show ?thesis by (auto simp: is_eof_def)
  qed
qed

lemma file_item_progress:
  assumes "file_item f ts = Inr (g, ts')" and "ts \<noteq> []"
  shows "length ts' < length ts"
proof -
  have "parse_syntax ts = Inr (s, us) \<Longrightarrow> length us < length ts" for s us
    by (auto simp: parse_syntax_def pbind_Inr dest!: expect_progress)
  moreover have "parse_info ts = Inr (i, us) \<Longrightarrow> length us < length ts" for i us
    by (auto simp: parse_info_def pbind_Inr dest!: expect_progress info_loop_le intro: le_less_trans [OF skip_newlines_le]
        dest: order_trans [OF _ skip_newlines_le] less_le_trans [OF _ order_trans [OF _ skip_newlines_le]])
  moreover have "parse_type_def ts = Inr (t, us) \<Longrightarrow> length us < length ts" for t us
    by (auto simp: parse_type_def_def pbind_Inr dest!: expect_progress field_loop_le
        dest: less_le_trans [OF _ order_trans [OF _ skip_newlines_le]])
  moreover have "parse_service ts = Inr (x, us) \<Longrightarrow> length us < length ts" for x us
    by (auto simp: parse_service_def pbind_Inr dest!: expect_progress route_loop_le
        dest: less_le_trans [OF _ order_trans [OF _ skip_newlines_le]])
  ultimately show ?thesis
    using assms length_advance [OF assms(2)]
    by (auto simp: file_item_def pbind_Inr split: option.splits if_splits)
qed

function file_loop :: "api_file \<Rightarrow> token list \<Rightarrow> api_file rszero_result" where
  "file_loop f ts =
     (if is_eof ts then Ok f
      else case file_item f ts of
             Inl e \<Rightarrow> Err e
           | Inr (g, ts') \<Rightarrow> file_loop g (skip_newlines ts'))"
  by pat_completeness auto
termination
  by (relation "measure (\<lambda>(_, ts). length ts)")
    (auto simp: is_eof_def intro: le_less_trans [OF skip_newlines_le] file_item_progress)

declare file_loop.simps [simp del]

definition parser_parse :: "token list \<Rightarrow> api_file rszero_result" where
  "parser_parse ts =
     file_loop \<lparr>api_syntax = ''v1'', api_info = [], types = [], services = []\<rparr> (skip_newlines ts)"

definition parse_api :: "string \<Rightarrow> api_file rszero_result" where
  "parse_api src = (case tokenize src of Inl e \<Rightarrow> Err e | Inr ts \<Rightarrow> parser_parse ts)"

end
