(* ===== verification/Api_Roundtrip.thy ===== *)
theory Api_Roundtrip
  imports Api_Parser
begin

text \<open>
  A printer for syntax trees of \<open>.api\<close> files and the proof that the lexer and the parser read back what
  it prints.  The three item loops of the parser share the contract \<open>item_list\<close>.
\<close>

section \<open>Printing\<close>

definition path_part :: "string \<Rightarrow> token_kind" where
  "path_part g = (if is_number g then Number g else Ident g)"

function split_path :: "string \<Rightarrow> token_kind list" where
  "split_path [] = []"
| "split_path (c # cs) =
     (if c = CHR ''/'' then Slash # split_path cs
      else if c = CHR '':'' then Colon # split_path cs
      else path_part (c # takeWhile (\<lambda>x. x \<noteq> CHR ''/'' \<and> x \<noteq> CHR '':'') cs)
             # split_path (dropWhile (\<lambda>x. x \<noteq> CHR ''/'' \<and> x \<noteq> CHR '':'') cs))"
  by pat_completeness auto
termination
  by (relation "measure length") (auto simp: le_imp_less_Suc length_dropWhile_le)

definition type_ref :: "string option \<Rightarrow> token_kind list" where
  "type_ref x = (case x of None \<Rightarrow> [] | Some t \<Rightarrow> [LParen, Ident t, RParen])"

definition returns_ref :: "string option \<Rightarrow> token_kind list" where
  "returns_ref x = (case x of None \<Rightarrow> [] | Some t \<Rightarrow> [Ident ''returns'', LParen, Ident t, RParen])"

definition route_kinds :: "api_route \<Rightarrow> token_kind list" where
  "route_kinds r =
     [At, Ident ''handler'', Ident (handler r), Newline, Ident (method_str (meth r))] @ split_path (path r)
       @ type_ref (request_type r) @ returns_ref (response_type r)"

definition field_kinds :: "api_field \<Rightarrow> token_kind list" where
  "field_kinds f =
     [Ident (field_name f), Ident (field_ty f)] @ (case field_tag f of None \<Rightarrow> [] | Some t \<Rightarrow> [Backtick t])"

definition info_kinds :: "string \<times> string \<Rightarrow> token_kind list" where
  "info_kinds kv = [Ident (fst kv), Colon, Str (snd kv)]"

definition lines_of :: "('a \<Rightarrow> token_kind list) \<Rightarrow> 'a list \<Rightarrow> token_kind list" where
  "lines_of k xs = concat (map (\<lambda>x. k x @ [Newline]) xs)"

definition type_kinds :: "api_type \<Rightarrow> token_kind list" where
  "type_kinds t = [Ident ''type'', Ident (type_name t), LBrace, Newline] @ lines_of field_kinds (ty_fields t) @ [RBrace]"

definition service_kinds :: "api_service \<Rightarrow> token_kind list" where
  "service_kinds s = [Ident ''service'', Ident (service_name s), LBrace, Newline] @ lines_of route_kinds (routes s) @ [RBrace]"

definition file_kinds :: "api_file \<Rightarrow> token_kind list" where
  "file_kinds f =
     [Ident ''syntax'', Eq, Str (api_syntax f), Newline]
     @ [Ident ''info'', LParen, Newline] @ lines_of info_kinds (api_info f) @ [RParen, Newline]
     @ lines_of type_kinds (types f) @ lines_of service_kinds (services f)"

definition print_api :: "api_file \<Rightarrow> string" where
  "print_api f = print_kinds (file_kinds f)"

section \<open>Trees that can be written down\<close>

definition wf_path :: "string \<Rightarrow> bool" where
  "wf_path p \<longleftrightarrow> p \<noteq> [] \<and> list_all wf_kind (split_path p)"

text \<open>A response type can be given only together with a request type; see the last property.\<close>

definition wf_route :: "api_route \<Rightarrow> bool" where
  "wf_route r \<longleftrightarrow> is_ident (handler r) \<and> wf_path (path r)
     \<and> (case request_type r of None \<Rightarrow> True | Some t \<Rightarrow> is_ident t)
     \<and> (case response_type r of None \<Rightarrow> True | Some t \<Rightarrow> is_ident t \<and> request_type r \<noteq> None)"

definition wf_field :: "api_field \<Rightarrow> bool" where
  "wf_field f \<longleftrightarrow> is_ident (field_name f) \<and> is_ident (field_ty f)
     \<and> (case field_tag f of None \<Rightarrow> True | Some t \<Rightarrow> CHR 0x60 \<notin> set t)"

definition wf_info :: "string \<times> string \<Rightarrow> bool" where
  "wf_info kv \<longleftrightarrow> is_ident (fst kv) \<and> CHR 0x22 \<notin> set (snd kv)"

definition wf_type :: "api_type \<Rightarrow> bool" where
  "wf_type t \<longleftrightarrow> is_ident (type_name t) \<and> list_all wf_field (ty_fields t)"

definition wf_service :: "api_service \<Rightarrow> bool" where
  "wf_service s \<longleftrightarrow> is_ident (service_name s) \<and> list_all wf_route (routes s)"

definition wf_file :: "api_file \<Rightarrow> bool" where
  "wf_file f \<longleftrightarrow> CHR 0x22 \<notin> set (api_syntax f) \<and> list_all wf_info (api_info f)
     \<and> list_all wf_type (types f) \<and> list_all wf_service (services f)"

section \<open>Item loops\<close>

lemma skip_newlines_keep: "ts = [] \<or> tkind (hd ts) \<noteq> Newline \<Longrightarrow> skip_newlines ts = ts"
  by (cases ts; cases "tkind (hd ts)") (auto simp: check_def)

lemma skip_newlines_one: "tkind n = Newline \<Longrightarrow> skip_newlines (n # ts) = skip_newlines ts"
  by (simp add: check_def)

locale item_list =
  fixes loop :: "'a list \<Rightarrow> token list \<Rightarrow> 'a list parsed" and item :: "token list \<Rightarrow> 'a list parsed"
    and stop :: token_kind and kinds :: "'a \<Rightarrow> token_kind list" and ok :: "'a \<Rightarrow> bool"
  assumes loop_eq: "loop acc ts =
      (if check stop ts \<or> is_eof ts then Ok (acc, ts)
       else case item ts of Inl e \<Rightarrow> Err e | Inr (v, ts') \<Rightarrow> loop (acc @ v) (skip_newlines ts'))"
    and kinds_start: "ok x \<Longrightarrow> \<exists>k ks. kinds x = k # ks \<and> k \<noteq> Newline \<and> k \<noteq> Eof \<and> discriminant k \<noteq> discriminant stop"
    and item_kinds: "ok x \<Longrightarrow> map tkind us = kinds x \<Longrightarrow> tkind n = Newline \<Longrightarrow> item (us @ n # ts) = Inr ([x], n # ts)"
    and stop_kind: "stop \<noteq> Newline"
begin

lemma loop_lines:
  "list_all ok xs \<Longrightarrow> map tkind us = lines_of kinds xs \<Longrightarrow> tkind t = stop \<Longrightarrow>
   loop acc (skip_newlines (us @ t # ts)) = Inr (acc @ xs, t # ts)"
proof (induction xs arbitrary: acc us)
  case Nil
  then have "skip_newlines (us @ t # ts) = t # ts"
    using stop_kind skip_newlines_keep [of "t # ts"] by (simp add: lines_of_def)
  with Nil show ?case by (subst loop_eq) (simp add: check_def)
next
  case (Cons x xs)
  then obtain vs n ws where us: "us = vs @ n # ws" and vs: "map tkind vs = kinds x" and n: "tkind n = Newline"
    and ws: "map tkind ws = lines_of kinds xs"
    by (auto simp: lines_of_def map_eq_append_conv map_eq_Cons_conv)
  obtain k ks where k: "kinds x = k # ks" "k \<noteq> Newline" "k \<noteq> Eof" "discriminant k \<noteq> discriminant stop"
    using kinds_start [of x] Cons.prems(1) by auto
  obtain v vs' where v: "vs = v # vs'" "tkind v = k" using vs k(1) by (auto simp: map_eq_Cons_conv)
  have "skip_newlines (us @ t # ts) = vs @ n # ws @ t # ts"
    using k(2) v us skip_newlines_keep [of "v # vs' @ n # ws @ t # ts"] by simp
  moreover have "\<not> check stop (vs @ n # ws @ t # ts)" "\<not> is_eof (vs @ n # ws @ t # ts)"
    using v k by (simp_all add: check_def is_eof_def)
  moreover have "item (vs @ n # ws @ t # ts) = Inr ([x], n # ws @ t # ts)"
    using item_kinds [OF _ vs n] Cons.prems(1) by simp
  ultimately have "loop acc (skip_newlines (us @ t # ts)) = loop (acc @ [x]) (skip_newlines (ws @ t # ts))"
    using n by (subst loop_eq) (simp add: skip_newlines_one del: skip_newlines.simps)
  with Cons.IH [OF _ ws Cons.prems(3), of "acc @ [x]"] Cons.prems(1) show ?case by simp
qed

end

lemmas step_defs = pbind_def expect_def expect_ident_def expect_ident_str_def expect_string_def expect_backtick_def
  check_def peek_ident_def advance_def is_eof_def

interpretation info_list: item_list info_loop info_item RParen info_kinds wf_info
proof unfold_locales
  fix x and us ts :: "token list" and n :: token
  assume "map tkind us = info_kinds x"
  then show "info_item (us @ n # ts) = Inr ([x], n # ts)"
    by (auto simp: info_kinds_def map_eq_Cons_conv info_item_def step_defs)
qed (subst info_loop.simps, auto simp: info_kinds_def)

interpretation field_list: item_list field_loop field_item RBrace field_kinds wf_field
proof unfold_locales
  fix x and us ts :: "token list" and n :: token
  assume "map tkind us = field_kinds x" "tkind n = Newline"
  then show "field_item (us @ n # ts) = Inr ([x], n # ts)"
    by (cases "field_tag x") (auto simp: field_kinds_def map_eq_Cons_conv field_item_def step_defs)
qed (subst field_loop.simps, auto simp: field_kinds_def)

section \<open>Routes\<close>

definition path_kind :: "token_kind \<Rightarrow> bool" where
  "path_kind k \<longleftrightarrow> (case k of Ident _ \<Rightarrow> True | Number _ \<Rightarrow> True | Colon \<Rightarrow> True | Slash \<Rightarrow> True | _ \<Rightarrow> False)"

lemma split_path_kinds: "list_all path_kind (split_path p)"
  by (induction p rule: split_path.induct) (auto simp: path_kind_def path_part_def)

lemma split_path_text: "concat (map kind_text (split_path p)) = p"
  by (induction p rule: split_path.induct) (auto simp: path_part_def)

lemma path_loop_kinds:
  assumes "list_all path_kind (map tkind us)" and "tkind n \<in> {Newline, LParen}"
  shows "path_loop q (us @ n # ts) = (q @ concat (map kind_text (map tkind us)), n # ts)"
  using assms(1)
proof (induction us arbitrary: q)
  case Nil
  then show ?case using assms(2) by auto
next
  case (Cons u us)
  then show ?case by (cases "tkind u") (auto simp: path_kind_def)
qed

lemma expect_path_kinds:
  assumes "map tkind us = split_path p" and "p \<noteq> []" and "tkind n \<in> {Newline, LParen}"
  shows "expect_path (us @ n # ts) = Inr (p, n # ts)"
  using path_loop_kinds [of us n "[]" ts] split_path_kinds [of p] split_path_text [of p] assms
  by (simp add: expect_path_def)

lemma parse_method_str: "parse_method (method_str m) = Inr m"
  by (cases m; hypsubst; code_simp)

lemma paren_type_kinds:
  assumes "map tkind us = [LParen, Ident t, RParen]"
  shows "paren_type (us @ ts) = Inr (Some t, ts)"
  using assms by (auto simp: map_eq_Cons_conv paren_type_def step_defs)

lemma parse_route_kinds:
  assumes "wf_route r" and "map tkind us = route_kinds r" and "tkind n = Newline"
  shows "parse_route (us @ n # ts) = Inr (r, n # ts)"
proof -
  obtain a b c d e ps qs rs where us: "us = a # b # c # d # e # ps @ qs @ rs"
    and k: "tkind a = At" "tkind b = Ident ''handler''" "tkind c = Ident (handler r)" "tkind d = Newline"
      "tkind e = Ident (method_str (meth r))" "map tkind ps = split_path (path r)"
      "map tkind qs = type_ref (request_type r)" "map tkind rs = returns_ref (response_type r)"
    using assms(2) by (auto simp: route_kinds_def map_eq_Cons_conv map_eq_append_conv append_eq_map_conv)
  let ?rest = "qs @ rs @ n # ts"
  obtain m rest' where rest: "?rest = m # rest'" "tkind m \<in> {Newline, LParen}"
  proof (cases "request_type r")
    case None
    with assms(1) k(7,8) have "qs = []" "rs = []"
      by (auto simp: wf_route_def type_ref_def returns_ref_def split: option.splits)
    with assms(3) show ?thesis by (intro that [of n ts]) auto
  next
    case (Some t)
    with k(7) show ?thesis by (auto simp: type_ref_def map_eq_Cons_conv intro: that)
  qed
  have path: "expect_path (ps @ ?rest) = Inr (path r, ?rest)"
    using expect_path_kinds [OF k(6) _ rest(2)] assms(1) rest(1) by (simp add: wf_route_def wf_path_def)
  have req: "(if check LParen ?rest then paren_type ?rest else Ok (None, ?rest)) = Inr (request_type r, rs @ n # ts)"
  proof (cases "request_type r")
    case None
    with assms k(7,8) show ?thesis
      by (auto simp: wf_route_def type_ref_def returns_ref_def check_def split: option.splits)
  next
    case (Some t)
    with k(7) have "map tkind qs = [LParen, Ident t, RParen]" by (simp add: type_ref_def)
    with Some show ?thesis
      using paren_type_kinds [of qs t "rs @ n # ts"] by (auto simp: map_eq_Cons_conv check_def)
  qed
  have resp: "(if peek_ident (rs @ n # ts) = Some ''returns'' then paren_type (advance (rs @ n # ts)) else Ok (None, rs @ n # ts))
      = Inr (response_type r, n # ts)"
  proof (cases "response_type r")
    case None
    with assms(3) k(8) show ?thesis by (simp add: returns_ref_def peek_ident_def)
  next
    case (Some t)
    with k(8) obtain x xs where "rs = x # xs" "tkind x = Ident ''returns''" "map tkind xs = [LParen, Ident t, RParen]"
      by (auto simp: returns_ref_def map_eq_Cons_conv)
    with Some show ?thesis using paren_type_kinds [of xs t "n # ts"] by (simp add: peek_ident_def advance_def)
  qed
  have "skip_newlines (d # e # ps @ ?rest) = e # ps @ ?rest"
    using k(4,5) by (simp add: check_def)
  with path req resp show ?thesis
    by (simp add: us parse_route_def pbind_def expect_def expect_ident_def expect_ident_str_def advance_def
        peek_ident_def check_def k parse_method_str del: skip_newlines.simps)
qed

interpretation route_list: item_list route_loop route_item RBrace route_kinds wf_route
proof unfold_locales
  fix x and us ts :: "token list" and n :: token
  assume "wf_route x" "map tkind us = route_kinds x" "tkind n = Newline"
  moreover from this have "check At (us @ n # ts)" by (auto simp: route_kinds_def map_eq_Cons_conv check_def)
  ultimately show "route_item (us @ n # ts) = Inr ([x], n # ts)"
    by (simp add: route_item_def parse_route_kinds pbind_def)
qed (subst route_loop.simps, auto simp: route_kinds_def)

section \<open>Files\<close>

lemma lines_of_Cons: "lines_of k (x # xs) = k x @ Newline # lines_of k xs"
  by (simp add: lines_of_def)

lemma block_kinds:
  assumes "map tkind us = [Ident kw, Ident nm, LBrace, Newline] @ ks @ [RBrace]"
  obtains a b c d vs e where "us = a # b # c # d # vs @ [e]" "tkind a = Ident kw" "tkind b = Ident nm"
    "tkind c = LBrace" "tkind d = Newline" "map tkind vs = ks" "tkind e = RBrace"
  using assms by (auto simp: map_eq_Cons_conv map_eq_append_conv append_eq_map_conv Cons_eq_map_conv)

lemma parse_type_kinds:
  assumes "wf_type t" and "map tkind us = type_kinds t"
  shows "parse_type_def (us @ ts) = Inr (t, ts)"
proof -
  obtain a b c d vs e where us: "us = a # b # c # d # vs @ [e]" and k: "tkind a = Ident ''type''"
      "tkind b = Ident (type_name t)" "tkind c = LBrace" "tkind d = Newline" "map tkind vs = lines_of field_kinds (ty_fields t)"
      "tkind e = RBrace"
    using assms(2) unfolding type_kinds_def by (rule block_kinds)
  have "field_loop [] (skip_newlines (d # vs @ e # ts)) = Inr ([] @ ty_fields t, e # ts)"
    using field_list.loop_lines [OF _ k(5,6), of "[]" ts] assms(1) k(4)
    by (simp add: wf_type_def skip_newlines_one del: skip_newlines.simps)
  then show ?thesis
    by (simp add: us parse_type_def_def step_defs k del: skip_newlines.simps)
qed

lemma parse_service_kinds:
  assumes "wf_service s" and "map tkind us = service_kinds s"
  shows "parse_service (us @ ts) = Inr (s, ts)"
proof -
  obtain a b c d vs e where us: "us = a # b # c # d # vs @ [e]" and k: "tkind a = Ident ''service''"
      "tkind b = Ident (service_name s)" "tkind c = LBrace" "tkind d = Newline" "map tkind vs = lines_of route_kinds (routes s)"
      "tkind e = RBrace"
    using assms(2) unfolding service_kinds_def by (rule block_kinds)
  have "route_loop [] (skip_newlines (d # vs @ e # ts)) = Inr ([] @ routes s, e # ts)"
    using route_list.loop_lines [OF _ k(5,6), of "[]" ts] assms(1) k(4)
    by (simp add: wf_service_def skip_newlines_one del: skip_newlines.simps)
  then show ?thesis
    by (simp add: us parse_service_def step_defs k del: skip_newlines.simps)
qed

lemma parse_info_kinds:
  assumes "list_all wf_info i" and "map tkind us = [Ident ''info'', LParen, Newline] @ lines_of info_kinds i @ [RParen]"
  shows "parse_info (us @ ts) = Inr (i, ts)"
proof -
  obtain a b d vs e where us: "us = a # b # d # vs @ [e]" and k: "tkind a = Ident ''info''"
      "tkind b = LParen" "tkind d = Newline" "map tkind vs = lines_of info_kinds i" "tkind e = RParen"
    using assms(2) by (auto simp: map_eq_Cons_conv map_eq_append_conv append_eq_map_conv Cons_eq_map_conv)
  have "info_loop [] (skip_newlines (d # vs @ e # ts)) = Inr ([] @ i, e # ts)"
    using info_list.loop_lines [OF assms(1) k(4,5), of "[]" ts] k(3)
    by (simp add: skip_newlines_one del: skip_newlines.simps)
  then show ?thesis
    by (simp add: us parse_info_def step_defs k del: skip_newlines.simps)
qed

text \<open>A block of the file followed by a newline is one round of the main loop.\<close>

lemma file_loop_block:
  assumes "file_item f (us @ n # ts) = Inr (g, n # ts)" and "tkind n = Newline" and "us \<noteq> []"
    and "tkind (hd us) \<notin> {Newline, Eof}"
  shows "file_loop f (skip_newlines (us @ n # ts)) = file_loop g (skip_newlines ts)"
proof -
  have "skip_newlines (us @ n # ts) = us @ n # ts"
    using assms(3,4) by (intro skip_newlines_keep) (cases us; auto)
  moreover have "\<not> is_eof (us @ n # ts)" using assms(3,4) by (cases us) (auto simp: is_eof_def)
  ultimately show ?thesis
    using assms(1,2) by (subst file_loop.simps) (simp add: skip_newlines_one del: skip_newlines.simps)
qed

lemma file_loop_types:
  "list_all wf_type tys \<Longrightarrow> map tkind us = lines_of type_kinds tys \<Longrightarrow>
   file_loop f (skip_newlines (us @ ts)) = file_loop (f\<lparr>types := types f @ tys\<rparr>) (skip_newlines ts)"
proof (induction tys arbitrary: f us)
  case Nil
  then show ?case by (simp add: lines_of_def)
next
  case (Cons t tys)
  then obtain vs n ws where us: "us = vs @ n # ws" "map tkind vs = type_kinds t" "tkind n = Newline"
    "map tkind ws = lines_of type_kinds tys"
    by (auto simp: lines_of_Cons map_eq_append_conv map_eq_Cons_conv)
  then obtain v vs' where v: "vs = v # vs'" "tkind v = Ident ''type''" by (auto simp: type_kinds_def map_eq_Cons_conv)
  have "file_item f (vs @ n # ws @ ts) = Inr (f\<lparr>types := types f @ [t]\<rparr>, n # ws @ ts)"
    using parse_type_kinds [OF _ us(2), of "n # ws @ ts"] Cons.prems(1) v
    by (simp add: file_item_def peek_ident_def pbind_def)
  from file_loop_block [OF this us(3)] v Cons.IH [OF _ us(4), of "f\<lparr>types := types f @ [t]\<rparr>"] Cons.prems(1)
  show ?case by (simp add: us(1) del: skip_newlines.simps)
qed

lemma file_loop_services:
  "list_all wf_service ss \<Longrightarrow> map tkind us = lines_of service_kinds ss \<Longrightarrow>
   file_loop f (skip_newlines (us @ ts)) = file_loop (f\<lparr>services := services f @ ss\<rparr>) (skip_newlines ts)"
proof (induction ss arbitrary: f us)
  case Nil
  then show ?case by (simp add: lines_of_def)
next
  case (Cons s ss)
  then obtain vs n ws where us: "us = vs @ n # ws" "map tkind vs = service_kinds s" "tkind n = Newline"
    "map tkind ws = lines_of service_kinds ss"
    by (auto simp: lines_of_Cons map_eq_append_conv map_eq_Cons_conv)
  then obtain v vs' where v: "vs = v # vs'" "tkind v = Ident ''service''" by (auto simp: service_kinds_def map_eq_Cons_conv)
  have "file_item f (vs @ n # ws @ ts) = Inr (f\<lparr>services := services f @ [s]\<rparr>, n # ws @ ts)"
    using parse_service_kinds [OF _ us(2), of "n # ws @ ts"] Cons.prems(1) v
    by (simp add: file_item_def peek_ident_def pbind_def)
  from file_loop_block [OF this us(3)] v Cons.IH [OF _ us(4), of "f\<lparr>services := services f @ [s]\<rparr>"] Cons.prems(1)
  show ?case by (simp add: us(1) del: skip_newlines.simps)
qed

lemma map_appendE:
  assumes "map g xs = a @ b"
  obtains us vs where "xs = us @ vs" "map g us = a" "map g vs = b"
  using assms by (auto simp: map_eq_append_conv)

lemma parser_parse_kinds:
  assumes "wf_file f" and "map tkind ts = file_kinds f @ [Eof]"
  shows "parser_parse ts = Ok f"
proof -
  let ?i = "[Ident ''info'', LParen, Newline] @ lines_of info_kinds (api_info f) @ [RParen]"
  obtain s n1 i n2 ty sv e where ts: "ts = s @ n1 # i @ n2 # ty @ sv @ [e]"
    and k: "map tkind s = [Ident ''syntax'', Eq, Str (api_syntax f)]" "tkind n1 = Newline" "map tkind i = ?i"
      "tkind n2 = Newline" "map tkind ty = lines_of type_kinds (types f)" "map tkind sv = lines_of service_kinds (services f)"
      "tkind e = Eof"
  proof -
    have m: "map tkind ts = [Ident ''syntax'', Eq, Str (api_syntax f)] @ [Newline] @ ?i @ [Newline]
        @ lines_of type_kinds (types f) @ lines_of service_kinds (services f) @ [Eof]"
      using assms(2) by (simp add: file_kinds_def)
    obtain s r1 where "ts = s @ r1" "map tkind s = [Ident ''syntax'', Eq, Str (api_syntax f)]"
      and m1: "map tkind r1 = [Newline] @ ?i @ [Newline] @ lines_of type_kinds (types f) @ lines_of service_kinds (services f) @ [Eof]"
      using m by (rule map_appendE)
    moreover obtain n1 r2 where "r1 = n1 @ r2" "map tkind n1 = [Newline]"
      and m2: "map tkind r2 = ?i @ [Newline] @ lines_of type_kinds (types f) @ lines_of service_kinds (services f) @ [Eof]"
      using m1 by (rule map_appendE)
    moreover obtain i r3 where "r2 = i @ r3" "map tkind i = ?i"
      and m3: "map tkind r3 = [Newline] @ lines_of type_kinds (types f) @ lines_of service_kinds (services f) @ [Eof]"
      using m2 by (rule map_appendE)
    moreover obtain n2 ty sv e where "r3 = n2 # ty @ sv @ [e]" "tkind n2 = Newline"
      "map tkind ty = lines_of type_kinds (types f)" "map tkind sv = lines_of service_kinds (services f)" "tkind e = Eof"
      using m3 by (auto simp: map_eq_Cons_conv map_eq_append_conv append_eq_map_conv)
    moreover from \<open>map tkind n1 = [Newline]\<close> obtain n where "n1 = [n]" "tkind n = Newline"
      by (auto simp: map_eq_Cons_conv)
    ultimately show ?thesis using that by simp
  qed
  have wf: "list_all wf_info (api_info f)" "list_all wf_type (types f)" "list_all wf_service (services f)"
    using assms(1) by (simp_all add: wf_file_def)
  let ?f0 = "\<lparr>api_syntax = ''v1'', api_info = [], types = [], services = []\<rparr>"
  let ?r1 = "i @ n2 # ty @ sv @ [e]" and ?r2 = "ty @ sv @ [e]"
  have "file_item ?f0 (s @ n1 # ?r1) = Inr (?f0\<lparr>api_syntax := api_syntax f\<rparr>, n1 # ?r1)"
    using k(1) by (auto simp: map_eq_Cons_conv file_item_def parse_syntax_def step_defs)
  then have 1: "file_loop ?f0 (skip_newlines (s @ n1 # ?r1)) = file_loop (?f0\<lparr>api_syntax := api_syntax f\<rparr>) (skip_newlines ?r1)"
    using k(1) by (intro file_loop_block [OF _ k(2)]) (auto simp: map_eq_Cons_conv)
  have "file_item (?f0\<lparr>api_syntax := api_syntax f\<rparr>) (i @ n2 # ?r2) =
      Inr (?f0\<lparr>api_syntax := api_syntax f, api_info := api_info f\<rparr>, n2 # ?r2)"
    using parse_info_kinds [OF wf(1) k(3), of "n2 # ?r2"] k(3)
    by (auto simp: map_eq_Cons_conv file_item_def peek_ident_def pbind_def)
  then have 2: "file_loop (?f0\<lparr>api_syntax := api_syntax f\<rparr>) (skip_newlines ?r1) =
      file_loop (?f0\<lparr>api_syntax := api_syntax f, api_info := api_info f\<rparr>) (skip_newlines ?r2)"
    using k(3) by (intro file_loop_block [OF _ k(4)]) (auto simp: map_eq_Cons_conv)
  have "skip_newlines [e] = [e]" using k(7) by (simp add: check_def)
  moreover have "file_loop g [e] = Ok g" for g using k(7) by (subst file_loop.simps) (simp add: is_eof_def)
  ultimately show ?thesis
    using 1 2 file_loop_types [OF wf(2) k(5)] file_loop_services [OF wf(3) k(6)]
    by (simp add: parser_parse_def ts del: skip_newlines.simps)
qed

lemma keyword_idents:
  "is_ident ''handler''" "is_ident ''returns''" "is_ident ''type''" "is_ident ''service''" "is_ident ''info''"
  "is_ident ''syntax''" "is_ident (method_str m)"
  by (code_simp, code_simp, code_simp, code_simp, code_simp, code_simp) (cases m; hypsubst; code_simp)

lemma wf_lines: "list_all (\<lambda>x. list_all wf_kind (k x)) xs \<Longrightarrow> list_all wf_kind (lines_of k xs)"
  by (induction xs) (simp_all add: lines_of_def)

lemma wf_route_kinds: "wf_route r \<Longrightarrow> list_all wf_kind (route_kinds r)"
  by (auto simp: wf_route_def wf_path_def route_kinds_def type_ref_def returns_ref_def keyword_idents split: option.splits)

lemma wf_field_kinds: "wf_field f \<Longrightarrow> list_all wf_kind (field_kinds f)"
  by (auto simp: wf_field_def field_kinds_def split: option.splits)

lemma wf_file_kinds: "wf_file f \<Longrightarrow> list_all wf_kind (file_kinds f)"
  unfolding wf_file_def file_kinds_def
  by (auto simp: keyword_idents list_all_iff [of _ "types f"] list_all_iff [of _ "services f"] list_all_iff [of _ "api_info f"]
      wf_type_def wf_service_def wf_info_def type_kinds_def service_kinds_def info_kinds_def
      intro!: wf_lines list.pred_mono_strong [OF _ wf_route_kinds] list.pred_mono_strong [OF _ wf_field_kinds])

section \<open>Properties\<close>

text \<open>
  C19. Lexer and parser read back what is printed: for every tree whose names are identifiers, whose
  strings hold no quotes and whose routes have a response type only beside a request type, parsing its
  printed text succeeds and yields the tree.
\<close>

theorem parse_print_roundtrip:
  assumes "wf_file f"
  shows "parse_api (print_api f) = Ok f"
proof -
  have "map tkind (tokenize_loop (lexer_new (print_kinds (file_kinds f)))) = file_kinds f @ [Eof]"
    using wf_file_kinds [OF assms] by (intro tokenize_loop_print) (simp_all add: lexer_new_def)
  with parser_parse_kinds [OF assms] show ?thesis by (simp add: parse_api_def tokenize_def print_api_def)
qed

text \<open>
  A route written with a response type and no request type, as the module's documentation shows, is
  misread: the word \<open>returns\<close> becomes part of the path, and the response type becomes the request type.
\<close>

theorem returns_without_request_misread:
  assumes "map tkind us = [At, Ident ''handler'', Ident h, Newline, Ident (method_str m)] @ split_path p
      @ [Ident ''returns'', LParen, Ident t, RParen]"
    and "tkind n = Newline"
  shows "parse_route (us @ n # ts) =
    Ok (\<lparr>handler = h, meth = m, path = p @ ''returns'', request_type = Some t, response_type = None\<rparr>, n # ts)"
proof -
  obtain a b c d e ps r qs where us: "us = a # b # c # d # e # ps @ r # qs"
    and k: "tkind a = At" "tkind b = Ident ''handler''" "tkind c = Ident h" "tkind d = Newline"
      "tkind e = Ident (method_str m)" "map tkind ps = split_path p" "tkind r = Ident ''returns''"
      "map tkind qs = [LParen, Ident t, RParen]"
    using assms(1) by (auto simp: map_eq_Cons_conv map_eq_append_conv append_eq_map_conv)
  obtain q qs' where q: "qs = q # qs'" "tkind q = LParen" using k(8) by (auto simp: map_eq_Cons_conv)
  have "path_loop [] ((ps @ [r]) @ q # qs' @ n # ts) = ([] @ concat (map kind_text (map tkind (ps @ [r]))), q # qs' @ n # ts)"
    using q(2) k(6,7) split_path_kinds [of p] by (intro path_loop_kinds) (auto simp: path_kind_def)
  then have "expect_path (ps @ r # q # qs' @ n # ts) = Inr (p @ ''returns'', q # qs' @ n # ts)"
    using k(6,7) split_path_text [of p] by (simp add: expect_path_def)
  moreover have "paren_type (q # qs' @ n # ts) = Inr (Some t, n # ts)"
    using paren_type_kinds [OF k(8), of "n # ts"] q(1) by simp
  moreover have "skip_newlines (d # e # ps @ r # q # qs' @ n # ts) = e # ps @ r # q # qs' @ n # ts"
    using k(4,5) by (simp add: check_def)
  ultimately show ?thesis
    using q(2) assms(2)
    by (simp add: us q(1) parse_route_def pbind_def expect_def expect_ident_def expect_ident_str_def advance_def
        peek_ident_def check_def k parse_method_str del: skip_newlines.simps)
qed

definition demo_api :: api_file where
  "demo_api = \<lparr>api_syntax = ''v1'', api_info = [(''title'', ''user api'')],
     types = [\<lparr>type_name = ''User'', ty_fields = [\<lparr>field_name = ''Id'', field_ty = ''int64'', field_tag = Some ''json:id''\<rparr>]\<rparr>],
     services = [\<lparr>service_name = ''user-api'', routes =
       [\<lparr>handler = ''getUser'', meth = Get, path = ''/users/:id'', request_type = Some ''GetUserReq'', response_type = Some ''User''\<rparr>,
        \<lparr>handler = ''ping'', meth = Head, path = ''/ping'', request_type = None, response_type = None\<rparr>]\<rparr>]\<rparr>"

theorem parse_print_roundtrip_witness: "parse_api (print_api demo_api) = Ok demo_api"
  by (rule parse_print_roundtrip) code_simp

definition demo_tok :: "token_kind \<Rightarrow> token" where
  "demo_tok k = \<lparr>tkind = k, tline = 1, tcolumn = 1\<rparr>"

theorem returns_without_request_misread_witness:
  "parse_route (map demo_tok
     [At, Ident ''handler'', Ident ''listUsers'', Newline, Ident ''GET'', Slash, Ident ''users'',
      Ident ''returns'', LParen, Ident ''ListUserResp'', RParen, Newline]) =
   Ok (\<lparr>handler = ''listUsers'', meth = Get, path = ''/usersreturns'', request_type = Some ''ListUserResp'',
      response_type = None\<rparr>, [demo_tok Newline])"
proof -
  have "split_path ''/users'' = [Slash, Ident ''users'']" by code_simp
  then have "map tkind (map demo_tok [At, Ident ''handler'', Ident ''listUsers'', Newline, Ident ''GET'', Slash, Ident ''users'',
      Ident ''returns'', LParen, Ident ''ListUserResp'', RParen]) =
      [At, Ident ''handler'', Ident ''listUsers'', Newline, Ident (method_str Get)] @ split_path ''/users''
      @ [Ident ''returns'', LParen, Ident ''ListUserResp'', RParen]"
    by (simp add: demo_tok_def)
  from returns_without_request_misread [OF this, of "demo_tok Newline" "[]"] show ?thesis
    by (simp add: demo_tok_def)
qed

end
