(* ===== verification/Api_Codegen.thy ===== *)
theory Api_Codegen
  imports Api_Parser
begin

text \<open>
  The code generator (\<open>rszero/src/api/codegen.rs\<close>): the Rust text of the types, of the handler stubs and
  of the route registration of a parsed \<open>.api\<close> file.  Identifiers are ASCII.
\<close>

record generated_code =
  gen_types :: string
  gen_handlers :: string
  gen_routes :: string

definition dq :: string where
  "dq = [CHR 0x22]"

definition eol :: string where
  "eol = [nl]"

function map_api_type :: "string \<Rightarrow> string" where
  "map_api_type t =
     (if t \<in> {''string'', ''String''} then ''String''
      else if t \<in> {''int'', ''int32''} then ''i32''
      else if t = ''int64'' then ''i64''
      else if t = ''bool'' then ''bool''
      else if t \<in> {''float'', ''float32''} then ''f32''
      else if t = ''float64'' then ''f64''
      else if take 1 t = ''['' \<and> t \<noteq> [] \<and> last t = CHR '']'' then ''Vec<'' @ map_api_type (butlast (tl t)) @ ''>''
      else if take 4 t = ''map['' then ''std::collections::HashMap<String, String>''
      else t)"
  by pat_completeness auto
termination
  by (relation "measure length") auto

declare map_api_type.simps [simp del]

fun trim_left :: "char \<Rightarrow> string \<Rightarrow> string" where
  "trim_left q s = dropWhile (\<lambda>c. c = q) s"

definition trim_matches :: "char \<Rightarrow> string \<Rightarrow> string" where
  "trim_matches q s = rev (trim_left q (rev (trim_left q s)))"

definition format_tag :: "string \<Rightarrow> string" where
  "format_tag tag =
     (if CHR '':'' \<in> set tag then
        let key = takeWhile (\<lambda>c. c \<noteq> CHR '':'') tag;
            val = trim_matches (CHR 0x22) (tl (dropWhile (\<lambda>c. c \<noteq> CHR '':'') tag))
        in (if key = ''json'' then ''rename'' else key) @ '' = '' @ dq @ val @ dq
      else tag)"

definition is_uppercase :: "char \<Rightarrow> bool" where
  "is_uppercase c \<longleftrightarrow> 65 \<le> (of_char c :: nat) \<and> (of_char c :: nat) \<le> 90"

text \<open>The loop from character index \<open>i\<close> on.\<close>

fun snake_case_from :: "nat \<Rightarrow> string \<Rightarrow> string" where
  "snake_case_from i [] = []"
| "snake_case_from i (c # cs) =
     (if is_uppercase c \<and> 0 < i then ''_'' else []) @ [to_ascii_lower c] @ snake_case_from (Suc i) cs"

definition snake_case :: "string \<Rightarrow> string" where
  "snake_case s = snake_case_from 0 s"

definition generate_field :: "api_field \<Rightarrow> string" where
  "generate_field f =
     (case field_tag f of None \<Rightarrow> [] | Some t \<Rightarrow> ''    #[serde('' @ format_tag t @ '')]'' @ eol)
     @ ''    pub '' @ snake_case (field_name f) @ '': '' @ map_api_type (field_ty f) @ '','' @ eol"

definition generate_type :: "api_type \<Rightarrow> string" where
  "generate_type ty =
     ''#[derive(Debug, Clone, Serialize, Deserialize)]'' @ eol
     @ ''pub struct '' @ type_name ty @ '' {'' @ eol
     @ concat (map generate_field (ty_fields ty)) @ ''}'' @ eol"

definition generate_handler :: "api_route \<Rightarrow> string" where
  "generate_handler r =
     (let req = (case request_type r of None \<Rightarrow> ''()'' | Some t \<Rightarrow> t);
          resp = (case response_type r of None \<Rightarrow> ''impl IntoResponse'' | Some t \<Rightarrow> t)
      in ''/// Handler: '' @ handler r @ eol
         @ ''pub async fn '' @ handler r @ ''(_req: '' @ req @ '') -> '' @ resp @ '' {'' @ eol
         @ ''    // TODO: implement business logic'' @ eol
         @ ''    ok('' @ dq @ ''ok'' @ dq @ '')'' @ eol
         @ ''}'' @ eol)"

fun axum_method :: "route_method \<Rightarrow> string" where
  "axum_method Get = ''get''"
| "axum_method Post = ''post''"
| "axum_method Put = ''put''"
| "axum_method Delete = ''delete''"
| "axum_method Patch = ''patch''"
| "axum_method Head = ''head''"

definition generate_route_registration :: "api_route \<Rightarrow> string" where
  "generate_route_registration r =
     ''        .route('' @ dq @ path r @ dq @ '', axum::routing::'' @ axum_method (meth r) @ ''('' @ handler r @ ''))'' @ eol"

definition generate :: "api_file \<Rightarrow> generated_code rszero_result" where
  "generate api =
     (let rs = concat (map routes (services api))
      in Ok \<lparr>gen_types = ''// Auto-generated from .api file'' @ eol @ eol
               @ ''use serde::{Serialize, Deserialize};'' @ eol @ eol
               @ concat (map (\<lambda>t. generate_type t @ eol) (types api)),
             gen_handlers = ''// Auto-generated handler stubs'' @ eol @ eol
               @ ''use axum::response::IntoResponse;'' @ eol @ ''use rszero::prelude::*;'' @ eol @ eol
               @ concat (map (\<lambda>r. generate_handler r @ eol) rs),
             gen_routes = ''// Auto-generated route registration'' @ eol
               @ ''pub fn register_routes(server: RszeroServer) -> RszeroServer {'' @ eol
               @ ''    server'' @ eol
               @ concat (map generate_route_registration rs) @ ''}'' @ eol\<rparr>)"

section \<open>Names\<close>

lemma to_ascii_lower_not_upper: "\<not> is_uppercase (to_ascii_lower c)"
  by (auto simp: to_ascii_lower_def is_uppercase_def)

lemma snake_case_from_no_upper: "list_all (\<lambda>c. \<not> is_uppercase c) (snake_case_from i s)"
  by (induction i s rule: snake_case_from.induct)
    (auto simp: to_ascii_lower_not_upper, simp add: is_uppercase_def)

lemma snake_case_from_length:
  "length (snake_case_from (Suc i) s) = length s + length (filter is_uppercase s)"
  by (induction s arbitrary: i) auto

text \<open>
  The generated name of a field has no upper-case letter; a name without upper-case letters is kept,
  and every upper-case letter after the first character adds exactly one underscore.
\<close>

theorem snake_case_spec:
  "list_all (\<lambda>c. \<not> is_uppercase c) (snake_case s)
   \<and> length (snake_case s) = length s + length (filter is_uppercase (tl s))
   \<and> (filter is_uppercase s \<noteq> [] \<or> snake_case s = s)"
proof -
  have "filter is_uppercase s = [] \<Longrightarrow> snake_case_from i s = s" for i
    by (induction s arbitrary: i) (auto simp: to_ascii_lower_def is_uppercase_def split: if_splits)
  moreover have "length (snake_case s) = length s + length (filter is_uppercase (tl s))"
    by (cases s) (simp_all add: snake_case_def snake_case_from_length)
  ultimately show ?thesis using snake_case_from_no_upper [of 0 s] by (auto simp: snake_case_def)
qed

end
