(* ===== verification/Cron.thy ===== *)
theory Cron
  imports Errors
begin

text \<open>
  Cron expressions (\<open>rszero/src/scheduler/cron.rs\<close>): the parser of the five fields and the search for the
  next execution time.  A \<open>NaiveDateTime\<close> is a count of nanoseconds; the calendar accessors of \<open>chrono\<close>
  (minute, hour, day, month, day of the week) are parameters, gathered in the record \<open>calendar\<close>.  Values
  of type \<open>u8\<close> are natural numbers that parsing keeps below 256.
\<close>

section \<open>Parsing integers and splitting\<close>

text \<open>The text of the error \<open>parse::<u8>\<close> returns when it fails.\<close>

fun int_error :: "nat \<Rightarrow> string \<Rightarrow> string" where
  "int_error acc [] = []"
| "int_error acc (c # cs) =
     (if \<not> is_ascii_digit c then ''invalid digit found in string''
      else if 255 < 10 * acc + digit_value c then ''number too large to fit in target type''
      else int_error (10 * acc + digit_value c) cs)"

definition parse_u8 :: "string \<Rightarrow> (string, nat) result" where
  "parse_u8 s =
     (case parse_uint 255 s of
        Some n \<Rightarrow> Ok n
      | None \<Rightarrow> Err (if s = [] then ''cannot parse integer from empty string''
                     else if s = ''+'' then ''invalid digit found in string''
                     else int_error 0 (if hd s = CHR ''+'' then tl s else s)))"

definition is_space :: "char \<Rightarrow> bool" where
  "is_space c \<longleftrightarrow> c \<in> {CHR '' '', CHR 0x09, CHR 0x0A, CHR 0x0B, CHR 0x0C, CHR 0x0D}"

definition trim :: "string \<Rightarrow> string" where
  "trim s = rev (dropWhile is_space (rev (dropWhile is_space s)))"

function split_whitespace :: "string \<Rightarrow> string list" where
  "split_whitespace s =
     (let s' = dropWhile is_space s
      in if s' = [] then []
         else takeWhile (\<lambda>c. \<not> is_space c) s' # split_whitespace (dropWhile (\<lambda>c. \<not> is_space c) s'))"
  by pat_completeness auto
termination
proof (relation "measure length", goal_cases)
  case (2 s s')
  then have "hd s' \<in> set s' \<and> \<not> is_space (hd s')"
    by (metis hd_dropWhile list.set_sel(1))
  then have "length (dropWhile (\<lambda>c. \<not> is_space c) s') < length s'"
    by (cases s') (auto simp: le_imp_less_Suc length_dropWhile_le)
  also have "\<dots> \<le> length s" using 2 by (simp add: length_dropWhile_le)
  finally show ?case by simp
qed simp

declare split_whitespace.simps [simp del]

section \<open>Fields\<close>

definition config_err :: "string \<Rightarrow> rszero_error" where
  "config_err m = Config m None"

definition bounds_text :: "nat \<Rightarrow> nat \<Rightarrow> string" where
  "bounds_text mn mx = '' out of bounds ['' @ show_nat mn @ '', '' @ show_nat mx @ '']''"

definition parse_part :: "string \<Rightarrow> nat \<Rightarrow> nat \<Rightarrow> nat list rszero_result" where
  "parse_part part mn mx =
     (if CHR ''-'' \<in> set part then
        let parts = split_on (CHR ''-'') part;
            s1 = parts ! 0; s2 = (if 1 < length parts then parts ! 1 else [])
        in case parse_u8 (trim s1) of
             Inl e \<Rightarrow> Err (config_err (''invalid cron range start: '' @ part @ '': '' @ e))
           | Inr start \<Rightarrow>
               (case parse_u8 (trim s2) of
                  Inl e \<Rightarrow> Err (config_err (''invalid cron range end: '' @ part @ '': '' @ e))
                | Inr end' \<Rightarrow>
                    if end' < start \<or> start < mn \<or> mx < end'
                    then Err (config_err (''cron range '' @ show_nat start @ ''-'' @ show_nat end' @ bounds_text mn mx))
                    else Ok [start..<Suc end'])
      else case parse_u8 part of
             Inl e \<Rightarrow> Err (config_err (''invalid cron value: '' @ part @ '': '' @ e))
           | Inr v \<Rightarrow>
               if v < mn \<or> mx < v then Err (config_err (''cron value '' @ show_nat v @ bounds_text mn mx))
               else Ok [v])"

fun parse_parts :: "string list \<Rightarrow> nat \<Rightarrow> nat \<Rightarrow> nat list \<Rightarrow> nat list rszero_result" where
  "parse_parts [] mn mx vs = Ok vs"
| "parse_parts (p # ps) mn mx vs =
     (case parse_part p mn mx of Inl e \<Rightarrow> Err e | Inr v \<Rightarrow> parse_parts ps mn mx (vs @ v))"

definition parse_field :: "string \<Rightarrow> nat \<Rightarrow> nat \<Rightarrow> nat list rszero_result" where
  "parse_field field mn mx =
     (if field = ''*'' then Ok [mn..<Suc mx]
      else case strip_prefix ''*/'' field of
             Some r \<Rightarrow>
               (case parse_u8 r of
                  Inl e \<Rightarrow> Err (config_err (''invalid cron step: '' @ field @ '': '' @ e))
                | Inr step \<Rightarrow>
                    if step = 0 then Err (config_err ''cron step cannot be zero'')
                    else Ok (filter (\<lambda>v. (v - mn) mod step = 0) [mn..<Suc mx]))
           | None \<Rightarrow>
               if CHR '','' \<in> set field then
                 (case parse_parts (split_on (CHR '','') field) mn mx [] of
                    Inl e \<Rightarrow> Err e
                  | Inr vs \<Rightarrow> Ok (remdups_adj (sort vs)))
               else parse_part field mn mx)"

record cron_expr =
  minutes :: "nat list"
  hours :: "nat list"
  days :: "nat list"
  months :: "nat list"
  weekdays :: "nat list"

definition cron_parse :: "string \<Rightarrow> cron_expr rszero_result" where
  "cron_parse expr =
     (let fs = split_whitespace expr
      in if length fs \<noteq> 5
         then Err (config_err (''cron expression must have 5 fields, got '' @ show_nat (length fs)))
         else case parse_field (fs ! 0) 0 59 of Inl e \<Rightarrow> Err e | Inr mi \<Rightarrow>
              (case parse_field (fs ! 1) 0 23 of Inl e \<Rightarrow> Err e | Inr ho \<Rightarrow>
              (case parse_field (fs ! 2) 1 31 of Inl e \<Rightarrow> Err e | Inr da \<Rightarrow>
              (case parse_field (fs ! 3) 1 12 of Inl e \<Rightarrow> Err e | Inr mo \<Rightarrow>
              (case parse_field (fs ! 4) 0 6 of Inl e \<Rightarrow> Err e | Inr wd \<Rightarrow>
               Ok \<lparr>minutes = mi, hours = ho, days = da, months = mo, weekdays = wd\<rparr>)))))"

section \<open>The next execution time\<close>

record calendar =
  cal_minute :: "int \<Rightarrow> nat"
  cal_hour :: "int \<Rightarrow> nat"
  cal_day :: "int \<Rightarrow> nat"
  cal_month :: "int \<Rightarrow> nat"
  cal_weekday :: "int \<Rightarrow> nat"

definition cron_matches :: "calendar \<Rightarrow> cron_expr \<Rightarrow> int \<Rightarrow> bool" where
  "cron_matches cal e dt \<longleftrightarrow>
     cal_minute cal dt \<in> set (minutes e) \<and> cal_hour cal dt \<in> set (hours e) \<and> cal_day cal dt \<in> set (days e)
   \<and> cal_month cal dt \<in> set (months e) \<and> cal_weekday cal dt \<in> set (weekdays e)"

definition minute_ns :: int where
  "minute_ns = 60 * 10 ^ 9"

text \<open>\<open>n\<close> is the number of candidates still to try.\<close>

fun search :: "calendar \<Rightarrow> cron_expr \<Rightarrow> nat \<Rightarrow> int \<Rightarrow> int option" where
  "search cal e 0 candidate = None"
| "search cal e (Suc n) candidate =
     (if cron_matches cal e candidate then Some candidate else search cal e n (candidate + minute_ns))"

definition horizon :: nat where
  "horizon = 4 * 365 * 24 * 60"

text \<open>\<open>with_second(0)\<close> and \<open>with_nanosecond(0)\<close> truncate to the minute.\<close>

definition next_after :: "calendar \<Rightarrow> cron_expr \<Rightarrow> int \<Rightarrow> int option" where
  "next_after cal e from =
     (let candidate = from + minute_ns
      in search cal e horizon (candidate - candidate mod minute_ns))"

text \<open>
  One round of the scheduling task at time \<open>now\<close>: how long it sleeps before running the task, in
  milliseconds, or \<open>None\<close> when there is no next time and it sleeps a minute without running it.
\<close>

definition cron_round :: "calendar \<Rightarrow> cron_expr \<Rightarrow> int \<Rightarrow> int option" where
  "cron_round cal e now = map_option (\<lambda>nxt. (nxt - now) div 10 ^ 6) (next_after cal e now)"

text \<open>
  \<open>CronScheduler::cron\<close>: the task sleeps to the next matching time of the local clock, in whole milliseconds, runs the
  job, sleeps a second and starts over.  \<open>clock\<close> reads the local time at an instant; a round is given by how much later
  than asked its first sleep ends, how long the job runs, how much later than asked its last sleep ends, and by
  which branch \<open>select\<close> takes when the round and the cancellation are ready at once.  The value of a step is the job it
  started, with its instant and the minute it was for, and the instant at which the round ends.
\<close>

record cron_delays =
  cd_late :: duration
  cd_task :: duration
  cd_rest :: duration
  cd_coin :: bool

definition cron_step :: "calendar \<Rightarrow> cron_expr \<Rightarrow> (instant \<Rightarrow> int) \<Rightarrow> cron_delays \<Rightarrow> instant \<Rightarrow> (instant \<times> int) option \<times> instant" where
  "cron_step cal e clock d t =
     (let now = clock t
      in case next_after cal e now of
           Some nxt \<Rightarrow>
             (let delay = (nxt - now) div 10 ^ 6;
                  start = (if 0 < delay then t + delay * 10 ^ 6 + int (cd_late d) else t)
              in (Some (start, nxt), start + int (cd_task d) + 10 ^ 9 + int (cd_rest d)))
         | None \<Rightarrow> (None, t + 60 * 10 ^ 9 + int (cd_rest d)))"

text \<open>The cancellation of the handle ends the loop at \<open>cancelled\<close>, and drops the round under way.\<close>

fun cron_run ::
  "calendar \<Rightarrow> cron_expr \<Rightarrow> (instant \<Rightarrow> int) \<Rightarrow> instant option \<Rightarrow> cron_delays list \<Rightarrow> instant \<Rightarrow> (instant \<times> int) list" where
  "cron_run cal e clock cancelled [] t = []"
| "cron_run cal e clock cancelled (d # ds) t =
     (case cron_step cal e clock d t of (fired, t') \<Rightarrow>
      case cancelled of
        None \<Rightarrow> (case fired of Some f \<Rightarrow> [f] | None \<Rightarrow> []) @ cron_run cal e clock cancelled ds t'
      | Some c \<Rightarrow>
          if c < t' \<or> c = t' \<and> cd_coin d
          then (case fired of Some f \<Rightarrow> if fst f < c \<or> fst f = c \<and> \<not> cd_coin d then [f] else [] | None \<Rightarrow> [])
          else (case fired of Some f \<Rightarrow> [f] | None \<Rightarrow> []) @ cron_run cal e clock cancelled ds t')"

section \<open>Fields are ordered sets of admissible values\<close>

definition field_ok :: "nat \<Rightarrow> nat \<Rightarrow> nat list \<Rightarrow> bool" where
  "field_ok mn mx vs \<longleftrightarrow> vs \<noteq> [] \<and> sorted_wrt (<) vs \<and> list_all (\<lambda>v. mn \<le> v \<and> v \<le> mx) vs"

lemma field_ok_range: "mn \<le> a \<Longrightarrow> a \<le> b \<Longrightarrow> b \<le> mx \<Longrightarrow> field_ok mn mx [a..<Suc b]"
  by (auto simp: field_ok_def list_all_iff simp del: upt_Suc)

lemma parse_part_ok: "parse_part p mn mx = Inr vs \<Longrightarrow> field_ok mn mx vs"
  by (auto simp: parse_part_def Let_def simp del: upt_Suc intro!: field_ok_range split: if_splits sum.splits)
    (simp add: field_ok_def)

lemma parse_parts_ok:
  "parse_parts ps mn mx acc = Inr vs \<Longrightarrow> list_all (\<lambda>v. mn \<le> v \<and> v \<le> mx) acc \<Longrightarrow>
   list_all (\<lambda>v. mn \<le> v \<and> v \<le> mx) vs \<and> (ps \<noteq> [] \<or> acc \<noteq> [] \<longrightarrow> vs \<noteq> [])"
proof (induction ps arbitrary: acc)
  case (Cons p ps)
  then obtain v where v: "parse_part p mn mx = Inr v" "parse_parts ps mn mx (acc @ v) = Inr vs"
    by (auto split: sum.splits)
  from parse_part_ok [OF v(1)] Cons.IH [OF v(2)] Cons.prems(2) show ?case by (simp add: field_ok_def)
qed simp

lemma remdups_adj_strict: "sorted xs \<Longrightarrow> sorted_wrt (<) (remdups_adj xs)" for xs :: "nat list"
proof (induction xs rule: remdups_adj.induct)
  case (3 x y xs)
  then show ?case by (cases "x = y") (auto simp: less_le)
qed simp_all

lemma remdups_adj_sort_strict: "sorted_wrt (<) (remdups_adj (sort (vs::nat list)))"
  by (rule remdups_adj_strict) simp

lemma parse_field_ok: "parse_field f mn mx = Inr vs \<Longrightarrow> mn \<le> mx \<Longrightarrow> field_ok mn mx vs"
proof -
  assume f: "parse_field f mn mx = Inr vs" and le: "mn \<le> mx"
  consider "f = ''*''" | r where "f \<noteq> ''*''" "strip_prefix ''*/'' f = Some r"
    | "f \<noteq> ''*''" "strip_prefix ''*/'' f = None" by fastforce
  then show ?thesis
  proof cases
    case 1
    with f le field_ok_range [of mn mn mx mx] show ?thesis by (simp add: parse_field_def del: upt_Suc)
  next
    case (2 r)
    with f obtain st where "0 < st" "vs = filter (\<lambda>v. (v - mn) mod st = 0) [mn..<Suc mx]"
      by (auto simp: parse_field_def split: sum.splits if_splits)
    moreover from this le have "mn \<in> set vs" by (simp del: upt_Suc)
    then have "vs \<noteq> []" by auto
    ultimately show ?thesis
      by (auto simp: field_ok_def list_all_iff sorted_wrt_filter simp del: upt_Suc)
  next
    case 3
    show ?thesis
    proof (cases "CHR '','' \<in> set f")
      case True
      with f 3 obtain ws where "parse_parts (split_on (CHR '','') f) mn mx [] = Inr ws" "vs = remdups_adj (sort ws)"
        by (auto simp: parse_field_def split: sum.splits)
      with parse_parts_ok [of "split_on (CHR '','') f" mn mx "[]" ws] show ?thesis
        using length_sort [of "\<lambda>x. x" ws] by (auto simp: field_ok_def list_all_iff remdups_adj_sort_strict simp del: length_sort)
    next
      case False
      with f 3 parse_part_ok show ?thesis by (simp add: parse_field_def)
    qed
  qed
qed

section \<open>The search\<close>

lemma search_spec:
  "case search cal e n c of
     Some t \<Rightarrow> \<exists>k < n. t = c + int k * minute_ns \<and> cron_matches cal e t \<and> (\<forall>j < k. \<not> cron_matches cal e (c + int j * minute_ns))
   | None \<Rightarrow> \<forall>k < n. \<not> cron_matches cal e (c + int k * minute_ns)"
proof (induction n arbitrary: c)
  case 0
  show ?case by simp
next
  case (Suc n)
  show ?case
  proof (cases "cron_matches cal e c")
    case True
    then show ?thesis by (auto intro!: exI [of _ 0])
  next
    case False
    have shift: "c + minute_ns + int k * minute_ns = c + int (Suc k) * minute_ns" for k
      by (simp add: algebra_simps)
    have all: "(\<forall>k < Suc m. \<not> cron_matches cal e (c + int k * minute_ns)) \<longleftrightarrow>
        (\<forall>k < m. \<not> cron_matches cal e (c + minute_ns + int k * minute_ns))" for m
      using False by (auto simp: less_Suc_eq_0_disj shift simp del: of_nat_Suc)
    show ?thesis
    proof (cases "search cal e n (c + minute_ns)")
      case None
      with Suc.IH [of "c + minute_ns"] False all [of n] show ?thesis by simp
    next
      case (Some t)
      with Suc.IH [of "c + minute_ns"] obtain k where "k < n" "t = c + minute_ns + int k * minute_ns"
        "cron_matches cal e t" "\<forall>j < k. \<not> cron_matches cal e (c + minute_ns + int j * minute_ns)" by auto
      with False Some all [of k] show ?thesis
        by (auto intro!: exI [of _ "Suc k"] simp: shift simp del: of_nat_Suc)
    qed
  qed
qed

text \<open>The whole minutes after a time, counted from the first one.\<close>

lemma whole_minutes:
  "fr < t \<and> t mod minute_ns = 0 \<longleftrightarrow>
   (\<exists>k::nat. t = (fr + minute_ns) - (fr + minute_ns) mod minute_ns + int k * minute_ns)"
proof -
  let ?m = minute_ns and ?q = "fr div minute_ns"
  have m: "0 < ?m" by (simp add: minute_ns_def)
  have fr: "?q * ?m \<le> fr" "fr < (?q + 1) * ?m"
  proof -
    have d: "fr = ?q * ?m + fr mod ?m" by simp
    show "?q * ?m \<le> fr" using d pos_mod_sign [OF m, of fr] by linarith
    show "fr < (?q + 1) * ?m" using d pos_mod_bound [OF m, of fr] unfolding distrib_right by linarith
  qed
  have c: "(fr + ?m) - (fr + ?m) mod ?m = (?q + 1) * ?m"
    using minus_mod_eq_div_mult [of fr ?m] by (simp add: distrib_right)
  show ?thesis unfolding c
  proof
    assume t: "fr < t \<and> t mod ?m = 0"
    then have q: "t = t div ?m * ?m" by (metis add.right_neutral div_mult_mod_eq)
    have "?q < t div ?m"
    proof (rule ccontr)
      assume "\<not> ?q < t div ?m"
      then have "t div ?m * ?m \<le> ?q * ?m" using m by (intro mult_right_mono) auto
      with q fr t show False by linarith
    qed
    then have "t = (?q + 1) * ?m + int (nat (t div ?m - ?q - 1)) * ?m" by (subst q) (simp add: algebra_simps)
    then show "\<exists>k::nat. t = (?q + 1) * ?m + int k * ?m" ..
  next
    assume "\<exists>k::nat. t = (?q + 1) * ?m + int k * ?m"
    then obtain k :: nat where k: "t = (?q + 1) * ?m + int k * ?m" ..
    then have "t = (?q + 1 + int k) * ?m" by (simp add: algebra_simps)
    moreover have "0 \<le> int k * ?m" using m by simp
    ultimately show "fr < t \<and> t mod ?m = 0" using fr(2) k by simp
  qed
qed

lemma next_after_spec:
  "case next_after cal e fr of
     Some t \<Rightarrow> fr < t \<and> t mod minute_ns = 0 \<and> cron_matches cal e t
       \<and> t \<le> fr + int (1460 * 24 * 60) * minute_ns
       \<and> (\<forall>u. fr < u \<and> u < t \<and> u mod minute_ns = 0 \<longrightarrow> \<not> cron_matches cal e u)
   | None \<Rightarrow> \<forall>u. fr < u \<and> u \<le> fr + int (1460 * 24 * 60) * minute_ns \<and> u mod minute_ns = 0
       \<longrightarrow> \<not> cron_matches cal e u"
proof -
  let ?m = minute_ns
  define c where "c = (fr + ?m) - (fr + ?m) mod ?m"
  have m: "0 < ?m" by (simp add: minute_ns_def)
  have whole: "fr < u \<and> u mod ?m = 0 \<longleftrightarrow> (\<exists>k::nat. u = c + int k * ?m)" for u
    unfolding c_def by (rule whole_minutes)
  have c: "fr < c" "c \<le> fr + ?m"
    using whole [of c] pos_mod_sign [OF m, of "fr + ?m"] by (auto simp: c_def intro: exI [of _ 0])
  have near: "k < horizon" if "c + int k * ?m \<le> fr + int horizon * ?m" for k :: nat
  proof (rule ccontr)
    assume "\<not> k < horizon"
    then have "int horizon * ?m \<le> int k * ?m" using m by (intro mult_right_mono) auto
    with that c(1) show False by linarith
  qed
  have ord: "c + int j * ?m < c + int k * ?m \<longleftrightarrow> j < k" for j k :: nat using m by simp
  show ?thesis
  proof (cases "next_after cal e fr")
    case None
    then have "\<forall>k < horizon. \<not> cron_matches cal e (c + int k * ?m)"
      using search_spec [where cal = cal and e = e and n = horizon and c = c] by (simp add: next_after_def c_def)
    then have "\<not> cron_matches cal e u" if "fr < u" "u \<le> fr + int horizon * ?m" "u mod ?m = 0" for u
      using that whole [of u] near by metis
    with None show ?thesis by (simp add: horizon_def)
  next
    case (Some t)
    then obtain k where k: "k < horizon" "t = c + int k * ?m" "cron_matches cal e t"
      "\<forall>j < k. \<not> cron_matches cal e (c + int j * ?m)"
      using search_spec [where cal = cal and e = e and n = horizon and c = c] by (auto simp: next_after_def c_def)
    have "int (Suc k) * ?m \<le> int horizon * ?m" using k(1) m by (intro mult_right_mono) auto
    then have "t \<le> fr + int horizon * ?m" using k(2) c(2) by (simp add: algebra_simps)
    moreover have "fr < t \<and> t mod ?m = 0" using whole k(2) by blast
    moreover have "\<not> cron_matches cal e u" if "fr < u" "u < t" "u mod ?m = 0" for u
      using that whole [of u] ord k(2,4) by auto
    ultimately show ?thesis using Some k(3) by (simp add: horizon_def)
  qed
qed

section \<open>The loop\<close>

definition punctual :: "cron_delays \<Rightarrow> bool" where
  "punctual d \<longleftrightarrow> cd_late d + cd_task d + cd_rest d < 59 * 10 ^ 9"

lemma whole_ms: "x div 10 ^ 6 * 10 ^ 6 \<le> x" "x < x div 10 ^ 6 * 10 ^ 6 + 10 ^ 6" for x :: int
  using div_mult_mod_eq [of x "10 ^ 6"] pos_mod_bound [of "10 ^ 6" x] pos_mod_sign [of "10 ^ 6" x] by simp_all

lemma cron_step_fired:
  assumes clock: "\<And>a b. clock a - clock b = a - b" and step: "cron_step cal e clock d t = (Some (s, m), t')"
  shows "clock t < m \<and> m mod minute_ns = 0 \<and> cron_matches cal e m \<and> t \<le> s \<and> m - clock s < 10 ^ 6 \<and> m < clock t'"
proof -
  have nxt: "next_after cal e (clock t) = Some m"
    and s: "s = (if 0 < (m - clock t) div 10 ^ 6 then t + (m - clock t) div 10 ^ 6 * 10 ^ 6 + int (cd_late d) else t)"
    and t': "t' = s + int (cd_task d) + 10 ^ 9 + int (cd_rest d)"
    using step by (auto simp: cron_step_def Let_def split: option.splits)
  have spec: "clock t < m" "m mod minute_ns = 0" "cron_matches cal e m"
    using next_after_spec [where cal = cal and e = e and fr = "clock t"] unfolding nxt option.case by simp_all
  have early: "m - clock s < 10 ^ 6" "t \<le> s"
    using clock [of s t] whole_ms(2) [of "m - clock t"] spec(1) unfolding s by (simp_all split: if_splits)
  then show ?thesis using spec clock [of t' s] by (simp add: t')
qed

lemma cron_step_gap:
  assumes clock: "\<And>a b. clock a - clock b = a - b" and step: "cron_step cal e clock d t = (fired, t')" and d: "punctual d"
    and u: "cron_matches cal e u" "u mod minute_ns = 0" "clock t < u"
  shows "(\<exists>s. fired = Some (s, u)) \<or> clock t' < u"
proof (cases "next_after cal e (clock t)")
  case None
  then have t': "t' = t + 60 * 10 ^ 9 + int (cd_rest d)" using step by (simp add: cron_step_def)
  from next_after_spec [where cal = cal and e = e and fr = "clock t", unfolded None option.case, rule_format, of u]
  have "\<not> u \<le> clock t + int (1460 * 24 * 60) * minute_ns" using u by blast
  then show ?thesis using clock [of t' t] d by (simp add: t' punctual_def minute_ns_def)
next
  case (Some m)
  let ?s = "if 0 < (m - clock t) div 10 ^ 6 then t + (m - clock t) div 10 ^ 6 * 10 ^ 6 + int (cd_late d) else t"
  have fired: "fired = Some (?s, m)" and t': "t' = ?s + int (cd_task d) + 10 ^ 9 + int (cd_rest d)"
    using step Some by (auto simp: cron_step_def Let_def)
  have m: "clock t < m" "m mod minute_ns = 0" "u < m \<longrightarrow> \<not> cron_matches cal e u"
    using next_after_spec [where cal = cal and e = e and fr = "clock t", unfolded Some option.case] u(2,3) by simp_all
  have s: "?s - t \<le> m - clock t + int (cd_late d)" using m(1) whole_ms(1) [of "m - clock t"] by simp
  show ?thesis
  proof (cases "u = m")
    case False
    then have "0 < u - m" using m(3) u(1) by linarith
    moreover have "minute_ns dvd u - m" using m(2) u(2) by (intro dvd_diff) (simp_all add: mod_0_imp_dvd)
    ultimately have "minute_ns \<le> u - m" by (intro zdvd_imp_le)
    then show ?thesis using clock [of t' t] s d by (simp add: t' punctual_def minute_ns_def)
  qed (simp add: fired)
qed

lemma cron_run_cases:
  assumes "cron_step cal e clock d t = (fired, t')"
  obtains "cron_run cal e clock cancelled (d # ds) t = []"
  | f where "fired = Some f" "cron_run cal e clock cancelled (d # ds) t = [f]"
  | "cron_run cal e clock cancelled (d # ds) t = (case fired of Some f \<Rightarrow> [f] | None \<Rightarrow> []) @ cron_run cal e clock cancelled ds t'"
proof (cases cancelled)
  case None
  then show ?thesis using assms that(3) by simp
next
  case (Some c)
  show ?thesis
  proof (cases "c < t' \<or> c = t' \<and> cd_coin d")
    case True
    show ?thesis
    proof (cases fired)
      case None
      then show ?thesis using assms that(1) Some True by simp
    next
      case (Some f)
      then show ?thesis
        using assms that(1) that(2) [of f] \<open>cancelled = Some c\<close> True by (cases "fst f < c \<or> fst f = c \<and> \<not> cd_coin d") simp_all
    qed
  next
    case False
    show ?thesis
      by (rule that(3)) (simp only: cron_run.simps assms Some prod.case option.case if_not_P [OF False])
  qed
qed

lemma cron_run_fired:
  assumes clock: "\<And>a b. clock a - clock b = a - b"
  shows "sorted_wrt (\<lambda>x y. snd x < snd y) (cron_run cal e clock cancelled ds t)
    \<and> list_all (\<lambda>(s, m). clock t < m \<and> m mod minute_ns = 0 \<and> cron_matches cal e m \<and> m - clock s < 10 ^ 6) (cron_run cal e clock cancelled ds t)"
proof (induction ds arbitrary: t)
  case (Cons d ds)
  obtain fired t' where st: "cron_step cal e clock d t = (fired, t')" by fastforce
  have one: "clock t < snd f \<and> snd f mod minute_ns = 0 \<and> cron_matches cal e (snd f) \<and> snd f - clock (fst f) < 10 ^ 6 \<and> snd f < clock t'"
    if "fired = Some f" for f
    using cron_step_fired [OF clock, of cal e d t "fst f" "snd f" t'] st that by simp
  have late: "clock t \<le> clock t'"
    using clock [of t' t] st by (auto simp: cron_step_def Let_def split: option.splits if_splits)
  from st show ?case
  proof (rule cron_run_cases [where cancelled = cancelled and ds = ds])
    assume eq: "cron_run cal e clock cancelled (d # ds) t = (case fired of Some f \<Rightarrow> [f] | None \<Rightarrow> []) @ cron_run cal e clock cancelled ds t'"
    show ?thesis unfolding eq using Cons.IH [of t'] one late
      by (cases fired) (force simp: list_all_iff simp del: cron_run.simps)+
  next
    fix f assume "fired = Some f" "cron_run cal e clock cancelled (d # ds) t = [f]"
    then show ?thesis using one by (simp add: case_prod_beta del: cron_run.simps)
  qed (simp del: cron_run.simps)
qed simp

lemma cron_run_complete:
  assumes clock: "\<And>a b. clock a - clock b = a - b" and "list_all punctual ds"
    and u: "cron_matches cal e u" "u mod minute_ns = 0" and "clock t < u"
    and "\<exists>x \<in> set (cron_run cal e clock cancelled ds t). u \<le> snd x"
  shows "u \<in> snd ` set (cron_run cal e clock cancelled ds t)"
  using assms(2,5,6)
proof (induction ds arbitrary: t)
  case (Cons d ds)
  obtain fired t' where st: "cron_step cal e clock d t = (fired, t')" by fastforce
  have now: "snd f < clock t'" if "fired = Some f" for f
    using cron_step_fired [OF clock, of cal e d t "fst f" "snd f" t'] st that by simp
  have gap: "(\<exists>s. fired = Some (s, u)) \<or> clock t' < u"
    using cron_step_gap [OF clock st _ u] Cons.prems by simp
  from st show ?case
  proof (rule cron_run_cases [where cancelled = cancelled and ds = ds])
    assume eq: "cron_run cal e clock cancelled (d # ds) t = (case fired of Some f \<Rightarrow> [f] | None \<Rightarrow> []) @ cron_run cal e clock cancelled ds t'"
    show ?thesis
    proof (cases "clock t' < u")
      case True
      have "\<exists>x \<in> set (cron_run cal e clock cancelled ds t'). u \<le> snd x"
        using Cons.prems(3) now True unfolding eq by (cases fired) force+
      then show ?thesis using Cons.IH [OF _ True] Cons.prems(1) unfolding eq by auto
    qed (use gap in \<open>auto simp: eq simp del: cron_run.simps\<close>)
  next
    fix f assume f: "fired = Some f" "cron_run cal e clock cancelled (d # ds) t = [f]"
    then show ?thesis using gap now [OF f(1)] Cons.prems(3) by (auto simp del: cron_run.simps)
  qed (use Cons.prems(3) in \<open>simp del: cron_run.simps\<close>)
qed simp

lemma cron_run_length:
  "(\<And>x. next_after cal e x \<noteq> None) \<Longrightarrow> length (cron_run cal e clock None ds t) = length ds"
proof (induction ds arbitrary: t)
  case (Cons d ds)
  obtain m where "next_after cal e (clock t) = Some m" using Cons.prems [of "clock t"] by blast
  then show ?case using Cons by (simp add: cron_step_def Let_def)
qed simp

section \<open>Properties\<close>


text \<open>
  C22. \<open>next_after\<close> returns the earliest whole minute strictly after the given time that matches the
  expression, if there is one among the first 1460 days' worth of minutes, and nothing otherwise: since
  four years with a leap day are 1461 days, the 29th of February is not found from the day after it.
\<close>

theorem next_after_earliest:
  "case next_after cal e fr of
     Some t \<Rightarrow> fr < t \<and> t mod minute_ns = 0 \<and> cron_matches cal e t
       \<and> t \<le> fr + int (1460 * 24 * 60) * minute_ns
       \<and> (\<forall>u. fr < u \<and> u < t \<and> u mod minute_ns = 0 \<longrightarrow> \<not> cron_matches cal e u)
   | None \<Rightarrow> \<forall>u. fr < u \<and> u \<le> fr + int (1460 * 24 * 60) * minute_ns \<and> u mod minute_ns = 0
       \<longrightarrow> \<not> cron_matches cal e u"
  by (rule next_after_spec)



definition demo_cal :: calendar where
  "demo_cal = \<lparr>cal_minute = \<lambda>t. nat (t div minute_ns mod 60), cal_hour = \<lambda>_. 0, cal_day = \<lambda>_. 1,
     cal_month = \<lambda>_. 1, cal_weekday = \<lambda>_. 0\<rparr>"

definition demo_cron :: cron_expr where
  "demo_cron = \<lparr>minutes = [5], hours = [0], days = [1], months = [1], weekdays = [0]\<rparr>"

text \<open>Two rounds of a job of two seconds, started at seven nanoseconds past the epoch.\<close>

definition demo_delays :: cron_delays where
  "demo_delays = \<lparr>cd_late = 1, cd_task = 2 * 10 ^ 9, cd_rest = 0, cd_coin = False\<rparr>"

lemma minute_five: "q + 1 \<le> q + 1 + (4 - q) mod 60" "q + 1 + (4 - q) mod 60 \<le> q + 60" "(q + 1 + (4 - q) mod 60) mod 60 = 5" for q :: int
  using pos_mod_sign [of 60 "4 - q"] pos_mod_bound [of 60 "4 - q"] by (simp_all add: mod_add_right_eq)

lemma demo_always_next: "next_after demo_cal demo_cron fr \<noteq> None"
proof
  assume none: "next_after demo_cal demo_cron fr = None"
  let ?q = "fr div minute_ns" and ?m = minute_ns
  define k where "k = ?q + 1 + (4 - ?q) mod 60"
  have m: "0 < ?m" by (simp add: minute_ns_def)
  have fr: "?q * ?m \<le> fr" "fr < ?q * ?m + ?m"
    using div_mult_mod_eq [of fr ?m] pos_mod_sign [OF m, of fr] pos_mod_bound [OF m, of fr] by linarith+
  have k: "?q + 1 \<le> k" "k \<le> ?q + 60" "k mod 60 = 5" unfolding k_def by (rule minute_five)+
  have b: "(?q + 1) * ?m \<le> k * ?m" "k * ?m \<le> (?q + 60) * ?m" using k(1,2) m by (simp_all add: mult_right_mono)
  have "fr < k * ?m" "k * ?m \<le> fr + int (1460 * 24 * 60) * ?m" using b fr m unfolding distrib_right by linarith+
  moreover have "cron_matches demo_cal demo_cron (k * ?m)"
    using k(3) m by (simp add: cron_matches_def demo_cal_def demo_cron_def)
  ultimately show False
    using next_after_spec [where cal = demo_cal and e = demo_cron and fr = fr, unfolded none option.case, rule_format, of "k * ?m"] by simp
qed


theorem next_after_earliest_witness: "next_after demo_cal demo_cron 7 = Some (5 * minute_ns)"
proof -
  have m: "cron_matches demo_cal demo_cron t \<longleftrightarrow> nat (t div minute_ns mod 60) = 5" for t
    by (simp add: cron_matches_def demo_cal_def demo_cron_def)
  note spec = next_after_earliest [where cal = demo_cal and e = demo_cron and fr = 7]
  have five: "cron_matches demo_cal demo_cron (5 * minute_ns)" by (simp add: m minute_ns_def)
  show ?thesis
  proof (cases "next_after demo_cal demo_cron 7")
    case None
    with spec have "\<forall>u. 7 < u \<and> u \<le> 7 + int (1460 * 24 * 60) * minute_ns \<and> u mod minute_ns = 0
        \<longrightarrow> \<not> cron_matches demo_cal demo_cron u" by (simp only: option.case)
    then have "\<not> cron_matches demo_cal demo_cron (5 * minute_ns)" by (simp add: minute_ns_def)
    with five show ?thesis by simp
  next
    case (Some t)
    with spec have t: "7 < t" "t mod minute_ns = 0" "cron_matches demo_cal demo_cron t"
      and min: "\<And>u. 7 < u \<Longrightarrow> u < t \<Longrightarrow> u mod minute_ns = 0 \<Longrightarrow> \<not> cron_matches demo_cal demo_cron u"
      by auto
    have "t \<le> 5 * minute_ns" using min [of "5 * minute_ns"] five by (force simp: minute_ns_def)
    moreover have "5 \<le> t div minute_ns"
    proof -
      have "t div minute_ns mod 60 = 5" using t(3) m [of t] by linarith
      moreover have "0 \<le> t div minute_ns" using t(1) by (simp add: minute_ns_def pos_imp_zdiv_nonneg_iff)
      moreover have "5 \<le> q" if "q mod 60 = 5" "0 \<le> q" for q :: int using that by presburger
      ultimately show ?thesis by blast
    qed
    ultimately have "t = 5 * minute_ns" using t(2) by (auto simp: minute_ns_def)
    with Some show ?thesis by simp
  qed
qed

end
