(* ===== verification/Memcache.thy ===== *)
theory Memcache
  imports Errors
begin

text \<open>
  The in-process cache (\<open>rszero/src/cache/memcache.rs\<close>) and the cache-aside helpers on top of it
  (\<open>rszero/src/cache/aside.rs\<close>).  The entries are an association list with distinct keys; the order in
  which the concurrent map iterates is a parameter \<open>iter\<close>.  Each operation takes its clock readings as
  arguments.  What a client relies on is the locale \<open>expiring_cache\<close>.
\<close>

section \<open>The cache\<close>

record 'v cache_entry =
  ce_value :: 'v
  ce_expires :: "instant option"

definition cache_entry_new :: "instant \<Rightarrow> 'v \<Rightarrow> duration option \<Rightarrow> 'v cache_entry" where
  "cache_entry_new now v ttl = \<lparr>ce_value = v, ce_expires = map_option (\<lambda>d. now + int d) ttl\<rparr>"

definition is_expired :: "instant \<Rightarrow> 'v cache_entry \<Rightarrow> bool" where
  "is_expired now e = (case ce_expires e of None \<Rightarrow> False | Some t \<Rightarrow> t < now)"

type_synonym ('k, 'v) entries = "('k \<times> 'v cache_entry) list"

record ('k, 'v) mem_cache =
  cache_entries :: "('k, 'v) entries"
  cache_capacity :: nat

definition cache_new :: "nat \<Rightarrow> ('k, 'v) mem_cache" where
  "cache_new cap = \<lparr>cache_entries = [], cache_capacity = cap\<rparr>"

definition remove_key :: "'k \<Rightarrow> ('k, 'v) entries \<Rightarrow> ('k, 'v) entries" where
  "remove_key k es = filter (\<lambda>(k', _). k' \<noteq> k) es"

definition insert_key :: "'k \<Rightarrow> 'v cache_entry \<Rightarrow> ('k, 'v) entries \<Rightarrow> ('k, 'v) entries" where
  "insert_key k e es = (k, e) # remove_key k es"

definition cache_get :: "instant \<Rightarrow> 'k \<Rightarrow> ('k, 'v) mem_cache \<Rightarrow> 'v option \<times> ('k, 'v) mem_cache" where
  "cache_get now k c =
     (case map_of (cache_entries c) k of
        Some e \<Rightarrow>
          if is_expired now e then (None, c\<lparr>cache_entries := remove_key k (cache_entries c)\<rparr>)
          else (Some (ce_value e), c)
      | None \<Rightarrow> (None, c))"

text \<open>\<open>min_by_key\<close>: the first of the least elements.\<close>

fun min_by_time :: "('k \<times> instant) list \<Rightarrow> ('k \<times> instant) option" where
  "min_by_time [] = None"
| "min_by_time (x # xs) =
     (case min_by_time xs of None \<Rightarrow> Some x | Some y \<Rightarrow> if snd y < snd x then Some y else Some x)"

definition with_expiry :: "('k, 'v) entries \<Rightarrow> ('k \<times> instant) list" where
  "with_expiry es = List.map_filter (\<lambda>(k, e). map_option (Pair k) (ce_expires e)) es"

text \<open>The key a full cache gives up: the first expired one, or the one that expires first.\<close>

definition victim :: "instant \<Rightarrow> ('k, 'v) entries \<Rightarrow> 'k option" where
  "victim now es =
     (case List.find (\<lambda>(_, e). is_expired now e) es of
        Some (k, _) \<Rightarrow> Some k
      | None \<Rightarrow> map_option fst (min_by_time (with_expiry es)))"

definition set_with_ttl ::
  "(('k, 'v) entries \<Rightarrow> ('k, 'v) entries) \<Rightarrow> instant \<Rightarrow> instant \<Rightarrow> 'k \<Rightarrow> 'v \<Rightarrow> duration option
   \<Rightarrow> ('k, 'v) mem_cache \<Rightarrow> ('k, 'v) mem_cache" where
  "set_with_ttl iter now now' k v ttl c =
     (let es = cache_entries c;
          es' = (if cache_capacity c \<le> length es \<and> map_of es k = None
                 then case victim now (iter es) of Some k' \<Rightarrow> remove_key k' es | None \<Rightarrow> es
                 else es)
      in c\<lparr>cache_entries := insert_key k (cache_entry_new now' v ttl) es'\<rparr>)"

definition cache_set ::
  "(('k, 'v) entries \<Rightarrow> ('k, 'v) entries) \<Rightarrow> instant \<Rightarrow> instant \<Rightarrow> 'k \<Rightarrow> 'v \<Rightarrow> ('k, 'v) mem_cache \<Rightarrow> ('k, 'v) mem_cache" where
  "cache_set iter now now' k v c = set_with_ttl iter now now' k v None c"

definition cache_delete :: "'k \<Rightarrow> ('k, 'v) mem_cache \<Rightarrow> bool \<times> ('k, 'v) mem_cache" where
  "cache_delete k c =
     (map_of (cache_entries c) k \<noteq> None, c\<lparr>cache_entries := remove_key k (cache_entries c)\<rparr>)"

definition cache_contains :: "instant \<Rightarrow> 'k \<Rightarrow> ('k, 'v) mem_cache \<Rightarrow> bool \<times> ('k, 'v) mem_cache" where
  "cache_contains now k c = (case cache_get now k c of (r, c') \<Rightarrow> (r \<noteq> None, c'))"

definition cache_len :: "('k, 'v) mem_cache \<Rightarrow> nat" where
  "cache_len c = length (cache_entries c)"

definition cache_clear :: "('k, 'v) mem_cache \<Rightarrow> ('k, 'v) mem_cache" where
  "cache_clear c = c\<lparr>cache_entries := []\<rparr>"

subsection \<open>Keys and sizes\<close>

definition keys_ok :: "('k, 'v) mem_cache \<Rightarrow> bool" where
  "keys_ok c \<longleftrightarrow> distinct (map fst (cache_entries c))"

lemma map_of_remove_key: "map_of (remove_key k es) = (map_of es)(k := None)"
  by (induction es) (auto simp: remove_key_def fun_eq_iff)

lemma map_of_insert_key: "map_of (insert_key k e es) = (map_of es)(k \<mapsto> e)"
  by (auto simp: insert_key_def map_of_remove_key)

lemma distinct_remove_key: "distinct (map fst es) \<Longrightarrow> distinct (map fst (remove_key k es))"
  by (auto simp: remove_key_def intro: distinct_map_filter)

lemma remove_key_absent: "map_of es k = None \<Longrightarrow> remove_key k es = es"
  by (auto simp: remove_key_def map_of_eq_None_iff image_iff intro!: filter_True)

lemma length_remove_key:
  "distinct (map fst es) \<Longrightarrow> length (remove_key k es) = (if map_of es k = None then length es else length es - 1)"
proof (induction es)
  case (Cons x es)
  obtain a b where x: "x = (a, b)" by fastforce
  show ?case
  proof (cases "a = k")
    case True
    then have "map_of es k = None" using Cons.prems x by (auto simp: map_of_eq_None_iff)
    then have "remove_key k es = es" by (rule remove_key_absent)
    with True x show ?thesis by (simp add: remove_key_def)
  next
    case False
    have "map_of es k \<noteq> None \<Longrightarrow> 0 < length es" by (cases es) auto
    with False x Cons show ?thesis by (auto simp: remove_key_def)
  qed
qed (simp add: remove_key_def)

lemma keys_ok_set: "keys_ok c \<Longrightarrow> keys_ok (set_with_ttl iter now now' k v ttl c)"
  by (auto simp: keys_ok_def set_with_ttl_def insert_key_def Let_def distinct_remove_key remove_key_def
      split: option.splits intro: distinct_map_filter)

lemma keys_ok_get: "keys_ok c \<Longrightarrow> keys_ok (snd (cache_get now k c))"
  by (auto simp: keys_ok_def cache_get_def distinct_remove_key split: option.splits)

text \<open>A victim is one of the keys, and there is none exactly when no entry has an expiry time.\<close>

lemma min_by_time_None: "min_by_time xs = None \<longleftrightarrow> xs = []"
  by (cases xs) (auto split: option.splits)

lemma min_by_time_in: "min_by_time xs = Some x \<Longrightarrow> x \<in> set xs"
  by (induction xs) (auto split: option.splits if_splits)

lemma set_with_expiry: "x \<in> set (with_expiry es) \<longleftrightarrow> (\<exists>e. (fst x, e) \<in> set es \<and> ce_expires e = Some (snd x))"
  by (cases x) (auto simp: with_expiry_def map_filter_def image_iff; force)

lemma victim_in: "victim now es = Some k \<Longrightarrow> \<exists>e. (k, e) \<in> set es"
  by (auto simp: victim_def set_with_expiry find_Some_iff split: option.splits dest!: min_by_time_in)
    (metis nth_mem)

lemma victim_None: "victim now es = None \<longleftrightarrow> (\<forall>(k, e) \<in> set es. ce_expires e = None)"
proof -
  have "with_expiry es = [] \<longleftrightarrow> (\<forall>(k, e) \<in> set es. ce_expires e = None)"
    by (auto simp: with_expiry_def map_filter_def filter_empty_conv)
  moreover have "\<forall>(k, e) \<in> set es. ce_expires e = None \<Longrightarrow> List.find (\<lambda>(_, e). is_expired now e) es = None"
    by (auto simp: find_None_iff is_expired_def split: option.splits)
  ultimately show ?thesis
    by (auto simp: victim_def min_by_time_None split: option.splits)
qed

lemma length_set_with_ttl:
  assumes "keys_ok c" and "set (iter (cache_entries c)) = set (cache_entries c)"
  shows "cache_len (set_with_ttl iter now now' k v ttl c) =
    (if map_of (cache_entries c) k \<noteq> None then cache_len c
     else if cache_capacity c \<le> cache_len c \<and> (\<exists>e \<in> snd ` set (cache_entries c). ce_expires e \<noteq> None) then cache_len c
     else Suc (cache_len c))"
proof -
  let ?es = "cache_entries c"
  have d: "distinct (map fst ?es)" using assms(1) by (simp add: keys_ok_def)
  show ?thesis
  proof (cases "map_of ?es k")
    case (Some e)
    then have "0 < length ?es" by (cases ?es) auto
    with Some d show ?thesis
      by (simp add: set_with_ttl_def cache_len_def insert_key_def length_remove_key)
  next
    case None
    show ?thesis
    proof (cases "cache_capacity c \<le> length ?es \<and> victim now (iter ?es) \<noteq> None")
      case True
      then obtain k' e where k': "victim now (iter ?es) = Some k'" "(k', e) \<in> set ?es"
        using victim_in assms(2) by (metis option.exhaust)
      then have m: "map_of ?es k' \<noteq> None" by (auto simp: map_of_eq_None_iff intro: rev_image_eqI)
      then have "0 < length ?es" by (cases ?es) auto
      moreover have "remove_key k (remove_key k' ?es) = remove_key k' ?es"
        using None by (intro remove_key_absent) (simp add: map_of_remove_key)
      moreover have "\<exists>e \<in> snd ` set ?es. ce_expires e \<noteq> None"
        using True victim_None [of now "iter ?es"] assms(2) by fastforce
      ultimately show ?thesis
        using True None k'(1) m d by (simp add: set_with_ttl_def cache_len_def insert_key_def length_remove_key)
    next
      case False
      have "remove_key k ?es = ?es" using None by (rule remove_key_absent)
      moreover have "\<not> (cache_capacity c \<le> length ?es \<and> (\<exists>e \<in> snd ` set ?es. ce_expires e \<noteq> None))"
        using False victim_None [of now "iter ?es"] assms(2) by fastforce
      ultimately show ?thesis
        using False None by (auto simp: set_with_ttl_def cache_len_def insert_key_def Let_def split: option.splits)
    qed
  qed
qed

section \<open>Cache-aside\<close>

text \<open>
  The pattern over any cache: a hit returns the cached value, a miss runs the loader on the world \<open>'w\<close>,
  shows the value to \<open>on_miss\<close> and stores it.  \<open>t\<close> and \<open>t'\<close> are the times of the lookup and of the store.
\<close>

definition aside_with ::
  "(instant \<Rightarrow> 'k \<Rightarrow> 'c \<Rightarrow> 'v option \<times> 'c) \<Rightarrow> (instant \<Rightarrow> 'k \<Rightarrow> 'v \<Rightarrow> duration option \<Rightarrow> 'c \<Rightarrow> 'c) \<Rightarrow> instant \<Rightarrow> instant
   \<Rightarrow> 'k \<Rightarrow> duration \<Rightarrow> ('w \<Rightarrow> ('e, 'v) result \<times> 'w) \<Rightarrow> ('v \<Rightarrow> 'w \<Rightarrow> 'w) \<Rightarrow> 'c \<Rightarrow> 'w \<Rightarrow> ('e, 'v) result \<times> 'c \<times> 'w" where
  "aside_with get put t t' k ttl loader on_miss c w =
     (case get t k c of
        (Some v, c') \<Rightarrow> (Ok v, c', w)
      | (None, c') \<Rightarrow>
          (case loader w of
             (Inl e, w') \<Rightarrow> (Err e, c', w')
           | (Inr v, w') \<Rightarrow> (Ok v, put t' k v (Some ttl) c', on_miss v w')))"

definition cache_aside ::
  "(('k, 'v) entries \<Rightarrow> ('k, 'v) entries) \<Rightarrow> (instant \<Rightarrow> instant) \<Rightarrow> instant \<Rightarrow> instant \<Rightarrow> 'k \<Rightarrow> duration
   \<Rightarrow> ('w \<Rightarrow> ('e, 'v) result \<times> 'w) \<Rightarrow> ('k, 'v) mem_cache \<Rightarrow> 'w \<Rightarrow> ('e, 'v) result \<times> ('k, 'v) mem_cache \<times> 'w" where
  "cache_aside iter before t t' k ttl loader c w =
     aside_with cache_get (\<lambda>t k v ttl c. set_with_ttl iter (before t) t k v ttl c) t t' k ttl loader (\<lambda>_ w. w) c w"

definition cache_aside_with_invalidate ::
  "(('k, 'v) entries \<Rightarrow> ('k, 'v) entries) \<Rightarrow> (instant \<Rightarrow> instant) \<Rightarrow> instant \<Rightarrow> instant \<Rightarrow> 'k \<Rightarrow> duration
   \<Rightarrow> ('w \<Rightarrow> ('e, 'v) result \<times> 'w) \<Rightarrow> ('v \<Rightarrow> 'w \<Rightarrow> 'w) \<Rightarrow> ('k, 'v) mem_cache \<Rightarrow> 'w
   \<Rightarrow> ('e, 'v) result \<times> ('k, 'v) mem_cache \<times> 'w" where
  "cache_aside_with_invalidate iter before t t' k ttl loader on_miss c w =
     aside_with cache_get (\<lambda>t k v ttl c. set_with_ttl iter (before t) t k v ttl c) t t' k ttl loader on_miss c w"

text \<open>
  The variant behind a single-flight group, for a caller that executes the work: it runs on a clone of
  the cache, and the clone of the concurrent map is a copy of its entries.
\<close>

definition cache_clone :: "('k, 'v) mem_cache \<Rightarrow> ('k, 'v) mem_cache" where
  "cache_clone c = \<lparr>cache_entries = cache_entries c, cache_capacity = cache_capacity c\<rparr>"

definition cache_aside_singleflight ::
  "(('k, 'v) entries \<Rightarrow> ('k, 'v) entries) \<Rightarrow> (instant \<Rightarrow> instant) \<Rightarrow> instant \<Rightarrow> instant \<Rightarrow> 'k \<Rightarrow> duration
   \<Rightarrow> ('w \<Rightarrow> 'v rszero_result \<times> 'w) \<Rightarrow> ('k, 'v) mem_cache \<Rightarrow> 'w \<Rightarrow> 'v rszero_result \<times> ('k, 'v) mem_cache \<times> 'w" where
  "cache_aside_singleflight iter before t t' k ttl loader c w =
     (let cache = cache_clone c;
          (r, cache', w') = cache_aside iter before t t' k ttl loader cache w
      in (r, c, w'))"

section \<open>The contract of a cache\<close>

text \<open>
  A value stored at time \<open>t\<close> is found until it expires, storing one key never makes up a value for
  another, and a hit leaves the cache as it is.
\<close>

locale expiring_cache =
  fixes get :: "instant \<Rightarrow> 'k \<Rightarrow> 'c \<Rightarrow> 'v option \<times> 'c"
    and put :: "instant \<Rightarrow> 'k \<Rightarrow> 'v \<Rightarrow> duration option \<Rightarrow> 'c \<Rightarrow> 'c"
  assumes get_put: "fst (get t' k (put t k v ttl c)) =
      (case ttl of None \<Rightarrow> Some v | Some d \<Rightarrow> if t + int d < t' then None else Some v)"
    and get_put_other: "k' \<noteq> k \<Longrightarrow> fst (get t' k' (put t k v ttl c)) \<in> {None, fst (get t' k' c)}"
    and get_hit: "fst (get t k c) = Some v \<Longrightarrow> snd (get t k c) = c"
begin

lemma aside_then_hit:
  assumes "aside_with get put t t' k ttl loader om c w = (Inr v, c', w')" and "fst (get t k c) = None" and "s \<le> t' + int ttl"
  shows "aside_with get put s s' k ttl2 loader2 om2 c' w'' = (Inr v, c', w'')"
proof -
  obtain c1 where g: "get t k c = (None, c1)" using assms(2) by (cases "get t k c") auto
  have "c' = put t' k v (Some ttl) c1"
    using assms(1) g by (auto simp: aside_with_def split: sum.splits prod.splits)
  then have f: "fst (get s k c') = Some v" using assms(3) by (simp add: get_put)
  then have "get s k c' = (Some v, c')" using get_hit [OF f] by (cases "get s k c'") auto
  then show ?thesis by (simp add: aside_with_def)
qed

lemma aside_hit: "fst (get t k c) = Some v \<Longrightarrow> aside_with get put t t' k ttl loader om c w = (Inr v, c, w)"
  using get_hit [of t k c v] by (cases "get t k c") (auto simp: aside_with_def)

end

interpretation mc: expiring_cache cache_get "\<lambda>t k v ttl c. set_with_ttl iter (before t) t k v ttl c" for iter before
proof unfold_locales
  fix t' t :: instant and k :: 'a and v :: 'b and ttl and c :: "('a, 'b) mem_cache"
  show "fst (cache_get t' k (set_with_ttl iter (before t) t k v ttl c)) =
      (case ttl of None \<Rightarrow> Some v | Some d \<Rightarrow> if t + int d < t' then None else Some v)"
    by (auto simp: cache_get_def set_with_ttl_def map_of_insert_key cache_entry_new_def is_expired_def Let_def
        split: option.splits)
next
  fix t' t :: instant and k' k :: 'a and v :: 'b and ttl and c :: "('a, 'b) mem_cache"
  assume "k' \<noteq> k"
  then show "fst (cache_get t' k' (set_with_ttl iter (before t) t k v ttl c)) \<in> {None, fst (cache_get t' k' c)}"
    by (auto simp: cache_get_def set_with_ttl_def map_of_insert_key map_of_remove_key Let_def split: option.splits)
next
  fix t :: instant and k :: 'a and c :: "('a, 'b) mem_cache" and v
  assume "fst (cache_get t k c) = Some v"
  then show "snd (cache_get t k c) = c" by (auto simp: cache_get_def split: option.splits if_splits)
qed

section \<open>Properties\<close>

text \<open>
  The size of the cache after a store, exactly: overwriting keeps it; a new key in a full cache
  replaces an expired entry, or the one that expires first, if any entry has an expiry time; and if none
  has, the cache grows by one, full or not.  A cache of entries without a time to live is unbounded.
\<close>

theorem cache_size_after_set:
  assumes "keys_ok c" and "set (iter (cache_entries c)) = set (cache_entries c)"
  shows "keys_ok (set_with_ttl iter now now' k v ttl c) \<and>
    cache_len (set_with_ttl iter now now' k v ttl c) =
    (if map_of (cache_entries c) k \<noteq> None then cache_len c
     else if cache_capacity c \<le> cache_len c \<and> (\<exists>e \<in> snd ` set (cache_entries c). ce_expires e \<noteq> None) then cache_len c
     else Suc (cache_len c))"
proof
  show "keys_ok (set_with_ttl iter now now' k v ttl c)" using assms(1) by (rule keys_ok_set)
qed (rule length_set_with_ttl [where iter = iter and c = c, OF assms])

text \<open>
  A value read through \<open>cache_aside\<close> after a miss is served from the cache, without running any loader
  and whatever loader the later call brings, until its time to live has passed.
\<close>

theorem cache_aside_then_hit:
  assumes "cache_aside iter before t t' k ttl loader c w = (Ok v, c', w')"
    and "fst (cache_get t k c) = None" and "s \<le> t' + int ttl"
  shows "cache_aside iter before s s' k ttl2 loader2 c' w2 = (Ok v, c', w2)"
  unfolding cache_aside_def
  by (rule mc.aside_then_hit [where iter = iter and before = before, OF assms(1) [unfolded cache_aside_def] assms(2,3)])

text \<open>
  The single-flight variant never fills the cache: after any number of successful calls a further
  call for the key misses again and runs its loader, because the value is stored in a copy.
\<close>

theorem cache_aside_singleflight_reloads:
  assumes "cache_aside_singleflight iter before t t' k ttl loader c w = (r, c', w')"
    and "map_of (cache_entries c) k = None"
  shows "fst (cache_aside_singleflight iter before s s' k ttl2 loader2 c' w2) = fst (loader2 w2)
    \<and> snd (snd (cache_aside_singleflight iter before s s' k ttl2 loader2 c' w2)) = snd (loader2 w2)"
proof -
  have "c' = c" using assms(1) by (auto simp: cache_aside_singleflight_def Let_def split: prod.splits)
  moreover have "cache_get s k (cache_clone c) = (None, cache_clone c)"
    using assms(2) by (simp add: cache_get_def cache_clone_def)
  ultimately show ?thesis
    by (auto simp: cache_aside_singleflight_def cache_aside_def aside_with_def Let_def split: prod.splits sum.splits)
qed

definition demo_load :: "nat \<Rightarrow> nat rszero_result \<times> nat" where
  "demo_load w = (Ok (10 * w), Suc w)"

theorem cache_size_after_set_witness:
  "cache_len (set_with_ttl id 0 0 ''c'' (3::nat) None (cache_set id 0 0 ''b'' 2 (cache_set id 0 0 ''a'' 1 (cache_new 1)))) = 3"
proof -
  let ?c = "cache_set id 0 0 ''b'' (2::nat) (cache_set id 0 0 ''a'' 1 (cache_new 1))"
  have "keys_ok ?c" "map_of (cache_entries ?c) ''c'' = None" "cache_len ?c = 2"
    "\<forall>e \<in> snd ` set (cache_entries ?c). ce_expires e = None"
    by (simp_all add: keys_ok_def cache_set_def set_with_ttl_def cache_new_def insert_key_def remove_key_def victim_def
        with_expiry_def is_expired_def cache_entry_new_def cache_len_def map_filter_def)
  with cache_size_after_set [of ?c id 0 0 "''c''" 3 None] show ?thesis by auto
qed

theorem cache_aside_then_hit_witness:
  "\<exists>c'. cache_aside id id 0 0 ''k'' 5 demo_load (cache_new 8) 4 = (Ok 40, c', 5)
     \<and> cache_aside id id 3 3 ''k'' 5 demo_load c' 7 = (Ok 40, c', 7)"
proof -
  obtain c' where c': "cache_aside id id 0 0 ''k'' 5 demo_load (cache_new 8) 4 = (Ok 40, c', 5)"
    by (simp add: cache_aside_def aside_with_def cache_get_def cache_new_def demo_load_def)
  from cache_aside_then_hit [OF this, of 3] have "cache_aside id id 3 3 ''k'' 5 demo_load c' 7 = (Ok 40, c', 7)"
    by (simp add: cache_get_def cache_new_def)
  with c' show ?thesis by blast
qed

theorem cache_aside_singleflight_reloads_witness:
  "\<exists>c'. cache_aside_singleflight id id 0 0 ''k'' 5 demo_load (cache_new 8) 4 = (Ok 40, c', 5)
     \<and> fst (cache_aside_singleflight id id 3 3 ''k'' 5 demo_load c' 7) = Ok 70"
proof -
  obtain c' where c': "cache_aside_singleflight id id 0 0 ''k'' 5 demo_load (cache_new 8) 4 = (Ok 40, c', 5)"
    by (simp add: cache_aside_singleflight_def cache_clone_def cache_aside_def aside_with_def cache_get_def cache_new_def demo_load_def)
  from cache_aside_singleflight_reloads [OF this, of 3 3 5 demo_load 7] c' show ?thesis
    by (auto simp: cache_new_def demo_load_def)
qed

end
