(* ===== verification/Singleflight.thy ===== *)
theory Singleflight
  imports Transition_Systems
begin

text \<open>
  The single-flight group (\<open>rszero/src/concurrent/singleflight.rs\<close>) as a transition system over the
  callers of \<open>Group::work\<close>.  Callers are numbered, caller \<open>i\<close> asks for the key \<open>key i\<close>, and its channel
  has the number \<open>i\<close> too.  A step ends at the next point where the code awaits: a lock, a broadcast
  message, or the work itself.  A future may be dropped at any await, which is the event \<open>Cancel\<close>.
\<close>

section \<open>State and steps\<close>

text \<open>
  Where a caller of \<open>work\<close> is.  The two receiving states carry the channel and whether the caller
  subscribed after the message was sent: a broadcast receiver only sees later messages.
\<close>

datatype 'r work_pc =
    Reading
  | FastRecv nat bool
  | WantWrite
  | HoldRecv nat bool
  | Executing
  | WantRemove 'r
  | Returned 'r
  | Dropped

text \<open>
  The map of the group names, for a key in flight, the channel whose sender it holds; \<open>sent\<close> is the
  message a channel has carried; \<open>wlock\<close> the caller that holds the write lock across an await.
\<close>

record ('k, 'r) group =
  pc :: "nat \<Rightarrow> 'r work_pc"
  inflight :: "'k \<Rightarrow> nat option"
  sent :: "nat \<Rightarrow> 'r option"
  wlock :: "nat option"

definition group_new :: "('k, 'r) group" where
  "group_new = \<lparr>pc = (\<lambda>_. Reading), inflight = (\<lambda>_. None), sent = (\<lambda>_. None), wlock = None\<rparr>"

definition inflight_count :: "('k, 'r) group \<Rightarrow> nat option" where
  "inflight_count s = (if wlock s = None then Some (card (dom (inflight s))) else None)"

datatype 'r work_event =
    FastMiss nat
  | FastHit nat
  | FastResult nat
  | FastClosed nat
  | WriteInsert nat
  | WriteWait nat
  | HoldResult nat
  | HoldClosed nat
  | Finish nat 'r
  | Remove nat
  | Cancel nat

definition set_pc :: "nat \<Rightarrow> 'r work_pc \<Rightarrow> ('k, 'r) group \<Rightarrow> ('k, 'r) group" where
  "set_pc i p s = s\<lparr>pc := (pc s)(i := p)\<rparr>"

text \<open>A channel is open while its creator still holds the sender or the map does.\<close>

fun holds_sender :: "'r work_pc \<Rightarrow> bool" where
  "holds_sender Executing = True"
| "holds_sender (WantRemove r) = True"
| "holds_sender _ = False"

definition channel_open :: "(nat \<Rightarrow> 'k) \<Rightarrow> nat \<Rightarrow> ('k, 'r) group \<Rightarrow> bool" where
  "channel_open key j s \<longleftrightarrow> holds_sender (pc s j) \<or> inflight s (key j) = Some j"

definition start_execution :: "(nat \<Rightarrow> 'k) \<Rightarrow> nat \<Rightarrow> ('k, 'r) group \<Rightarrow> ('k, 'r) group" where
  "start_execution key i s = (set_pc i Executing s)\<lparr>inflight := (inflight s)(key i \<mapsto> i), wlock := None\<rparr>"

fun work_step :: "(nat \<Rightarrow> 'k) \<Rightarrow> 'r work_event \<Rightarrow> ('k, 'r) group \<Rightarrow> ('k, 'r) group option" where
  "work_step key (FastMiss i) s =
     (if pc s i = Reading \<and> wlock s = None \<and> inflight s (key i) = None then Some (set_pc i WantWrite s) else None)"
| "work_step key (FastHit i) s =
     (case (pc s i, wlock s, inflight s (key i)) of
        (Reading, None, Some j) \<Rightarrow> Some (set_pc i (FastRecv j (sent s j \<noteq> None)) s)
      | _ \<Rightarrow> None)"
| "work_step key (FastResult i) s =
     (case pc s i of
        FastRecv j False \<Rightarrow> map_option (\<lambda>r. set_pc i (Returned r) s) (sent s j)
      | _ \<Rightarrow> None)"
| "work_step key (FastClosed i) s =
     (case pc s i of
        FastRecv j late \<Rightarrow>
          if (late \<or> sent s j = None) \<and> \<not> channel_open key j s then Some (set_pc i WantWrite s) else None
      | _ \<Rightarrow> None)"
| "work_step key (WriteInsert i) s =
     (if pc s i = WantWrite \<and> wlock s = None \<and> inflight s (key i) = None
      then Some (start_execution key i s) else None)"
| "work_step key (WriteWait i) s =
     (case (pc s i, wlock s, inflight s (key i)) of
        (WantWrite, None, Some j) \<Rightarrow> Some ((set_pc i (HoldRecv j (sent s j \<noteq> None)) s)\<lparr>wlock := Some i\<rparr>)
      | _ \<Rightarrow> None)"
| "work_step key (HoldResult i) s =
     (case pc s i of
        HoldRecv j False \<Rightarrow> map_option (\<lambda>r. (set_pc i (Returned r) s)\<lparr>wlock := None\<rparr>) (sent s j)
      | _ \<Rightarrow> None)"
| "work_step key (HoldClosed i) s =
     (case pc s i of
        HoldRecv j late \<Rightarrow>
          if (late \<or> sent s j = None) \<and> \<not> channel_open key j s then Some (start_execution key i s) else None
      | _ \<Rightarrow> None)"
| "work_step key (Finish i r) s =
     (if pc s i = Executing then Some ((set_pc i (WantRemove r) s)\<lparr>sent := (sent s)(i \<mapsto> r)\<rparr>) else None)"
| "work_step key (Remove i) s =
     (case (pc s i, wlock s) of
        (WantRemove r, None) \<Rightarrow> Some ((set_pc i (Returned r) s)\<lparr>inflight := (inflight s)(key i := None)\<rparr>)
      | _ \<Rightarrow> None)"
| "work_step key (Cancel i) s =
     (case pc s i of
        Returned r \<Rightarrow> None
      | Dropped \<Rightarrow> None
      | _ \<Rightarrow> Some ((set_pc i Dropped s)\<lparr>wlock := (if wlock s = Some i then None else wlock s)\<rparr>))"

abbreviation group_step :: "(nat \<Rightarrow> 'k) \<Rightarrow> ('k, 'r) group \<Rightarrow> 'r work_event \<Rightarrow> ('k, 'r) group \<Rightarrow> bool" where
  "group_step key s e t \<equiv> work_step key e s = Some t"

lemma set_pc_sel [simp]:
  "pc (set_pc i p s) = (pc s)(i := p)" "inflight (set_pc i p s) = inflight s"
  "sent (set_pc i p s) = sent s" "wlock (set_pc i p s) = wlock s"
  by (simp_all add: set_pc_def)

text \<open>What each event does, as an equivalence: the proofs below use these instead of the equations.\<close>

lemma fast_iffs:
  "work_step key (FastMiss i) s = Some t \<longleftrightarrow>
     pc s i = Reading \<and> wlock s = None \<and> inflight s (key i) = None \<and> t = set_pc i WantWrite s"
  "work_step key (FastHit i) s = Some t \<longleftrightarrow>
     (\<exists>j. pc s i = Reading \<and> wlock s = None \<and> inflight s (key i) = Some j \<and> t = set_pc i (FastRecv j (sent s j \<noteq> None)) s)"
  "work_step key (FastResult i) s = Some t \<longleftrightarrow>
     (\<exists>j r. pc s i = FastRecv j False \<and> sent s j = Some r \<and> t = set_pc i (Returned r) s)"
  "work_step key (FastClosed i) s = Some t \<longleftrightarrow>
     (\<exists>j late. pc s i = FastRecv j late \<and> (late \<or> sent s j = None) \<and> \<not> channel_open key j s \<and> t = set_pc i WantWrite s)"
  by (auto split: work_pc.splits option.splits bool.splits if_splits)

lemma hold_iffs:
  "work_step key (WriteInsert i) s = Some t \<longleftrightarrow>
     pc s i = WantWrite \<and> wlock s = None \<and> inflight s (key i) = None \<and> t = start_execution key i s"
  "work_step key (WriteWait i) s = Some t \<longleftrightarrow>
     (\<exists>j. pc s i = WantWrite \<and> wlock s = None \<and> inflight s (key i) = Some j
       \<and> t = (set_pc i (HoldRecv j (sent s j \<noteq> None)) s)\<lparr>wlock := Some i\<rparr>)"
  "work_step key (HoldResult i) s = Some t \<longleftrightarrow>
     (\<exists>j r. pc s i = HoldRecv j False \<and> sent s j = Some r \<and> t = (set_pc i (Returned r) s)\<lparr>wlock := None\<rparr>)"
  "work_step key (HoldClosed i) s = Some t \<longleftrightarrow>
     (\<exists>j late. pc s i = HoldRecv j late \<and> (late \<or> sent s j = None) \<and> \<not> channel_open key j s \<and> t = start_execution key i s)"
  by (auto split: work_pc.splits option.splits bool.splits if_splits)

lemma end_iffs:
  "work_step key (Finish i r) s = Some t \<longleftrightarrow>
     pc s i = Executing \<and> t = (set_pc i (WantRemove r) s)\<lparr>sent := (sent s)(i \<mapsto> r)\<rparr>"
  "work_step key (Remove i) s = Some t \<longleftrightarrow>
     (\<exists>r. pc s i = WantRemove r \<and> wlock s = None \<and> t = (set_pc i (Returned r) s)\<lparr>inflight := (inflight s)(key i := None)\<rparr>)"
  "work_step key (Cancel i) s = Some t \<longleftrightarrow>
     pc s i \<noteq> Dropped \<and> pc s i \<notin> range Returned
       \<and> t = (set_pc i Dropped s)\<lparr>wlock := (if wlock s = Some i then None else wlock s)\<rparr>"
  by (auto split: work_pc.splits option.splits if_splits)

lemmas step_iffs = fast_iffs hold_iffs end_iffs

declare work_step.simps [simp del]

section \<open>The invariant\<close>

text \<open>What each caller's place says of the shared state.\<close>

fun pc_ok :: "(nat \<Rightarrow> 'k) \<Rightarrow> ('k, 'r) group \<Rightarrow> nat \<Rightarrow> 'r work_pc \<Rightarrow> bool" where
  "pc_ok key s i Reading \<longleftrightarrow> sent s i = None"
| "pc_ok key s i WantWrite \<longleftrightarrow> sent s i = None"
| "pc_ok key s i (FastRecv j late) \<longleftrightarrow> sent s i = None \<and> key j = key i"
| "pc_ok key s i (HoldRecv j late) \<longleftrightarrow> sent s i = None \<and> key j = key i \<and> wlock s = Some i \<and> inflight s (key i) = Some j"
| "pc_ok key s i Executing \<longleftrightarrow> sent s i = None \<and> inflight s (key i) = Some i"
| "pc_ok key s i (WantRemove r) \<longleftrightarrow> sent s i = Some r \<and> inflight s (key i) = Some i"
| "pc_ok key s i (Returned r) \<longleftrightarrow> (\<exists>j. key j = key i \<and> sent s j = Some r)"
| "pc_ok key s i Dropped \<longleftrightarrow> True"

definition group_ok :: "(nat \<Rightarrow> 'k) \<Rightarrow> ('k, 'r) group \<Rightarrow> bool" where
  "group_ok key s \<longleftrightarrow>
     (\<forall>i. pc_ok key s i (pc s i)) \<and>
     (\<forall>k j. inflight s k = Some j \<longrightarrow> key j = k) \<and>
     (\<forall>i. wlock s = Some i \<longrightarrow> (\<exists>j late. pc s i = HoldRecv j late))"

lemma group_okI:
  assumes "\<And>i. pc_ok key s i (pc s i)" and "\<And>k j. inflight s k = Some j \<Longrightarrow> key j = k"
    and "\<And>i. wlock s = Some i \<Longrightarrow> \<exists>j late. pc s i = HoldRecv j late"
  shows "group_ok key s"
  using assms by (simp add: group_ok_def)

lemma group_okD:
  assumes "group_ok key s"
  shows "pc_ok key s i (pc s i)" and "inflight s k = Some j \<Longrightarrow> key j = k"
    and "wlock s = Some i \<Longrightarrow> \<exists>j late. pc s i = HoldRecv j late"
  using assms by (auto simp: group_ok_def)


lemma group_ok_new: "group_ok key group_new"
  by (simp add: group_ok_def group_new_def)

text \<open>While a caller waits with the write lock, the map keeps the channel it waits on open.\<close>

lemma hold_channel_open: "group_ok key s \<Longrightarrow> pc s i = HoldRecv j late \<Longrightarrow> channel_open key j s"
  using group_okD(1) [of key s i] by (simp add: channel_open_def)

text \<open>
  A step of caller \<open>i\<close> to the place \<open>p\<close> keeps the invariant if it keeps the messages sent so far, the lock
  of another caller, and the map entries others rely on: only caller \<open>i\<close>'s own entry goes, and only when
  nobody waits under the lock.
\<close>

lemma group_ok_update:
  assumes ok: "group_ok key s" and pc: "pc t = (pc s)(i := p)" and p: "pc_ok key t i p"
    and sent: "\<And>j r. sent s j = Some r \<Longrightarrow> sent t j = Some r" "\<And>j. j \<noteq> i \<Longrightarrow> sent t j = sent s j"
    and keep: "\<And>k j. inflight s k = Some j \<Longrightarrow> inflight t k = Some j \<or> j = i \<and> wlock s = None"
    and new: "\<And>k j. inflight t k = Some j \<Longrightarrow> inflight s k = Some j \<or> k = key i \<and> j = i"
    and lock: "\<And>j. j \<noteq> i \<Longrightarrow> wlock t = Some j \<longleftrightarrow> wlock s = Some j"
      "wlock t = Some i \<Longrightarrow> \<exists>j late. p = HoldRecv j late"
  shows "group_ok key t"
proof (rule group_okI)
  fix j
  show "pc_ok key t j (pc t j)"
  proof (cases "j = i")
    case False
    with group_okD(1) [OF ok, of j] sent lock(1) [OF False] keep [of "key j"] show ?thesis
      by (cases "pc s j") (fastforce simp: pc)+
  qed (simp add: pc p)
next
  fix j assume "wlock t = Some j"
  then show "\<exists>l late. pc t j = HoldRecv l late"
    using group_okD(3) [OF ok, of j] lock by (cases "j = i") (auto simp: pc)
qed (use new group_okD(2) [OF ok] in blast)

lemma group_ok_step:
  assumes ok: "group_ok key s" and step: "work_step key e s = Some t"
  shows "group_ok key t"
proof -
  note D = group_okD [OF ok] and U = group_ok_update [OF ok] and [simp] = step_iffs
  show ?thesis
  proof (cases e)
    case (FastMiss i)
    then show ?thesis using step D(1) [of i] by (intro U [of t i WantWrite]) auto
  next
    case (FastHit i)
    with step obtain j where "t = set_pc i (FastRecv j (sent s j \<noteq> None)) s" "pc s i = Reading"
      "wlock s = None" "inflight s (key i) = Some j" by auto
    then show ?thesis using D(1) [of i] D(2) by (intro U) auto
  next
    case (FastResult i)
    with step obtain j r where "t = set_pc i (Returned r) s" "pc s i = FastRecv j False" "sent s j = Some r" by auto
    then show ?thesis using D(1) [of i] D(3) [of i] by (intro U) auto
  next
    case (FastClosed i)
    with step obtain j late where "t = set_pc i WantWrite s" "pc s i = FastRecv j late" by auto
    then show ?thesis using D(1) [of i] D(3) [of i] by (intro U) auto
  next
    case (WriteInsert i)
    then show ?thesis using step D(1) [of i]
      by (intro U [of t i Executing]) (auto simp: start_execution_def split: if_splits)
  next
    case (WriteWait i)
    with step obtain j where "t = (set_pc i (HoldRecv j (sent s j \<noteq> None)) s)\<lparr>wlock := Some i\<rparr>" "pc s i = WantWrite"
      "wlock s = None" "inflight s (key i) = Some j" by auto
    then show ?thesis using D(1) [of i] D(2) by (intro U [of t i "HoldRecv j (sent s j \<noteq> None)"]) auto
  next
    case (HoldResult i)
    with step obtain j r where "t = (set_pc i (Returned r) s)\<lparr>wlock := None\<rparr>" "pc s i = HoldRecv j False" "sent s j = Some r"
      by auto
    then show ?thesis using D(1) [of i] by (intro U [of t i "Returned r"]) auto
  next
    case (HoldClosed i)
    then show ?thesis using step hold_channel_open [OF ok, of i] by auto
  next
    case (Finish i r)
    then show ?thesis using step D(1) [of i] D(3) [of i] by (intro U [of t i "WantRemove r"]) auto
  next
    case (Remove i)
    with step obtain r where "t = (set_pc i (Returned r) s)\<lparr>inflight := (inflight s)(key i := None)\<rparr>"
      "pc s i = WantRemove r" "wlock s = None" by auto
    then show ?thesis using D(1) [of i] by (intro U [of t i "Returned r"]) (auto split: if_splits)
  next
    case (Cancel i)
    then show ?thesis using step by (intro U [of t i Dropped]) (auto split: if_splits)
  qed
qed

interpretation sf: inductive_invariant "\<lambda>s. s = group_new" "group_step key" "group_ok key" for key
  by unfold_locales (auto simp: group_ok_new intro: group_ok_step)

lemma finish_in_run:
  "run (group_step key) s es t \<Longrightarrow> sent t j = Some r \<Longrightarrow> sent s j = Some r \<or> Finish j r \<in> set es"
proof (induction es arbitrary: s)
  case (Cons e es)
  then obtain u where u: "work_step key e s = Some u" "run (group_step key) u es t" by auto
  with Cons have "sent u j = Some r \<or> Finish j r \<in> set es" by blast
  moreover have "sent u j = Some r \<Longrightarrow> sent s j = Some r \<or> e = Finish j r"
    using u(1) by (cases e) (auto simp: step_iffs start_execution_def split: if_splits)
  ultimately show ?case by auto
qed auto


section \<open>A dropped execution\<close>

text \<open>
  Once the future of a caller has been dropped while it executed the work, its entry stays in the map:
  nobody removes or replaces it, and its channel never carries a message and never closes.
\<close>

definition poisoned :: "(nat \<Rightarrow> 'k) \<Rightarrow> nat \<Rightarrow> ('k, 'r) group \<Rightarrow> bool" where
  "poisoned key j s \<longleftrightarrow> pc s j = Dropped \<and> inflight s (key j) = Some j \<and> sent s j = None"

definition waits_on :: "nat \<Rightarrow> 'r work_pc \<Rightarrow> bool" where
  "waits_on j p \<longleftrightarrow> p \<in> {Reading, WantWrite, Dropped} \<union> range (FastRecv j) \<union> range (HoldRecv j)"

lemma waits_on_simps [simp]:
  "waits_on j Reading" "waits_on j WantWrite" "waits_on j Dropped" "waits_on j (FastRecv l b) \<longleftrightarrow> l = j"
  "waits_on j (HoldRecv l b) \<longleftrightarrow> l = j" "\<not> waits_on j Executing" "\<not> waits_on j (WantRemove r)" "\<not> waits_on j (Returned r)"
  by (auto simp: waits_on_def)

lemma poisoned_open: "poisoned key j s \<Longrightarrow> channel_open key j s"
  by (simp add: poisoned_def channel_open_def)

text \<open>A caller that waits on the channel of a poisoned key keeps doing so.\<close>

lemma waits_step:
  assumes po: "poisoned key j s" and step: "work_step key e s = Some t"
    and k: "key i = key j" and w: "waits_on j (pc s i)"
  shows "waits_on j (pc t i)"
proof -
  have entry: "inflight s (key i) = Some j" and unsent: "sent s j = None" and opened: "channel_open key j s"
    using po k poisoned_open [OF po] by (simp_all add: poisoned_def)
  note * = step w entry unsent opened and [simp] = step_iffs start_execution_def and [split] = if_splits
  show ?thesis
  proof (cases e)
    case FastMiss with * show ?thesis by auto
  next
    case FastHit with * show ?thesis by auto
  next
    case FastResult with * show ?thesis by auto
  next
    case FastClosed with * show ?thesis by auto
  next
    case WriteInsert with * show ?thesis by auto
  next
    case WriteWait with * show ?thesis by auto
  next
    case HoldResult with * show ?thesis by auto
  next
    case HoldClosed with * show ?thesis by auto
  next
    case Finish with * show ?thesis by auto
  next
    case Remove with * show ?thesis by auto
  next
    case Cancel with step w show ?thesis by auto
  qed
qed

lemma poisoned_step:
  assumes po: "poisoned key j s" and ok: "group_ok key s" and step: "work_step key e s = Some t"
  shows "poisoned key j t"
proof -
  have P: "pc s j = Dropped" "inflight s (key j) = Some j" "sent s j = None" using po by (simp_all add: poisoned_def)
  have "key j \<noteq> key i" if "pc s i = WantRemove r" for i r
  proof -
    have "inflight s (key i) = Some i" using group_okD(1) [OF ok, of i] that by simp
    moreover have "i \<noteq> j" using that P(1) by auto
    ultimately show ?thesis using P(2) by (metis option.inject)
  qed
  moreover have "channel_open key l s" if "pc s i = HoldRecv l b" for i l b
    using hold_channel_open [OF ok that] .
  ultimately have "inflight t (key j) = Some j"
    using step P(2) by (cases e) (fastforce simp: step_iffs start_execution_def)+
  moreover have "sent t j = None" "pc t j = Dropped"
    using step P(1,3) by (cases e; auto simp: step_iffs start_execution_def)+
  ultimately show ?thesis by (simp add: poisoned_def)
qed

lemma poisoned_run:
  "run (group_step key) s es t \<Longrightarrow> group_ok key s \<Longrightarrow> poisoned key j s \<Longrightarrow> key i = key j \<Longrightarrow> waits_on j (pc s i)
   \<Longrightarrow> poisoned key j t \<and> waits_on j (pc t i)"
proof (induction es arbitrary: s)
  case (Cons e es)
  then obtain u where u: "work_step key e s = Some u" "run (group_step key) u es t" by auto
  show ?case
    using Cons.IH [OF u(2) group_ok_step [OF Cons.prems(2) u(1)] poisoned_step [OF Cons.prems(3,2) u(1)] Cons.prems(4)
        waits_step [OF Cons.prems(3) u(1) Cons.prems(4,5)]] .
qed simp

section \<open>Properties\<close>

text \<open>
  C23. For every schedule of callers, cancellations included: at most one caller at a time executes the work
  of a key, and a caller that returns, returns the result of an execution of the work for its own key.
\<close>

theorem singleflight_exclusive:
  assumes "run (group_step key) group_new es s"
  shows "(pc s i = Executing \<and> pc s j = Executing \<and> key i = key j \<longrightarrow> i = j) \<and>
    (pc s i = Returned r \<longrightarrow> (\<exists>j. Finish j r \<in> set es \<and> key j = key i))"
proof -
  note ok = sf.run_from_init [OF refl assms]
  from group_okD(1) [OF ok, of i] group_okD(1) [OF ok, of j]
  have "pc s i = Executing \<and> pc s j = Executing \<and> key i = key j \<longrightarrow> i = j" by auto
  moreover have "\<exists>j. Finish j r \<in> set es \<and> key j = key i" if r: "pc s i = Returned r"
  proof -
    obtain j where "key j = key i" "sent s j = Some r" using group_okD(1) [OF ok, of i] r by auto
    with finish_in_run [OF assms this(2)] show ?thesis by (auto simp: group_new_def)
  qed
  ultimately show ?thesis by blast
qed

text \<open>
  C24. Two callers of one key can deadlock the whole group.  The second passes the fast path before the first
  inserts its entry, and takes the write lock after the first has sent its result: it waits under the
  lock for a message that was sent before it subscribed, the first waits for the lock to remove the entry,
  and no caller of any key can take a step other than being dropped.
\<close>

theorem singleflight_deadlock:
  assumes "key 0 = key 1"
  shows "\<exists>s. run (group_step key) group_new
         [FastMiss (0::nat), FastMiss 1, WriteInsert 0, Finish 0 r, WriteWait 1] s
       \<and> (\<forall>e t. group_step key s e t \<longrightarrow> e \<in> range Cancel)"
proof -
  define s where "s = group_new\<lparr>pc := (pc group_new)(0 := WantRemove r, 1 := HoldRecv 0 True),
    inflight := [key 1 \<mapsto> 0], sent := [0 \<mapsto> r], wlock := Some 1\<rparr>"
  have "run (group_step key) group_new [FastMiss 0, FastMiss 1, WriteInsert 0, Finish 0 r, WriteWait 1] s"
    using assms by (auto simp: step_iffs s_def group_new_def set_pc_def start_execution_def fun_eq_iff)
  moreover have "e \<in> range Cancel" if "work_step key e s = Some t" for e t
    using that assms
    by (cases e) (auto simp: step_iffs s_def group_new_def channel_open_def split: if_splits)
  ultimately show ?thesis by blast
qed

text \<open>
  When the future of a caller is dropped while it executes the work, no later caller of its key ever
  returns or executes the work again, whatever the schedule.
\<close>

theorem singleflight_dropped_execution:
  assumes "run (group_step key) group_new es s" and "pc s j = Executing" and "work_step key (Cancel j) s = Some t"
    and "run (group_step key) t fs u" and "key i = key j" and "pc t i = Reading"
  shows "pc u i \<noteq> Returned r \<and> pc u i \<noteq> Executing"
proof -
  note ok = sf.run_from_init [OF refl assms(1)]
  have "poisoned key j t" using assms(2,3) group_okD(1) [OF ok, of j] by (auto simp: step_iffs poisoned_def)
  with poisoned_run [OF assms(4) group_ok_step [OF ok assms(3)] _ assms(5)] assms(6)
  show ?thesis by (auto simp: waits_on_def)
qed

theorem singleflight_exclusive_witness:
  "\<exists>s. run (group_step (\<lambda>_. ''k'')) group_new [FastMiss 0, WriteInsert 0, FastHit 1, Finish 0 (7::nat), FastResult 1] s
     \<and> pc s 1 = Returned 7 \<and> (\<exists>j. Finish j 7 \<in> set [FastMiss 0, WriteInsert 0, FastHit 1, Finish 0 (7::nat), FastResult 1] \<and> ''k'' = ''k'')"
proof -
  obtain s where s: "run (group_step (\<lambda>_. ''k'')) group_new [FastMiss 0, WriteInsert 0, FastHit 1, Finish 0 (7::nat), FastResult 1] s"
    "pc s 1 = Returned 7"
    by (simp add: step_iffs group_new_def set_pc_def start_execution_def)
  from singleflight_exclusive [OF s(1), of 1 1 7] s show ?thesis by blast
qed

theorem singleflight_deadlock_witness:
  "\<exists>s. run (group_step (\<lambda>_. ''k'')) group_new [FastMiss 0, FastMiss 1, WriteInsert 0, Finish 0 (7::nat), WriteWait 1] s
     \<and> (\<forall>e t. group_step (\<lambda>_. ''k'') s e t \<longrightarrow> e \<in> range Cancel)"
  by (rule singleflight_deadlock) simp

theorem singleflight_dropped_execution_witness:
  "\<exists>t. run (group_step (\<lambda>_. ''k'')) group_new [FastMiss 0, WriteInsert 0, Cancel 0, FastHit 1] t \<and> pc t 1 \<noteq> Returned (7::nat)"
proof -
  obtain s where s: "run (group_step (\<lambda>_. ''k'')) group_new [FastMiss 0, WriteInsert 0] (s :: (string, nat) group)" "pc s 0 = Executing"
    "pc s 1 = Reading" "wlock s = None" "inflight s ''k'' = Some 0"
    by (simp add: step_iffs group_new_def set_pc_def start_execution_def)
  obtain t where t: "work_step (\<lambda>_. ''k'') (Cancel 0) s = Some t" "pc t 1 = Reading" "wlock t = None" "inflight t ''k'' = Some 0"
    using s by (auto simp: step_iffs)
  obtain u where u: "run (group_step (\<lambda>_. ''k'')) t [FastHit 1] u" using t by (simp add: step_iffs)
  have "pc u 1 \<noteq> Returned 7"
    using singleflight_dropped_execution [OF s(1,2) t(1) u, of 1 7] t(2) by simp
  moreover have "run (group_step (\<lambda>_. ''k'')) group_new ([FastMiss 0, WriteInsert 0] @ [Cancel 0, FastHit 1]) u"
    unfolding run_append using s(1) t(1) u by auto
  ultimately show ?thesis by auto
qed

end
