(* ===== verification/Json.thy ===== *)
theory Json
  imports F64
begin

text \<open>
  JSON values as \<open>serde_json::Value\<close> presents them to the program: numbers are unsigned, negative or
  floating point, and an object is its list of members with distinct keys.  The text form belongs to the
  library; where the program writes or reads text, the two directions are parameters.
\<close>

datatype json_number = PosInt u64 | NegInt int | Float f64

datatype json =
    JNull
  | JBool bool
  | JNumber json_number
  | JString string
  | JArray "json list"
  | JObject "(string \<times> json) list"

text \<open>\<open>Value::get\<close> with a string index: the member of an object, nothing of any other value.\<close>

fun json_get :: "string \<Rightarrow> json \<Rightarrow> json option" where
  "json_get k (JObject ms) = map_of ms k"
| "json_get k _ = None"

fun as_str :: "json \<Rightarrow> string option" where
  "as_str (JString s) = Some s"
| "as_str _ = None"

fun as_f64 :: "json \<Rightarrow> f64 option" where
  "as_f64 (JNumber (PosInt n)) = Some (f64_of_nat (unat n))"
| "as_f64 (JNumber (NegInt i)) = Some (f64_round (of_int i))"
| "as_f64 (JNumber (Float x)) = Some x"
| "as_f64 _ = None"

fun as_u64 :: "json \<Rightarrow> u64 option" where
  "as_u64 (JNumber (PosInt n)) = Some n"
| "as_u64 _ = None"

fun is_string :: "json \<Rightarrow> bool" where
  "is_string (JString _) = True"
| "is_string _ = False"

fun is_number :: "json \<Rightarrow> bool" where
  "is_number (JNumber _) = True"
| "is_number _ = False"

fun is_boolean :: "json \<Rightarrow> bool" where
  "is_boolean (JBool _) = True"
| "is_boolean _ = False"

fun is_array :: "json \<Rightarrow> bool" where
  "is_array (JArray _) = True"
| "is_array _ = False"

fun is_object :: "json \<Rightarrow> bool" where
  "is_object (JObject _) = True"
| "is_object _ = False"

lemma as_f64_None_iff: "as_f64 v = None \<longleftrightarrow> \<not> is_number v"
  by (cases v rule: as_f64.cases) simp_all

lemma as_str_Some_iff: "as_str v = Some s \<longleftrightarrow> v = JString s"
  by (cases v) auto

text \<open>
  The members of a struct that the derived deserialiser fills: a member without a default must be
  there and have the right form, the default stands in for a missing one.
\<close>

definition required_member :: "(json \<Rightarrow> 'a option) \<Rightarrow> string \<Rightarrow> json \<Rightarrow> 'a option" where
  "required_member conv k v = Option.bind (json_get k v) conv"

definition default_member :: "(json \<Rightarrow> 'a option) \<Rightarrow> 'a \<Rightarrow> string \<Rightarrow> json \<Rightarrow> 'a option" where
  "default_member conv d k v = (case json_get k v of None \<Rightarrow> Some d | Some w \<Rightarrow> conv w)"

fun as_string_map :: "json \<Rightarrow> (string \<times> string) list option" where
  "as_string_map (JObject ms) =
     those (map (\<lambda>(k, v). map_option (Pair k) (as_str v)) ms)"
| "as_string_map _ = None"

fun as_u32 :: "json \<Rightarrow> u32 option" where
  "as_u32 (JNumber (PosInt n)) = (if unat n < 2 ^ 32 then Some (ucast n) else None)"
| "as_u32 _ = None"

end
