(* ===== verification/Discovery.thy ===== *)
theory Discovery
  imports Errors Json "HOL-Library.AList"
begin

text \<open>
  Service discovery (\<open>rszero/src/discovery/mod.rs\<close>).  The etcd client is a parameter: a record of the
  calls the code makes, on a client state \<open>'c\<close>, each of which may fail with a message.  \<open>dec\<close> parses a
  stored value as JSON and is \<open>None\<close> for bytes that are not UTF-8 or not JSON; \<open>enc\<close> prints a JSON value.
\<close>

section \<open>Instances\<close>

datatype load_balance_strategy = RoundRobin | RandomPick | FirstPick

record service_instance =
  si_name :: string
  si_addr :: string
  si_metadata :: "(string \<times> string) list"
  si_registered_at :: string
  si_weight :: u32

definition default_weight :: u32 where
  "default_weight = 100"

text \<open>
  The derived deserialiser: from an object by member name, or from an array by position.  Only the
  weight has a default.
\<close>

definition build_instance ::
  "string option \<Rightarrow> string option \<Rightarrow> (string \<times> string) list option \<Rightarrow> string option \<Rightarrow> u32 option \<Rightarrow> service_instance option" where
  "build_instance n a md r w =
     (case (n, a, md, r, w) of
        (Some n, Some a, Some md, Some r, Some w) \<Rightarrow>
          Some \<lparr>si_name = n, si_addr = a, si_metadata = md, si_registered_at = r, si_weight = w\<rparr>
      | _ \<Rightarrow> None)"

fun instance_from_json :: "json \<Rightarrow> service_instance option" where
  "instance_from_json (JObject ms) =
     (let v = JObject ms
      in build_instance (required_member as_str ''name'' v) (required_member as_str ''addr'' v)
           (required_member as_string_map ''metadata'' v) (required_member as_str ''registered_at'' v)
           (default_member as_u32 default_weight ''weight'' v))"
| "instance_from_json (JArray [n, a, md, r]) =
     build_instance (as_str n) (as_str a) (as_string_map md) (as_str r) (Some default_weight)"
| "instance_from_json (JArray [n, a, md, r, w]) =
     build_instance (as_str n) (as_str a) (as_string_map md) (as_str r) (as_u32 w)"
| "instance_from_json _ = None"

section \<open>The discovery client\<close>

record 'c etcd =
  etcd_connect :: "string list \<Rightarrow> (string, 'c) result"
  lease_grant :: "nat \<Rightarrow> 'c \<Rightarrow> (string, int) result \<times> 'c"
  kv_put :: "string \<Rightarrow> string \<Rightarrow> int \<Rightarrow> 'c \<Rightarrow> (string, unit) result \<times> 'c"
  kv_delete :: "string \<Rightarrow> 'c \<Rightarrow> (string, unit) result \<times> 'c"
  kv_get_prefix :: "string \<Rightarrow> 'c \<Rightarrow> (string, (string \<times> string) list) result \<times> 'c"
  lease_keep_alive :: "int \<Rightarrow> 'c \<Rightarrow> (string, unit) result \<times> 'c"
  keeper_keep_alive :: "int \<Rightarrow> 'c \<Rightarrow> (string, unit) result \<times> 'c"
  etcd_status :: "'c \<Rightarrow> (string, unit) result \<times> 'c"

record 'c service_discovery =
  sd_kind :: string
  sd_endpoints :: "string list"
  sd_client :: "'c option"
  sd_lease :: "int option"
  sd_counter :: u64

definition discovery_new :: "string \<Rightarrow> string list \<Rightarrow> 'c service_discovery" where
  "discovery_new k es = \<lparr>sd_kind = k, sd_endpoints = es, sd_client = None, sd_lease = None, sd_counter = 0\<rparr>"

definition discovery_from_etcd :: "string list \<Rightarrow> 'c service_discovery" where
  "discovery_from_etcd hosts = discovery_new ''etcd'' hosts"

abbreviation disc_err :: "string \<Rightarrow> rszero_error" where
  "disc_err m \<equiv> Errors.Discovery m None"

definition discovery_connect :: "'c etcd \<Rightarrow> 'c service_discovery \<Rightarrow> unit rszero_result \<times> 'c service_discovery" where
  "discovery_connect E d =
     (if sd_kind d \<noteq> ''etcd'' then (Err (disc_err (''unsupported discovery backend: '' @ sd_kind d)), d)
      else if sd_endpoints d = [] then (Err (disc_err ''no etcd endpoints configured''), d)
      else case etcd_connect E (sd_endpoints d) of
             Inl e \<Rightarrow> (Err (disc_err (''failed to connect to etcd: '' @ e)), d)
           | Inr c \<Rightarrow> (Ok (), d\<lparr>sd_client := Some c\<rparr>))"

definition ensure_connected :: "'c etcd \<Rightarrow> 'c service_discovery \<Rightarrow> unit rszero_result \<times> 'c service_discovery" where
  "ensure_connected E d = (if sd_client d = None then discovery_connect E d else (Ok (), d))"

definition service_prefix :: "string \<Rightarrow> string" where
  "service_prefix service = ''/rszero/services/'' @ service @ ''/''"

definition service_key :: "string \<Rightarrow> string \<Rightarrow> string" where
  "service_key service addr = ''/rszero/services/'' @ service @ ''/'' @ addr"

definition registration_value :: "string \<Rightarrow> string \<Rightarrow> string \<Rightarrow> json" where
  "registration_value service addr now =
     JObject [(''name'', JString service), (''addr'', JString addr), (''registered_at'', JString now),
              (''weight'', JNumber (PosInt 100))]"

text \<open>
  One call on the connected client: without a client it is an error, and the error of the call is
  wrapped with its prefix.
\<close>

definition on_client ::
  "string \<Rightarrow> ('c \<Rightarrow> (string, 'a) result \<times> 'c) \<Rightarrow> 'c service_discovery \<Rightarrow> 'a rszero_result \<times> 'c service_discovery" where
  "on_client what f d =
     (case sd_client d of
        None \<Rightarrow> (Err (disc_err ''etcd client not connected''), d)
      | Some c \<Rightarrow>
          (case f c of
             (Inl e, c') \<Rightarrow> (Err (disc_err (what @ e)), d\<lparr>sd_client := Some c'\<rparr>)
           | (Inr x, c') \<Rightarrow> (Ok x, d\<lparr>sd_client := Some c'\<rparr>)))"

text \<open>Registration up to the spawning of the keep-alive task; the result is the lease the task keeps.\<close>

definition register_service ::
  "'c etcd \<Rightarrow> (json \<Rightarrow> string) \<Rightarrow> string \<Rightarrow> string \<Rightarrow> string \<Rightarrow> 'c service_discovery \<Rightarrow> int rszero_result \<times> 'c service_discovery" where
  "register_service E enc now service addr d =
     (case ensure_connected E d of
        (Inl e, d1) \<Rightarrow> (Err e, d1)
      | (Inr _, d1) \<Rightarrow>
          (case on_client ''failed to grant lease: '' (lease_grant E 10) d1 of
             (Inl e, d2) \<Rightarrow> (Err e, d2)
           | (Inr lease, d2) \<Rightarrow>
               let d3 = d2\<lparr>sd_lease := Some lease\<rparr>
               in (case on_client ''failed to register service: ''
                         (kv_put E (service_key service addr) (enc (registration_value service addr now)) lease) d3 of
                     (Inl e, d4) \<Rightarrow> (Err e, d4)
                   | (Inr _, d4) \<Rightarrow> (Ok lease, d4))))"

text \<open>One tick of the keep-alive task; \<open>False\<close> ends it.\<close>

definition keep_alive_tick :: "'c etcd \<Rightarrow> int \<Rightarrow> 'c service_discovery \<Rightarrow> bool \<times> 'c service_discovery" where
  "keep_alive_tick E lease d =
     (case sd_client d of
        None \<Rightarrow> (True, d)
      | Some c \<Rightarrow>
          (case lease_keep_alive E lease c of
             (Inl _, c1) \<Rightarrow> (True, d\<lparr>sd_client := Some c1\<rparr>)
           | (Inr _, c1) \<Rightarrow>
               (case keeper_keep_alive E lease c1 of
                  (r, c2) \<Rightarrow> (is_ok r, d\<lparr>sd_client := Some c2\<rparr>))))"

definition deregister :: "'c etcd \<Rightarrow> string \<Rightarrow> string \<Rightarrow> 'c service_discovery \<Rightarrow> unit rszero_result \<times> 'c service_discovery" where
  "deregister E service addr d = on_client ''failed to deregister service: '' (kv_delete E (service_key service addr)) d"

text \<open>The stored values that parse as instances, in the order of the reply.\<close>

definition parse_values :: "(string \<Rightarrow> json option) \<Rightarrow> (string \<times> string) list \<Rightarrow> service_instance list" where
  "parse_values dec kvs = List.map_filter (\<lambda>kv. Option.bind (dec (snd kv)) instance_from_json) kvs"

definition discover ::
  "'c etcd \<Rightarrow> (string \<Rightarrow> json option) \<Rightarrow> string \<Rightarrow> 'c service_discovery \<Rightarrow> service_instance list rszero_result \<times> 'c service_discovery" where
  "discover E dec service d =
     (case on_client ''failed to discover service: '' (kv_get_prefix E (service_prefix service)) d of
        (r, d') \<Rightarrow> (map_sum id (parse_values dec) r, d'))"

text \<open>The counter of the round robin wraps as in a release build; \<open>rnd n\<close> is the draw \<open>fastrand::usize(0..n)\<close>.\<close>

definition select_instance ::
  "'c etcd \<Rightarrow> (string \<Rightarrow> json option) \<Rightarrow> (nat \<Rightarrow> nat) \<Rightarrow> string \<Rightarrow> load_balance_strategy \<Rightarrow> 'c service_discovery
   \<Rightarrow> service_instance option rszero_result \<times> 'c service_discovery" where
  "select_instance E dec rnd service strategy d =
     (case discover E dec service d of
        (Inl e, d') \<Rightarrow> (Err e, d')
      | (Inr xs, d') \<Rightarrow>
          if xs = [] then (Ok None, d')
          else case strategy of
                 RoundRobin \<Rightarrow>
                   (Ok (Some (xs ! (unat (sd_counter d') mod length xs))), d'\<lparr>sd_counter := sd_counter d' + 1\<rparr>)
               | RandomPick \<Rightarrow> (Ok (Some (xs ! rnd (length xs))), d')
               | FirstPick \<Rightarrow> (Ok (Some (xs ! 0)), d'))"

text \<open>What a watch hands to its callback: the values of the events that carry a key-value pair and parse.\<close>

definition watch_update :: "(string \<Rightarrow> json option) \<Rightarrow> (string \<times> string) option list \<Rightarrow> service_instance list" where
  "watch_update dec evs = parse_values dec (List.map_filter id evs)"

definition discovery_keep_alive :: "'c etcd \<Rightarrow> 'c service_discovery \<Rightarrow> int rszero_result \<times> 'c service_discovery" where
  "discovery_keep_alive E d =
     (case sd_lease d of
        None \<Rightarrow> (Err (disc_err ''no lease to keep alive''), d)
      | Some lease \<Rightarrow>
          (case on_client ''failed to start keep alive: '' (lease_keep_alive E lease) d of
             (r, d') \<Rightarrow> (map_sum id (\<lambda>_. lease) r, d')))"

definition discovery_is_healthy :: "'c etcd \<Rightarrow> 'c service_discovery \<Rightarrow> bool \<times> 'c service_discovery" where
  "discovery_is_healthy E d =
     (case sd_client d of
        None \<Rightarrow> (False, d)
      | Some c \<Rightarrow> (case etcd_status E c of (r, c') \<Rightarrow> (is_ok r, d\<lparr>sd_client := Some c'\<rparr>)))"


section \<open>Lemmas\<close>

text \<open>The registered value has no metadata member, and the struct has no default for it.\<close>

lemma registration_value_no_instance: "instance_from_json (registration_value service addr now) = None"
  by (simp add: registration_value_def build_instance_def required_member_def split: option.splits)

lemma parse_values_append [simp]: "parse_values dec (xs @ ys) = parse_values dec xs @ parse_values dec ys"
  by (simp add: parse_values_def map_filter_def)

lemma parse_values_Nil [simp]: "parse_values dec [] = []"
  by (simp add: parse_values_def map_filter_def)

lemma parse_values_Cons [simp]:
  "parse_values dec (kv # kvs) =
     (case Option.bind (dec (snd kv)) instance_from_json of None \<Rightarrow> [] | Some i \<Rightarrow> [i]) @ parse_values dec kvs"
  by (simp add: parse_values_def map_filter_simps split: option.splits)

lemma parse_values_none:
  "\<forall>kv \<in> set kvs. Option.bind (dec (snd kv)) instance_from_json = None \<Longrightarrow> parse_values dec kvs = []"
  by (induction kvs) (simp_all add: parse_values_def map_filter_def)

lemma on_client_ok_iff:
  "on_client what f d = (Inr x, d') \<longleftrightarrow>
     (\<exists>c c'. sd_client d = Some c \<and> f c = (Inr x, c') \<and> d' = d\<lparr>sd_client := Some c'\<rparr>)"
  by (auto simp: on_client_def split: option.splits prod.splits sum.splits)

lemma register_service_okD:
  assumes "register_service E enc now service addr d = (Ok lease, d')"
  shows "\<exists>c1 c2 c3. (sd_client d = Some c1 \<or> sd_client d = None \<and> etcd_connect E (sd_endpoints d) = Inr c1)
    \<and> lease_grant E 10 c1 = (Inr lease, c2)
    \<and> kv_put E (service_key service addr) (enc (registration_value service addr now)) lease c2 = (Inr (), c3)
    \<and> sd_client d' = Some c3"
proof -
  obtain d1 where d1: "ensure_connected E d = (Inr (), d1)"
    using assms by (cases "ensure_connected E d") (auto simp: register_service_def split: sum.splits)
  then have con: "\<exists>c1. sd_client d1 = Some c1 \<and> (sd_client d = Some c1 \<or> sd_client d = None \<and> etcd_connect E (sd_endpoints d) = Inr c1)"
    by (auto simp: ensure_connected_def discovery_connect_def split: if_splits sum.splits)
  obtain d2 where d2: "on_client ''failed to grant lease: '' (lease_grant E 10) d1 = (Inr lease, d2)"
    "on_client ''failed to register service: '' (kv_put E (service_key service addr)
       (enc (registration_value service addr now)) lease) (d2\<lparr>sd_lease := Some lease\<rparr>) = (Inr (), d')"
    using assms d1 by (auto simp: register_service_def Let_def split: sum.splits prod.splits)
  from con d2 show ?thesis by (auto simp: on_client_ok_iff)
qed

text \<open>Repeated selection, as successive callers make it.\<close>

fun select_many ::
  "'c etcd \<Rightarrow> (string \<Rightarrow> json option) \<Rightarrow> (nat \<Rightarrow> nat) \<Rightarrow> string \<Rightarrow> load_balance_strategy \<Rightarrow> nat \<Rightarrow> 'c service_discovery
   \<Rightarrow> service_instance option rszero_result list" where
  "select_many E dec rnd service strategy 0 d = []"
| "select_many E dec rnd service strategy (Suc n) d =
     (case select_instance E dec rnd service strategy d of (r, d') \<Rightarrow> r # select_many E dec rnd service strategy n d')"

lemma discover_counter: "discover E dec service d = (r, d') \<Longrightarrow> sd_counter d' = sd_counter d"
  by (auto simp: discover_def on_client_def split: option.splits prod.splits sum.splits)

lemma select_many_round_robin:
  assumes xs: "xs \<noteq> []"
    and stable: "\<And>d. P d \<Longrightarrow> \<exists>d'. discover E dec service d = (Ok xs, d') \<and> P d'"
    and P: "\<And>d n. P d \<Longrightarrow> P (d\<lparr>sd_counter := n\<rparr>)"
  shows "P d \<Longrightarrow> unat (sd_counter d) + n < 2 ^ 64 \<Longrightarrow>
    select_many E dec rnd service RoundRobin n d = map (\<lambda>i. Ok (Some (xs ! ((unat (sd_counter d) + i) mod length xs)))) [0..<n]"
proof (induction n arbitrary: d)
  case (Suc n)
  obtain d' where d': "discover E dec service d = (Ok xs, d')" "P d'" using stable [OF Suc.prems(1)] by blast
  let ?d = "d'\<lparr>sd_counter := sd_counter d' + 1\<rparr>"
  have c: "unat (sd_counter d' + 1) = unat (sd_counter d) + 1"
    using Suc.prems(2) discover_counter [OF d'(1)] by (simp add: unat_inc_no_overflow)
  have "select_many E dec rnd service RoundRobin n ?d =
      map (\<lambda>i. Ok (Some (xs ! ((unat (sd_counter ?d) + i) mod length xs)))) [0..<n]"
    using Suc.prems(2) c by (intro Suc.IH P d') simp_all
  moreover have "[0..<Suc n] = 0 # map Suc [0..<n]" by (simp add: upt_conv_Cons map_Suc_upt del: upt_Suc)
  ultimately show ?case
    using d' xs c discover_counter [OF d'(1)] by (simp add: select_instance_def comp_def del: upt_Suc)
qed simp

lemma rotate_as_nth: "xs \<noteq> [] \<Longrightarrow> rotate m xs = map (\<lambda>i. xs ! ((m + i) mod length xs)) [0..<length xs]"
  by (rule nth_equalityI) (auto simp: nth_rotate)

section \<open>Properties\<close>


text \<open>
  Round robin is fair: while the registry returns the same instances, as many successive selections as
  there are instances return each of them once, in the order of the registry from where the counter stands.
\<close>

theorem select_round_robin_fair:
  assumes "xs \<noteq> []" and "kv_get_prefix E (service_prefix service) c = (Inr kvs, c)" and "parse_values dec kvs = xs"
    and "sd_client d = Some c" and "unat (sd_counter d) + length xs < 2 ^ 64"
  shows "select_many E dec rnd service RoundRobin (length xs) d = map (\<lambda>i. Ok (Some i)) (rotate (unat (sd_counter d)) xs)"
proof -
  have "\<exists>d'. discover E dec service d = (Ok xs, d') \<and> sd_client d' = Some c" if "sd_client d = Some c" for d
    using that assms(2,3) by (auto simp: discover_def on_client_def)
  from select_many_round_robin [where P = "\<lambda>d. sd_client d = Some c" and n = "length xs" and d = d, OF assms(1) this] assms(1,4,5)
  show ?thesis by (simp add: rotate_as_nth)
qed

text \<open>An etcd client whose state is the stored pairs.\<close>

definition demo_etcd :: "(string \<times> string) list etcd" where
  "demo_etcd = \<lparr>etcd_connect = (\<lambda>_. Inr []), lease_grant = (\<lambda>_ c. (Inr 7, c)), kv_put = (\<lambda>k v _ c. (Inr (), AList.update k v c)),
     kv_delete = (\<lambda>k c. (Inr (), AList.delete k c)), kv_get_prefix = (\<lambda>p c. (Inr (filter (\<lambda>(k, _). prefix p k) c), c)),
     lease_keep_alive = (\<lambda>_ c. (Inr (), c)), keeper_keep_alive = (\<lambda>_ c. (Inr (), c)), etcd_status = (\<lambda>c. (Inr (), c))\<rparr>"

lemma set_alist_update: "set (AList.update k v kvs) \<subseteq> insert (k, v) (set kvs)"
  by (induction kvs) (auto split: if_splits)


text \<open>Two instances in the array form, read by a decoder that takes the stored text for all of their fields.\<close>

definition demo_dec_instance :: "string \<Rightarrow> json option" where
  "demo_dec_instance v = Some (JArray [JString v, JString v, JObject [], JString v])"

definition demo_registry :: "(string \<times> string) list service_discovery" where
  "demo_registry = (discovery_from_etcd [''e''])\<lparr>sd_client := Some [(service_key ''s'' ''a'', ''a''), (service_key ''s'' ''b'', ''b'')], sd_counter := 5\<rparr>"

theorem select_round_robin_fair_witness:
  "map (map_sum id (map_option si_addr)) (select_many demo_etcd demo_dec_instance (\<lambda>_. 0) ''s'' RoundRobin 2 demo_registry)
     = [Ok (Some ''b''), Ok (Some ''a'')]"
proof -
  let ?kvs = "[(service_key ''s'' ''a'', ''a''), (service_key ''s'' ''b'', ''b'')]"
  let ?i = "\<lambda>v. \<lparr>si_name = v, si_addr = v, si_metadata = [], si_registered_at = v, si_weight = default_weight\<rparr>"
  have p: "parse_values demo_dec_instance ?kvs = [?i ''a'', ?i ''b'']"
    by (simp add: demo_dec_instance_def build_instance_def)
  have "select_many demo_etcd demo_dec_instance (\<lambda>_. 0) ''s'' RoundRobin (length [?i ''a'', ?i ''b'']) demo_registry
    = map (\<lambda>i. Ok (Some i)) (rotate (unat (sd_counter demo_registry)) [?i ''a'', ?i ''b''])"
    by (rule select_round_robin_fair [OF _ _ p])
      (simp_all add: demo_etcd_def demo_registry_def service_key_def service_prefix_def)
  moreover have "rotate (unat (sd_counter demo_registry)) [?i ''a'', ?i ''b''] = [?i ''b'', ?i ''a'']"
    by (simp add: demo_registry_def rotate_drop_take flip: numeral_2_eq_2)
  moreover have "length [?i ''a'', ?i ''b''] = 2" by simp
  ultimately show ?thesis by (simp del: select_many.simps flip: numeral_2_eq_2)
qed

end
