(* ===== verification/Rpc_Client.thy ===== *)
theory Rpc_Client
  imports Retry Discovery
begin

text \<open>
  The RPC client (\<open>rszero/src/rpc/client.rs\<close>): it finds an instance through service discovery and runs the
  call with a timeout and retries.  The call is a parameter on the world \<open>'w\<close>; an attempt that yields
  no result is one that timed out.  The arithmetic of the delays wraps as in a release build.
\<close>

record rpc_config =
  rc_name :: string
  rc_listen_on :: string
  rc_etcd :: "(string list \<times> string) option"

record 'c rpc_client =
  rpc_cfg :: rpc_config
  rpc_timeout :: duration
  rpc_max_retries :: u32
  rpc_discovery :: "'c service_discovery option"
  rpc_load_balance :: load_balance_strategy

text \<open>The builder has the fields of the client, and \<open>build\<close> copies them.\<close>

definition builder_new :: "rpc_config \<Rightarrow> 'c rpc_client" where
  "builder_new cfg = \<lparr>rpc_cfg = cfg, rpc_timeout = from_secs 5, rpc_max_retries = 0, rpc_discovery = None, rpc_load_balance = RoundRobin\<rparr>"

definition builder_timeout :: "duration \<Rightarrow> 'c rpc_client \<Rightarrow> 'c rpc_client" where
  "builder_timeout t b = b\<lparr>rpc_timeout := t\<rparr>"

definition builder_max_retries :: "u32 \<Rightarrow> 'c rpc_client \<Rightarrow> 'c rpc_client" where
  "builder_max_retries n b = b\<lparr>rpc_max_retries := n\<rparr>"

definition builder_discovery :: "'c service_discovery \<Rightarrow> 'c rpc_client \<Rightarrow> 'c rpc_client" where
  "builder_discovery d b = b\<lparr>rpc_discovery := Some d\<rparr>"

definition builder_load_balance :: "load_balance_strategy \<Rightarrow> 'c rpc_client \<Rightarrow> 'c rpc_client" where
  "builder_load_balance s b = b\<lparr>rpc_load_balance := s\<rparr>"

definition builder_build :: "'c rpc_client \<Rightarrow> 'c rpc_client" where
  "builder_build b = \<lparr>rpc_cfg = rpc_cfg b, rpc_timeout = rpc_timeout b, rpc_max_retries = rpc_max_retries b,
     rpc_discovery = rpc_discovery b, rpc_load_balance = rpc_load_balance b\<rparr>"

definition rpc_client_new :: "rpc_config \<Rightarrow> 'c rpc_client" where
  "rpc_client_new cfg = builder_build (builder_new cfg)"

definition rpc_client_from_etcd :: "string list \<Rightarrow> string \<Rightarrow> 'c rpc_client" where
  "rpc_client_from_etcd hosts k =
     \<lparr>rpc_cfg = \<lparr>rc_name = [], rc_listen_on = [], rc_etcd = Some (hosts, k)\<rparr>, rpc_timeout = from_secs 5, rpc_max_retries = 0,
      rpc_discovery = None, rpc_load_balance = RoundRobin\<rparr>"

text \<open>
  Finding an instance: with the configured discovery client, whose state changes; or with a temporary
  one made from the etcd hosts of the configuration.
\<close>

definition discover_instance ::
  "'c etcd \<Rightarrow> (string \<Rightarrow> json option) \<Rightarrow> (nat \<Rightarrow> nat) \<Rightarrow> string \<Rightarrow> 'c rpc_client \<Rightarrow> service_instance option rszero_result \<times> 'c rpc_client" where
  "discover_instance E dec rnd service cl =
     (case rpc_discovery cl of
        Some d \<Rightarrow>
          (case select_instance E dec rnd service (rpc_load_balance cl) d of
             (r, d') \<Rightarrow> (r, cl\<lparr>rpc_discovery := Some d'\<rparr>))
      | None \<Rightarrow>
          (case rc_etcd (rpc_cfg cl) of
             None \<Rightarrow> (Err (disc_err ''no discovery configured''), cl)
           | Some (hosts, _) \<Rightarrow>
               (case discovery_connect E (discovery_from_etcd hosts) of
                  (Inl e, _) \<Rightarrow> (Err e, cl)
                | (Inr _, d) \<Rightarrow> (fst (select_instance E dec rnd service (rpc_load_balance cl) d), cl))))"

definition rpc_delay :: "nat \<Rightarrow> duration" where
  "rpc_delay attempt = min (from_millis (100 * push_bit (attempt mod 64) 1)) (from_secs 5)"

text \<open>One attempt: a call that does not finish within the timeout is an error of its own.\<close>

definition timed_attempt ::
  "(string \<Rightarrow> 'w \<Rightarrow> 't rszero_result option \<times> 'w) \<Rightarrow> string \<Rightarrow> 'w \<Rightarrow> 't rszero_result \<times> 'w" where
  "timed_attempt call addr w =
     (case call addr w of
        (Some r, w') \<Rightarrow> (r, w')
      | (None, w') \<Rightarrow> (Err (Rpc ''timeout'' None), w'))"

fun rpc_call_loop ::
  "nat \<Rightarrow> nat \<Rightarrow> nat \<Rightarrow> ('w \<Rightarrow> 't rszero_result \<times> 'w) \<Rightarrow> rszero_error option \<Rightarrow> 'w \<Rightarrow> 't rszero_result \<times> 'w \<times> duration list" where
  "rpc_call_loop mx attempt 0 op last_error w =
     (Err (case last_error of Some e \<Rightarrow> e | None \<Rightarrow> Rpc ''all retries exhausted'' None), w, [])"
| "rpc_call_loop mx attempt (Suc iters) op last_error w =
     (case op w of
        (Inr v, w') \<Rightarrow> (Ok v, w', [])
      | (Inl e, w') \<Rightarrow>
          let slept = (if attempt < mx then [rpc_delay attempt] else []);
              (r, w'', ds) = rpc_call_loop mx (Suc attempt) iters op (Some e) w'
          in (r, w'', slept @ ds))"

definition rpc_call ::
  "'c etcd \<Rightarrow> (string \<Rightarrow> json option) \<Rightarrow> (nat \<Rightarrow> nat) \<Rightarrow> string \<Rightarrow> (string \<Rightarrow> 'w \<Rightarrow> 't rszero_result option \<times> 'w) \<Rightarrow> 'c rpc_client \<Rightarrow> 'w
   \<Rightarrow> 't rszero_result \<times> 'w \<times> duration list \<times> 'c rpc_client" where
  "rpc_call E dec rnd service call cl w =
     (case discover_instance E dec rnd service cl of
        (Inl e, cl') \<Rightarrow> (Err e, w, [], cl')
      | (Inr None, cl') \<Rightarrow> (Err (disc_err (''no instance found for service: '' @ service)), w, [], cl')
      | (Inr (Some i), cl') \<Rightarrow>
          let mx = unat (rpc_max_retries cl');
              (r, w', ds) = rpc_call_loop mx 0 (Suc mx) (timed_attempt call (si_addr i)) None w
          in (r, w', ds, cl'))"

interpretation rpcl: remembering_loop op rpc_delay "\<lambda>mx a n le w. rpc_call_loop mx a n op le w" "\<lambda>r. r" for op
  by unfold_locales simp_all

section \<open>The delays\<close>

lemma unat_shifted: "a < 58 \<Longrightarrow> unat (100 * push_bit a 1 :: u64) = 100 * 2 ^ a"
proof -
  assume a: "a < 58"
  then have le: "(2::nat) ^ a \<le> 2 ^ 57" by (intro power_increasing) simp_all
  have p: "unat (push_bit a 1 :: u64) = 2 ^ a"
  proof -
    have "push_bit a 1 = (word_of_nat (2 ^ a) :: u64)" by (simp add: push_bit_eq_mult)
    moreover have "(2::nat) ^ a < 2 ^ 64" using a by (intro power_strict_increasing) simp_all
    ultimately show ?thesis by (simp only: unsigned_of_nat) (use a in \<open>simp add: take_bit_nat_eq_self\<close>)
  qed
  have "unat (100 * push_bit a 1 :: u64) = (100 * 2 ^ a) mod 2 ^ 64"
    using p by (simp add: unat_word_ariths)
  with le show ?thesis by simp
qed

lemma rpc_delay_small: "a < 58 \<Longrightarrow> rpc_delay a = min (100 * 2 ^ a * 10 ^ 6) (from_secs 5)"
  using unat_shifted [of a] by (simp add: rpc_delay_def from_millis_def)

section \<open>Properties\<close>

text \<open>
  C29. A call that finds an instance makes the attempts it promises, all on the address of that one instance:
  it stops at the first success or after \<open>max_retries + 1\<close> attempts and returns the last result; a
  timed-out attempt counts as a failure.  The delays double from 100 milliseconds up to five seconds for
  the first 58 attempts; after that the product wraps, and from the sixty-third retry on two of every
  64 delays are zero.
\<close>

theorem rpc_call_contract:
  assumes "discover_instance E dec rnd service cl = (Ok (Some i), cl')"
  shows "\<exists>k. stops_at (timed_attempt call (si_addr i)) (unat (rpc_max_retries cl')) w k
     \<and> rpc_call E dec rnd service call cl w =
         (op_result (timed_attempt call (si_addr i)) k w, op_world (timed_attempt call (si_addr i)) (Suc k) w, map rpc_delay [0..<k], cl')
     \<and> (\<forall>a. (a < 58 \<longrightarrow> rpc_delay a = min (100 * 2 ^ a * 10 ^ 6) (5 * 10 ^ 9)) \<and> (62 \<le> a mod 64 \<longrightarrow> rpc_delay a = 0))"
proof -
  have z: "rpc_delay a = 0" if "62 \<le> a mod 64" for a
  proof -
    have "a mod 64 < 64" by simp
    with that have "a mod 64 = 62 \<or> a mod 64 = 63" by linarith
    then show ?thesis by (auto simp: rpc_delay_def from_millis_def push_bit_eq_mult)
  qed
  obtain k where "stops_at (timed_attempt call (si_addr i)) (unat (rpc_max_retries cl')) w k"
    "rpc_call_loop (unat (rpc_max_retries cl')) 0 (Suc (unat (rpc_max_retries cl'))) (timed_attempt call (si_addr i)) None w
     = (op_result (timed_attempt call (si_addr i)) k w, op_world (timed_attempt call (si_addr i)) (Suc k) w, map rpc_delay [0..<k])"
    using rpcl.run_stops [where op = "timed_attempt call (si_addr i)" and n = "unat (rpc_max_retries cl')" and w = w, OF order_refl]
    by (auto simp del: rpc_call_loop.simps)
  with assms z rpc_delay_small show ?thesis
    by (auto simp: rpc_call_def from_secs_def simp del: rpc_call_loop.simps)
qed

text \<open>A call that times out twice and then answers.\<close>

definition demo_call :: "string \<Rightarrow> nat \<Rightarrow> string rszero_result option \<times> nat" where
  "demo_call addr n = (if n < 2 then None else Some (Ok addr), Suc n)"

definition demo_client :: "(string \<times> string) list rpc_client" where
  "demo_client = builder_build (builder_max_retries 5 (builder_discovery demo_registry (builder_new \<lparr>rc_name = [], rc_listen_on = [], rc_etcd = None\<rparr>)))"

theorem rpc_call_contract_witness:
  "fst (rpc_call demo_etcd demo_dec_instance (\<lambda>_. 0) ''s'' demo_call demo_client 0) = Ok ''b''"
proof -
  let ?i = "\<lparr>si_name = ''b'', si_addr = ''b'', si_metadata = [], si_registered_at = ''b'', si_weight = default_weight\<rparr>"
  obtain cl' where d: "discover_instance demo_etcd demo_dec_instance (\<lambda>_. 0) ''s'' demo_client = (Ok (Some ?i), cl')" "rpc_max_retries cl' = 5"
    by (simp add: discover_instance_def select_instance_def discover_def on_client_def demo_client_def builder_build_def
        builder_max_retries_def builder_discovery_def builder_new_def demo_registry_def demo_etcd_def service_key_def service_prefix_def
        demo_dec_instance_def build_instance_def flip: numeral_2_eq_2)
  obtain k where k: "stops_at (timed_attempt demo_call ''b'') 5 0 k"
    and r: "fst (rpc_call demo_etcd demo_dec_instance (\<lambda>_. 0) ''s'' demo_call demo_client 0) = op_result (timed_attempt demo_call ''b'') k 0"
    using rpc_call_contract [OF d(1), of demo_call 0] d(2) by auto
  have w: "op_world (timed_attempt demo_call ''b'') n 0 = n" for n
    by (induction n) (simp_all add: op_world_def timed_attempt_def demo_call_def)
  from k have "k = 5 \<or> is_ok (op_result (timed_attempt demo_call ''b'') k 0)" by (auto simp: stops_at_def)
  then have "2 \<le> k" by (auto simp: op_result_def w timed_attempt_def demo_call_def split: if_splits)
  then show ?thesis by (simp add: r op_result_def w timed_attempt_def demo_call_def)
qed

end
