(* ===== verification/Locks.thy ===== *)
theory Locks
  imports Errors Message_Queue
begin

text \<open>
  Distributed locks on Redis (\<open>rszero/src/cache/lock.rs\<close> and \<open>rszero/src/cache/redlock.rs\<close>).  The server
  is a parameter: the commands the code sends, on a server state \<open>'s\<close>, each with the time it runs at
  on the server.  The two Lua scripts are definitions here, run by \<open>EVAL\<close> as one step.
\<close>

section \<open>The server\<close>

text \<open>
  \<open>set_nx\<close> is \<open>SET key value NX\<close> with an expiry in milliseconds, \<open>call_get\<close>, \<open>call_del\<close> and
  \<open>call_expire\<close> are the commands the scripts call, \<open>eval\<close> runs a script and delivers its reply.
\<close>

record 's redis_server =
  set_nx :: "instant \<Rightarrow> string \<Rightarrow> string \<Rightarrow> nat \<Rightarrow> 's \<Rightarrow> 's redis_reply"
  call_get :: "instant \<Rightarrow> string \<Rightarrow> 's \<Rightarrow> string option"
  call_del :: "instant \<Rightarrow> string \<Rightarrow> 's \<Rightarrow> int \<times> 's"
  call_expire :: "instant \<Rightarrow> string \<Rightarrow> nat \<Rightarrow> 's \<Rightarrow> int \<times> 's"
  call_exists :: "instant \<Rightarrow> string \<Rightarrow> 's \<Rightarrow> (string, int) result"
  eval :: "('s \<Rightarrow> int \<times> 's) \<Rightarrow> 's \<Rightarrow> 's redis_reply"

text \<open>The script that deletes a key, and the one that extends its expiry, if it holds the caller's token.\<close>

definition release_script :: "'s redis_server \<Rightarrow> instant \<Rightarrow> string \<Rightarrow> string \<Rightarrow> 's \<Rightarrow> int \<times> 's" where
  "release_script R now k v s = (if call_get R now k s = Some v then call_del R now k s else (0, s))"

definition refresh_script :: "'s redis_server \<Rightarrow> instant \<Rightarrow> string \<Rightarrow> string \<Rightarrow> nat \<Rightarrow> 's \<Rightarrow> int \<times> 's" where
  "refresh_script R now k v secs s = (if call_get R now k s = Some v then call_expire R now k secs s else (0, s))"

definition as_secs :: "duration \<Rightarrow> nat" where
  "as_secs d = d div 10 ^ 9"

section \<open>DistributedLock\<close>

record distributed_lock =
  dl_resource :: string
  dl_value :: string

definition lock_key :: "string \<Rightarrow> string" where
  "lock_key resource = ''rszero:lock:'' @ resource"

text \<open>\<open>uuid\<close> is the fresh identifier and \<open>pid\<close> the process identifier as text.\<close>

definition try_acquire ::
  "'s redis_server \<Rightarrow> instant \<Rightarrow> string \<Rightarrow> string \<Rightarrow> string \<Rightarrow> duration \<Rightarrow> 's \<Rightarrow> distributed_lock option rszero_result \<times> 's" where
  "try_acquire R now uuid pid resource ttl s =
     (let val = uuid @ ''-'' @ pid;
          lock = \<lparr>dl_resource = resource, dl_value = val\<rparr>
      in case set_nx R now (lock_key resource) val (as_secs ttl * 1000) s of
           (Inr (RInteger i), s') \<Rightarrow> if i = 1 then (Ok (Some lock), s') else (Ok None, s')
         | (Inr (RString _), s') \<Rightarrow> (Ok (Some lock), s')
         | (Inr _, s') \<Rightarrow> (Ok None, s')
         | (Inl e, s') \<Rightarrow> (Err (Cache (''lock acquire failed: '' @ e) None), s'))"

text \<open>The reply of a script: an integer one is success, any other value is not.\<close>

fun script_result :: "string \<Rightarrow> (string, redis_value) result \<Rightarrow> bool rszero_result" where
  "script_result what (Inr (RInteger i)) = Ok (i = 1)"
| "script_result what (Inr _) = Ok False"
| "script_result what (Inl e) = Err (Cache (what @ e) None)"

definition lock_release :: "'s redis_server \<Rightarrow> instant \<Rightarrow> distributed_lock \<Rightarrow> 's \<Rightarrow> bool rszero_result \<times> 's" where
  "lock_release R now l s =
     (case eval R (release_script R now (lock_key (dl_resource l)) (dl_value l)) s of
        (r, s') \<Rightarrow> (script_result ''lock release failed: '' r, s'))"

definition lock_refresh :: "'s redis_server \<Rightarrow> instant \<Rightarrow> duration \<Rightarrow> distributed_lock \<Rightarrow> 's \<Rightarrow> bool rszero_result \<times> 's" where
  "lock_refresh R now ttl l s =
     (case eval R (refresh_script R now (lock_key (dl_resource l)) (dl_value l) (as_secs ttl)) s of
        (r, s') \<Rightarrow> (script_result ''lock refresh failed: '' r, s'))"

text \<open>The task that dropping a lock spawns; its result is ignored.\<close>

definition lock_drop :: "'s redis_server \<Rightarrow> instant \<Rightarrow> distributed_lock \<Rightarrow> 's \<Rightarrow> 's" where
  "lock_drop R now l s = snd (eval R (release_script R now (lock_key (dl_resource l)) (dl_value l)) s)"

text \<open>
  Running a function under a lock.  The function acts on the world \<open>'w\<close> and on the server, on which other
  clients act too while it runs; \<open>t\<close> and \<open>t'\<close> are the times of the acquisition and of the release.  The
  lock comes back as well: it is dropped on return, which runs \<open>lock_drop\<close> at some later time.
\<close>

definition with_lock ::
  "'s redis_server \<Rightarrow> instant \<Rightarrow> instant \<Rightarrow> string \<Rightarrow> string \<Rightarrow> string \<Rightarrow> duration \<Rightarrow> ('s \<times> 'w \<Rightarrow> 't \<times> 's \<times> 'w) \<Rightarrow> 's \<Rightarrow> 'w
   \<Rightarrow> 't rszero_result \<times> distributed_lock option \<times> 's \<times> 'w" where
  "with_lock R t t' uuid pid resource ttl f s w =
     (case try_acquire R t uuid pid resource ttl s of
        (Inl e, s1) \<Rightarrow> (Err e, None, s1, w)
      | (Inr None, s1) \<Rightarrow> (Err (Cache (''failed to acquire lock: '' @ resource) None), None, s1, w)
      | (Inr (Some l), s1) \<Rightarrow>
          (case f (s1, w) of
             (x, s2, w') \<Rightarrow>
               (case lock_release R t' l s2 of
                  (Inl e, s3) \<Rightarrow> (Err e, Some l, s3, w')
                | (Inr _, s3) \<Rightarrow> (Ok x, Some l, s3, w'))))"

text \<open>One round of the refresh task; \<open>False\<close> ends it.\<close>

definition refresh_round :: "'s redis_server \<Rightarrow> instant \<Rightarrow> duration \<Rightarrow> distributed_lock \<Rightarrow> 's \<Rightarrow> bool \<times> 's" where
  "refresh_round R now ttl l s =
     (case eval R (refresh_script R now (lock_key (dl_resource l)) (dl_value l) (as_secs ttl)) s of
        (Inr (RInteger i), s') \<Rightarrow> (i \<noteq> 0, s')
      | (Inl _, s') \<Rightarrow> (False, s')
      | (Inr _, s') \<Rightarrow> (True, s'))"

text \<open>The function and the refresh task interleaved: a tick of the task, then a part of the function.\<close>

fun run_refreshed ::
  "'s redis_server \<Rightarrow> duration \<Rightarrow> distributed_lock \<Rightarrow> bool \<Rightarrow> (instant \<times> ('s \<times> 'w \<Rightarrow> 's \<times> 'w)) list \<Rightarrow> 's \<times> 'w \<Rightarrow> 's \<times> 'w" where
  "run_refreshed R ttl l alive [] sw = sw"
| "run_refreshed R ttl l alive ((t, part) # parts) (s, w) =
     (let (alive', s') = (if alive then refresh_round R t ttl l s else (False, s))
      in run_refreshed R ttl l alive' parts (part (s', w)))"

definition with_lock_auto_refresh ::
  "'s redis_server \<Rightarrow> instant \<Rightarrow> instant \<Rightarrow> string \<Rightarrow> string \<Rightarrow> string \<Rightarrow> duration
   \<Rightarrow> (instant \<times> ('s \<times> 'w \<Rightarrow> 's \<times> 'w)) list \<Rightarrow> ('w \<Rightarrow> 't) \<Rightarrow> 's \<Rightarrow> 'w \<Rightarrow> 't rszero_result \<times> distributed_lock option \<times> 's \<times> 'w" where
  "with_lock_auto_refresh R t t' uuid pid resource ttl parts res s w =
     (case try_acquire R t uuid pid resource ttl s of
        (Inl e, s1) \<Rightarrow> (Err e, None, s1, w)
      | (Inr None, s1) \<Rightarrow> (Err (Cache (''failed to acquire lock: '' @ resource) None), None, s1, w)
      | (Inr (Some l), s1) \<Rightarrow>
          (case run_refreshed R ttl l True parts (s1, w) of
             (s2, w') \<Rightarrow>
               (case lock_release R t' l s2 of
                  (Inl e, s3) \<Rightarrow> (Err e, Some l, s3, w')
                | (Inr _, s3) \<Rightarrow> (Ok (res w'), Some l, s3, w'))))"

section \<open>Redlock\<close>

text \<open>The reply of \<open>SET\<close> is a status or an integer, which the client converts to text, or nil.\<close>

record redlock_config =
  rl_node :: string
  rl_db :: u8

definition redlock_config_default :: redlock_config where
  "redlock_config_default = \<lparr>rl_node = ''redis://127.0.0.1:6379'', rl_db = 0\<rparr>"

text \<open>Connecting: the client is configured from a URL with the number of the database, waits for its connection and sends a ping.\<close>

definition redlock_new ::
  "(string \<Rightarrow> (string, 'c) result) \<Rightarrow> ('c \<Rightarrow> (string, 's) result) \<Rightarrow> ('s \<Rightarrow> (string, unit) result) \<Rightarrow> redlock_config \<Rightarrow> 's rszero_result" where
  "redlock_new from_url connect ping c =
     (case from_url (rl_node c @ ''?db='' @ show_nat (unat (rl_db c))) of
        Inl e \<Rightarrow> Err (Cache (''invalid redlock config: '' @ e) None)
      | Inr rc \<Rightarrow>
          (case connect rc of
             Inl e \<Rightarrow> Err (Cache (''redlock connection failed: '' @ e) None)
           | Inr s \<Rightarrow> (case ping s of Inl e \<Rightarrow> Err (Cache (''redlock ping failed: '' @ e) None) | Inr _ \<Rightarrow> Ok s)))"

record redlock_guard =
  rg_resource :: string
  rg_value :: string
  rg_validity_time :: nat

definition redlock_acquire ::
  "'s redis_server \<Rightarrow> instant \<Rightarrow> string \<Rightarrow> string \<Rightarrow> string \<Rightarrow> nat \<Rightarrow> 's \<Rightarrow> redlock_guard option rszero_result \<times> 's" where
  "redlock_acquire R now uuid stamp resource ttl_ms s =
     (let token = uuid @ '':'' @ stamp
      in case set_nx R now resource token ttl_ms s of
           (Inl e, s') \<Rightarrow> (Err (Cache (''redlock acquire failed: '' @ e) None), s')
         | (Inr RNull, s') \<Rightarrow> (Ok None, s')
         | (Inr _, s') \<Rightarrow> (Ok (Some \<lparr>rg_resource = resource, rg_value = token, rg_validity_time = ttl_ms\<rparr>), s'))"

definition redlock_release :: "'s redis_server \<Rightarrow> instant \<Rightarrow> redlock_guard \<Rightarrow> 's \<Rightarrow> 's" where
  "redlock_release R now g s = snd (eval R (release_script R now (rg_resource g) (rg_value g)) s)"

definition redlock_is_locked :: "'s redis_server \<Rightarrow> instant \<Rightarrow> string \<Rightarrow> 's \<Rightarrow> bool rszero_result" where
  "redlock_is_locked R now resource s =
     (case call_exists R now resource s of
        Inl e \<Rightarrow> Err (Cache (''redlock exists check failed: '' @ e) None)
      | Inr n \<Rightarrow> Ok (0 < n))"

definition with_redlock ::
  "'s redis_server \<Rightarrow> instant \<Rightarrow> instant \<Rightarrow> string \<Rightarrow> string \<Rightarrow> string \<Rightarrow> nat \<Rightarrow> ('s \<times> 'w \<Rightarrow> 't \<times> 's \<times> 'w) \<Rightarrow> 's \<Rightarrow> 'w
   \<Rightarrow> 't rszero_result \<times> 's \<times> 'w" where
  "with_redlock R t t' uuid stamp resource ttl_ms f s w =
     (case redlock_acquire R t uuid stamp resource ttl_ms s of
        (Inl e, s1) \<Rightarrow> (Err e, s1, w)
      | (Inr None, s1) \<Rightarrow> (Err (Cache (''failed to acquire redlock: '' @ resource) None), s1, w)
      | (Inr (Some g), s1) \<Rightarrow>
          (case f (s1, w) of (x, s2, w') \<Rightarrow> (Ok x, redlock_release R t' g s2, w')))"


section \<open>Clients of one server\<close>

text \<open>
  What is documented of the commands, for the stored keys with their expiry times: a key is there until it
  expires; \<open>SET NX\<close> refuses an expiry of zero and stores only where no key is; \<open>EXPIRE\<close> with zero
  seconds deletes the key; a script runs as one step.  A command whose reply is an error may or may not
  have had its effect.
\<close>

type_synonym 's redis_view = "'s \<Rightarrow> string \<Rightarrow> (string \<times> instant) option"

definition documented_get :: "'s redis_server \<Rightarrow> 's redis_view \<Rightarrow> bool" where
  "documented_get R st \<longleftrightarrow>
     (\<forall>now k s. call_get R now k s = (case st s k of Some (v, e) \<Rightarrow> if now < e then Some v else None | None \<Rightarrow> None))"

definition documented_set :: "'s redis_server \<Rightarrow> 's redis_view \<Rightarrow> bool" where
  "documented_set R st \<longleftrightarrow>
     (\<forall>now k v ms s r s'. set_nx R now k v ms s = (r, s') \<longrightarrow>
        (let stored = (0 < ms \<and> call_get R now k s = None \<and> st s' = (st s)(k \<mapsto> (v, now + int ms * 10 ^ 6)))
         in case r of Inr (RString _) \<Rightarrow> stored | Inr x \<Rightarrow> x = RNull \<and> st s' = st s | Inl _ \<Rightarrow> st s' = st s \<or> stored))"

definition documented_del :: "'s redis_server \<Rightarrow> 's redis_view \<Rightarrow> bool" where
  "documented_del R st \<longleftrightarrow>
     (\<forall>now k s n s'. call_del R now k s = (n, s') \<longrightarrow>
        n = (if call_get R now k s = None then 0 else 1) \<and> st s' = (st s)(k := None))"

definition documented_expire :: "'s redis_server \<Rightarrow> 's redis_view \<Rightarrow> bool" where
  "documented_expire R st \<longleftrightarrow>
     (\<forall>now k secs s n s'. call_expire R now k secs s = (n, s') \<longrightarrow>
        (case call_get R now k s of
           None \<Rightarrow> n = 0 \<and> st s' = st s
         | Some v \<Rightarrow> n = 1 \<and> st s' = (st s)(k := if secs = 0 then None else Some (v, now + int secs * 10 ^ 9))))"

definition documented_eval :: "'s redis_server \<Rightarrow> bool" where
  "documented_eval R \<longleftrightarrow>
     (\<forall>f s r s'. eval R f s = (r, s') \<longrightarrow>
        (case r of Inr x \<Rightarrow> x = RInteger (fst (f s)) \<and> s' = snd (f s) | Inl _ \<Rightarrow> s' = s \<or> s' = snd (f s)))"

definition redis_documented :: "'s redis_server \<Rightarrow> 's redis_view \<Rightarrow> bool" where
  "redis_documented R st \<longleftrightarrow>
     documented_get R st \<and> documented_set R st \<and> documented_del R st \<and> documented_expire R st \<and> documented_eval R"

lemmas documented_defs = redis_documented_def documented_get_def documented_set_def documented_del_def
  documented_expire_def documented_eval_def

text \<open>The operations clients run on the server, each at a time of the server.\<close>

datatype lock_op =
    TryAcquire string string string duration
  | Release distributed_lock
  | Refresh duration distributed_lock
  | DropLock distributed_lock

definition op_token :: "lock_op \<Rightarrow> string" where
  "op_token p = (case p of
     TryAcquire uuid pid _ _ \<Rightarrow> uuid @ ''-'' @ pid | Release l \<Rightarrow> dl_value l | Refresh _ l \<Rightarrow> dl_value l | DropLock l \<Rightarrow> dl_value l)"

text \<open>The lock an operation obtains, if it does.\<close>

fun lock_step :: "'s redis_server \<Rightarrow> instant \<Rightarrow> lock_op \<Rightarrow> 's \<Rightarrow> distributed_lock option \<times> 's" where
  "lock_step R t (TryAcquire uuid pid res ttl) s =
     (case try_acquire R t uuid pid res ttl s of (Inr g, s') \<Rightarrow> (g, s') | (Inl _, s') \<Rightarrow> (None, s'))"
| "lock_step R t (Release l) s = (None, snd (lock_release R t l s))"
| "lock_step R t (Refresh ttl l) s = (None, snd (lock_refresh R t ttl l s))"
| "lock_step R t (DropLock l) s = (None, lock_drop R t l s)"

fun lock_run :: "'s redis_server \<Rightarrow> (instant \<times> lock_op) list \<Rightarrow> 's \<Rightarrow> distributed_lock list \<times> 's" where
  "lock_run R [] s = ([], s)"
| "lock_run R ((t, p) # ps) s =
     (let (g, s') = lock_step R t p s; (gs, s'') = lock_run R ps s'
      in ((case g of None \<Rightarrow> gs | Some l \<Rightarrow> l # gs), s''))"

lemma lock_key_eq [simp]: "lock_key a = lock_key b \<longleftrightarrow> a = b"
  by (simp add: lock_key_def)

text \<open>What an acquisition leaves.\<close>

lemma try_acquire_view:
  assumes doc: "redis_documented R st" and acq: "try_acquire R t uuid pid res ttl s = (r, s')"
  shows "st s' = st s \<and> (\<forall>l. r \<noteq> Ok (Some l)) \<or>
    call_get R t (lock_key res) s = None \<and> 0 < as_secs ttl
    \<and> st s' = (st s)(lock_key res \<mapsto> (uuid @ ''-'' @ pid, t + int (as_secs ttl) * 10 ^ 9))
    \<and> (r = Ok (Some \<lparr>dl_resource = res, dl_value = uuid @ ''-'' @ pid\<rparr>) \<or> (\<exists>e. r = Err e))"
proof -
  obtain x s1 where x: "set_nx R t (lock_key res) (uuid @ ''-'' @ pid) (as_secs ttl * 1000) s = (x, s1)" by fastforce
  have "documented_set R st" using doc by (simp add: redis_documented_def)
  from this [unfolded documented_set_def, rule_format, OF x] x acq show ?thesis
    by (auto simp: try_acquire_def Let_def split: sum.splits redis_value.splits if_splits)
qed

text \<open>A script run for another token leaves a live key as it is.\<close>

lemma scripts_other_token:
  assumes doc: "redis_documented R st" and key: "st s k = Some (v, e)" "t < e" and tok: "v' \<noteq> v"
  shows "st (snd (release_script R t k' v' s)) k = Some (v, e)" "st (snd (refresh_script R t k' v' n s)) k = Some (v, e)"
proof -
  have g: "call_get R t k s = Some v" using doc key by (simp add: documented_defs)
  obtain m s1 where d: "call_del R t k' s = (m, s1)" by fastforce
  obtain m' s2 where x: "call_expire R t k' n s = (m', s2)" by fastforce
  have "st s1 = (st s)(k' := None)" using doc d by (simp add: documented_defs)
  with d key g tok show "st (snd (release_script R t k' v' s)) k = Some (v, e)"
    by (auto simp: release_script_def)
  have "documented_expire R st" using doc by (simp add: redis_documented_def)
  from this [unfolded documented_expire_def, rule_format, OF x] x key g tok
  show "st (snd (refresh_script R t k' v' n s)) k = Some (v, e)"
    by (auto simp: refresh_script_def split: option.splits)
qed

lemma eval_keeps:
  assumes "redis_documented R st" and "st s k = x" and "st (snd (f s)) k = x"
  shows "st (snd (eval R f s)) k = x"
proof -
  obtain r s' where r: "eval R f s = (r, s')" by fastforce
  have "documented_eval R" using assms(1) by (simp add: redis_documented_def)
  from this [unfolded documented_eval_def, rule_format, OF r] have "s' = s \<or> s' = snd (f s)"
    by (auto split: sum.splits)
  with assms(2,3) r show ?thesis by auto
qed

lemma lock_step_keeps:
  assumes doc: "redis_documented R st" and key: "st s (lock_key res) = Some (v, e)" "t < e"
    and tok: "op_token p \<noteq> v" and step: "lock_step R t p s = (g, s')"
  shows "st s' (lock_key res) = Some (v, e) \<and> (\<forall>l. g = Some l \<longrightarrow> dl_resource l \<noteq> res)"
proof (cases p)
  case (TryAcquire uuid pid res' ttl)
  obtain r s1 where r: "try_acquire R t uuid pid res' ttl s = (r, s1)" by fastforce
  have "call_get R t (lock_key res) s = Some v" using doc key by (simp add: documented_defs)
  with try_acquire_view [OF doc r] key r step TryAcquire show ?thesis
    by (auto split: sum.splits)
next
  case (Release l)
  then show ?thesis using step scripts_other_token(1) [OF doc key, of "dl_value l"] tok eval_keeps [OF doc key(1)]
    by (auto simp: lock_release_def op_token_def split_beta)
next
  case (Refresh ttl l)
  then show ?thesis using step scripts_other_token(2) [OF doc key, of "dl_value l"] tok eval_keeps [OF doc key(1)]
    by (auto simp: lock_refresh_def op_token_def split_beta)
next
  case (DropLock l)
  then show ?thesis using step scripts_other_token(1) [OF doc key, of "dl_value l"] tok eval_keeps [OF doc key(1)]
    by (auto simp: lock_drop_def op_token_def)
qed

lemma lock_run_keeps:
  assumes "redis_documented R st"
  shows "st s (lock_key res) = Some (v, e) \<Longrightarrow> \<forall>(t, p) \<in> set ps. t < e \<and> op_token p \<noteq> v \<Longrightarrow> lock_run R ps s = (gs, s') \<Longrightarrow>
    st s' (lock_key res) = Some (v, e) \<and> (\<forall>l \<in> set gs. dl_resource l \<noteq> res)"
proof (induction ps arbitrary: s gs s')
  case (Cons tp ps)
  obtain t p where tp: "tp = (t, p)" by fastforce
  obtain g s1 where 1: "lock_step R t p s = (g, s1)" by fastforce
  obtain hs s2 where 2: "lock_run R ps s1 = (hs, s2)" by fastforce
  from lock_step_keeps [OF assms Cons.prems(1) _ _ 1] Cons.prems(2) tp
  have "st s1 (lock_key res) = Some (v, e)" "\<forall>l. g = Some l \<longrightarrow> dl_resource l \<noteq> res" by auto
  with Cons.IH [OF _ _ 2] Cons.prems(2,3) 1 2 tp show ?case by (auto split: option.splits)
qed auto

section \<open>Properties\<close>

text \<open>
  C25. A lease is exclusive: from the time a client obtains a lock until its time to live (in whole seconds) has passed
  on the server, and as long as the client itself does not release or refresh it, the server keeps the
  client's token under the key, and no operation of other clients, who have other tokens, obtains the lock:
  whatever they acquire, release, refresh or drop, and whichever replies get lost.
\<close>

theorem lock_lease_exclusive:
  assumes "redis_documented R st" and "try_acquire R t uuid pid res ttl s = (Ok (Some l), s1)"
    and "\<forall>(t', p) \<in> set ps. t' < t + int (as_secs ttl) * 10 ^ 9 \<and> op_token p \<noteq> dl_value l"
    and "lock_run R ps s1 = (gs, s2)" and "t'' < t + int (as_secs ttl) * 10 ^ 9"
  shows "call_get R t'' (lock_key res) s2 = Some (dl_value l) \<and> (\<forall>l' \<in> set gs. dl_resource l' \<noteq> res)"
proof -
  have l: "dl_value l = uuid @ ''-'' @ pid" and s1: "st s1 (lock_key res) = Some (uuid @ ''-'' @ pid, t + int (as_secs ttl) * 10 ^ 9)"
    using try_acquire_view [OF assms(1,2)] by auto
  from lock_run_keeps [OF assms(1) s1 _ assms(4)] assms(3) l
  have "st s2 (lock_key res) = Some (dl_value l, t + int (as_secs ttl) * 10 ^ 9)" "\<forall>l' \<in> set gs. dl_resource l' \<noteq> res" by auto
  with assms(1,5) show ?thesis by (simp add: redis_documented_def documented_get_def)
qed

text \<open>
  A time to live below one second is cut to zero seconds: acquiring never succeeds with it, and
  refreshing a held lock with it deletes the key and reports success.
\<close>

theorem lock_subsecond_ttl:
  assumes "redis_documented R st" and "ttl < 10 ^ 9"
  shows "fst (try_acquire R t uuid pid res ttl s) \<noteq> Ok (Some l') \<and>
    (call_get R t (lock_key (dl_resource l)) s = Some (dl_value l) \<and> lock_refresh R t ttl l s = (Ok b, s') \<longrightarrow>
       b \<and> call_get R t' (lock_key (dl_resource l)) s' = None)"
proof -
  have z: "as_secs ttl = 0" using assms(2) by (simp add: as_secs_def)
  obtain r s1 where r: "try_acquire R t uuid pid res ttl s = (r, s1)" by fastforce
  have "r \<noteq> Ok (Some l')" using try_acquire_view [OF assms(1) r] z by auto
  moreover have "b \<and> call_get R t' (lock_key (dl_resource l)) s' = None"
    if g: "call_get R t (lock_key (dl_resource l)) s = Some (dl_value l)" and rf: "lock_refresh R t ttl l s = (Ok b, s')"
  proof -
    let ?f = "refresh_script R t (lock_key (dl_resource l)) (dl_value l) (as_secs ttl)"
    obtain x s2 where x: "eval R ?f s = (x, s2)" by fastforce
    obtain y where "x = Inr y" using rf x by (cases x) (auto simp: lock_refresh_def)
    with assms(1) x have y: "x = Inr (RInteger (fst (?f s)))" "s2 = snd (?f s)"
      by (fastforce simp: redis_documented_def documented_eval_def)+
    obtain n s3 where n: "call_expire R t (lock_key (dl_resource l)) 0 s = (n, s3)" by fastforce
    have "documented_expire R st" using assms(1) by (simp add: redis_documented_def)
    from this [unfolded documented_expire_def, rule_format, OF n] g
    have "n = 1" "st s3 = (st s)(lock_key (dl_resource l) := None)" by auto
    with rf x y n g z assms(1) show ?thesis
      by (auto simp: lock_refresh_def refresh_script_def redis_documented_def documented_get_def)
  qed
  ultimately show ?thesis using r by auto
qed

text \<open>A server that keeps the keys with their expiry times and loses no reply.\<close>

type_synonym key_store = "string \<Rightarrow> (string \<times> instant) option"

definition store_get :: "instant \<Rightarrow> string \<Rightarrow> key_store \<Rightarrow> string option" where
  "store_get now k s = (case s k of Some (v, e) \<Rightarrow> if now < e then Some v else None | None \<Rightarrow> None)"

definition demo_redis :: "key_store redis_server" where
  "demo_redis = \<lparr>
     set_nx = (\<lambda>now k v ms s. if ms = 0 then (Err ''invalid expire time'', s)
        else if store_get now k s = None then (Ok (RString ''OK''), s(k \<mapsto> (v, now + int ms * 10 ^ 6))) else (Ok RNull, s)),
     call_get = store_get,
     call_del = (\<lambda>now k s. (if store_get now k s = None then 0 else 1, s(k := None))),
     call_expire = (\<lambda>now k secs s. case store_get now k s of None \<Rightarrow> (0, s)
        | Some v \<Rightarrow> (1, s(k := if secs = 0 then None else Some (v, now + int secs * 10 ^ 9)))),
     call_exists = (\<lambda>now k s. Ok (if store_get now k s = None then 0 else 1)),
     eval = (\<lambda>f s. case f s of (n, s') \<Rightarrow> (Ok (RInteger n), s'))\<rparr>"

lemma demo_redis_documented: "redis_documented demo_redis id"
  by (auto simp: documented_defs demo_redis_def store_get_def split: option.splits prod.splits)

theorem lock_lease_exclusive_witness:
  "\<exists>l s1 gs s2. try_acquire demo_redis 0 ''a'' ''1'' ''job'' (2 * 10 ^ 9) Map.empty = (Ok (Some l), s1)
     \<and> lock_run demo_redis [(1, TryAcquire ''b'' ''1'' ''job'' (10 ^ 9)), (2, Release \<lparr>dl_resource = ''job'', dl_value = ''b-1''\<rparr>)] s1 = (gs, s2)
     \<and> call_get demo_redis 3 (lock_key ''job'') s2 = Some (dl_value l)"
proof -
  obtain l s1 where 1: "try_acquire demo_redis 0 ''a'' ''1'' ''job'' (2 * 10 ^ 9) Map.empty = (Ok (Some l), s1)" "dl_value l = ''a-1''"
    by (simp add: try_acquire_def demo_redis_def store_get_def as_secs_def Let_def)
  obtain gs s2 where 2: "lock_run demo_redis [(1, TryAcquire ''b'' ''1'' ''job'' (10 ^ 9)), (2, Release \<lparr>dl_resource = ''job'', dl_value = ''b-1''\<rparr>)] s1 = (gs, s2)"
    by fastforce
  from lock_lease_exclusive [OF demo_redis_documented 1(1) _ 2, of 3] 1 2 show ?thesis
    by (auto simp: op_token_def as_secs_def)
qed

theorem lock_subsecond_ttl_witness:
  "\<exists>s'. lock_refresh demo_redis 5 (10 ^ 8) \<lparr>dl_resource = ''job'', dl_value = ''t''\<rparr> [lock_key ''job'' \<mapsto> (''t'', 9)] = (Ok True, s')
     \<and> call_get demo_redis 6 (lock_key ''job'') s' = None"
proof -
  let ?l = "\<lparr>dl_resource = ''job'', dl_value = ''t''\<rparr>" and ?s = "[lock_key ''job'' \<mapsto> (''t'', 9)]"
  obtain s' where s': "lock_refresh demo_redis 5 (10 ^ 8) ?l ?s = (Ok True, s')"
    by (simp add: lock_refresh_def refresh_script_def demo_redis_def store_get_def)
  with lock_subsecond_ttl [OF demo_redis_documented, of "10 ^ 8" 5 "''a''" "''1''" "''job''" ?s ?l ?l True s' 6] show ?thesis
    by (auto simp: demo_redis_def store_get_def)
qed

end
