(* ===== verification/Websocket.thy ===== *)
theory Websocket
  imports Json Transition_Systems
begin

text \<open>
  The WebSocket manager (\<open>rszero/src/rest/websocket.rs\<close>): connections with heartbeat, acknowledged messages
  and rooms.  The task of a connection is its \<open>select!\<close> loop; each branch is a definition that takes the clock
  readings and fresh identifiers as arguments and returns whether the loop goes on, the frames it sent and
  the manager.  \<open>ok\<close> says whether a checked send succeeded; \<open>dec\<close> parses a client's text as JSON.
\<close>

section \<open>State\<close>

record heartbeat_config =
  hb_interval :: duration
  hb_timeout :: duration
  hb_enabled :: bool

record ack_config =
  ack_enabled :: bool
  ack_timeout :: duration
  ack_max_retries :: u32

definition heartbeat_default :: heartbeat_config where
  "heartbeat_default = \<lparr>hb_interval = 30 * 10 ^ 9, hb_timeout = 60 * 10 ^ 9, hb_enabled = True\<rparr>"

definition ack_default :: ack_config where
  "ack_default = \<lparr>ack_enabled = True, ack_timeout = 5 * 10 ^ 9, ack_max_retries = 3\<rparr>"

record unacked_message =
  um_payload :: string
  um_retry_count :: u32
  um_sent_at :: instant

text \<open>The unacknowledged messages are a map; the list is in the order it is iterated.\<close>

record ws_connection =
  wc_id :: string
  wc_last_pong :: u64
  wc_room :: "string option"
  wc_unacked :: "(string \<times> unacked_message) list"

text \<open>A room is its broadcast channel, and the channel is its subscribed receivers.\<close>

record ws_manager =
  ws_conns :: "ws_connection list"
  ws_rooms :: "string \<Rightarrow> string list option"
  ws_heartbeat :: heartbeat_config
  ws_ack :: ack_config

datatype ws_frame = PingFrame | TextFrame string

definition with_configs :: "heartbeat_config \<Rightarrow> ack_config \<Rightarrow> ws_manager" where
  "with_configs hb ac = \<lparr>ws_conns = [], ws_rooms = Map.empty, ws_heartbeat = hb, ws_ack = ac\<rparr>"

definition with_heartbeat :: "heartbeat_config \<Rightarrow> ws_manager" where
  "with_heartbeat hb = with_configs hb ack_default"

definition ws_new :: ws_manager where
  "ws_new = with_configs heartbeat_default ack_default"

section \<open>Operations of the manager\<close>

text \<open>The clients a broadcast in a room reaches: the receivers of the room's channel.\<close>

definition broadcast_room :: "string \<Rightarrow> ws_manager \<Rightarrow> string list" where
  "broadcast_room room m = (case ws_rooms m room of Some rx \<Rightarrow> rx | None \<Rightarrow> [])"

definition connection_count :: "ws_manager \<Rightarrow> nat" where
  "connection_count m = length (ws_conns m)"

definition room_count :: "string \<Rightarrow> ws_manager \<Rightarrow> nat" where
  "room_count room m = length (filter (\<lambda>c. wc_room c = Some room) (ws_conns m))"

definition find_conn :: "string \<Rightarrow> ws_manager \<Rightarrow> ws_connection option" where
  "find_conn cid m = List.find (\<lambda>c. wc_id c = cid) (ws_conns m)"

definition unacked_count :: "string \<Rightarrow> ws_manager \<Rightarrow> nat" where
  "unacked_count cid m = (case find_conn cid m of Some c \<Rightarrow> length (wc_unacked c) | None \<Rightarrow> 0)"

definition total_unacked_count :: "ws_manager \<Rightarrow> nat" where
  "total_unacked_count m = sum_list (map (\<lambda>c. length (wc_unacked c)) (ws_conns m))"

text \<open>\<open>iter_mut().find\<close>: the first connection with the identifier is changed.\<close>

fun update_conn :: "string \<Rightarrow> (ws_connection \<Rightarrow> ws_connection) \<Rightarrow> ws_connection list \<Rightarrow> ws_connection list" where
  "update_conn cid f [] = []"
| "update_conn cid f (c # cs) = (if wc_id c = cid then f c # cs else c # update_conn cid f cs)"

definition on_conn :: "string \<Rightarrow> (ws_connection \<Rightarrow> ws_connection) \<Rightarrow> ws_manager \<Rightarrow> ws_manager" where
  "on_conn cid f m = m\<lparr>ws_conns := update_conn cid f (ws_conns m)\<rparr>"

section \<open>The task of a connection\<close>

definition ws_connect :: "string \<Rightarrow> u64 \<Rightarrow> ws_manager \<Rightarrow> ws_manager" where
  "ws_connect cid now m =
     m\<lparr>ws_conns := ws_conns m @ [\<lparr>wc_id = cid, wc_last_pong = now, wc_room = None, wc_unacked = []\<rparr>]\<rparr>"

definition ws_ping :: "u64 \<Rightarrow> bool \<Rightarrow> string \<Rightarrow> ws_manager \<Rightarrow> bool \<times> ws_frame list" where
  "ws_ping now ok cid m =
     (case find_conn cid m of
        Some c \<Rightarrow>
          if hb_timeout (ws_heartbeat m) div 10 ^ 9 < unat (saturating_sub now (wc_last_pong c)) then (False, [])
          else (ok, [PingFrame])
      | None \<Rightarrow> (ok, [PingFrame]))"

definition quote_char :: char where
  "quote_char = CHR 0x22"

definition frame_text :: "string \<Rightarrow> string \<Rightarrow> string" where
  "frame_text mid payload =
     ''{'' @ [quote_char] @ ''id'' @ [quote_char] @ '':'' @ [quote_char] @ mid @ [quote_char] @ '',''
     @ [quote_char] @ ''payload'' @ [quote_char] @ '':'' @ payload @ ''}''"

text \<open>
  One unacknowledged message at a tick: kept as it is, sent again, or given up when its retries are
  used up.
\<close>

definition retransmit :: "ack_config \<Rightarrow> instant \<Rightarrow> string \<times> unacked_message \<Rightarrow> (string \<times> unacked_message) list \<times> ws_frame list" where
  "retransmit ac now mu =
     (case mu of (mid, u) \<Rightarrow>
        if int (ack_timeout ac) < now - um_sent_at u then
          if ack_max_retries ac \<le> um_retry_count u then ([], [])
          else ([(mid, u\<lparr>um_retry_count := um_retry_count u + 1, um_sent_at := now\<rparr>)],
                [TextFrame (frame_text mid (um_payload u))])
        else ([mu], []))"

definition ack_tick :: "instant \<Rightarrow> string \<Rightarrow> ws_manager \<Rightarrow> ws_frame list \<times> ws_manager" where
  "ack_tick now cid m =
     (case find_conn cid m of
        None \<Rightarrow> ([], m)
      | Some c \<Rightarrow>
          (concat (map (\<lambda>mu. snd (retransmit (ws_ack m) now mu)) (wc_unacked c)),
           on_conn cid (\<lambda>c. c\<lparr>wc_unacked := concat (map (\<lambda>mu. fst (retransmit (ws_ack m) now mu)) (wc_unacked c))\<rparr>) m))"

definition remove_unacked :: "string \<Rightarrow> (string \<times> unacked_message) list \<Rightarrow> (string \<times> unacked_message) list" where
  "remove_unacked mid us = filter (\<lambda>(k, _). k \<noteq> mid) us"

text \<open>A broadcast message on its way to the client; \<open>mid\<close> is the fresh message identifier.\<close>

definition ws_deliver :: "string \<Rightarrow> string \<Rightarrow> instant \<Rightarrow> bool \<Rightarrow> string \<Rightarrow> ws_manager \<Rightarrow> bool \<times> ws_frame list \<times> ws_manager" where
  "ws_deliver msg mid now ok cid m =
     (if ack_enabled (ws_ack m) then
        (ok, [TextFrame (frame_text mid msg)],
         on_conn cid (\<lambda>c. c\<lparr>wc_unacked := (mid, \<lparr>um_payload = msg, um_retry_count = 0, um_sent_at = now\<rparr>)
           # remove_unacked mid (wc_unacked c)\<rparr>) m)
      else (ok, [TextFrame msg], m))"

text \<open>The room protocol: entering the room in the map, then in the connection; leaving only the latter.\<close>

definition join_entry :: "string \<Rightarrow> ws_manager \<Rightarrow> ws_manager" where
  "join_entry room m = (if ws_rooms m room = None then m\<lparr>ws_rooms := (ws_rooms m)(room \<mapsto> [])\<rparr> else m)"

definition join_member :: "string \<Rightarrow> string \<Rightarrow> ws_manager \<Rightarrow> ws_manager" where
  "join_member room cid m = on_conn cid (\<lambda>c. c\<lparr>wc_room := Some room\<rparr>) m"

definition leave_room :: "string \<Rightarrow> string \<Rightarrow> ws_manager \<Rightarrow> ws_manager" where
  "leave_room room cid m = on_conn cid (\<lambda>c. if wc_room c = Some room then c\<lparr>wc_room := None\<rparr> else c) m"

definition handle_client_message :: "(string \<Rightarrow> json option) \<Rightarrow> string \<Rightarrow> string \<Rightarrow> ws_manager \<Rightarrow> ws_manager" where
  "handle_client_message dec cid text m =
     (case dec text of
        None \<Rightarrow> m
      | Some cmd \<Rightarrow>
          (case Option.bind (json_get ''join'' cmd) as_str of
             Some room \<Rightarrow> join_member room cid (join_entry room m)
           | None \<Rightarrow>
               (case Option.bind (json_get ''leave'' cmd) as_str of
                  Some room \<Rightarrow> leave_room room cid m
                | None \<Rightarrow> m)))"

definition ws_text :: "(string \<Rightarrow> json option) \<Rightarrow> string \<Rightarrow> string \<Rightarrow> ws_manager \<Rightarrow> ws_manager" where
  "ws_text dec text cid m =
     (case (if ack_enabled (ws_ack m) then Option.bind (Option.bind (dec text) (json_get ''ack'')) as_str else None) of
        Some mid \<Rightarrow> on_conn cid (\<lambda>c. c\<lparr>wc_unacked := remove_unacked mid (wc_unacked c)\<rparr>) m
      | None \<Rightarrow> handle_client_message dec cid text m)"

definition ws_pong :: "u64 \<Rightarrow> string \<Rightarrow> ws_manager \<Rightarrow> ws_manager" where
  "ws_pong now cid m = on_conn cid (\<lambda>c. c\<lparr>wc_last_pong := now\<rparr>) m"

text \<open>After the loop: the connection is removed, the members of its room are counted, an empty room is removed.\<close>

definition removed_room :: "string \<Rightarrow> ws_manager \<Rightarrow> string option" where
  "removed_room cid m = Option.bind (find_conn cid m) wc_room"

definition remove_conn :: "string \<Rightarrow> ws_manager \<Rightarrow> ws_manager" where
  "remove_conn cid m = m\<lparr>ws_conns := filter (\<lambda>c. wc_id c \<noteq> cid) (ws_conns m)\<rparr>"

definition remove_room :: "string \<Rightarrow> ws_manager \<Rightarrow> ws_manager" where
  "remove_room room m = m\<lparr>ws_rooms := (ws_rooms m)(room := None)\<rparr>"

definition ws_disconnect :: "string \<Rightarrow> ws_manager \<Rightarrow> ws_manager" where
  "ws_disconnect cid m =
     (let room = removed_room cid m;
          m' = remove_conn cid m
      in case room of
           None \<Rightarrow> m'
         | Some r \<Rightarrow> if room_count r m' = 0 then remove_room r m' else m')"


section \<open>All connections\<close>

text \<open>
  The events of the connection tasks, each run to its end.  \<open>ws_step\<close> ignores the frames; a loop that
  ends continues with \<open>Disconnect\<close>.
\<close>

datatype ws_event =
    Connect string u64
  | AckTick string instant
  | Deliver string string string instant
  | ClientText string string
  | Pong string u64
  | Disconnect string

fun ws_apply :: "(string \<Rightarrow> json option) \<Rightarrow> ws_event \<Rightarrow> ws_manager \<Rightarrow> ws_manager" where
  "ws_apply dec (Connect cid now) m = ws_connect cid now m"
| "ws_apply dec (AckTick cid now) m = snd (ack_tick now cid m)"
| "ws_apply dec (Deliver cid msg mid now) m = snd (snd (ws_deliver msg mid now True cid m))"
| "ws_apply dec (ClientText cid text) m = ws_text dec text cid m"
| "ws_apply dec (Pong cid now) m = ws_pong now cid m"
| "ws_apply dec (Disconnect cid) m = ws_disconnect cid m"

abbreviation ws_step :: "(string \<Rightarrow> json option) \<Rightarrow> ws_manager \<Rightarrow> ws_event \<Rightarrow> ws_manager \<Rightarrow> bool" where
  "ws_step dec m e m' \<equiv> m' = ws_apply dec e m"

text \<open>
  A connection is in order if its room has an entry and no message was sent again more often than
  allowed; no room has a receiver.
\<close>

definition conn_ok :: "ack_config \<Rightarrow> (string \<Rightarrow> string list option) \<Rightarrow> ws_connection \<Rightarrow> bool" where
  "conn_ok ac rooms c \<longleftrightarrow>
     (\<forall>r. wc_room c = Some r \<longrightarrow> rooms r \<noteq> None) \<and> (\<forall>(mid, u) \<in> set (wc_unacked c). um_retry_count u \<le> ack_max_retries ac)"

definition ws_ok :: "ws_manager \<Rightarrow> bool" where
  "ws_ok m \<longleftrightarrow> (\<forall>c \<in> set (ws_conns m). conn_ok (ws_ack m) (ws_rooms m) c) \<and> (\<forall>r rx. ws_rooms m r = Some rx \<longrightarrow> rx = [])"

lemma update_conn_all:
  "\<forall>c \<in> set cs. P c \<Longrightarrow> (\<And>c. P c \<Longrightarrow> P (f c)) \<Longrightarrow> \<forall>c \<in> set (update_conn cid f cs). P c"
  by (induction cs) auto

lemma on_conn_sel [simp]:
  "ws_conns (on_conn cid f m) = update_conn cid f (ws_conns m)" "ws_rooms (on_conn cid f m) = ws_rooms m"
  "ws_ack (on_conn cid f m) = ws_ack m"
  by (simp_all add: on_conn_def)

lemma ws_ok_on_conn:
  assumes "ws_ok m" and "\<And>c. conn_ok (ws_ack m) (ws_rooms m) c \<Longrightarrow> conn_ok (ws_ack m) (ws_rooms m) (f c)"
  shows "ws_ok (on_conn cid f m)"
  using assms update_conn_all [of "ws_conns m" "conn_ok (ws_ack m) (ws_rooms m)" f cid] by (simp add: ws_ok_def)

lemma word_inc_le: "a < b \<Longrightarrow> a + 1 \<le> b" for a b :: "'l::len word"
  by (metis inc_le)

lemma retransmit_ok:
  "um_retry_count (snd mu) \<le> ack_max_retries ac \<Longrightarrow> \<forall>(mid, u) \<in> set (fst (retransmit ac now mu)). um_retry_count u \<le> ack_max_retries ac"
  by (auto simp: retransmit_def word_inc_le not_le split: prod.splits)

lemma ws_ok_ack_tick: "ws_ok m \<Longrightarrow> ws_ok (snd (ack_tick now cid m))"
  unfolding ack_tick_def
proof (cases "find_conn cid m"; simp)
  fix c0 assume "ws_ok m"
  then show "ws_ok (on_conn cid (\<lambda>c. c\<lparr>wc_unacked := concat (map (\<lambda>mu. fst (retransmit (ws_ack m) now mu)) (wc_unacked c))\<rparr>) m)"
    by (rule ws_ok_on_conn) (use retransmit_ok [of _ "ws_ack m" now] in \<open>fastforce simp: conn_ok_def\<close>)
qed

lemma ws_ok_join_entry: "ws_ok m \<Longrightarrow> ws_ok (join_entry room m) \<and> ws_rooms (join_entry room m) room \<noteq> None"
  by (auto simp: ws_ok_def join_entry_def conn_ok_def)

lemma ws_ok_text: "ws_ok m \<Longrightarrow> ws_ok (ws_text dec text cid m)"
proof -
  assume ok: "ws_ok m"
  have "ws_ok (join_member room cid (join_entry room m))" for room
    unfolding join_member_def using ws_ok_join_entry [OF ok, of room] by (intro ws_ok_on_conn) (auto simp: conn_ok_def)
  moreover have "ws_ok (leave_room room cid m)" for room
    unfolding leave_room_def using ok by (rule ws_ok_on_conn) (auto simp: conn_ok_def)
  moreover have "ws_ok (on_conn cid (\<lambda>c. c\<lparr>wc_unacked := remove_unacked mid (wc_unacked c)\<rparr>) m)" for mid
    using ok by (rule ws_ok_on_conn) (auto simp: conn_ok_def remove_unacked_def)
  ultimately show ?thesis using ok by (simp add: ws_text_def handle_client_message_def split: option.split)
qed

lemma ws_ok_disconnect: "ws_ok m \<Longrightarrow> ws_ok (ws_disconnect cid m)"
  by (auto simp: ws_ok_def ws_disconnect_def remove_conn_def remove_room_def room_count_def conn_ok_def Let_def filter_empty_conv
      split: option.splits)

lemma ws_ok_connect: "ws_ok m \<Longrightarrow> ws_ok (ws_connect cid now m)"
  by (auto simp: ws_connect_def ws_ok_def conn_ok_def)

lemma ws_ok_apply: "ws_ok m \<Longrightarrow> ws_ok (ws_apply dec e m)"
proof (cases e)
  case (Deliver cid msg mid now)
  assume "ws_ok m"
  moreover have "ws_ok (on_conn cid (\<lambda>c. c\<lparr>wc_unacked := (mid, \<lparr>um_payload = msg, um_retry_count = 0, um_sent_at = now\<rparr>)
      # remove_unacked mid (wc_unacked c)\<rparr>) m)" if "ws_ok m"
    using that by (rule ws_ok_on_conn) (auto simp: conn_ok_def remove_unacked_def)
  ultimately show ?thesis using Deliver by (simp add: ws_deliver_def)
next
  case (Pong cid now)
  assume "ws_ok m"
  then show ?thesis using Pong by (simp add: ws_pong_def) (rule ws_ok_on_conn, auto simp: conn_ok_def)
qed (auto simp: ws_ok_ack_tick ws_ok_text ws_ok_disconnect ws_ok_connect)

interpretation ws: inductive_invariant "\<lambda>m. m = with_configs hb ac" "ws_step dec" ws_ok for hb ac dec
  by unfold_locales (auto simp: ws_ok_apply, simp add: ws_ok_def with_configs_def)

section \<open>Properties\<close>



lemma count_after_join:
  assumes "length (filter (\<lambda>c. wc_room c = Some room) cs) = 0" and "List.find (\<lambda>c. wc_id c = cid) cs \<noteq> None"
  shows "length (filter (\<lambda>c. wc_room c = Some room) (update_conn cid (\<lambda>c. c\<lparr>wc_room := Some room\<rparr>) cs)) = 1"
  using assms by (induction cs) (auto split: if_splits)

lemma find_filter_other: "a \<noteq> b \<Longrightarrow> List.find (\<lambda>c. wc_id c = b) (filter (\<lambda>c. wc_id c \<noteq> a) cs) = List.find (\<lambda>c. wc_id c = b) cs"
  by (induction cs) auto

text \<open>
  The cleaning of empty rooms races with joining: a task counts the members of the room its connection was in,
  another connection joins, and the first task removes the room, which now has a member and no entry.
\<close>

theorem room_removed_under_member:
  assumes "removed_room a m = Some room" and "room_count room (remove_conn a m) = 0" and "find_conn b m \<noteq> None" and "a \<noteq> b"
    and "m' = remove_room room (join_member room b (join_entry room (remove_conn a m)))"
  shows "room_count room m' = 1 \<and> ws_rooms m' room = None"
  using assms count_after_join [of room "filter (\<lambda>c. wc_id c \<noteq> a) (ws_conns m)" b] find_filter_other [of a b "ws_conns m"]
  by (simp add: room_count_def remove_room_def join_member_def join_entry_def remove_conn_def find_conn_def)

end
