(* ===== verification/Streams.thy ===== *)
theory Streams
  imports Message_Queue
begin

text \<open>
  The Redis Streams backend of the message queue (\<open>rszero/src/queue/streams.rs\<close>).  The client is a
  parameter: \<open>custom\<close> sends a command with its arguments, \<open>hsetnx\<close>, \<open>hdel\<close> and \<open>hget\<close> work on a hash.  \<open>enc\<close> and
  \<open>dec\<close> are the JSON forms of a message.
\<close>

section \<open>The backend\<close>

record 's stream_client =
  custom :: "string \<Rightarrow> string list \<Rightarrow> 's \<Rightarrow> 's redis_reply"
  hsetnx :: "string \<Rightarrow> string \<Rightarrow> string \<Rightarrow> 's \<Rightarrow> 's redis_reply"
  hdel :: "string \<Rightarrow> string \<Rightarrow> 's \<Rightarrow> 's redis_reply"
  hget :: "string \<Rightarrow> string \<Rightarrow> 's \<Rightarrow> (string, string option) result"

record streams_backend =
  sb_group :: string
  sb_consumer :: string

definition streams_new ::
  "(string \<Rightarrow> (string, 'cfg) result) \<Rightarrow> ('cfg \<Rightarrow> (string, unit) result) \<Rightarrow> string \<Rightarrow> string \<Rightarrow> string option \<Rightarrow> streams_backend rszero_result" where
  "streams_new from_url wait_for_connect uuid addr grp =
     (if addr = [] then Err (Queue ''redis URL is empty'' None)
      else case from_url addr of
             Inl e \<Rightarrow> Err (Queue (''redis config failed: '' @ e) None)
           | Inr cfg \<Rightarrow>
               (case wait_for_connect cfg of
                  Inl e \<Rightarrow> Err (Queue (''redis connect failed: '' @ e) None)
                | Inr _ \<Rightarrow> Ok \<lparr>sb_group = (case grp of Some g \<Rightarrow> g | None \<Rightarrow> ''rszero-group''), sb_consumer = ''consumer-'' @ uuid\<rparr>))"

definition stream_key :: "string \<Rightarrow> string" where
  "stream_key t = ''rszero:stream:'' @ t"

definition pending_hash_key :: "string \<Rightarrow> string" where
  "pending_hash_key g = ''rszero:pending:'' @ g"

definition ensure_group :: "'s stream_client \<Rightarrow> streams_backend \<Rightarrow> string \<Rightarrow> 's \<Rightarrow> unit rszero_result \<times> 's" where
  "ensure_group C b t s =
     (case custom C ''XGROUP'' [''CREATE'', stream_key t, sb_group b, ''$'', ''MKSTREAM''] s of
        (Inr _, s') \<Rightarrow> (Ok (), s')
      | (Inl e, s') \<Rightarrow>
          if contains_str ''BUSYGROUP'' e then (Ok (), s') else (Err (Queue (''xgroup create failed: '' @ e) None), s'))"

definition streams_publish ::
  "'s stream_client \<Rightarrow> (message \<Rightarrow> (string, string) result) \<Rightarrow> message \<Rightarrow> 's \<Rightarrow> unit rszero_result \<times> 's" where
  "streams_publish C enc m s =
     (case enc m of
        Inl e \<Rightarrow> (Err (Queue e None), s)
      | Inr js \<Rightarrow>
          (case custom C ''XADD'' [stream_key (msg_topic m), ''*'', ''payload'', js] s of
             (Inl e, s') \<Rightarrow> (Err (Queue (''xadd failed: '' @ e) None), s')
           | (Inr _, s') \<Rightarrow> (Ok (), s')))"

text \<open>The fields of an entry in pairs; a pair whose key or value is not text is skipped.\<close>

fun payload_field :: "(string \<Rightarrow> (string, message) result) \<Rightarrow> string \<Rightarrow> redis_value list \<Rightarrow> message option rszero_result" where
  "payload_field dec eid (RString k # RString v # fs) =
     (if k = ''payload'' then
        (case dec v of
           Inl e \<Rightarrow> Err (Queue (''deserialize failed: '' @ e) None)
         | Inr m \<Rightarrow> Ok (Some (m\<lparr>msg_id := eid\<rparr>)))
      else payload_field dec eid fs)"
| "payload_field dec eid (_ # _ # fs) = payload_field dec eid fs"
| "payload_field dec eid _ = Ok None"

fun parse_stream_entry :: "(string \<Rightarrow> (string, message) result) \<Rightarrow> redis_value \<Rightarrow> message option rszero_result" where
  "parse_stream_entry dec (RArray (RString eid # RArray fs # _)) = payload_field dec eid fs"
| "parse_stream_entry dec _ = Ok None"

fun parse_message :: "(string \<Rightarrow> (string, message) result) \<Rightarrow> redis_value \<Rightarrow> message option rszero_result" where
  "parse_message dec (RArray (RArray (_ # RArray (RArray entry # _) # _) # _)) = parse_stream_entry dec (RArray entry)"
| "parse_message dec _ = Ok None"

definition read_args :: "streams_backend \<Rightarrow> string \<Rightarrow> string list" where
  "read_args b t =
     [''GROUP'', sb_group b, sb_consumer b, ''COUNT'', ''1'', ''BLOCK'', ''5000'', ''STREAMS'', stream_key t, ''>'']"

definition streams_consume ::
  "'s stream_client \<Rightarrow> (string \<Rightarrow> (string, message) result) \<Rightarrow> streams_backend \<Rightarrow> string \<Rightarrow> 's \<Rightarrow> message option rszero_result \<times> 's" where
  "streams_consume C dec b t s =
     (case ensure_group C b t s of
        (Inl e, s1) \<Rightarrow> (Err e, s1)
      | (Inr _, s1) \<Rightarrow>
          (case custom C ''XREADGROUP'' (read_args b t) s1 of
             (Inl e, s2) \<Rightarrow> (Err (Queue (''xreadgroup failed: '' @ e) None), s2)
           | (Inr v, s2) \<Rightarrow>
               (case parse_message dec v of
                  Inl e \<Rightarrow> (Err e, s2)
                | Inr None \<Rightarrow> (Ok None, s2)
                | Inr (Some m) \<Rightarrow> (Ok (Some m), snd (hsetnx C (pending_hash_key (sb_group b)) (msg_id m) t s2)))))"

definition streams_ack_topic :: "'s stream_client \<Rightarrow> streams_backend \<Rightarrow> string \<Rightarrow> string \<Rightarrow> 's \<Rightarrow> unit rszero_result \<times> 's" where
  "streams_ack_topic C b t mid s =
     (case custom C ''XACK'' [stream_key t, sb_group b, mid] s of
        (Inl e, s') \<Rightarrow> (Err (Queue (''xack failed: '' @ e) None), s')
      | (Inr _, s') \<Rightarrow> (Ok (), snd (hdel C (pending_hash_key (sb_group b)) mid s')))"

text \<open>The casts \<open>as usize\<close> of the reply wrap.\<close>

definition streams_pending :: "'s stream_client \<Rightarrow> streams_backend \<Rightarrow> string \<Rightarrow> 's \<Rightarrow> nat rszero_result \<times> 's" where
  "streams_pending C b t s =
     (case custom C ''XPENDING'' [stream_key t, sb_group b] s of
        (Inl e, s') \<Rightarrow> (Err (Queue (''xpending failed: '' @ e) None), s')
      | (Inr (RInteger i), s') \<Rightarrow> (Ok (nat (i mod 2 ^ 64)), s')
      | (Inr (RArray (RInteger i # _)), s') \<Rightarrow> (Ok (nat (i mod 2 ^ 64)), s')
      | (Inr _, s') \<Rightarrow> (Ok 0, s'))"

text \<open>One round of a subscription: a message the handler accepts is acknowledged.\<close>

definition streams_subscribe_round ::
  "'s stream_client \<Rightarrow> (string \<Rightarrow> (string, message) result) \<Rightarrow> (message \<Rightarrow> unit rszero_result) \<Rightarrow> streams_backend \<Rightarrow> string \<Rightarrow> 's
   \<Rightarrow> message option \<times> 's" where
  "streams_subscribe_round C dec hdl b t s =
     (case custom C ''XREADGROUP'' (read_args b t) s of
        (Inl _, s1) \<Rightarrow> (None, s1)
      | (Inr v, s1) \<Rightarrow>
          (case parse_message dec v of
             Inr (Some m) \<Rightarrow>
               (case hdl m of
                  Inl _ \<Rightarrow> (Some m, s1)
                | Inr _ \<Rightarrow>
                    let s2 = snd (custom C ''XACK'' [stream_key t, sb_group b, msg_id m] s1)
                    in (Some m, snd (hdel C (pending_hash_key (sb_group b)) (msg_id m) s2)))
           | _ \<Rightarrow> (None, s1)))"

definition claimed_messages :: "(string \<Rightarrow> (string, message) result) \<Rightarrow> redis_value list \<Rightarrow> message list" where
  "claimed_messages dec items =
     List.map_filter (\<lambda>v. case parse_stream_entry dec v of Inr (Some m) \<Rightarrow> Some m | _ \<Rightarrow> None) items"

definition claim_pending ::
  "'s stream_client \<Rightarrow> (string \<Rightarrow> (string, message) result) \<Rightarrow> streams_backend \<Rightarrow> string \<Rightarrow> u64 \<Rightarrow> nat \<Rightarrow> 's \<Rightarrow> message list rszero_result \<times> 's" where
  "claim_pending C dec b t min_idle_ms cnt s =
     (case custom C ''XAUTOCLAIM''
             [stream_key t, sb_group b, sb_consumer b, show_nat (unat min_idle_ms), ''0'', ''COUNT'', show_nat cnt] s of
        (Inl e, s') \<Rightarrow> (Err (Queue (''xautoclaim failed: '' @ e) None), s')
      | (Inr (RArray (_ # RArray items # _)), s') \<Rightarrow> (Ok (claimed_messages dec items), s')
      | (Inr _, s') \<Rightarrow> (Ok [], s'))"

definition topic_for_id :: "'s stream_client \<Rightarrow> streams_backend \<Rightarrow> string \<Rightarrow> 's \<Rightarrow> string option" where
  "topic_for_id C b mid s =
     (case hget C (pending_hash_key (sb_group b)) mid s of Inr (Some t) \<Rightarrow> Some t | _ \<Rightarrow> None)"

text \<open>The operations as the queue interface has them: a message is acknowledged by its identifier alone.\<close>

definition streams_ack :: "'s stream_client \<Rightarrow> streams_backend \<Rightarrow> string \<Rightarrow> 's \<Rightarrow> unit rszero_result \<times> 's" where
  "streams_ack C b mid s =
     (case topic_for_id C b mid s of
        Some t \<Rightarrow> streams_ack_topic C b t mid s
      | None \<Rightarrow> (Ok (), s))"

definition streams_nack :: "string \<Rightarrow> bool \<Rightarrow> 's \<Rightarrow> unit rszero_result \<times> 's" where
  "streams_nack mid requeue s = (Ok (), s)"

section \<open>Replies\<close>

lemma parse_message_entry:
  "parse_message dec (RArray [RArray [RString sk, RArray [RArray [RString eid, RArray fs]]]]) = payload_field dec eid fs"
  by simp

text \<open>The entry that \<open>streams_publish\<close> stored, read back.\<close>

lemma published_entry:
  "enc m = Inr js \<Longrightarrow> dec js = Inr m \<Longrightarrow>
   parse_message dec (RArray [RArray [RString sk, RArray [RArray [RString eid, RArray [RString ''payload'', RString js]]]]])
   = Ok (Some (m\<lparr>msg_id := eid\<rparr>))"
  by simp

section \<open>Properties\<close>

text \<open>
  An acknowledgement by identifier reaches the topic that was recorded first for that identifier: after a
  message was consumed from topic \<open>t\<close>, acknowledging it acknowledges in \<open>t\<close> if no topic was recorded for its
  identifier before, and in the other topic otherwise.  Identifiers are unique within a stream only, so two
  messages of different topics with the same identifier share one record, the second one cannot be
  acknowledged, and after the first acknowledgement neither can any of them.  \<open>HSETNX\<close>, \<open>HGET\<close> and \<open>HDEL\<close>
  are assumed as documented, and the stream commands to leave hashes alone.
\<close>

theorem streams_ack_first_topic:
  assumes "\<And>h k v s. hv (snd (hsetnx C h k v s)) = (if hv s h k = None then (hv s)(h := (hv s h)(k \<mapsto> v)) else hv s)"
    and "\<And>h k s. hget C h k s = Inr (hv s h k)"
    and "\<And>h k s. hv (snd (hdel C h k s)) = (hv s)(h := (hv s h)(k := None))"
    and "\<And>c as s. hv (snd (custom C c as s)) = hv s"
    and "streams_consume C dec b t s = (Ok (Some m), s')"
  defines "first \<equiv> (case hv s (pending_hash_key (sb_group b)) (msg_id m) of Some t' \<Rightarrow> t' | None \<Rightarrow> t)"
  shows "streams_ack C b (msg_id m) s' = streams_ack_topic C b first (msg_id m) s'
    \<and> (fst (streams_ack C b (msg_id m) s') = Ok () \<longrightarrow>
        streams_ack C b (msg_id m) (snd (streams_ack C b (msg_id m) s')) = (Ok (), snd (streams_ack C b (msg_id m) s')))"
proof -
  let ?h = "pending_hash_key (sb_group b)"
  obtain s1 where s1: "ensure_group C b t s = (Inr (), s1)"
    using assms(5) by (cases "ensure_group C b t s") (auto simp: streams_consume_def split: sum.splits)
  obtain v s2 where s2: "custom C ''XREADGROUP'' (read_args b t) s1 = (Inr v, s2)" "s' = snd (hsetnx C ?h (msg_id m) t s2)"
    using assms(5) s1 by (auto simp: streams_consume_def split: sum.splits prod.splits option.splits)
  have "hv s1 = hv s"
    using s1 assms(4) [of "''XGROUP''" "[''CREATE'', stream_key t, sb_group b, ''$'', ''MKSTREAM'']" s]
    by (auto simp: ensure_group_def split: prod.splits sum.splits if_splits)
  with s2(1) assms(4) [of "''XREADGROUP''" "read_args b t" s1] have h: "hv s2 = hv s" by simp
  have topic: "topic_for_id C b (msg_id m) s' = Some first"
    unfolding topic_for_id_def first_def assms(2) s2(2) assms(1) h by (auto split: option.splits)
  then have eq: "streams_ack C b (msg_id m) s' = streams_ack_topic C b first (msg_id m) s'" by (simp add: streams_ack_def)
  moreover have "topic_for_id C b (msg_id m) (snd (streams_ack_topic C b first (msg_id m) s')) = None"
    if "fst (streams_ack_topic C b first (msg_id m) s') = Ok ()"
    using that unfolding topic_for_id_def assms(2) by (auto simp: streams_ack_topic_def assms(3) split: prod.splits sum.splits)
  ultimately show ?thesis by (simp add: streams_ack_def)
qed

text \<open>A client whose streams hold one entry with the same identifier each.\<close>

definition demo_custom :: "string \<Rightarrow> string list \<Rightarrow> (string \<Rightarrow> string \<Rightarrow> string option) \<Rightarrow> (string \<Rightarrow> string \<Rightarrow> string option) redis_reply" where
  "demo_custom c as s =
     (if c = ''XREADGROUP''
      then Ok (RArray [RArray [RString '''', RArray [RArray [RString ''1-0'', RArray [RString ''payload'', RString ''x'']]]]])
      else Ok RNull, s)"

definition demo_streams :: "(string \<Rightarrow> string \<Rightarrow> string option) stream_client" where
  "demo_streams = \<lparr>custom = demo_custom,
     hsetnx = (\<lambda>h k v s. (Ok RNull, if s h k = None then s(h := (s h)(k \<mapsto> v)) else s)),
     hdel = (\<lambda>h k s. (Ok RNull, s(h := (s h)(k := None)))), hget = (\<lambda>h k s. Ok (s h k))\<rparr>"

theorem streams_ack_first_topic_witness:
  "\<exists>m s'. streams_consume demo_streams (\<lambda>j. Ok (demo_msg j)) \<lparr>sb_group = ''g'', sb_consumer = ''c''\<rparr> ''t2''
       (\<lambda>h. if h = pending_hash_key ''g'' then [''1-0'' \<mapsto> ''t1''] else Map.empty) = (Ok (Some m), s')
     \<and> streams_ack demo_streams \<lparr>sb_group = ''g'', sb_consumer = ''c''\<rparr> (msg_id m) s'
       = streams_ack_topic demo_streams \<lparr>sb_group = ''g'', sb_consumer = ''c''\<rparr> ''t1'' (msg_id m) s'"
proof -
  let ?b = "\<lparr>sb_group = ''g'', sb_consumer = ''c''\<rparr>"
  let ?s = "\<lambda>h. if h = pending_hash_key ''g'' then [''1-0'' \<mapsto> ''t1''] else Map.empty"
  obtain m s' where m: "streams_consume demo_streams (\<lambda>j. Ok (demo_msg j)) ?b ''t2'' ?s = (Ok (Some m), s')" "msg_id m = ''1-0''"
    by (simp add: streams_consume_def ensure_group_def demo_streams_def demo_custom_def)
  have "streams_ack demo_streams ?b (msg_id m) s' = streams_ack_topic demo_streams ?b
      (case ?s (pending_hash_key (sb_group ?b)) (msg_id m) of Some t' \<Rightarrow> t' | None \<Rightarrow> ''t2'') (msg_id m) s'"
    by (rule conjunct1 [OF streams_ack_first_topic [where hv = "\<lambda>s. s", OF _ _ _ _ m(1)]])
      (simp_all add: demo_streams_def demo_custom_def)
  with m show ?thesis by auto
qed

end
