(* ===== verification/Schema.thy ===== *)
theory Schema
  imports Json
begin

text \<open>
  Schemas of request bodies (\<open>rszero/src/middleware/schema.rs\<close>): rules per top-level field, checked in order
  with a return at the first violation.  \<open>show_f64\<close> is the formatting of floating-point numbers.
\<close>

datatype field_rule =
    Required
  | StringRule
  | NumberRule
  | BoolRule
  | ArrayRule
  | ObjectRule
  | Pattern string
  | Range f64 f64
  | MaxLen nat

type_synonym request_schema = "(string \<times> field_rule list) list"

definition schema_new :: request_schema where
  "schema_new = []"

definition schema_field :: "string \<Rightarrow> field_rule list \<Rightarrow> request_schema \<Rightarrow> request_schema" where
  "schema_field nm rules sch = sch @ [(nm, rules)]"

definition about_field :: "string \<Rightarrow> string \<Rightarrow> string" where
  "about_field nm what = ''field '' @ [CHR 0x27] @ nm @ [CHR 0x27] @ what"

definition typed_rule :: "string \<Rightarrow> string \<Rightarrow> (json \<Rightarrow> bool) \<Rightarrow> json option \<Rightarrow> string option" where
  "typed_rule nm what test fv =
     (case fv of Some v \<Rightarrow> if \<not> test v then Some (about_field nm what) else None | None \<Rightarrow> None)"

text \<open>The error of one rule on the value of its field.\<close>

fun rule_error :: "(f64 \<Rightarrow> string) \<Rightarrow> string \<Rightarrow> json option \<Rightarrow> field_rule \<Rightarrow> string option" where
  "rule_error show_f64 nm fv Required = (if fv = None \<or> fv = Some JNull then Some (about_field nm '' is required'') else None)"
| "rule_error show_f64 nm fv StringRule = typed_rule nm '' must be a string'' is_string fv"
| "rule_error show_f64 nm fv NumberRule = typed_rule nm '' must be a number'' is_number fv"
| "rule_error show_f64 nm fv BoolRule = typed_rule nm '' must be a boolean'' is_boolean fv"
| "rule_error show_f64 nm fv ArrayRule = typed_rule nm '' must be an array'' is_array fv"
| "rule_error show_f64 nm fv ObjectRule = typed_rule nm '' must be an object'' is_object fv"
| "rule_error show_f64 nm fv (Pattern pat) =
     (case fv of
        Some (JString s) \<Rightarrow> if \<not> contains_str pat s then Some (about_field nm '' does not match pattern'') else None
      | _ \<Rightarrow> None)"
| "rule_error show_f64 nm fv (Range lo hi) =
     (case fv of
        None \<Rightarrow> None
      | Some v \<Rightarrow>
          (case as_f64 v of
             None \<Rightarrow> Some (about_field nm '' must be a number'')
           | Some n \<Rightarrow>
               if f64_less n lo \<or> f64_less hi n
               then Some (about_field nm ('' out of range ['' @ show_f64 lo @ '', '' @ show_f64 hi @ '']'')) else None))"
| "rule_error show_f64 nm fv (MaxLen n) =
     (case fv of
        Some (JString s) \<Rightarrow> if n < length s then Some (about_field nm ('' exceeds max length '' @ show_nat n)) else None
      | _ \<Rightarrow> None)"

fun check_rules :: "(f64 \<Rightarrow> string) \<Rightarrow> string \<Rightarrow> json option \<Rightarrow> field_rule list \<Rightarrow> string option" where
  "check_rules show_f64 nm fv [] = None"
| "check_rules show_f64 nm fv (r # rs) =
     (case rule_error show_f64 nm fv r of Some e \<Rightarrow> Some e | None \<Rightarrow> check_rules show_f64 nm fv rs)"

fun check_fields :: "(f64 \<Rightarrow> string) \<Rightarrow> json \<Rightarrow> request_schema \<Rightarrow> string option" where
  "check_fields show_f64 v [] = None"
| "check_fields show_f64 v ((nm, rules) # fs) =
     (case check_rules show_f64 nm (json_get nm v) rules of Some e \<Rightarrow> Some e | None \<Rightarrow> check_fields show_f64 v fs)"

definition schema_validate :: "(f64 \<Rightarrow> string) \<Rightarrow> request_schema \<Rightarrow> json \<Rightarrow> (string, unit) result" where
  "schema_validate show_f64 sch v =
     (if \<not> is_object v then Err ''request body must be a JSON object''
      else case check_fields show_f64 v sch of Some e \<Rightarrow> Err e | None \<Rightarrow> Ok ())"

section \<open>What a schema means\<close>

text \<open>The values a rule admits, as its documentation says: only \<open>Required\<close> rejects a missing field.\<close>

definition admits :: "field_rule \<Rightarrow> json option \<Rightarrow> bool" where
  "admits r fv \<longleftrightarrow>
     (case r of
        Required \<Rightarrow> (\<exists>v. fv = Some v \<and> v \<noteq> JNull)
      | StringRule \<Rightarrow> (\<forall>v. fv = Some v \<longrightarrow> (\<exists>s. v = JString s))
      | NumberRule \<Rightarrow> (\<forall>v. fv = Some v \<longrightarrow> (\<exists>n. v = JNumber n))
      | BoolRule \<Rightarrow> (\<forall>v. fv = Some v \<longrightarrow> (\<exists>b. v = JBool b))
      | ArrayRule \<Rightarrow> (\<forall>v. fv = Some v \<longrightarrow> (\<exists>vs. v = JArray vs))
      | ObjectRule \<Rightarrow> (\<forall>v. fv = Some v \<longrightarrow> (\<exists>ms. v = JObject ms))
      | Pattern pat \<Rightarrow> (\<forall>s. fv = Some (JString s) \<longrightarrow> (\<exists>a b. s = a @ pat @ b))
      | Range lo hi \<Rightarrow> (\<forall>v. fv = Some v \<longrightarrow> (\<exists>n. as_f64 v = Some n \<and> \<not> f64_less n lo \<and> \<not> f64_less hi n))
      | MaxLen n \<Rightarrow> (\<forall>s. fv = Some (JString s) \<longrightarrow> length s \<le> n))"

lemma typed_rule_None: "typed_rule nm what test fv = None \<longleftrightarrow> (\<forall>v. fv = Some v \<longrightarrow> test v)"
  by (auto simp: typed_rule_def split: option.splits)

lemma is_json_iffs:
  "is_string v \<longleftrightarrow> (\<exists>s. v = JString s)" "is_number v \<longleftrightarrow> (\<exists>n. v = JNumber n)" "is_boolean v \<longleftrightarrow> (\<exists>b. v = JBool b)"
  "is_array v \<longleftrightarrow> (\<exists>vs. v = JArray vs)" "is_object v \<longleftrightarrow> (\<exists>ms. v = JObject ms)"
  by (cases v; simp)+

lemma rule_error_None: "rule_error show_f64 nm fv r = None \<longleftrightarrow> admits r fv"
  by (cases r) (auto simp: admits_def typed_rule_None is_json_iffs contains_str_iff not_less split: option.splits json.splits)

lemma check_rules_None: "check_rules show_f64 nm fv rs = None \<longleftrightarrow> (\<forall>r \<in> set rs. admits r fv)"
  by (induction rs) (auto simp: option.case_eq_if simp flip: rule_error_None [of show_f64 nm])

lemma check_rules_first:
  "\<forall>q \<in> set pre. admits q fv \<Longrightarrow> check_rules show_f64 nm fv (pre @ rs) = check_rules show_f64 nm fv rs"
  by (induction pre) (auto simp flip: rule_error_None [of show_f64 nm])

lemma check_fields_first:
  "check_fields show_f64 v fs = None \<Longrightarrow> check_fields show_f64 v (fs @ gs) = check_fields show_f64 v gs"
  by (induction fs) (auto split: option.splits)

lemma check_fields_None:
  "check_fields show_f64 v sch = None \<longleftrightarrow> (\<forall>(nm, rules) \<in> set sch. \<forall>r \<in> set rules. admits r (json_get nm v))"
  by (induction sch) (auto simp: check_rules_None split: option.splits)

section \<open>Properties\<close>

text \<open>
  C27. A schema accepts a value exactly when the value is an object whose fields all satisfy their rules, and what
  it reports otherwise is the error of the first violated rule of the first field that violates one.
\<close>

theorem schema_validate_spec:
  "(schema_validate show_f64 sch v = Ok () \<longleftrightarrow>
      is_object v \<and> (\<forall>(nm, rules) \<in> set sch. \<forall>r \<in> set rules. admits r (json_get nm v))) \<and>
   (is_object v \<and> sch = front @ (nm, pre @ r # post) # others
      \<and> (\<forall>(nm, rules) \<in> set front. \<forall>q \<in> set rules. admits q (json_get nm v)) \<and> (\<forall>q \<in> set pre. admits q (json_get nm v))
      \<and> rule_error show_f64 nm (json_get nm v) r = Some e
      \<longrightarrow> schema_validate show_f64 sch v = Err e)"
proof
  show "schema_validate show_f64 sch v = Ok () \<longleftrightarrow>
      is_object v \<and> (\<forall>(nm, rules) \<in> set sch. \<forall>r \<in> set rules. admits r (json_get nm v))"
    using check_fields_None [of show_f64 v sch] by (auto simp: schema_validate_def split: option.splits)
  show "is_object v \<and> sch = front @ (nm, pre @ r # post) # others
      \<and> (\<forall>(nm, rules) \<in> set front. \<forall>q \<in> set rules. admits q (json_get nm v)) \<and> (\<forall>q \<in> set pre. admits q (json_get nm v))
      \<and> rule_error show_f64 nm (json_get nm v) r = Some e
      \<longrightarrow> schema_validate show_f64 sch v = Err e"
    by (auto simp: schema_validate_def check_fields_first check_rules_first simp flip: check_fields_None [of show_f64])
qed

definition demo_schema :: request_schema where
  "demo_schema = schema_field ''age'' [Required, NumberRule] (schema_field ''name'' [Required, StringRule, MaxLen 3] schema_new)"

theorem schema_validate_spec_witness:
  "schema_validate (\<lambda>_. []) demo_schema (JObject [(''name'', JString ''bob''), (''age'', JNumber (PosInt 7))]) = Ok ()
   \<and> schema_validate (\<lambda>_. []) demo_schema (JObject [(''name'', JString ''bobby'')]) = Err (about_field ''name'' '' exceeds max length 3'')"
proof
  show "schema_validate (\<lambda>_. []) demo_schema (JObject [(''name'', JString ''bob''), (''age'', JNumber (PosInt 7))]) = Ok ()"
    by (rule iffD2 [OF conjunct1 [OF schema_validate_spec]])
      (simp add: demo_schema_def schema_field_def schema_new_def admits_def)
  show "schema_validate (\<lambda>_. []) demo_schema (JObject [(''name'', JString ''bobby'')]) = Err (about_field ''name'' '' exceeds max length 3'')"
    by (rule mp [OF conjunct2 [OF schema_validate_spec [where front = "[]" and nm = "''name''" and pre = "[Required, StringRule]"
            and r = "MaxLen 3" and post = "[]" and others = "[(''age'', [Required, NumberRule])]"]]])
      (simp add: demo_schema_def schema_field_def schema_new_def admits_def about_field_def show_nat.simps digit_char_def char_of_def bit_0)
qed

end
