(* ===== verification/Http_Middleware.thy ===== *)
theory Http_Middleware
  imports Schema Errors
begin

text \<open>
  The HTTP middleware (\<open>rszero/src/middleware/\<close>): body limit, validation, schema, authentication, signatures,
  idempotency, response cache, tenants, canary releases, request identifiers and the error handler.  A handler maps a
  request and the world \<open>'w\<close> to a response and the world; a middleware wraps the next handler.  Clock
  readings, random draws and library functions (token verification, hashing, base64, JSON text) are arguments.
\<close>

section \<open>Requests and responses\<close>

datatype body = Bytes string | BrokenBody string

record http_request =
  rq_method :: string
  rq_path :: string
  rq_uri :: string
  rq_headers :: "(string \<times> string) list"
  rq_body :: body
  rq_tenant :: "string option"
  rq_canary :: "bool option"

datatype resp_body = JsonBody json | RawBody string

record http_response =
  rs_status :: nat
  rs_headers :: "(string \<times> string) list"
  rs_body :: resp_body

type_synonym 'w handler = "http_request \<Rightarrow> 'w \<Rightarrow> http_response \<times> 'w"

text \<open>Header names are compared without regard to case; the first value counts.\<close>

definition same_name :: "string \<Rightarrow> string \<Rightarrow> bool" where
  "same_name a b \<longleftrightarrow> map to_ascii_lower a = map to_ascii_lower b"

definition header_get :: "string \<Rightarrow> (string \<times> string) list \<Rightarrow> string option" where
  "header_get nm hs = map_option snd (List.find (\<lambda>h. same_name (fst h) nm) hs)"

definition header_insert :: "string \<Rightarrow> string \<Rightarrow> (string \<times> string) list \<Rightarrow> (string \<times> string) list" where
  "header_insert nm v hs = (nm, v) # filter (\<lambda>h. \<not> same_name (fst h) nm) hs"

text \<open>\<open>HeaderValue::to_str\<close>: only visible ASCII characters, spaces and tabs.\<close>

definition to_str :: "string \<Rightarrow> string option" where
  "to_str v = (if list_all (\<lambda>c. 32 \<le> (of_char c :: nat) \<and> (of_char c :: nat) < 127 \<or> of_char c = (9::nat)) v then Some v else None)"

definition header_str :: "string \<Rightarrow> http_request \<Rightarrow> string option" where
  "header_str nm req = Option.bind (header_get nm (rq_headers req)) to_str"

definition code_msg :: "nat \<Rightarrow> string \<Rightarrow> json" where
  "code_msg c m = JObject [(''code'', JNumber (PosInt (word_of_nat c))), (''msg'', JString m)]"

definition json_response :: "nat \<Rightarrow> json \<Rightarrow> http_response" where
  "json_response st j = \<lparr>rs_status = st, rs_headers = [], rs_body = JsonBody j\<rparr>"

lemma header_get_insert [simp]: "header_get nm (header_insert nm v hs) = Some v"
  by (simp add: header_get_def header_insert_def same_name_def)

section \<open>Body size and validation rules\<close>

definition usize_max :: nat where
  "usize_max = 2 ^ 64 - 1"

definition content_length :: "http_request \<Rightarrow> nat option" where
  "content_length req = Option.bind (header_str ''content-length'' req) (parse_uint usize_max)"

text \<open>\<open>axum::body::to_bytes\<close>: the body unless it is longer than the limit or its stream fails.\<close>

fun to_bytes :: "nat \<Rightarrow> body \<Rightarrow> string option" where
  "to_bytes mx (Bytes b) = (if length b \<le> mx then Some b else None)"
| "to_bytes mx (BrokenBody _) = None"

definition too_large_response :: http_response where
  "too_large_response = json_response 413 (code_msg 413 ''request body too large'')"

definition body_size_limit :: "nat \<Rightarrow> 'w handler \<Rightarrow> 'w handler" where
  "body_size_limit max_bytes next req w =
     (if (case content_length req of Some len \<Rightarrow> max_bytes < len | None \<Rightarrow> False) then (too_large_response, w)
      else case to_bytes max_bytes (rq_body req) of
             None \<Rightarrow> (too_large_response, w)
           | Some b \<Rightarrow> next (req\<lparr>rq_body := Bytes b\<rparr>) w)"

record validation_rules =
  vr_max_body_size :: nat
  vr_required_headers :: "string list"

definition validation_rules_new :: validation_rules where
  "validation_rules_new = \<lparr>vr_max_body_size = 10 * 1024 * 1024, vr_required_headers = []\<rparr>"

fun missing_header :: "(string \<times> string) list \<Rightarrow> string list \<Rightarrow> http_response option" where
  "missing_header hs [] = None"
| "missing_header hs (h # rest) =
     (if header_get h hs = None then Some (json_response 400 (code_msg 400 (''missing required header: '' @ h)))
      else missing_header hs rest)"

definition rules_validate :: "validation_rules \<Rightarrow> http_request \<Rightarrow> http_response option" where
  "rules_validate rules req =
     (if (case content_length req of Some len \<Rightarrow> vr_max_body_size rules < len | None \<Rightarrow> False)
      then Some (json_response 413 (code_msg 413 ''request body too large''))
      else missing_header (rq_headers req) (vr_required_headers rules))"

definition validation_middleware :: "validation_rules \<Rightarrow> 'w handler \<Rightarrow> 'w handler" where
  "validation_middleware rules next req w =
     (case rules_validate rules req of Some r \<Rightarrow> (r, w) | None \<Rightarrow> next req w)"

section \<open>Schema validation\<close>

definition has_body_method :: "string \<Rightarrow> bool" where
  "has_body_method mtd \<longleftrightarrow> mtd \<in> {''POST'', ''PUT'', ''PATCH''}"

text \<open>A body that is not JSON is not validated.\<close>

definition schema_validation_middleware ::
  "(f64 \<Rightarrow> string) \<Rightarrow> (string \<Rightarrow> json option) \<Rightarrow> request_schema \<Rightarrow> 'w handler \<Rightarrow> 'w handler" where
  "schema_validation_middleware show_f64 dec sch next req w =
     (if has_body_method (rq_method req) then
        case to_bytes usize_max (rq_body req) of
          None \<Rightarrow> (json_response 400 (code_msg 400 ''failed to read request body''), w)
        | Some b \<Rightarrow>
            (case Option.bind (dec b) (\<lambda>j. case schema_validate show_f64 sch j of Inl e \<Rightarrow> Some e | Inr _ \<Rightarrow> None) of
               Some e \<Rightarrow> ((json_response 400 (code_msg 400 e))\<lparr>rs_headers := [(''content-type'', ''application/json'')]\<rparr>, w)
             | None \<Rightarrow> next (req\<lparr>rq_body := Bytes b\<rparr>) w)
      else next req w)"

section \<open>Authentication and signatures\<close>

record claims =
  cl_sub :: string
  cl_exp :: nat

definition generate_token ::
  "(string \<Rightarrow> claims \<Rightarrow> (string, string) result) \<Rightarrow> nat \<Rightarrow> string \<Rightarrow> string \<Rightarrow> nat \<Rightarrow> string rszero_result" where
  "generate_token encode now secret subject expiry_secs =
     map_sum (\<lambda>e. Auth e None) id (encode secret \<lparr>cl_sub = subject, cl_exp = (now + expiry_secs) mod 2 ^ 64\<rparr>)"

definition verify_token :: "(string \<Rightarrow> string \<Rightarrow> (string, claims) result) \<Rightarrow> string \<Rightarrow> string \<Rightarrow> claims rszero_result" where
  "verify_token decode secret token = map_sum (\<lambda>e. Auth e None) id (decode secret token)"

definition jwt_middleware ::
  "(string \<Rightarrow> string \<Rightarrow> (string, claims) result) \<Rightarrow> string \<Rightarrow> 'w handler \<Rightarrow> 'w handler" where
  "jwt_middleware decode secret next req w =
     (case header_str ''authorization'' req of
        Some hdr \<Rightarrow>
          let token = (case strip_prefix ''Bearer '' hdr of Some t \<Rightarrow> t | None \<Rightarrow> hdr)
          in (case verify_token decode secret token of
                Inr _ \<Rightarrow> next req w
              | Inl _ \<Rightarrow> (json_response 401 (code_msg 401 ''unauthorized''), w))
      | None \<Rightarrow> (json_response 401 (code_msg 401 ''missing authorization''), w))"

record signature_config =
  sc_secret :: string
  sc_max_drift_secs :: int
  sc_timestamp_header :: string
  sc_nonce_header :: string
  sc_signature_header :: string

definition signature_config_new :: "string \<Rightarrow> signature_config" where
  "signature_config_new secret = \<lparr>sc_secret = secret, sc_max_drift_secs = 300, sc_timestamp_header = ''X-Timestamp'',
     sc_nonce_header = ''X-Nonce'', sc_signature_header = ''X-Signature''\<rparr>"

text \<open>\<open>hash16\<close> is the hash of the standard hasher as sixteen hexadecimal digits.\<close>

definition compute_signature :: "(string \<Rightarrow> string) \<Rightarrow> string \<Rightarrow> string \<Rightarrow> string \<Rightarrow> string \<Rightarrow> string \<Rightarrow> string" where
  "compute_signature hash16 secret mtd path timestamp nonce =
     hash16 (secret @ '':'' @ mtd @ '':'' @ path @ '':'' @ timestamp @ '':'' @ nonce)"

text \<open>\<open>str::parse::<i64>\<close>; the difference and its absolute value wrap at 64 bits as in a release build.\<close>

definition parse_i64 :: "string \<Rightarrow> int option" where
  "parse_i64 s =
     (case s of
        CHR ''-'' # ds \<Rightarrow> if ds = [] then None else map_option (\<lambda>n. - int n) (parse_digits (2 ^ 63) 0 ds)
      | _ \<Rightarrow> map_option int (parse_uint (2 ^ 63 - 1) s))"

definition i64_wrap :: "int \<Rightarrow> int" where
  "i64_wrap x = signed_take_bit 63 x"

definition drift_exceeded :: "signature_config \<Rightarrow> int \<Rightarrow> string \<Rightarrow> bool" where
  "drift_exceeded cfg now timestamp \<longleftrightarrow>
     sc_max_drift_secs cfg < i64_wrap \<bar>i64_wrap (now - (case parse_i64 timestamp of Some t \<Rightarrow> t | None \<Rightarrow> 0))\<bar>"

definition signature_middleware :: "(string \<Rightarrow> string) \<Rightarrow> signature_config \<Rightarrow> int \<Rightarrow> 'w handler \<Rightarrow> 'w handler" where
  "signature_middleware hash16 cfg now next req w =
     (case (header_str (sc_timestamp_header cfg) req, header_str (sc_nonce_header cfg) req, header_str (sc_signature_header cfg) req) of
        (Some timestamp, Some nonce, Some signature) \<Rightarrow>
          if drift_exceeded cfg now timestamp then (json_response 401 (code_msg 401 ''timestamp drift exceeded''), w)
          else if signature \<noteq> compute_signature hash16 (sc_secret cfg) (rq_method req) (rq_path req) timestamp nonce
          then (json_response 401 (code_msg 401 ''invalid signature''), w)
          else next req w
      | _ \<Rightarrow> (json_response 401 (code_msg 401 ''missing signature headers''), w))"

section \<open>Idempotency keys\<close>

record idempotency_store =
  is_inner :: "string \<Rightarrow> (nat \<times> instant) option"
  is_ttl :: duration

definition idempotency_store_new :: "duration \<Rightarrow> idempotency_store" where
  "idempotency_store_new ttl = \<lparr>is_inner = Map.empty, is_ttl = ttl\<rparr>"

definition cleanup :: "instant \<Rightarrow> idempotency_store \<Rightarrow> idempotency_store" where
  "cleanup now st = st\<lparr>is_inner := (\<lambda>k. case is_inner st k of
     Some (c, ts) \<Rightarrow> if nat (now - ts) < is_ttl st then Some (c, ts) else None | None \<Rightarrow> None)\<rparr>"

definition idem_get :: "instant \<Rightarrow> string \<Rightarrow> idempotency_store \<Rightarrow> nat option \<times> idempotency_store" where
  "idem_get now k st = (let st' = cleanup now st in (map_option fst (is_inner st' k), st'))"

definition idem_insert :: "instant \<Rightarrow> string \<Rightarrow> nat \<Rightarrow> idempotency_store \<Rightarrow> idempotency_store" where
  "idem_insert now k c st = st\<lparr>is_inner := (is_inner st)(k \<mapsto> (c, now))\<rparr>"

text \<open>\<open>StatusCode::from_u16\<close> with the fallback to 200.\<close>

definition status_or_ok :: "nat \<Rightarrow> nat" where
  "status_or_ok c = (if 100 \<le> c \<and> c < 1000 then c else 200)"

definition cached_body :: json where
  "cached_body = JObject [(''cached'', JBool True), (''code'', JNumber (PosInt 0)), (''msg'', JString ''ok'')]"

definition idempotency_middleware ::
  "string \<Rightarrow> instant \<Rightarrow> instant \<Rightarrow> 'w handler \<Rightarrow> http_request \<Rightarrow> idempotency_store \<times> 'w \<Rightarrow> http_response \<times> idempotency_store \<times> 'w" where
  "idempotency_middleware hdr t t' next req sw =
     (case sw of (st, w) \<Rightarrow>
        case header_str hdr req of
          Some k \<Rightarrow>
            (case idem_get t k st of
               (Some c, st') \<Rightarrow> (json_response (status_or_ok c) cached_body, st', w)
             | (None, st') \<Rightarrow>
                 (case next req w of (res, w') \<Rightarrow> (res, idem_insert t' k (rs_status res) st', w')))
        | None \<Rightarrow> (case next req w of (res, w') \<Rightarrow> (res, st, w')))"

section \<open>The response cache\<close>

record cache_config =
  cc_ttl :: u64
  cc_cache_status :: "nat list"
  cc_cache_get_only :: bool

definition cache_config_default :: cache_config where
  "cache_config_default = \<lparr>cc_ttl = 60, cc_cache_status = [200], cc_cache_get_only = True\<rparr>"

record cached_entry =
  ent_status :: nat
  ent_body_b64 :: string

definition cached_entry_new :: "(string \<Rightarrow> string) \<Rightarrow> nat \<Rightarrow> string \<Rightarrow> cached_entry" where
  "cached_entry_new b64 st b = \<lparr>ent_status = st, ent_body_b64 = b64 b\<rparr>"

definition cached_entry_body :: "(string \<Rightarrow> string option) \<Rightarrow> cached_entry \<Rightarrow> string" where
  "cached_entry_body unb64 e = (case unb64 (ent_body_b64 e) of Some b \<Rightarrow> b | None \<Rightarrow> [])"

definition cache_key :: "http_request \<Rightarrow> string" where
  "cache_key req = ''rszero:cache:'' @ rq_method req @ '':'' @ rq_uri req"

definition is_cacheable_request :: "cache_config \<Rightarrow> http_request \<Rightarrow> bool" where
  "is_cacheable_request cfg req \<longleftrightarrow> \<not> (cc_cache_get_only cfg \<and> rq_method req \<noteq> ''GET'')"

text \<open>
  \<open>get\<close> and \<open>set_ex\<close> are the operations of the Redis cache on a state \<open>'s\<close>; \<open>raw\<close> is the text of a response body.
\<close>

definition cache_handle ::
  "(string \<Rightarrow> 's \<Rightarrow> cached_entry option rszero_result \<times> 's) \<Rightarrow> (string \<Rightarrow> cached_entry \<Rightarrow> u64 \<Rightarrow> 's \<Rightarrow> unit rszero_result \<times> 's)
   \<Rightarrow> (string \<Rightarrow> string) \<Rightarrow> (string \<Rightarrow> string option) \<Rightarrow> (resp_body \<Rightarrow> string) \<Rightarrow> cache_config \<Rightarrow> 'w handler
   \<Rightarrow> http_request \<Rightarrow> 's \<times> 'w \<Rightarrow> http_response \<times> 's \<times> 'w" where
  "cache_handle get set_ex b64 unb64 raw cfg next req sw =
     (case sw of (s, w) \<Rightarrow>
        if \<not> is_cacheable_request cfg req then (case next req w of (res, w') \<Rightarrow> (res, s, w'))
        else case get (cache_key req) s of
               (Inr (Some e), s') \<Rightarrow>
                 (\<lparr>rs_status = status_or_ok (ent_status e), rs_headers = [(''X-Cache'', ''HIT'')], rs_body = RawBody (cached_entry_body unb64 e)\<rparr>, s', w)
             | (_, s') \<Rightarrow>
                 (case next req w of (res, w') \<Rightarrow>
                    if rs_status res \<in> set (cc_cache_status cfg) then
                      let b = raw (rs_body res)
                      in (res\<lparr>rs_body := RawBody b\<rparr>, snd (set_ex (cache_key req) (cached_entry_new b64 (rs_status res) b) (cc_ttl cfg) s'), w')
                    else (res, s', w')))"

section \<open>Tenants, canary releases, request identifiers, errors\<close>

record tenant_config =
  tc_header_name :: "string option"
  tc_path_param :: "string option"
  tc_default_tenant :: "string option"

definition tenant_header :: "string \<Rightarrow> tenant_config" where
  "tenant_header nm = \<lparr>tc_header_name = Some nm, tc_path_param = None, tc_default_tenant = None\<rparr>"

definition tenant_path_param :: "string \<Rightarrow> tenant_config" where
  "tenant_path_param nm = \<lparr>tc_header_name = None, tc_path_param = Some nm, tc_default_tenant = None\<rparr>"

definition tenant_with_default :: "string \<Rightarrow> tenant_config \<Rightarrow> tenant_config" where
  "tenant_with_default t cfg = cfg\<lparr>tc_default_tenant := Some t\<rparr>"

text \<open>The part after the first part that equals the given one.\<close>

fun part_after :: "string \<Rightarrow> string list \<Rightarrow> string option" where
  "part_after p [] = None"
| "part_after p (x # xs) = (if x = p then (case xs of [] \<Rightarrow> None | y # _ \<Rightarrow> Some y) else part_after p xs)"

definition extract_tenant :: "tenant_config \<Rightarrow> http_request \<Rightarrow> string option" where
  "extract_tenant cfg req =
     (case Option.bind (tc_header_name cfg) (\<lambda>h. header_str h req) of
        Some t \<Rightarrow> Some t
      | None \<Rightarrow>
          (case Option.bind (tc_path_param cfg) (\<lambda>p. part_after ('':'' @ p) (split_on (CHR ''/'') (rq_path req))) of
             Some t \<Rightarrow> Some t
           | None \<Rightarrow> tc_default_tenant cfg))"

definition tenant_middleware :: "tenant_config \<Rightarrow> 'w handler \<Rightarrow> 'w handler" where
  "tenant_middleware cfg next req w =
     next (req\<lparr>rq_tenant := Some (case extract_tenant cfg req of Some t \<Rightarrow> t | None \<Rightarrow> ''default'')\<rparr>) w"

record canary_config =
  can_weight :: u8
  can_header_name :: string
  can_cookie_name :: string

definition canary_config_default :: canary_config where
  "canary_config_default = \<lparr>can_weight = 0, can_header_name = ''X-Canary'', can_cookie_name = ''canary''\<rparr>"

definition canary_with_weight :: "u8 \<Rightarrow> canary_config" where
  "canary_with_weight wt = canary_config_default\<lparr>can_weight := min wt 100\<rparr>"

text \<open>\<open>roll\<close> is the draw \<open>fastrand::u8(0..100)\<close>.\<close>

definition is_canary :: "u8 \<Rightarrow> canary_config \<Rightarrow> http_request \<Rightarrow> bool" where
  "is_canary roll cfg req =
     (case header_str (can_header_name cfg) req of
        Some v \<Rightarrow> map to_ascii_lower v = ''true'' \<or> v = ''1''
      | None \<Rightarrow>
          (case header_str ''cookie'' req of
             Some v \<Rightarrow> contains_str (can_cookie_name cfg @ ''=true'') v \<or> contains_str (can_cookie_name cfg @ ''=1'') v
           | None \<Rightarrow> False)
          \<or> (0 < can_weight cfg \<and> roll < can_weight cfg))"

definition canary_middleware :: "u8 \<Rightarrow> canary_config \<Rightarrow> 'w handler \<Rightarrow> 'w handler" where
  "canary_middleware roll cfg next req w = next (req\<lparr>rq_canary := Some (is_canary roll cfg req)\<rparr>) w"

definition request_id_header :: string where
  "request_id_header = ''X-Request-Id''"

definition request_id_middleware :: "string \<Rightarrow> 'w handler \<Rightarrow> 'w handler" where
  "request_id_middleware uuid next req w =
     (let rid = (case header_get request_id_header (rq_headers req) of Some v \<Rightarrow> v | None \<Rightarrow> ''req-'' @ uuid)
      in case next (req\<lparr>rq_headers := header_insert request_id_header rid (rq_headers req)\<rparr>) w of
           (res, w') \<Rightarrow> (res\<lparr>rs_headers := header_insert request_id_header rid (rs_headers res)\<rparr>, w'))"

definition get_request_id :: "http_response \<Rightarrow> string option" where
  "get_request_id res = Option.bind (header_get request_id_header (rs_headers res)) to_str"

text \<open>\<open>reason\<close> is the canonical reason phrase of a status, if it has one.\<close>

definition error_middleware :: "(nat \<Rightarrow> string option) \<Rightarrow> 'w handler \<Rightarrow> 'w handler" where
  "error_middleware reason next req w =
     (case next req w of (res, w') \<Rightarrow>
        if 400 \<le> rs_status res \<and> rs_status res < 600
        then (json_response (rs_status res) (code_msg (rs_status res) (case reason (rs_status res) of Some m \<Rightarrow> m | None \<Rightarrow> ''unknown error'')), w')
        else (res, w'))"


section \<open>Layers that let a request pass or answer it\<close>

text \<open>
  The contract of a layer that guards what is behind it: it has a verdict on the request; a rejected request
  is answered without running the next handler, an admitted one is handed on in a prepared form and
  the answer is that of the next handler.
\<close>

locale gate =
  fixes layer :: "(http_request \<Rightarrow> 'w \<Rightarrow> http_response \<times> 'w) \<Rightarrow> http_request \<Rightarrow> 'w \<Rightarrow> http_response \<times> 'w"
    and verdict :: "http_request \<Rightarrow> http_response option" and prep :: "http_request \<Rightarrow> http_request"
  assumes rejects: "verdict req = Some r \<Longrightarrow> layer next req w = (r, w)"
    and passes: "verdict req = None \<Longrightarrow> layer next req w = next (prep req) w"
begin

lemma layer_eq: "layer next req w = (case verdict req of Some r \<Rightarrow> (r, w) | None \<Rightarrow> next (prep req) w)"
  by (auto simp: rejects passes split: option.splits)

lemma world_kept: "verdict req \<noteq> None \<Longrightarrow> snd (layer next req w) = w"
  by (auto simp: rejects)

end

text \<open>Two guarding layers, one inside the other, are one: the outer verdict comes first.\<close>

locale two_gates = outer: gate l1 v1 p1 + inner: gate l2 v2 p2
  for l1 l2 :: "(http_request \<Rightarrow> 'w \<Rightarrow> http_response \<times> 'w) \<Rightarrow> http_request \<Rightarrow> 'w \<Rightarrow> http_response \<times> 'w" and v1 p1 v2 p2

sublocale two_gates < both: gate "\<lambda>next. l1 (l2 next)" "\<lambda>req. case v1 req of Some r \<Rightarrow> Some r | None \<Rightarrow> v2 (p1 req)" "\<lambda>req. p2 (p1 req)"
  by unfold_locales (auto simp: outer.layer_eq inner.layer_eq split: option.splits)

definition limit_verdict :: "nat \<Rightarrow> http_request \<Rightarrow> http_response option" where
  "limit_verdict mx req =
     (if (case content_length req of Some len \<Rightarrow> mx < len | None \<Rightarrow> False) \<or> to_bytes mx (rq_body req) = None
      then Some too_large_response else None)"

definition jwt_verdict :: "(string \<Rightarrow> string \<Rightarrow> (string, claims) result) \<Rightarrow> string \<Rightarrow> http_request \<Rightarrow> http_response option" where
  "jwt_verdict decode secret req =
     (case header_str ''authorization'' req of
        None \<Rightarrow> Some (json_response 401 (code_msg 401 ''missing authorization''))
      | Some hdr \<Rightarrow>
          if is_ok (decode secret (case strip_prefix ''Bearer '' hdr of Some t \<Rightarrow> t | None \<Rightarrow> hdr)) then None
          else Some (json_response 401 (code_msg 401 ''unauthorized'')))"

text \<open>A body that was read is the body: reading it again gives the same.\<close>

lemma to_bytes_Some: "to_bytes mx b = Some x \<Longrightarrow> b = Bytes x"
  by (cases b) (auto split: if_splits)

lemma same_body: "to_bytes mx (rq_body req) = Some x \<Longrightarrow> req\<lparr>rq_body := Bytes x\<rparr> = req"
  by (simp add: to_bytes_Some [symmetric])

interpretation limit: gate "body_size_limit mx" "limit_verdict mx" "\<lambda>req. req" for mx
  by unfold_locales (auto simp: body_size_limit_def limit_verdict_def same_body split: if_splits option.splits)

interpretation jwt: gate "jwt_middleware decode secret" "jwt_verdict decode secret" "\<lambda>req. req" for decode secret
  by unfold_locales
    (auto simp: jwt_middleware_def jwt_verdict_def verify_token_def is_ok_def map_sum_def Let_def split: option.splits sum.splits if_splits)

interpretation rules: gate "validation_middleware rules" "rules_validate rules" "\<lambda>req. req" for rules
  by unfold_locales (auto simp: validation_middleware_def)

interpretation limited_jwt: two_gates "body_size_limit mx" "jwt_middleware decode secret" "limit_verdict mx" "\<lambda>req. req"
  "jwt_verdict decode secret" "\<lambda>req. req" for mx decode secret ..


section \<open>Properties\<close>


text \<open>
  A repeated request with the same idempotency key is not processed: within the time to live of the first
  response the handler does not run again, the answer has the status of the first response, and its
  body is the fixed one, whatever the first response said.
\<close>

theorem idempotent_replay:
  assumes "header_str hdr req = Some k" and "header_str hdr req2 = Some k" and "fst (idem_get t k st) = None"
    and "idempotency_middleware hdr t t' next req (st, w) = (res, st', w')"
    and "nat (s - t') < is_ttl st" and "100 \<le> rs_status res" and "rs_status res < 1000"
  shows "\<exists>st''. idempotency_middleware hdr s s' next2 req2 (st', v) = (json_response (rs_status res) cached_body, st'', v)"
proof -
  obtain st1 where g: "idem_get t k st = (None, st1)" using assms(3) by (cases "idem_get t k st") auto
  have n: "next req w = (res, w')" "st' = idem_insert t' k (rs_status res) st1"
    using assms(1,4) g by (auto simp: idempotency_middleware_def split: prod.splits)
  have "is_ttl st1 = is_ttl st" using g by (auto simp: idem_get_def cleanup_def Let_def)
  then have "fst (idem_get s k st') = Some (rs_status res)"
    using n(2) assms(5) by (simp add: idem_get_def idem_insert_def cleanup_def Let_def)
  then show ?thesis
    using assms(2,6,7) by (cases "idem_get s k st'") (simp add: idempotency_middleware_def status_or_ok_def)
qed

text \<open>
  A signed request can be replayed: whether it is accepted depends on the request and the clock only, so within the
  allowed drift the same request with the same nonce is accepted again.
\<close>

theorem signature_replay_accepted:
  assumes "header_str (sc_timestamp_header cfg) req = Some timestamp" and "\<not> drift_exceeded cfg now' timestamp"
    and "\<And>v. signature_middleware hash16 cfg now handler req v = handler req v"
    and "\<And>v. snd (handler req v) \<noteq> v"
  shows "signature_middleware hash16 cfg now' handler req w = handler req w"
proof -
  have neq: "(r, w) \<noteq> handler req w" for r using assms(4) [of w] by (cases "handler req w") auto
  show ?thesis using assms(1,2) assms(3) [of w] neq
    by (auto simp: signature_middleware_def split: option.splits if_splits)
qed

theorem idempotent_replay_witness:
  "\<exists>st' st''. idempotency_middleware ''Idempotency-Key'' 0 1 (\<lambda>_ n. (json_response 201 JNull, Suc n))
       \<lparr>rq_method = ''POST'', rq_path = ''/'', rq_uri = ''/'', rq_headers = [(''idempotency-key'', ''k'')], rq_body = Bytes [],
        rq_tenant = None, rq_canary = None\<rparr> (idempotency_store_new 10, 0) = (json_response 201 JNull, st', 1)
     \<and> idempotency_middleware ''Idempotency-Key'' 5 6 (\<lambda>_ n. (json_response 201 JNull, Suc n))
       \<lparr>rq_method = ''POST'', rq_path = ''/'', rq_uri = ''/'', rq_headers = [(''idempotency-key'', ''k'')], rq_body = Bytes [],
        rq_tenant = None, rq_canary = None\<rparr> (st', 1) = (json_response 201 cached_body, st'', 1)"
proof -
  let ?req = "\<lparr>rq_method = ''POST'', rq_path = ''/'', rq_uri = ''/'', rq_headers = [(''idempotency-key'', ''k'')], rq_body = Bytes [],
        rq_tenant = None, rq_canary = None\<rparr>"
  let ?next = "\<lambda>_ n. (json_response 201 JNull, Suc n)"
  have h: "header_str ''Idempotency-Key'' ?req = Some ''k''"
    by (simp add: header_str_def header_get_def same_name_def to_str_def to_ascii_lower_def char_of_def bit_0)
  have g: "fst (idem_get 0 ''k'' (idempotency_store_new 10)) = None"
    by (simp add: idem_get_def cleanup_def idempotency_store_new_def Let_def)
  obtain st' where st': "idempotency_middleware ''Idempotency-Key'' 0 1 ?next ?req (idempotency_store_new 10, 0) = (json_response 201 JNull, st', 1)"
    using h g by (cases "idem_get 0 ''k'' (idempotency_store_new 10)") (simp add: idempotency_middleware_def)
  from idempotent_replay [OF h h g st', of 5 6 ?next 1] st' show ?thesis
    by (auto simp: idempotency_store_new_def json_response_def)
qed

end
