(* ===== verification/Parallel.thy ===== *)
theory Parallel
  imports Errors Transition_Systems
begin

text \<open>
  The parallel and batch helpers: \<open>rszero/src/concurrent/mr.rs\<close> as a transition system over the spawned tasks,
  \<open>rszero/src/concurrent/fx.rs\<close> and \<open>rszero/src/store/batch.rs\<close> as functions.  What the mapper does to an
  item is the parameter \<open>m\<close>; \<open>None\<close> is a task that panics.
\<close>

section \<open>Map-reduce\<close>

datatype 'o map_result = MapOk 'o | Discard | MapErr string

datatype 'o task = Waiting | Running | Finished "'o map_result option"

text \<open>The tasks of the items in order, and the free permits of the semaphore.\<close>

record 'o mr_state =
  mr_tasks :: "'o task list"
  mr_free :: nat

datatype mr_event = StartTask nat | EndTask nat

definition mr_init :: "nat \<Rightarrow> 'i list \<Rightarrow> 'o mr_state" where
  "mr_init concurrency items = \<lparr>mr_tasks = map (\<lambda>_. Waiting) items, mr_free = concurrency\<rparr>"

text \<open>A task takes a permit before it maps its item and returns it when it ends, with a panic too.\<close>

fun mr_step :: "('i \<Rightarrow> 'o map_result option) \<Rightarrow> 'i list \<Rightarrow> mr_event \<Rightarrow> 'o mr_state \<Rightarrow> 'o mr_state option" where
  "mr_step m items (StartTask i) s =
     (if i < length (mr_tasks s) \<and> mr_tasks s ! i = Waiting \<and> 0 < mr_free s
      then Some (s\<lparr>mr_tasks := (mr_tasks s)[i := Running], mr_free := mr_free s - 1\<rparr>) else None)"
| "mr_step m items (EndTask i) s =
     (if i < length (mr_tasks s) \<and> mr_tasks s ! i = Running
      then Some (s\<lparr>mr_tasks := (mr_tasks s)[i := Finished (m (items ! i))], mr_free := mr_free s + 1\<rparr>) else None)"

text \<open>
  Awaiting the handles in order: the values of the tasks that succeeded, once all are finished.
\<close>

fun collect_handles :: "'o task list \<Rightarrow> 'o list option" where
  "collect_handles [] = Some []"
| "collect_handles (Finished (Some (MapOk v)) # ts) = map_option (Cons v) (collect_handles ts)"
| "collect_handles (Finished _ # ts) = collect_handles ts"
| "collect_handles _ = None"

definition mr_return :: "('o list \<Rightarrow> 'r) \<Rightarrow> 'o mr_state \<Rightarrow> 'r option" where
  "mr_return reducer s = map_option reducer (collect_handles (mr_tasks s))"

text \<open>
  The variant without a limit spawns a task per item and awaits the handles in the same way; \<open>None\<close> is a task that
  never ends, \<open>Some None\<close> one that panics.
\<close>

definition map_reduce :: "('i \<Rightarrow> 'o map_result option option) \<Rightarrow> ('o list \<Rightarrow> 'r) \<Rightarrow> 'i list \<Rightarrow> 'r option" where
  "map_reduce m reducer items =
     map_option reducer (collect_handles (map (\<lambda>i. case m i of None \<Rightarrow> Running | Some r \<Rightarrow> Finished r) items))"

text \<open>Awaiting spawned futures in order, dropping panics, or stopping at an error.\<close>

fun run_all :: "'t option option list \<Rightarrow> 't list option" where
  "run_all [] = Some []"
| "run_all (None # hs) = None"
| "run_all (Some None # hs) = run_all hs"
| "run_all (Some (Some v) # hs) = map_option (Cons v) (run_all hs)"

fun run_all_err_from :: "'t list \<Rightarrow> ('e, 't) result option option list \<Rightarrow> ('e, 't list) result outcome option" where
  "run_all_err_from results [] = Some (Done (Ok results))"
| "run_all_err_from results (None # hs) = None"
| "run_all_err_from results (Some None # hs) = Some Panic"
| "run_all_err_from results (Some (Some (Inr v)) # hs) = run_all_err_from (results @ [v]) hs"
| "run_all_err_from results (Some (Some (Inl e)) # hs) = Some (Done (Err e))"

definition run_all_err :: "('e, 't) result option option list \<Rightarrow> ('e, 't list) result outcome option" where
  "run_all_err hs = run_all_err_from [] hs"

text \<open>What is computed: the mapped values of the items that succeed, in the order of the items.\<close>

definition mapped_values :: "('i \<Rightarrow> 'o map_result option) \<Rightarrow> 'i list \<Rightarrow> 'o list" where
  "mapped_values m items = List.map_filter (\<lambda>i. case m i of Some (MapOk v) \<Rightarrow> Some v | _ \<Rightarrow> None) items"

abbreviation mr_trans :: "('i \<Rightarrow> 'o map_result option) \<Rightarrow> 'i list \<Rightarrow> 'o mr_state \<Rightarrow> mr_event \<Rightarrow> 'o mr_state \<Rightarrow> bool" where
  "mr_trans m items s e t \<equiv> mr_step m items e s = Some t"

definition is_running :: "'o task \<Rightarrow> bool" where
  "is_running t \<longleftrightarrow> (case t of Running \<Rightarrow> True | _ \<Rightarrow> False)"

definition running_count :: "'o mr_state \<Rightarrow> nat" where
  "running_count s = length (filter is_running (mr_tasks s))"

definition mr_ok :: "('i \<Rightarrow> 'o map_result option) \<Rightarrow> nat \<Rightarrow> 'i list \<Rightarrow> 'o mr_state \<Rightarrow> bool" where
  "mr_ok m c items s \<longleftrightarrow>
     length (mr_tasks s) = length items \<and> running_count s + mr_free s = c \<and>
     (\<forall>i < length items. \<forall>r. mr_tasks s ! i = Finished r \<longrightarrow> r = m (items ! i))"

fun task_work :: "'o task \<Rightarrow> nat" where
  "task_work Waiting = 2"
| "task_work Running = 1"
| "task_work (Finished _) = 0"

definition mr_work :: "'o mr_state \<Rightarrow> nat" where
  "mr_work s = sum_list (map task_work (mr_tasks s))"

lemma is_running_simps [simp]: "is_running Running" "\<not> is_running Waiting" "\<not> is_running (Finished r)"
  by (simp_all add: is_running_def)

lemma filter_update_count:
  "i < length xs \<Longrightarrow> length (filter P (xs[i := x])) + (if P (xs ! i) then 1 else 0) = length (filter P xs) + (if P x then 1 else 0)"
proof (induction xs arbitrary: i)
  case (Cons y xs)
  then show ?case by (cases i) auto
qed simp

lemma sum_list_update_nat:
  "i < length xs \<Longrightarrow> sum_list (map f (xs[i := x])) + f (xs ! i) = sum_list (map f xs) + (f x :: nat)"
proof (induction xs arbitrary: i)
  case (Cons y xs)
  then show ?case by (cases i) auto
qed simp

lemma mr_ok_init: "mr_ok m c items (mr_init c items)"
proof -
  have "filter is_running (map (\<lambda>_. Waiting) xs) = []" for xs :: "'b list" by (induction xs) simp_all
  then show ?thesis by (simp add: mr_ok_def mr_init_def running_count_def)
qed

lemma mr_ok_step: "mr_ok m c items s \<Longrightarrow> mr_step m items e s = Some t \<Longrightarrow> mr_ok m c items t"
proof (cases e)
  case (StartTask i)
  assume "mr_ok m c items s" "mr_step m items e s = Some t"
  with StartTask filter_update_count [of i "mr_tasks s" is_running Running] show ?thesis
    by (auto simp: mr_ok_def running_count_def nth_list_update split: if_splits)
next
  case (EndTask i)
  assume "mr_ok m c items s" "mr_step m items e s = Some t"
  with EndTask filter_update_count [of i "mr_tasks s" is_running "Finished (m (items ! i))"] show ?thesis
    by (auto simp: mr_ok_def running_count_def nth_list_update split: if_splits)
qed

lemma mr_work_step: "mr_step m items e s = Some t \<Longrightarrow> mr_work s = Suc (mr_work t)"
proof (cases e)
  case (StartTask i)
  assume "mr_step m items e s = Some t"
  with StartTask sum_list_update_nat [of i "mr_tasks s" task_work Running] show ?thesis
    by (auto simp: mr_work_def split: if_splits)
next
  case (EndTask i)
  assume "mr_step m items e s = Some t"
  with EndTask sum_list_update_nat [of i "mr_tasks s" task_work "Finished (m (items ! i))"] show ?thesis
    by (auto simp: mr_work_def split: if_splits)
qed

lemma mr_work_init: "mr_work (mr_init c items) = 2 * length items"
  by (simp add: mr_work_def mr_init_def comp_def sum_list_triv)

lemma mr_work_run: "run (mr_trans m items) s es t \<Longrightarrow> mr_work s = length es + mr_work t"
  by (induction es arbitrary: s) (auto dest: mr_work_step)

interpretation mr: inductive_invariant "\<lambda>s. s = mr_init c items" "mr_trans m items" "mr_ok m c items" for m c items
  by unfold_locales (auto simp: mr_ok_init intro: mr_ok_step)

lemma collect_handles_None: "collect_handles ts = None \<longleftrightarrow> (\<exists>t \<in> set ts. \<forall>r. t \<noteq> Finished r)"
  by (induction ts rule: collect_handles.induct) auto

lemma collect_finished:
  "length ts = length items \<Longrightarrow> \<forall>i < length items. ts ! i = Finished (m (items ! i)) \<Longrightarrow> collect_handles ts = Some (mapped_values m items)"
proof (induction items arbitrary: ts)
  case Nil
  then show ?case by (simp add: mapped_values_def map_filter_def)
next
  case (Cons x items)
  then obtain t us where ts: "ts = t # us" by (cases ts) auto
  have t: "t = Finished (m x)" using Cons.prems(2) ts by force
  have "collect_handles us = Some (mapped_values m items)"
    using Cons.prems ts by (intro Cons.IH) force+
  with ts t show ?case
    by (cases "m x" rule: option.exhaust; cases "the (m x)") (auto simp: mapped_values_def map_filter_simps)
qed

lemma mr_progress:
  assumes ok: "mr_ok m c items s" and c: "0 < c" and open_: "collect_handles (mr_tasks s) = None"
  shows "\<exists>e t. mr_trans m items s e t"
proof -
  obtain i where i: "i < length (mr_tasks s)" "\<forall>r. mr_tasks s ! i \<noteq> Finished r"
    using open_ by (auto simp: collect_handles_None in_set_conv_nth)
  show ?thesis
  proof (cases "mr_tasks s ! i")
    case Running
    with i show ?thesis by (intro exI [of _ "EndTask i"]) auto
  next
    case Waiting
    show ?thesis
    proof (cases "mr_free s = 0")
      case True
      with ok c have "filter is_running (mr_tasks s) \<noteq> []" by (auto simp: mr_ok_def running_count_def)
      then obtain j where "j < length (mr_tasks s)" "is_running (mr_tasks s ! j)"
        by (auto simp: filter_empty_conv in_set_conv_nth)
      then show ?thesis by (intro exI [of _ "EndTask j"]) (auto simp: is_running_def split: task.splits)
    next
      case False
      with Waiting i show ?thesis by (intro exI [of _ "StartTask i"]) auto
    qed
  qed (use i in auto)
qed

section \<open>Streams and batches\<close>

datatype 'a fx_stream = FxStream "'a list"

primrec fx_done :: "'a fx_stream \<Rightarrow> 'a list" where
  "fx_done (FxStream xs) = xs"

definition fx_from :: "'a list \<Rightarrow> 'a fx_stream" where
  "fx_from xs = FxStream xs"

definition fx_map :: "('a \<Rightarrow> 'b) \<Rightarrow> 'a fx_stream \<Rightarrow> 'b fx_stream" where
  "fx_map f s = FxStream (map f (fx_done s))"

definition fx_filter :: "('a \<Rightarrow> bool) \<Rightarrow> 'a fx_stream \<Rightarrow> 'a fx_stream" where
  "fx_filter p s = FxStream (filter p (fx_done s))"

definition fx_head :: "nat \<Rightarrow> 'a fx_stream \<Rightarrow> 'a fx_stream" where
  "fx_head n s = FxStream (take n (fx_done s))"

text \<open>The effect of \<open>walk\<close> on the world \<open>'w\<close>, item by item.\<close>

definition fx_walk :: "('a \<Rightarrow> 'w \<Rightarrow> 'w) \<Rightarrow> 'a fx_stream \<Rightarrow> 'w \<Rightarrow> 'a fx_stream \<times> 'w" where
  "fx_walk f s w = (s, fold f (fx_done s) w)"

definition fx_reduce :: "('a \<Rightarrow> 'u) \<Rightarrow> ('u \<Rightarrow> 'a \<Rightarrow> 'u) \<Rightarrow> 'a fx_stream \<Rightarrow> 'u option" where
  "fx_reduce into f s = (case fx_done s of [] \<Rightarrow> None | x # xs \<Rightarrow> Some (foldl f (into x) xs))"

record batch_result =
  br_succeeded :: nat
  br_failed :: nat

definition all_succeeded :: "batch_result \<Rightarrow> bool" where
  "all_succeeded r \<longleftrightarrow> br_failed r = 0"

fun execute_batch_from :: "nat \<Rightarrow> nat \<Rightarrow> ('w \<Rightarrow> unit rszero_result \<times> 'w) list \<Rightarrow> 'w \<Rightarrow> batch_result \<times> 'w" where
  "execute_batch_from ok bad [] w = (\<lparr>br_succeeded = ok, br_failed = bad\<rparr>, w)"
| "execute_batch_from ok bad (t # ts) w =
     (case t w of
        (Inr _, w') \<Rightarrow> execute_batch_from (ok + 1) bad ts w'
      | (Inl _, w') \<Rightarrow> execute_batch_from ok (bad + 1) ts w')"

definition execute_batch :: "('w \<Rightarrow> unit rszero_result \<times> 'w) list \<Rightarrow> 'w \<Rightarrow> batch_result \<times> 'w" where
  "execute_batch ts w = execute_batch_from 0 0 ts w"

definition chunk_push :: "nat \<Rightarrow> 'a list list \<Rightarrow> 'a \<Rightarrow> 'a list list" where
  "chunk_push n acc x =
     (let full = (case acc of [] \<Rightarrow> n \<le> n + 1 | _ \<Rightarrow> n \<le> length (last acc));
          acc' = (if full then acc @ [[]] else acc)
      in butlast acc' @ [last acc' @ [x]])"

definition chunk_vec :: "'a list \<Rightarrow> nat \<Rightarrow> 'a list list" where
  "chunk_vec items chunk_size = foldl (chunk_push (max chunk_size 1)) [] items"

text \<open>Chunks keep the items in order; all but the last are full, none is empty or too long.\<close>

definition chunks_ok :: "nat \<Rightarrow> 'a list list \<Rightarrow> bool" where
  "chunks_ok n cs \<longleftrightarrow> (\<forall>c \<in> set (butlast cs). length c = n) \<and> (cs \<noteq> [] \<longrightarrow> 0 < length (last cs) \<and> length (last cs) \<le> n)"

lemma chunk_push_ok:
  assumes "chunks_ok n acc" and "0 < n"
  shows "chunks_ok n (chunk_push n acc x) \<and> concat (chunk_push n acc x) = concat acc @ [x]"
proof (cases acc rule: rev_exhaust)
  case Nil
  with assms show ?thesis by (simp add: chunks_ok_def chunk_push_def)
next
  case (snoc cs c)
  then show ?thesis using assms by (cases cs) (auto simp: chunks_ok_def chunk_push_def butlast_append split: list.splits)
qed

theorem chunk_vec_spec: "chunks_ok (max n 1) (chunk_vec xs n) \<and> concat (chunk_vec xs n) = xs"
proof -
  have "chunks_ok k acc \<Longrightarrow> 0 < k \<Longrightarrow> chunks_ok k (foldl (chunk_push k) acc xs) \<and> concat (foldl (chunk_push k) acc xs) = concat acc @ xs"
    for k acc
    by (induction xs arbitrary: acc) (auto simp: chunk_push_ok)
  from this [of "max n 1" "[]"] show ?thesis by (simp add: chunk_vec_def chunks_ok_def)
qed

theorem execute_batch_counts:
  "br_succeeded (fst (execute_batch ts w)) + br_failed (fst (execute_batch ts w)) = length ts"
proof -
  have "br_succeeded (fst (execute_batch_from a b ts w)) + br_failed (fst (execute_batch_from a b ts w)) = a + b + length ts" for a b
    by (induction ts arbitrary: a b w) (auto split: prod.splits sum.splits)
  then show ?thesis by (simp add: execute_batch_def)
qed

lemma map_reduce_finished:
  "\<forall>i \<in> set items. m i = Some (f i) \<Longrightarrow> map_reduce m reducer items = Some (reducer (mapped_values f items))"
proof -
  assume "\<forall>i \<in> set items. m i = Some (f i)"
  then have "collect_handles (map (\<lambda>i. case m i of None \<Rightarrow> Running | Some r \<Rightarrow> Finished r) items) = Some (mapped_values f items)"
    by (induction items) (auto simp: mapped_values_def map_filter_simps split: option.splits map_result.splits)
  then show ?thesis by (simp add: map_reduce_def)
qed

text \<open>
  \<open>run_all_err\<close> looks at the futures in their order: what decides is the first that does not succeed, whenever the others end.
  An error behind a future that never ends is not returned.
\<close>

lemma run_all_err_from_prefix:
  "run_all_err_from rs (map (\<lambda>v. Some (Some (Inr v))) vs @ hs) = run_all_err_from (rs @ vs) hs"
  by (induction vs arbitrary: rs) simp_all

theorem run_all_err_in_order:
  "run_all_err (map (\<lambda>v. Some (Some (Inr v))) vs) = Some (Done (Ok vs))"
  "run_all_err (map (\<lambda>v. Some (Some (Inr v))) vs @ Some (Some (Inl e)) # hs) = Some (Done (Err e))"
  "run_all_err (map (\<lambda>v. Some (Some (Inr v))) vs @ Some None # hs) = Some Panic"
  "run_all_err (map (\<lambda>v. Some (Some (Inr v))) vs @ None # hs) = None"
  using run_all_err_from_prefix [of "[]" vs "[]"] by (simp_all add: run_all_err_def run_all_err_from_prefix)

section \<open>Properties\<close>

text \<open>
  C28. Map-reduce with a concurrency limit: whatever the schedule, never more tasks than the limit run at a time, the
  tasks take at most two steps each, and once all are finished the result is the reduction of the
  mapped values in the order of the items, as if computed one after the other.  With a positive limit the
  computation can always go on until then; with a limit of zero it never takes a step.
\<close>

theorem map_reduce_schedules:
  assumes "run (mr_trans m items) (mr_init c items) es s"
  shows "running_count s \<le> c \<and> length es \<le> 2 * length items
    \<and> (case mr_return reducer s of
         Some r \<Rightarrow> r = reducer (mapped_values m items)
       | None \<Rightarrow> if 0 < c then \<exists>e t. mr_trans m items s e t else es = [])"
proof -
  have ok: "mr_ok m c items s" by (rule mr.run_from_init [OF refl assms])
  have len: "length es \<le> 2 * length items" using mr_work_run [OF assms] by (simp add: mr_work_init)
  have run: "running_count s \<le> c" using ok by (simp add: mr_ok_def)
  have fin: "r = reducer (mapped_values m items)" if ret: "mr_return reducer s = Some r" for r
  proof -
    obtain vs where vs: "collect_handles (mr_tasks s) = Some vs" "r = reducer vs" using ret by (auto simp: mr_return_def)
    then have "\<forall>i < length items. \<exists>q. mr_tasks s ! i = Finished q"
      using ok collect_handles_None [of "mr_tasks s"] by (force simp: mr_ok_def)
    with ok have "\<forall>i < length items. mr_tasks s ! i = Finished (m (items ! i))" by (force simp: mr_ok_def)
    with ok vs collect_finished show ?thesis by (fastforce simp: mr_ok_def)
  qed
  have stuck: "es = []" if "c = 0"
  proof (cases es)
    case (Cons e es')
    with assms that show ?thesis by (cases e) (auto simp: mr_init_def split: if_splits)
  qed simp
  show ?thesis
    using len run fin mr_progress [OF ok] stuck by (auto simp: mr_return_def split: option.splits)
qed

theorem map_reduce_schedules_witness:
  "\<exists>s. run (mr_trans (\<lambda>n. if n = 0 then None else Some (MapOk (2 * n))) [3, 0, 5::nat]) (mr_init 2 [3, 0, 5::nat])
       [StartTask 2, StartTask 0, EndTask 2, StartTask 1, EndTask 1, EndTask 0] s
     \<and> mr_return sum_list s = Some 16"
proof -
  let ?m = "\<lambda>n::nat. if n = 0 then None else Some (MapOk (2 * n))" and ?es = "[StartTask 2, StartTask 0, EndTask 2, StartTask 1, EndTask 1, EndTask 0]"
  obtain s where s: "run (mr_trans ?m [3, 0, 5]) (mr_init 2 [3, 0, 5::nat]) ?es s" and f: "mr_return sum_list s \<noteq> None"
    by (simp add: mr_init_def mr_return_def)
  obtain r where r: "mr_return sum_list s = Some r" using f by blast
  then have "r = sum_list (mapped_values ?m [3, 0, 5])" using map_reduce_schedules [OF s, of sum_list] by simp
  with s r show ?thesis by (intro exI [of _ s] conjI) (simp_all add: mapped_values_def map_filter_def)
qed

end
