(* ===== verification/Migration.thy ===== *)
theory Migration
  imports Errors "HOL-Library.List_Lexorder" "HOL-Library.Char_ord"
begin

text \<open>
  Database migrations (\<open>rszero/src/store/migration.rs\<close>).  The database is the table of applied versions, if it
  exists, and the data \<open>'d\<close> that the migrations change; \<open>sql\<close> is what the database does with the text of a
  migration.  Every statement may fail: \<open>md_err\<close> gives the error of the \<open>n\<close>-th one.  The order in which the
  database sorts versions, \<open>order_by\<close>, and the file system are parameters.
\<close>

section \<open>The database and the files\<close>

record 'd migration_db =
  md_table :: "string list option"
  md_data :: 'd
  md_err :: "nat \<Rightarrow> string option"
  md_stmts :: nat

record file_system =
  fs_exists :: "string \<Rightarrow> bool"
  fs_read_dir :: "string \<Rightarrow> (string, string list) result"
  fs_read :: "string \<Rightarrow> (string, string) result"

type_synonym 'd sql_fn = "string \<Rightarrow> 'd \<Rightarrow> (string, 'd) result"

definition db_stmt :: "('d migration_db \<Rightarrow> (string, 'd migration_db) result) \<Rightarrow> 'd migration_db \<Rightarrow> (string, unit) result \<times> 'd migration_db" where
  "db_stmt f d =
     (let d' = d\<lparr>md_stmts := Suc (md_stmts d)\<rparr>
      in case md_err d (md_stmts d) of
           Some e \<Rightarrow> (Err e, d')
         | None \<Rightarrow> (case f d' of Inl e \<Rightarrow> (Err e, d') | Inr d'' \<Rightarrow> (Ok (), d'')))"

abbreviation db_error :: "string \<Rightarrow> rszero_error" where
  "db_error m \<equiv> Database m None"

definition ensure_migration_table :: "'d migration_db \<Rightarrow> unit rszero_result \<times> 'd migration_db" where
  "ensure_migration_table d =
     (case db_stmt (\<lambda>d. Ok (d\<lparr>md_table := Some (case md_table d of None \<Rightarrow> [] | Some vs \<Rightarrow> vs)\<rparr>)) d of
        (Inl e, d') \<Rightarrow> (Err (db_error (''failed to create migrations table: '' @ e)), d')
      | (Inr _, d') \<Rightarrow> (Ok (), d'))"

definition get_applied_migrations ::
  "(string list \<Rightarrow> string list) \<Rightarrow> 'd migration_db \<Rightarrow> string list rszero_result \<times> 'd migration_db" where
  "get_applied_migrations order_by d =
     (case db_stmt (\<lambda>d. case md_table d of None \<Rightarrow> Err ''relation schema_migrations does not exist'' | Some _ \<Rightarrow> Ok d) d of
        (Inl e, d') \<Rightarrow> (Err (db_error (''failed to query migrations: '' @ e)), d')
      | (Inr _, d') \<Rightarrow> (Ok (order_by (the (md_table d'))), d'))"

definition ends_with :: "string \<Rightarrow> string \<Rightarrow> bool" where
  "ends_with suf s \<longleftrightarrow> drop (length s - length suf) s = suf"

definition is_migration :: "string \<Rightarrow> bool" where
  "is_migration nm \<longleftrightarrow> ends_with ''.sql'' nm \<and> take 5 nm \<noteq> ''DOWN_''"

definition get_migration_files :: "file_system \<Rightarrow> string \<Rightarrow> string list rszero_result" where
  "get_migration_files F dir =
     (case fs_read_dir F dir of
        Inl e \<Rightarrow> Err (db_error (''failed to read migration dir: '' @ e))
      | Inr nms \<Rightarrow> Ok (sort (filter is_migration nms)))"

section \<open>The migrator\<close>

definition apply_migration :: "'d sql_fn \<Rightarrow> string \<Rightarrow> string \<Rightarrow> 'd migration_db \<Rightarrow> unit rszero_result \<times> 'd migration_db" where
  "apply_migration sql version txt d =
     (case db_stmt (\<lambda>d. map_sum id (\<lambda>x. d\<lparr>md_data := x\<rparr>) (sql txt (md_data d))) d of
        (Inl e, d') \<Rightarrow> (Err (db_error (''failed to apply migration '' @ version @ '': '' @ e)), d')
      | (Inr _, d') \<Rightarrow>
          (case db_stmt (\<lambda>d. case md_table d of
                   None \<Rightarrow> Err ''relation schema_migrations does not exist''
                 | Some vs \<Rightarrow> if version \<in> set vs then Err ''duplicate key value violates unique constraint''
                              else Ok (d\<lparr>md_table := Some (vs @ [version])\<rparr>)) d' of
             (Inl e, d'') \<Rightarrow> (Err (db_error (''failed to record migration: '' @ e)), d'')
           | (Inr _, d'') \<Rightarrow> (Ok (), d'')))"

fun apply_files ::
  "file_system \<Rightarrow> 'd sql_fn \<Rightarrow> string \<Rightarrow> string list \<Rightarrow> string list \<Rightarrow> 'd migration_db \<Rightarrow> unit rszero_result \<times> 'd migration_db" where
  "apply_files F sql dir applied [] d = (Ok (), d)"
| "apply_files F sql dir applied (nm # nms) d =
     (if nm \<in> set applied then apply_files F sql dir applied nms d
      else case fs_read F (dir @ ''/'' @ nm) of
             Inl e \<Rightarrow> (Err (db_error (''failed to read migration '' @ nm @ '': '' @ e)), d)
           | Inr txt \<Rightarrow>
               (case apply_migration sql nm txt d of
                  (Inl e, d') \<Rightarrow> (Err e, d')
                | (Inr _, d') \<Rightarrow> apply_files F sql dir applied nms d'))"

definition migrator_run ::
  "(string list \<Rightarrow> string list) \<Rightarrow> file_system \<Rightarrow> 'd sql_fn \<Rightarrow> string \<Rightarrow> 'd migration_db \<Rightarrow> unit rszero_result \<times> 'd migration_db" where
  "migrator_run order_by F sql dir d =
     (if \<not> fs_exists F dir then (Ok (), d)
      else case ensure_migration_table d of
             (Inl e, d1) \<Rightarrow> (Err e, d1)
           | (Inr _, d1) \<Rightarrow>
               (case get_applied_migrations order_by d1 of
                  (Inl e, d2) \<Rightarrow> (Err e, d2)
                | (Inr applied, d2) \<Rightarrow>
                    (case get_migration_files F dir of
                       Inl e \<Rightarrow> (Err e, d2)
                     | Inr files \<Rightarrow> apply_files F sql dir applied (sort files) d2)))"

definition migrator_rollback ::
  "(string list \<Rightarrow> string list) \<Rightarrow> file_system \<Rightarrow> 'd sql_fn \<Rightarrow> string \<Rightarrow> 'd migration_db \<Rightarrow> unit rszero_result \<times> 'd migration_db" where
  "migrator_rollback order_by F sql dir d =
     (case get_applied_migrations order_by d of
        (Inl e, d1) \<Rightarrow> (Err e, d1)
      | (Inr applied, d1) \<Rightarrow>
          if applied = [] then (Ok (), d1)
          else let lst = last applied; down_path = dir @ ''/DOWN_'' @ lst
               in if \<not> fs_exists F down_path then (Ok (), d1)
                  else case fs_read F down_path of
                         Inl e \<Rightarrow> (Err (db_error (''failed to read rollback file: '' @ e)), d1)
                       | Inr txt \<Rightarrow>
                           (case db_stmt (\<lambda>d. map_sum id (\<lambda>x. d\<lparr>md_data := x\<rparr>) (sql txt (md_data d))) d1 of
                              (Inl e, d2) \<Rightarrow> (Err (db_error (''rollback failed: '' @ e)), d2)
                            | (Inr _, d2) \<Rightarrow>
                                (case db_stmt (\<lambda>d. Ok (d\<lparr>md_table := map_option (filter (\<lambda>v. v \<noteq> lst)) (md_table d)\<rparr>)) d2 of
                                   (Inl e, d3) \<Rightarrow> (Err (db_error (''failed to remove migration record: '' @ e)), d3)
                                 | (Inr _, d3) \<Rightarrow> (Ok (), d3))))"

definition migrator_pending ::
  "(string list \<Rightarrow> string list) \<Rightarrow> file_system \<Rightarrow> string \<Rightarrow> 'd migration_db \<Rightarrow> string list rszero_result \<times> 'd migration_db" where
  "migrator_pending order_by F dir d =
     (if \<not> fs_exists F dir then (Ok [], d)
      else case get_applied_migrations order_by d of
             (Inl e, d1) \<Rightarrow> (Err e, d1)
           | (Inr applied, d1) \<Rightarrow>
               (case get_migration_files F dir of
                  Inl e \<Rightarrow> (Err e, d1)
                | Inr files \<Rightarrow> (Ok (filter (\<lambda>f. f \<notin> set applied) files), d1)))"

definition migrator_version :: "(string list \<Rightarrow> string list) \<Rightarrow> 'd migration_db \<Rightarrow> string option rszero_result \<times> 'd migration_db" where
  "migrator_version order_by d =
     (case get_applied_migrations order_by d of
        (Inl e, d1) \<Rightarrow> (Err e, d1)
      | (Inr applied, d1) \<Rightarrow> (Ok (if applied = [] then None else Some (last applied)), d1))"

section \<open>Lemmas\<close>

text \<open>The data after the texts of files, run in order.\<close>

fun run_texts :: "file_system \<Rightarrow> 'd sql_fn \<Rightarrow> string \<Rightarrow> string list \<Rightarrow> 'd \<Rightarrow> 'd option" where
  "run_texts F sql dir [] x = Some x"
| "run_texts F sql dir (nm # nms) x =
     (case fs_read F (dir @ ''/'' @ nm) of
        Inl _ \<Rightarrow> None
      | Inr txt \<Rightarrow> (case sql txt x of Inl _ \<Rightarrow> None | Inr y \<Rightarrow> run_texts F sql dir nms y))"

lemma db_stmt_okD: "db_stmt f d = (Inr u, d') \<Longrightarrow> f (d\<lparr>md_stmts := Suc (md_stmts d)\<rparr>) = Inr d'"
  by (auto simp: db_stmt_def Let_def split: option.splits sum.splits)

lemma db_stmt_errD: "db_stmt f d = (Inl e, d') \<Longrightarrow> d' = d\<lparr>md_stmts := Suc (md_stmts d)\<rparr>"
  by (auto simp: db_stmt_def Let_def split: option.splits sum.splits)

lemma apply_migration_okD:
  assumes "apply_migration sql v txt d = (Ok u, d')" and "md_table d = Some vs"
  shows "sql txt (md_data d) = Inr (md_data d') \<and> md_table d' = Some (vs @ [v])"
proof -
  obtain d1 where 1: "db_stmt (\<lambda>d. map_sum id (\<lambda>x. d\<lparr>md_data := x\<rparr>) (sql txt (md_data d))) d = (Inr (), d1)"
    using assms(1) by (auto simp: apply_migration_def split: prod.splits sum.splits)
  from db_stmt_okD [OF 1] obtain x where x: "sql txt (md_data d) = Inr x" "d1 = d\<lparr>md_stmts := Suc (md_stmts d), md_data := x\<rparr>"
    by (cases "sql txt (md_data d)") auto
  have "db_stmt (\<lambda>d. case md_table d of
           None \<Rightarrow> Err ''relation schema_migrations does not exist''
         | Some vs \<Rightarrow> if v \<in> set vs then Err ''duplicate key value violates unique constraint''
                      else Ok (d\<lparr>md_table := Some (vs @ [v])\<rparr>)) d1 = (Inr (), d')"
    using assms(1) 1 by (auto simp: apply_migration_def split: prod.splits sum.splits)
  from db_stmt_okD [OF this] x assms(2) show ?thesis by (auto split: if_splits)
qed

lemma apply_migration_errD:
  assumes "apply_migration sql v txt d = (Err e, d')"
  shows "md_table d' = md_table d"
proof -
  obtain r d1 where 1: "db_stmt (\<lambda>d. map_sum id (\<lambda>x. d\<lparr>md_data := x\<rparr>) (sql txt (md_data d))) d = (r, d1)" by fastforce
  show ?thesis
  proof (cases r)
    case (Inl a)
    with 1 assms db_stmt_errD [OF 1 [unfolded Inl]] show ?thesis by (auto simp: apply_migration_def)
  next
    case (Inr u)
    from db_stmt_okD [OF 1 [unfolded Inr]] have "md_table d1 = md_table d"
      by (cases "sql txt (md_data d)") auto
    with 1 Inr assms show ?thesis
      by (auto simp: apply_migration_def split: prod.splits sum.splits dest!: db_stmt_errD)
  qed
qed

lemma apply_files_prefix:
  "apply_files F sql dir applied nms d = (r, d') \<Longrightarrow> md_table d = Some vs \<Longrightarrow>
   \<exists>pre post. filter (\<lambda>f. f \<notin> set applied) nms = pre @ post \<and> md_table d' = Some (vs @ pre)
     \<and> (r = Ok () \<longrightarrow> post = [] \<and> run_texts F sql dir pre (md_data d) = Some (md_data d'))
     \<and> (r \<noteq> Ok () \<longrightarrow> post \<noteq> [])"
proof (induction nms arbitrary: d vs)
  case (Cons nm nms)
  show ?case
  proof (cases "nm \<in> set applied")
    case True
    with Cons show ?thesis by simp
  next
    case new: False
    show ?thesis
    proof (cases "fs_read F (dir @ ''/'' @ nm)")
      case (Inl e)
      with new Cons.prems show ?thesis
        by (intro exI [of _ "[]"] exI [of _ "nm # filter (\<lambda>f. f \<notin> set applied) nms"]) auto
    next
      case rd: (Inr st)
      obtain r1 d1 where 1: "apply_migration sql nm st d = (r1, d1)" by fastforce
      show ?thesis
      proof (cases r1)
        case (Inl e)
        with 1 new rd Cons.prems apply_migration_errD [OF 1 [unfolded Inl]] show ?thesis
          by (intro exI [of _ "[]"] exI [of _ "nm # filter (\<lambda>f. f \<notin> set applied) nms"]) auto
      next
        case (Inr u)
        with apply_migration_okD [OF _ Cons.prems(2)] 1
        have d1: "sql st (md_data d) = Inr (md_data d1)" "md_table d1 = Some (vs @ [nm])" by blast+
        have "apply_files F sql dir applied nms d1 = (r, d')" using Cons.prems(1) 1 new rd Inr by simp
        from Cons.IH [OF this d1(2)] obtain pre post where
          "filter (\<lambda>f. f \<notin> set applied) nms = pre @ post" "md_table d' = Some ((vs @ [nm]) @ pre)"
          "r = Ok () \<longrightarrow> post = [] \<and> run_texts F sql dir pre (md_data d1) = Some (md_data d')" "r \<noteq> Ok () \<longrightarrow> post \<noteq> []" by blast
        with new rd d1 show ?thesis by (intro exI [of _ "nm # pre"] exI [of _ post]) simp
      qed
    qed
  qed
qed simp


lemma apply_files_nothing: "set nms \<subseteq> set applied \<Longrightarrow> apply_files F sql dir applied nms d = (Ok (), d)"
  by (induction nms) auto

section \<open>Properties\<close>


text \<open>Two migrations of which the first is recorded.\<close>

definition demo_fs :: file_system where
  "demo_fs = \<lparr>fs_exists = (\<lambda>_. True), fs_read_dir = (\<lambda>_. Inr [''2.sql'', ''1.sql'', ''DOWN_1.sql'']), fs_read = (\<lambda>p. Inr p)\<rparr>"

definition demo_db :: "string list migration_db" where
  "demo_db = \<lparr>md_table = Some [''1.sql''], md_data = [], md_err = (\<lambda>_. None), md_stmts = 0\<rparr>"


end
