(* ===== verification/Trace_Context.thy ===== *)
theory Trace_Context
  imports Rust_Prelude
begin

text \<open>
  Trace context propagation (\<open>rszero/src/trace/propagation.rs\<close>) and the masking of sensitive data
  (\<open>rszero/src/utils/masking.rs\<close>).  Random bytes are arguments.
\<close>

section \<open>Hexadecimal numbers\<close>

definition hex_char :: "nat \<Rightarrow> char" where
  "hex_char d = (if d < 10 then char_of (48 + d) else char_of (87 + d))"

definition hex_value :: "char \<Rightarrow> nat option" where
  "hex_value c =
     (let n = of_char c :: nat
      in if 48 \<le> n \<and> n \<le> 57 then Some (n - 48)
         else if 97 \<le> n \<and> n \<le> 102 then Some (n - 87)
         else if 65 \<le> n \<and> n \<le> 70 then Some (n - 55) else None)"

text \<open>The format \<open>{:02x}\<close> of a byte.\<close>

definition hex2 :: "u8 \<Rightarrow> string" where
  "hex2 b = [hex_char (unat b div 16), hex_char (unat b mod 16)]"

fun parse_hex :: "nat \<Rightarrow> nat \<Rightarrow> string \<Rightarrow> nat option" where
  "parse_hex mx acc [] = Some acc"
| "parse_hex mx acc (c # cs) =
     (case hex_value c of
        None \<Rightarrow> None
      | Some d \<Rightarrow> if mx < 16 * acc + d then None else parse_hex mx (16 * acc + d) cs)"

text \<open>\<open>u8::from_str_radix(_, 16)\<close>: an optional plus sign, at least one digit, no overflow.\<close>

definition u8_from_hex :: "string \<Rightarrow> u8 option" where
  "u8_from_hex s =
     (let ds = (case s of [] \<Rightarrow> [] | c # cs \<Rightarrow> if c = CHR ''+'' then cs else s)
      in if ds = [] then None else map_option word_of_nat (parse_hex 255 0 ds))"

lemma hex_value_char: "d < 16 \<Longrightarrow> hex_value (hex_char d) = Some d"
  by (auto simp: hex_value_def hex_char_def Let_def)

lemma hex_char_plain: "d < 16 \<Longrightarrow> hex_char d \<noteq> CHR ''-'' \<and> hex_char d \<noteq> CHR ''+''"
  using hex_value_char [of d] by (auto simp: hex_value_def Let_def)

lemma unat_u8_less: "unat (b :: u8) < 256"
proof -
  have "unat b < 2 ^ LENGTH(8)" by (rule unsigned_less)
  then show ?thesis by simp
qed

lemma hex2_plain: "CHR ''-'' \<notin> set (hex2 b)"
proof -
  have "unat b div 16 < 16" using unat_u8_less [of b] by auto
  then show ?thesis
    using hex_char_plain [of "unat b div 16"] hex_char_plain [of "unat b mod 16"] by (auto simp: hex2_def)
qed

lemma u8_from_hex2: "u8_from_hex (hex2 b) = Some b"
proof -
  have q: "unat b div 16 < 16" and m: "unat b mod 16 < 16" using unat_u8_less [of b] by auto
  have "16 * (unat b div 16) + unat b mod 16 = unat b" by simp
  with q m unat_u8_less [of b] show ?thesis
    by (simp add: u8_from_hex_def hex2_def hex_value_char hex_char_plain Let_def)
qed

section \<open>Trace contexts\<close>

record trace_context =
  tc_trace_id :: string
  tc_parent_span_id :: string
  tc_flags :: u8

definition generate_hex :: "u8 list \<Rightarrow> string" where
  "generate_hex draws = concat (map hex2 draws)"

text \<open>A new context from sixteen and eight random bytes.\<close>

definition trace_context_new :: "u8 list \<Rightarrow> u8 list \<Rightarrow> trace_context" where
  "trace_context_new a b = \<lparr>tc_trace_id = generate_hex (take 16 a), tc_parent_span_id = generate_hex (take 8 b), tc_flags = 1\<rparr>"

definition trace_context_parse :: "string \<Rightarrow> trace_context option" where
  "trace_context_parse traceparent =
     (case split_on (CHR ''-'') traceparent of
        [version, tid, sid, fl] \<Rightarrow>
          if version \<noteq> ''00'' then None
          else (case u8_from_hex fl of
                  None \<Rightarrow> None
                | Some f \<Rightarrow>
                    if length tid \<noteq> 32 \<or> length sid \<noteq> 16 then None
                    else Some \<lparr>tc_trace_id = tid, tc_parent_span_id = sid, tc_flags = f\<rparr>)
      | _ \<Rightarrow> None)"

definition to_traceparent :: "trace_context \<Rightarrow> string" where
  "to_traceparent ctx = ''00-'' @ tc_trace_id ctx @ ''-'' @ tc_parent_span_id ctx @ ''-'' @ hex2 (tc_flags ctx)"

definition is_sampled :: "trace_context \<Rightarrow> bool" where
  "is_sampled ctx \<longleftrightarrow> and (tc_flags ctx) 1 \<noteq> 0"

definition inject_http :: "trace_context \<Rightarrow> (string \<Rightarrow> string option) \<Rightarrow> (string \<Rightarrow> string option)" where
  "inject_http ctx headers = headers(''traceparent'' \<mapsto> to_traceparent ctx)"

definition extract_http :: "(string \<Rightarrow> string option) \<Rightarrow> trace_context option" where
  "extract_http headers = Option.bind (headers ''traceparent'') trace_context_parse"

text \<open>The contexts the program makes: identifiers of the right length without a separator.\<close>

definition trace_ok :: "trace_context \<Rightarrow> bool" where
  "trace_ok ctx \<longleftrightarrow> length (tc_trace_id ctx) = 32 \<and> length (tc_parent_span_id ctx) = 16
     \<and> CHR ''-'' \<notin> set (tc_trace_id ctx) \<and> CHR ''-'' \<notin> set (tc_parent_span_id ctx)"

lemma split_on_parts: "p \<in> set (split_on d s) \<Longrightarrow> d \<notin> set p"
  by (induction s arbitrary: p) (auto split: if_splits list.splits)

lemma generate_hex_ok: "length (generate_hex ds) = 2 * length ds \<and> CHR ''-'' \<notin> set (generate_hex ds)"
proof (induction ds)
  case (Cons d ds)
  then show ?case using hex2_plain [of d] by (auto simp: generate_hex_def hex2_def)
qed (simp add: generate_hex_def)

lemma trace_ok_new: "16 \<le> length a \<Longrightarrow> 8 \<le> length b \<Longrightarrow> trace_ok (trace_context_new a b)"
  using generate_hex_ok [of "take 16 a"] generate_hex_ok [of "take 8 b"]
  by (simp add: trace_ok_def trace_context_new_def)

lemma trace_ok_parse: "trace_context_parse s = Some ctx \<Longrightarrow> trace_ok ctx"
proof -
  assume p: "trace_context_parse s = Some ctx"
  then obtain v tid sid fl where sp: "split_on (CHR ''-'') s = [v, tid, sid, fl]"
    and ctx: "tc_trace_id ctx = tid" "tc_parent_span_id ctx = sid" "length tid = 32" "length sid = 16"
    by (auto simp: trace_context_parse_def split: list.splits option.splits if_splits)
  with split_on_parts [of tid "CHR ''-''" s] split_on_parts [of sid "CHR ''-''" s] show ?thesis
    by (simp add: trace_ok_def)
qed

lemma parse_to_traceparent: "trace_ok ctx \<Longrightarrow> trace_context_parse (to_traceparent ctx) = Some ctx"
proof -
  assume ok: "trace_ok ctx"
  have "split_on (CHR ''-'') (to_traceparent ctx) = [''00'', tc_trace_id ctx, tc_parent_span_id ctx, hex2 (tc_flags ctx)]"
    using ok split_on_append [of "CHR ''-''" "''00''"] hex2_plain [of "tc_flags ctx"]
    by (simp add: to_traceparent_def split_on_append split_on_no_sep trace_ok_def)
  with ok show ?thesis by (simp add: trace_context_parse_def u8_from_hex2 trace_ok_def)
qed

section \<open>Masking\<close>

definition mask_phone :: "string \<Rightarrow> string" where
  "mask_phone p = (if length p < 7 then ''****'' else take 3 p @ ''****'' @ drop (length p - 4) p)"

fun find_char :: "char \<Rightarrow> string \<Rightarrow> nat option" where
  "find_char c [] = None"
| "find_char c (x # xs) = (if x = c then Some 0 else map_option Suc (find_char c xs))"

definition mask_email :: "string \<Rightarrow> string" where
  "mask_email e =
     (case find_char (CHR ''@'') e of
        None \<Rightarrow> ''***''
      | Some at_pos \<Rightarrow>
          let loc = take at_pos e; domain = drop at_pos e;
              masked = (if loc = [] then ''***'' else take (min (length loc) 2) loc @ ''***'')
          in masked @ domain)"

definition stars :: "nat \<Rightarrow> string" where
  "stars n = replicate n (CHR ''*'')"

definition mask_idcard :: "string \<Rightarrow> string" where
  "mask_idcard s =
     (if length s < 10 then ''****************''
      else take 6 s @ stars (length s - 6 - 4) @ drop (length s - 4) s)"

definition mask_name :: "string \<Rightarrow> string" where
  "mask_name s = (if length s \<le> 1 then ''*'' else hd s # stars (length s - 1))"

definition mask_bankcard :: "string \<Rightarrow> string" where
  "mask_bankcard s = (if length s < 4 then ''****'' else stars (length s - 4) @ drop (length s - 4) s)"

definition mask_generic :: "string \<Rightarrow> nat \<Rightarrow> nat \<Rightarrow> string" where
  "mask_generic s pre suf =
     (if length s \<le> pre + suf then stars (length s)
      else take pre s @ stars (length s - pre - suf) @ drop (length s - suf) s)"

text \<open>Every position between the kept prefix and suffix is hidden, and the length is kept.\<close>

theorem mask_generic_hides:
  "length (mask_generic s pre suf) = length s
   \<and> (\<forall>i < length s. mask_generic s pre suf ! i \<noteq> CHR ''*'' \<longrightarrow> (i < pre \<or> length s - suf \<le> i) \<and> mask_generic s pre suf ! i = s ! i)"
  by (auto simp: mask_generic_def stars_def nth_append not_le)

text \<open>A phone number of seven characters is shown completely, only with stars in between.\<close>

theorem mask_phone_short_shown: "length p = 7 \<Longrightarrow> filter (\<lambda>c. c \<noteq> CHR ''*'') (mask_phone p) = filter (\<lambda>c. c \<noteq> CHR ''*'') p"
proof -
  assume l: "length p = 7"
  have "filter (\<lambda>c. c \<noteq> CHR ''*'') (mask_phone p) = filter (\<lambda>c. c \<noteq> CHR ''*'') (take 3 p) @ filter (\<lambda>c. c \<noteq> CHR ''*'') (drop 3 p)"
    using l by (simp add: mask_phone_def)
  also have "\<dots> = filter (\<lambda>c. c \<noteq> CHR ''*'') p" by (simp flip: filter_append)
  finally show ?thesis .
qed

section \<open>Properties\<close>

text \<open>
  Trace contexts survive propagation: every context the program makes, a new one or one it has parsed from a
  header, is extracted again from the headers it was injected into, and no other header changes.
\<close>

theorem trace_roundtrip:
  assumes "(\<exists>a b. 16 \<le> length a \<and> 8 \<le> length b \<and> ctx = trace_context_new a b) \<or> (\<exists>s. trace_context_parse s = Some ctx)"
  shows "extract_http (inject_http ctx headers) = Some ctx \<and> (h \<noteq> ''traceparent'' \<longrightarrow> inject_http ctx headers h = headers h)"
proof -
  have "trace_ok ctx" using assms trace_ok_new trace_ok_parse by blast
  then show ?thesis by (simp add: extract_http_def inject_http_def parse_to_traceparent)
qed

theorem trace_roundtrip_witness:
  "extract_http (inject_http (trace_context_new (replicate 16 171) (replicate 8 7)) Map.empty) = Some (trace_context_new (replicate 16 171) (replicate 8 7))"
proof -
  have "\<exists>a b. 16 \<le> length a \<and> 8 \<le> length b \<and> trace_context_new (replicate 16 171) (replicate 8 7) = trace_context_new a b"
    by (intro exI [of _ "replicate 16 171"] exI [of _ "replicate 8 7"]) simp
  with trace_roundtrip [of "trace_context_new (replicate 16 171) (replicate 8 7)" Map.empty "[]"] show ?thesis by blast
qed

end
