(* ===== verification/Shedder.thy ===== *)
theory Shedder
  imports F64 Transition_Systems
begin

text \<open>
  The adaptive load shedder (\<open>rszero/src/shedder/mod.rs\<close>).  Its atomics are the fields of a record, each method
  is one step; \<open>roll\<close> is the draw \<open>fastrand::u64(0..10000)\<close>.
\<close>

record adaptive_shedder =
  sh_active :: bool
  sh_latency_threshold_ms :: u64
  sh_avg_latency_ms :: u64
  sh_sample_count :: u64
  sh_latency_sum :: u64
  sh_reject_probability :: u64

definition shedder_new :: "u64 \<Rightarrow> adaptive_shedder" where
  "shedder_new threshold = \<lparr>sh_active = False, sh_latency_threshold_ms = threshold, sh_avg_latency_ms = 0, sh_sample_count = 0,
     sh_latency_sum = 0, sh_reject_probability = 0\<rparr>"

text \<open>The rejection probability in hundredths of a percent for an average above the threshold, in binary64.\<close>

definition excess_probability :: "u64 \<Rightarrow> u64 \<Rightarrow> u64" where
  "excess_probability avg threshold =
     (let excess = f64_div (f64_of_nat (unat (avg - threshold))) (f64_of_nat (unat threshold))
      in f64_to_u64 (f64_min (f64_mul excess (Fin 100)) (Fin 95)) * 100)"

definition record_latency :: "u64 \<Rightarrow> adaptive_shedder \<Rightarrow> adaptive_shedder" where
  "record_latency latency_ms s =
     (let count = sh_sample_count s + 1;
          sum = sh_latency_sum s + latency_ms;
          avg = sum div count;
          s1 = s\<lparr>sh_sample_count := count, sh_latency_sum := sum, sh_avg_latency_ms := avg\<rparr>;
          threshold = sh_latency_threshold_ms s1;
          s2 = (if threshold < avg
                then s1\<lparr>sh_reject_probability := excess_probability avg threshold, sh_active := True\<rparr>
                else let s' = (if 0 < sh_reject_probability s1
                               then s1\<lparr>sh_reject_probability := saturating_sub (sh_reject_probability s1) 500\<rparr> else s1)
                     in if sh_reject_probability s' = 0 then s'\<lparr>sh_active := False\<rparr> else s')
      in if 1000 < count then s2\<lparr>sh_sample_count := 0, sh_latency_sum := 0\<rparr> else s2)"

definition should_reject :: "u64 \<Rightarrow> adaptive_shedder \<Rightarrow> bool" where
  "should_reject roll s =
     (if \<not> sh_active s then False
      else if sh_reject_probability s = 0 then False
      else roll < sh_reject_probability s)"

definition activate :: "adaptive_shedder \<Rightarrow> adaptive_shedder" where
  "activate s = s\<lparr>sh_active := True, sh_reject_probability := 5000\<rparr>"

definition deactivate :: "adaptive_shedder \<Rightarrow> adaptive_shedder" where
  "deactivate s = s\<lparr>sh_active := False, sh_reject_probability := 0\<rparr>"

definition shedder_is_active :: "adaptive_shedder \<Rightarrow> bool" where
  "shedder_is_active s = sh_active s"

section \<open>Every sequence of calls\<close>

datatype shedder_event = Record u64 | Activate | Deactivate

fun shedder_apply :: "shedder_event \<Rightarrow> adaptive_shedder \<Rightarrow> adaptive_shedder" where
  "shedder_apply (Record l) s = record_latency l s"
| "shedder_apply Activate s = activate s"
| "shedder_apply Deactivate s = deactivate s"

definition shedder_ok :: "adaptive_shedder \<Rightarrow> bool" where
  "shedder_ok s \<longleftrightarrow> unat (sh_reject_probability s) \<le> 9500 \<and> (sh_active s \<or> sh_reject_probability s = 0) \<and> unat (sh_sample_count s) \<le> 1000"

lemma excess_probability_le: "unat (excess_probability avg threshold) \<le> 9500"
proof -
  let ?p = "f64_to_u64 (f64_min (f64_mul (f64_div (f64_of_nat (unat (avg - threshold))) (f64_of_nat (unat threshold))) (Fin 100)) (Fin 95))"
  have p: "unat ?p \<le> 95" using f64_to_u64_min_le [of 95] by simp
  then have "unat (?p * 100) = unat ?p * 100" by (simp add: unat_word_ariths)
  with p show ?thesis by (simp add: excess_probability_def Let_def)
qed

lemma shedder_ok_record: "shedder_ok s \<Longrightarrow> shedder_ok (record_latency l s)"
proof -
  assume ok: "shedder_ok s"
  then have c: "unat (sh_sample_count s + 1) \<le> 1001" by (simp add: shedder_ok_def unat_inc_no_overflow)
  have "unat (saturating_sub (sh_reject_probability s) 500) \<le> 9500" using ok by (auto simp: shedder_ok_def intro: diff_le_self [THEN le_trans])
  with ok c excess_probability_le show ?thesis
    by (auto simp: shedder_ok_def record_latency_def Let_def word_less_nat_alt not_less)
qed

interpretation shed: inductive_invariant "\<lambda>s. s = shedder_new threshold" "\<lambda>s e t. t = shedder_apply e s" shedder_ok for threshold
proof unfold_locales
  fix s e t assume "shedder_ok s" "t = shedder_apply e s"
  then show "shedder_ok t" by (cases e) (auto simp: shedder_ok_record, auto simp: shedder_ok_def activate_def deactivate_def)
qed (simp add: shedder_ok_def shedder_new_def)

text \<open>
  Recovery: while the average stays at or below the threshold, each recording lowers the rejection
  probability by five percentage points.
\<close>

lemma record_below:
  assumes "(sh_latency_sum s + l) div (sh_sample_count s + 1) \<le> sh_latency_threshold_ms s"
  shows "sh_reject_probability (record_latency l s) = saturating_sub (sh_reject_probability s) 500"
  using leD [OF assms] by (simp add: record_latency_def Let_def saturating_sub_def word_gt_0)

section \<open>Properties\<close>

theorem shedder_reachable:
  assumes "run (\<lambda>s e t. t = shedder_apply e s) (shedder_new threshold) es s"
  shows "unat (sh_reject_probability s) \<le> 9500 \<and> (should_reject roll s \<longrightarrow> sh_active s \<and> unat roll < 9500)"
  using shed.run_from_init [OF refl assms] by (auto simp: shedder_ok_def should_reject_def word_less_nat_alt)

end
