(* ===== verification/Interceptors.thy ===== *)
theory Interceptors
  imports Errors
begin

text \<open>
  The interceptor chain of RPC calls (\<open>rszero/src/rpc/interceptor.rs\<close>).  An interceptor is the pair of its two
  hooks on a world \<open>'w\<close>; the wrapped call and the hooks are run in that world.  The built-in interceptors
  write log records into a world that also has the clock from which \<open>Instant::elapsed\<close> reads.
\<close>

record rpc_context =
  ctx_service :: string
  ctx_method :: string
  ctx_metadata :: "string \<rightharpoonup> string"
  ctx_start :: instant

definition rpc_context_new :: "instant \<Rightarrow> string \<Rightarrow> string \<Rightarrow> rpc_context" where
  "rpc_context_new now service mtd = \<lparr>ctx_service = service, ctx_method = mtd, ctx_metadata = Map.empty, ctx_start = now\<rparr>"

definition set_metadata :: "string \<Rightarrow> string \<Rightarrow> rpc_context \<Rightarrow> rpc_context" where
  "set_metadata k v ctx = ctx\<lparr>ctx_metadata := (ctx_metadata ctx)(k \<mapsto> v)\<rparr>"

definition ctx_elapsed :: "instant \<Rightarrow> rpc_context \<Rightarrow> duration" where
  "ctx_elapsed now ctx = nat (now - ctx_start ctx)"

record 'w interceptor =
  ic_before :: "rpc_context \<Rightarrow> 'w \<Rightarrow> unit rszero_result \<times> rpc_context \<times> 'w"
  ic_after :: "rpc_context \<Rightarrow> unit rszero_result \<Rightarrow> 'w \<Rightarrow> 'w"

type_synonym 'w interceptor_chain = "'w interceptor list"

definition chain_new :: "'w interceptor_chain" where
  "chain_new = []"

definition chain_with :: "'w interceptor \<Rightarrow> 'w interceptor_chain \<Rightarrow> 'w interceptor_chain" where
  "chain_with i is = is @ [i]"

fun run_before :: "'w interceptor_chain \<Rightarrow> rpc_context \<Rightarrow> 'w \<Rightarrow> rpc_context rszero_result \<times> 'w" where
  "run_before [] ctx w = (Ok ctx, w)"
| "run_before (i # is) ctx w =
     (case ic_before i ctx w of
        (Inl e, ctx', w') \<Rightarrow> (Err e, w')
      | (Inr _, ctx', w') \<Rightarrow> run_before is ctx' w')"

fun run_after :: "'w interceptor_chain \<Rightarrow> rpc_context \<Rightarrow> unit rszero_result \<Rightarrow> 'w \<Rightarrow> 'w" where
  "run_after [] ctx r w = w"
| "run_after (i # is) ctx r w = run_after is ctx r (ic_after i ctx r w)"

definition chain_execute ::
  "'w interceptor_chain \<Rightarrow> rpc_context \<Rightarrow> (rpc_context \<Rightarrow> 'w \<Rightarrow> 't rszero_result \<times> 'w) \<Rightarrow> 'w \<Rightarrow> 't rszero_result \<times> 'w" where
  "chain_execute is ctx f w =
     (case run_before is ctx w of
        (Inl e, w') \<Rightarrow> (Err e, w')
      | (Inr ctx', w') \<Rightarrow>
          (case f ctx' w' of
             (res, w'') \<Rightarrow> (res, run_after is ctx' (case res of Inr _ \<Rightarrow> Ok () | Inl e \<Rightarrow> Err (clone e)) w'')))"

section \<open>Built-in interceptors\<close>

datatype rpc_log =
    Call_Started string string
  | Call_Succeeded string string nat
  | Call_Failed string string nat string
  | Rpc_Metric string string string nat
  | Timeout_Exceeded string string nat nat

record log_world =
  lw_now :: instant
  lw_log :: "rpc_log list"

definition emit :: "rpc_log \<Rightarrow> 'z log_world_scheme \<Rightarrow> 'z log_world_scheme" where
  "emit l w = w\<lparr>lw_log := lw_log w @ [l]\<rparr>"

definition elapsed_ms :: "rpc_context \<Rightarrow> 'z log_world_scheme \<Rightarrow> nat" where
  "elapsed_ms ctx w = ctx_elapsed (lw_now w) ctx div 10 ^ 6"

definition logging_interceptor :: "'z log_world_scheme interceptor" where
  "logging_interceptor = \<lparr>
     ic_before = (\<lambda>ctx w. (Ok (), ctx, emit (Call_Started (ctx_service ctx) (ctx_method ctx)) w)),
     ic_after = (\<lambda>ctx r w. case r of
         Inr _ \<Rightarrow> emit (Call_Succeeded (ctx_service ctx) (ctx_method ctx) (elapsed_ms ctx w)) w
       | Inl e \<Rightarrow> emit (Call_Failed (ctx_service ctx) (ctx_method ctx) (elapsed_ms ctx w) (display e)) w)\<rparr>"

definition metrics_interceptor :: "'z log_world_scheme interceptor" where
  "metrics_interceptor = \<lparr>
     ic_before = (\<lambda>ctx w. (Ok (), ctx, w)),
     ic_after = (\<lambda>ctx r w. emit (Rpc_Metric (ctx_service ctx) (ctx_method ctx)
        (if is_ok r then ''success'' else ''error'') (elapsed_ms ctx w)) w)\<rparr>"

definition timeout_interceptor :: "duration \<Rightarrow> 'z log_world_scheme interceptor" where
  "timeout_interceptor limit = \<lparr>
     ic_before = (\<lambda>ctx w. (Ok (), ctx, w)),
     ic_after = (\<lambda>ctx r w. if limit < ctx_elapsed (lw_now w) ctx
        then emit (Timeout_Exceeded (ctx_service ctx) (ctx_method ctx) (limit div 10 ^ 6) (elapsed_ms ctx w)) w else w)\<rparr>"

definition retry_interceptor :: "u32 \<Rightarrow> 'w interceptor" where
  "retry_interceptor n = \<lparr>
     ic_before = (\<lambda>ctx w. (Ok (), set_metadata ''max_retries'' (show_nat (unat n)) ctx, w)),
     ic_after = (\<lambda>ctx r w. w)\<rparr>"

section \<open>The order of the hooks\<close>

text \<open>An interceptor observed: each run of one of its hooks is recorded in front of the world.\<close>

datatype hook = Before nat | Called | After nat

definition observed :: "nat \<Rightarrow> 'w interceptor \<Rightarrow> (hook list \<times> 'w) interceptor" where
  "observed n i = \<lparr>
     ic_before = (\<lambda>ctx (hs, w). case ic_before i ctx w of (r, ctx', w') \<Rightarrow> (r, ctx', hs @ [Before n], w')),
     ic_after = (\<lambda>ctx r (hs, w). (hs @ [After n], ic_after i ctx r w))\<rparr>"

fun observe_from :: "nat \<Rightarrow> 'w interceptor_chain \<Rightarrow> (hook list \<times> 'w) interceptor_chain" where
  "observe_from n [] = []"
| "observe_from n (i # is) = observed n i # observe_from (Suc n) is"

definition observed_call :: "(rpc_context \<Rightarrow> 'w \<Rightarrow> 't rszero_result \<times> 'w) \<Rightarrow> rpc_context \<Rightarrow> hook list \<times> 'w \<Rightarrow> 't rszero_result \<times> hook list \<times> 'w" where
  "observed_call f ctx = (\<lambda>(hs, w). case f ctx w of (r, w') \<Rightarrow> (r, hs @ [Called], w'))"

fun before_count :: "'w interceptor_chain \<Rightarrow> rpc_context \<Rightarrow> 'w \<Rightarrow> nat" where
  "before_count [] ctx w = 0"
| "before_count (i # is) ctx w =
     Suc (case ic_before i ctx w of (Inl e, ctx', w') \<Rightarrow> 0 | (Inr _, ctx', w') \<Rightarrow> before_count is ctx' w')"

lemma before_count_Ok: "run_before is ctx w = (Inr ctx', w') \<Longrightarrow> before_count is ctx w = length is"
  by (induction "is" ctx w rule: run_before.induct) (auto split: prod.splits sum.splits)

lemma before_count_Err: "run_before is ctx w = (Inl e, w') \<Longrightarrow> 0 < before_count is ctx w \<and> before_count is ctx w \<le> length is"
  by (induction "is" ctx w rule: run_before.induct) (auto split: prod.splits sum.splits)

lemma run_before_observed:
  "run_before (observe_from n is) ctx (hs, w) =
     (fst (run_before is ctx w), hs @ map Before [n ..< n + before_count is ctx w], snd (run_before is ctx w))"
  by (induction "is" ctx w arbitrary: n hs rule: run_before.induct)
    (auto simp: observed_def upt_conv_Cons split: prod.splits sum.splits)

lemma run_after_observed:
  "run_after (observe_from n is) ctx r (hs, w) = (hs @ map After [n ..< n + length is], run_after is ctx r w)"
  by (induction "is" ctx r w arbitrary: n hs rule: run_after.induct) (simp_all add: observed_def upt_conv_Cons del: upt_Suc)

section \<open>Built-in chains\<close>

definition built_in :: "'z log_world_scheme interceptor \<Rightarrow> bool" where
  "built_in i \<longleftrightarrow> i = logging_interceptor \<or> i = metrics_interceptor \<or> (\<exists>d. i = timeout_interceptor d) \<or> (\<exists>n. i = retry_interceptor n)"

lemma built_in_before:
  "built_in i \<Longrightarrow> \<exists>ctx' w'. ic_before i ctx w = (Ok (), ctx', w') \<and> ctx_start ctx' = ctx_start ctx \<and> lw_now w' = lw_now w"
  by (auto simp: built_in_def logging_interceptor_def metrics_interceptor_def timeout_interceptor_def retry_interceptor_def
      emit_def set_metadata_def)

lemma run_before_built_in:
  "\<forall>i \<in> set is. built_in i \<Longrightarrow>
     \<exists>ctx' w'. run_before is ctx w = (Ok ctx', w') \<and> ctx_start ctx' = ctx_start ctx \<and> lw_now w' = lw_now w"
proof (induction "is" arbitrary: ctx w)
  case (Cons i "is")
  obtain ctx1 w1 where "ic_before i ctx w = (Ok (), ctx1, w1)" "ctx_start ctx1 = ctx_start ctx" "lw_now w1 = lw_now w"
    using built_in_before [of i ctx w] Cons.prems by auto
  with Cons.IH [of ctx1 w1] Cons.prems show ?case by auto
qed simp

section \<open>Properties\<close>

text \<open>
  The hooks of a chain: the before hooks run in the order of registration up to the first that fails; if one
  fails its error is the result, the call is not made and no after hook runs.  Otherwise the call is made once,
  with the context as the hooks left it, and then every after hook runs once, again in the order of
  registration; the result is that of the call.
\<close>

theorem chain_hook_order:
  "\<exists>hs. chain_execute (observe_from 0 is) ctx (observed_call f) ([], w) = (fst (chain_execute is ctx f w), hs, snd (chain_execute is ctx f w))
     \<and> (case run_before is ctx w of
          (Inl e, w') \<Rightarrow> chain_execute is ctx f w = (Err e, w') \<and> (\<exists>k. 0 < k \<and> k \<le> length is \<and> hs = map Before [0 ..< k])
        | (Inr ctx', w') \<Rightarrow> fst (chain_execute is ctx f w) = fst (f ctx' w')
            \<and> hs = map Before [0 ..< length is] @ Called # map After [0 ..< length is])"
proof (cases "run_before is ctx w")
  case (Pair r w')
  show ?thesis
  proof (cases r)
    case (Inl e)
    with Pair have "run_before is ctx w = (Inl e, w')" by simp
    with before_count_Err [OF this] show ?thesis by (auto simp: chain_execute_def run_before_observed)
  next
    case (Inr ctx')
    with Pair have "run_before is ctx w = (Inr ctx', w')" by simp
    with before_count_Ok [OF this] show ?thesis
      by (auto simp: chain_execute_def run_before_observed run_after_observed observed_call_def split: prod.split)
  qed
qed

text \<open>
  The built-in interceptors never change the outcome: through any chain of them the call is made once and its
  result returned, however long it took.  In particular the timeout interceptor enforces no limit.
\<close>

theorem built_in_chain_transparent:
  assumes "\<forall>i \<in> set is. built_in i"
  shows "\<exists>ctx' w'. lw_now w' = lw_now w \<and> ctx_start ctx' = ctx_start ctx \<and> fst (chain_execute is ctx f w) = fst (f ctx' w')"
proof -
  obtain ctx' w' where "run_before is ctx w = (Ok ctx', w')" "ctx_start ctx' = ctx_start ctx" "lw_now w' = lw_now w"
    using run_before_built_in [OF assms] by blast
  then show ?thesis by (auto simp: chain_execute_def split: prod.split intro!: exI [of _ ctx'] exI [of _ w'])
qed

end
