(* ===== verification/Config.thy ===== *)
theory Config
  imports Rpc_Client Message_Queue Transition_Systems
begin

text \<open>
  Configuration (\<open>rszero/src/config/mod.rs\<close>, \<open>types.rs\<close> and \<open>watcher.rs\<close>): the configuration records and
  their defaults, validation, loading, and the watcher that reloads a file when it changes.  The figment
  extraction and the reading of \<open>.env\<close> files are parameters.
\<close>

section \<open>Types and defaults\<close>

record log_config =
  lg_level :: string
  lg_format :: string
  lg_output :: string

record redis_config =
  rd_host :: string
  rd_port :: u16
  rd_db :: u8
  rd_password :: "string option"
  rd_pool_size :: nat

record store_config =
  so_dsn :: string
  so_max_connections :: u32
  so_min_connections :: u32

record discovery_config =
  dc_kind :: string
  dc_endpoints :: "string list"

record rszero_config =
  rz_name :: string
  rz_host :: string
  rz_port :: u16
  rz_log :: log_config
  rz_cache :: redis_config
  rz_store :: store_config
  rz_rpc :: rpc_config
  rz_queue :: queue_config
  rz_discovery :: discovery_config

definition log_config_default :: log_config where
  "log_config_default = \<lparr>lg_level = ''info'', lg_format = ''json'', lg_output = ''stdout''\<rparr>"

definition redis_config_default :: redis_config where
  "redis_config_default = \<lparr>rd_host = ''127.0.0.1'', rd_port = 6379, rd_db = 0, rd_password = None, rd_pool_size = 10\<rparr>"

definition store_config_default :: store_config where
  "store_config_default = \<lparr>so_dsn = [], so_max_connections = 10, so_min_connections = 2\<rparr>"

definition rpc_config_default :: rpc_config where
  "rpc_config_default = \<lparr>rc_name = [], rc_listen_on = ''0.0.0.0:8081'', rc_etcd = None\<rparr>"

definition queue_config_default :: queue_config where
  "queue_config_default = \<lparr>kind = ''redis'', url = [], group = None\<rparr>"

definition discovery_config_default :: discovery_config where
  "discovery_config_default = \<lparr>dc_kind = ''etcd'', dc_endpoints = []\<rparr>"

definition rszero_config_default :: rszero_config where
  "rszero_config_default = \<lparr>rz_name = ''rszero-service'', rz_host = ''0.0.0.0'', rz_port = 8080, rz_log = log_config_default,
     rz_cache = redis_config_default, rz_store = store_config_default, rz_rpc = rpc_config_default,
     rz_queue = queue_config_default, rz_discovery = discovery_config_default\<rparr>"

section \<open>Loading and validation\<close>

text \<open>
  \<open>extract path env\<close> is figment's reading of the YAML file at the path merged with the \<open>RSZERO_\<close> variables of the
  environment; \<open>from_filename f env\<close> is the environment after dotenvy has read the file, unchanged if it cannot.
\<close>

definition load_config ::
  "(string \<Rightarrow> 'e \<Rightarrow> (string, rszero_config) result) \<Rightarrow> (string \<Rightarrow> 'e \<Rightarrow> 'e) \<Rightarrow> string \<Rightarrow> 'e \<Rightarrow> rszero_config rszero_result \<times> 'e" where
  "load_config extract from_filename path env =
     (let env' = from_filename ''.env'' env
      in (map_sum (\<lambda>e. Errors.Config e None) id (extract path env'), env'))"

definition load_config_with_env ::
  "(string \<Rightarrow> 'e \<Rightarrow> (string, rszero_config) result) \<Rightarrow> (string \<Rightarrow> 'e \<Rightarrow> 'e) \<Rightarrow> string \<Rightarrow> string \<Rightarrow> 'e \<Rightarrow> rszero_config rszero_result \<times> 'e" where
  "load_config_with_env extract from_filename path profile env =
     (let env' = from_filename ''.env'' (from_filename (''.env.'' @ profile) env)
      in (map_sum (\<lambda>e. Errors.Config e None) id (extract path env'), env'))"

definition config_validate :: "rszero_config \<Rightarrow> unit rszero_result" where
  "config_validate c =
     (if rz_name c = [] then Err (Errors.Config ''service name is required'' None)
      else if rz_port c = 0 then Err (Errors.Config ''port must be non-zero'' None)
      else if so_dsn (rz_store c) \<noteq> [] \<and> so_max_connections (rz_store c) = 0
      then Err (Errors.Config ''store max_connections must be > 0'' None)
      else if so_dsn (rz_store c) \<noteq> [] \<and> so_max_connections (rz_store c) < so_min_connections (rz_store c)
      then Err (Errors.Config ''store min_connections cannot exceed max_connections'' None)
      else if kind (rz_queue c) \<in> {''redis'', ''redis-streams'', ''rabbitmq''} \<and> url (rz_queue c) = []
      then Err (Errors.Config (''queue url is required for '' @ [CHR 0x27] @ kind (rz_queue c) @ [CHR 0x27] @ '' backend'') None)
      else if dc_kind (rz_discovery c) = ''etcd'' \<and> dc_endpoints (rz_discovery c) = []
      then Err (Errors.Config ''discovery endpoints are required for etcd'' None)
      else Ok ())"

section \<open>The watcher\<close>

text \<open>
  The watcher of one file.  \<open>wt_signal\<close> is the channel of capacity one between the file-system callback and the
  task, \<open>wt_armed\<close> the time at which the current round of the task's loop began, and \<open>wt_calls\<close> the calls of the
  registered callbacks so far, each with the configuration it got.
\<close>

record 'cb watcher =
  wt_config :: rszero_config
  wt_callbacks :: "'cb list"
  wt_signal :: bool
  wt_pending :: bool
  wt_armed :: instant
  wt_calls :: "('cb \<times> rszero_config) list"

datatype fs_event_kind = Modify | Create | OtherEvent

datatype ('cb, 'e) watcher_event =
    FsEvent fs_event_kind
  | Received instant
  | Reload instant 'e
  | OnChange 'cb

text \<open>\<open>canon\<close> is the canonical form of a path, or the path itself if it has none.\<close>

definition watcher_start ::
  "(string \<Rightarrow> 'e \<Rightarrow> (string, rszero_config) result) \<Rightarrow> (string \<Rightarrow> 'e \<Rightarrow> 'e) \<Rightarrow> (string \<Rightarrow> string) \<Rightarrow> string \<Rightarrow> instant \<Rightarrow> 'e \<Rightarrow> 'cb watcher rszero_result \<times> 'e" where
  "watcher_start extract from_filename canon path now env =
     (case load_config extract from_filename (canon path) env of
        (Inl e, env') \<Rightarrow> (Err e, env')
      | (Inr c, env') \<Rightarrow> (Ok \<lparr>wt_config = c, wt_callbacks = [], wt_signal = False, wt_pending = False, wt_armed = now, wt_calls = []\<rparr>, env'))"

definition debounce :: duration where
  "debounce = from_millis 300"

text \<open>
  The steps: an event of the file system, the task taking the signal, the task's timer when it is enabled and has
  run since the round began, and the registration of a callback.  \<open>Reload now env\<close> carries the world that
  \<open>load_config\<close> reads.
\<close>

fun watcher_step ::
  "(string \<Rightarrow> 'e \<Rightarrow> (string, rszero_config) result) \<Rightarrow> (string \<Rightarrow> 'e \<Rightarrow> 'e) \<Rightarrow> string \<Rightarrow> 'cb watcher \<Rightarrow> ('cb, 'e) watcher_event \<Rightarrow> 'cb watcher option" where
  "watcher_step extract from_filename path s (FsEvent k) =
     Some (if k = Modify \<or> k = Create then s\<lparr>wt_signal := True\<rparr> else s)"
| "watcher_step extract from_filename path s (Received now) =
     (if wt_signal s \<and> wt_armed s \<le> now then Some (s\<lparr>wt_signal := False, wt_pending := True, wt_armed := now\<rparr>) else None)"
| "watcher_step extract from_filename path s (Reload now env) =
     (if wt_pending s \<and> wt_armed s + int debounce \<le> now then
        Some (case fst (load_config extract from_filename path env) of
          Inr c \<Rightarrow> s\<lparr>wt_pending := False, wt_armed := now, wt_config := c,
                     wt_calls := wt_calls s @ map (\<lambda>cb. (cb, c)) (wt_callbacks s)\<rparr>
        | Inl _ \<Rightarrow> s\<lparr>wt_pending := False, wt_armed := now\<rparr>)
      else None)"
| "watcher_step extract from_filename path s (OnChange cb) = Some (s\<lparr>wt_callbacks := wt_callbacks s @ [cb]\<rparr>)"

definition watcher_get :: "'cb watcher \<Rightarrow> rszero_config" where
  "watcher_get s = wt_config s"

text \<open>The watcher of several files.\<close>

type_synonym 'cb multi_watcher = "string \<rightharpoonup> 'cb watcher"

definition multi_new :: "'cb multi_watcher" where
  "multi_new = Map.empty"

definition multi_watch ::
  "(string \<Rightarrow> 'e \<Rightarrow> (string, rszero_config) result) \<Rightarrow> (string \<Rightarrow> 'e \<Rightarrow> 'e) \<Rightarrow> (string \<Rightarrow> string) \<Rightarrow> string \<Rightarrow> instant \<Rightarrow> 'cb multi_watcher \<Rightarrow> 'e
   \<Rightarrow> rszero_config rszero_result \<times> 'cb multi_watcher \<times> 'e" where
  "multi_watch extract from_filename canon path now ws env =
     (case watcher_start extract from_filename canon path now env of
        (Inl e, env') \<Rightarrow> (Err e, ws, env')
      | (Inr w, env') \<Rightarrow> (Ok (wt_config w), ws(path \<mapsto> w), env'))"

definition multi_get :: "string \<Rightarrow> 'cb multi_watcher \<Rightarrow> rszero_config option" where
  "multi_get path ws = map_option watcher_get (ws path)"


section \<open>Runs of the watcher\<close>

definition watcher_trans ::
  "(string \<Rightarrow> 'e \<Rightarrow> (string, rszero_config) result) \<Rightarrow> (string \<Rightarrow> 'e \<Rightarrow> 'e) \<Rightarrow> string \<Rightarrow> 'cb watcher \<Rightarrow> ('cb, 'e) watcher_event \<Rightarrow> 'cb watcher \<Rightarrow> bool" where
  "watcher_trans extract from_filename path s e t \<longleftrightarrow> watcher_step extract from_filename path s e = Some t"

text \<open>What the reloads of a run have loaded, and which callbacks they have called with it.\<close>

fun loads :: "('e \<Rightarrow> (rszero_error, rszero_config) result) \<Rightarrow> ('cb, 'e) watcher_event list \<Rightarrow> rszero_config list" where
  "loads load [] = []"
| "loads load (Reload t env # es) = (case load env of Inr c \<Rightarrow> [c] | Inl _ \<Rightarrow> []) @ loads load es"
| "loads load (_ # es) = loads load es"

fun calls_made :: "('e \<Rightarrow> (rszero_error, rszero_config) result) \<Rightarrow> 'cb list \<Rightarrow> ('cb, 'e) watcher_event list \<Rightarrow> ('cb \<times> rszero_config) list" where
  "calls_made load cbs [] = []"
| "calls_made load cbs (Reload t env # es) = (case load env of Inr c \<Rightarrow> map (\<lambda>cb. (cb, c)) cbs | Inl _ \<Rightarrow> []) @ calls_made load cbs es"
| "calls_made load cbs (OnChange cb # es) = calls_made load (cbs @ [cb]) es"
| "calls_made load cbs (_ # es) = calls_made load cbs es"

lemma last_append_loads: "last (c # xs @ ys) = last (last (c # xs) # ys)"
  by simp

lemma watcher_run_history:
  assumes "run (watcher_trans extract from_filename path) s es t"
  defines "load \<equiv> \<lambda>env. fst (load_config extract from_filename path env)"
  shows "wt_config t = last (wt_config s # loads load es) \<and> wt_calls t = wt_calls s @ calls_made load (wt_callbacks s) es"
  using assms(1)
proof (induction es arbitrary: s)
  case (Cons e es)
  then obtain u where "watcher_trans extract from_filename path s e u" and run: "run (watcher_trans extract from_filename path) u es t"
    by auto
  then have u: "watcher_step extract from_filename path s e = Some u" by (simp add: watcher_trans_def)
  note IH = Cons.IH [OF run]
  show ?case
  proof (cases e)
    case (Reload now env)
    then show ?thesis using u IH by (auto simp: load_def split: if_splits sum.splits)
  qed (use u IH in \<open>auto split: if_splits\<close>)
qed simp

fun is_reload :: "('cb, 'e) watcher_event \<Rightarrow> bool" where
  "is_reload (Reload _ _) = True"
| "is_reload _ = False"

lemma watcher_run_noticed:
  "run (watcher_trans extract from_filename path) s es t \<Longrightarrow> list_all (\<lambda>e. \<not> is_reload e) es \<Longrightarrow> wt_signal s \<or> wt_pending s
     \<Longrightarrow> wt_signal t \<or> wt_pending t"
proof (induction es arbitrary: s)
  case (Cons e es)
  then obtain u where "watcher_trans extract from_filename path s e u" and run: "run (watcher_trans extract from_filename path) u es t"
    by auto
  then have u: "watcher_step extract from_filename path s e = Some u" by (simp add: watcher_trans_def)
  have "wt_signal u \<or> wt_pending u" using u Cons.prems by (cases e) (auto split: if_splits)
  with Cons.IH [OF run] Cons.prems show ?case by simp
qed simp

section \<open>Properties\<close>

text \<open>
  Validation accepts a configuration exactly when it names the service and a port, its store, if it has one,
  allows at least one connection and no larger minimum, its queue has a URL if its kind needs one, and etcd
  discovery has endpoints.  With an accepted configuration \<open>Queue::new\<close> reports only errors of the backend
  it connects to.  The default configuration is not accepted: its queue kind needs a URL.
\<close>

theorem config_validate_spec:
  "(config_validate c = Ok () \<longleftrightarrow>
      rz_name c \<noteq> [] \<and> rz_port c \<noteq> 0
      \<and> (so_dsn (rz_store c) = [] \<or> 0 < so_max_connections (rz_store c) \<and> so_min_connections (rz_store c) \<le> so_max_connections (rz_store c))
      \<and> (kind (rz_queue c) \<in> {''redis'', ''redis-streams'', ''rabbitmq''} \<longrightarrow> url (rz_queue c) \<noteq> [])
      \<and> (dc_kind (rz_discovery c) = ''etcd'' \<longrightarrow> dc_endpoints (rz_discovery c) \<noteq> []))
   \<and> (config_validate c = Ok () \<and> queue_new rabbit redis streams (rz_queue c) = Err e \<longrightarrow>
        rabbit (url (rz_queue c)) = Err e \<or> redis (url (rz_queue c)) = Err e \<or> streams (url (rz_queue c)) (group (rz_queue c)) = Err e)
   \<and> config_validate rszero_config_default = Err (Errors.Config (''queue url is required for '' @ [CHR 0x27] @ ''redis'' @ [CHR 0x27] @ '' backend'') None)"
proof (intro conjI)
  show "config_validate c = Ok () \<longleftrightarrow>
      rz_name c \<noteq> [] \<and> rz_port c \<noteq> 0
      \<and> (so_dsn (rz_store c) = [] \<or> 0 < so_max_connections (rz_store c) \<and> so_min_connections (rz_store c) \<le> so_max_connections (rz_store c))
      \<and> (kind (rz_queue c) \<in> {''redis'', ''redis-streams'', ''rabbitmq''} \<longrightarrow> url (rz_queue c) \<noteq> [])
      \<and> (dc_kind (rz_discovery c) = ''etcd'' \<longrightarrow> dc_endpoints (rz_discovery c) \<noteq> [])"
    by (auto simp: config_validate_def word_gt_0 not_less)
  show "config_validate c = Ok () \<and> queue_new rabbit redis streams (rz_queue c) = Err e \<longrightarrow>
        rabbit (url (rz_queue c)) = Err e \<or> redis (url (rz_queue c)) = Err e \<or> streams (url (rz_queue c)) (group (rz_queue c)) = Err e"
    by (auto simp: config_validate_def queue_new_def split: if_splits)
qed (simp add: config_validate_def rszero_config_default_def store_config_default_def queue_config_default_def)

theorem config_validate_spec_witness:
  "config_validate (rszero_config_default\<lparr>rz_queue := \<lparr>kind = ''memory'', url = [], group = None\<rparr>, rz_discovery := \<lparr>dc_kind = ''nacos'', dc_endpoints = []\<rparr>\<rparr>) = Ok ()"
  using config_validate_spec [of "rszero_config_default\<lparr>rz_queue := \<lparr>kind = ''memory'', url = [], group = None\<rparr>, rz_discovery := \<lparr>dc_kind = ''nacos'', dc_endpoints = []\<rparr>\<rparr>"
      "\<lambda>_. Ok ()" "\<lambda>_. Ok ()" "\<lambda>_ _. Ok ()"]
  by (simp add: rszero_config_default_def store_config_default_def)

text \<open>
  The watcher keeps the last configuration that loaded: in every run the current configuration is the one of the
  last reload that succeeded, or the initial one, and each successful reload has called the callbacks
  registered before it, in their order.  No change is lost: after a modification that no reload has followed, a
  reload can still happen, 300 milliseconds after the current round of the task began.
\<close>

theorem watcher_reloads:
  assumes start: "fst (watcher_start extract from_filename canon path t0 env0) = Ok s0"
    and run: "run (watcher_trans extract from_filename (canon path)) s0 es s"
  defines "load \<equiv> \<lambda>env. fst (load_config extract from_filename (canon path) env)"
  shows "load env0 = Ok (wt_config s0) \<and> watcher_get s = last (wt_config s0 # loads load es) \<and> wt_calls s = calls_made load [] es
    \<and> (es = front @ FsEvent Modify # rest \<and> list_all (\<lambda>e. \<not> is_reload e) rest \<and> wt_armed s + int debounce \<le> now \<and> load env = Ok c
        \<longrightarrow> (\<exists>fs t. run (watcher_trans extract from_filename (canon path)) s fs t \<and> loads load fs = [c] \<and> watcher_get t = c))"
proof (intro conjI impI)
  have s0: "load env0 = Ok (wt_config s0) \<and> wt_callbacks s0 = [] \<and> wt_calls s0 = []"
    using start by (auto simp: watcher_start_def load_def split: prod.splits sum.splits)
  then show "load env0 = Ok (wt_config s0)" by simp
  show "watcher_get s = last (wt_config s0 # loads load es)" "wt_calls s = calls_made load [] es"
    using watcher_run_history [OF run] s0 by (auto simp: watcher_get_def load_def)
  assume a: "es = front @ FsEvent Modify # rest \<and> list_all (\<lambda>e. \<not> is_reload e) rest \<and> wt_armed s + int debounce \<le> now \<and> load env = Ok c"
  then obtain v u where "watcher_trans extract from_filename (canon path) v (FsEvent Modify) u" and u1: "run (watcher_trans extract from_filename (canon path)) u rest s"
    using run by (auto simp: run_append)
  then have u: "run (watcher_trans extract from_filename (canon path)) u rest s" "wt_signal u" by (auto simp: watcher_trans_def)
  have "wt_signal s \<or> wt_pending s" using watcher_run_noticed [OF u(1)] a u(2) by blast
  then consider "wt_pending s" | "wt_signal s" by blast
  then show "\<exists>fs t. run (watcher_trans extract from_filename (canon path)) s fs t \<and> loads load fs = [c] \<and> watcher_get t = c"
  proof cases
    case 1
    with a show ?thesis
      by (intro exI [of _ "[Reload now env]"]) (simp add: watcher_trans_def load_def watcher_get_def)
  next
    case 2
    with a show ?thesis
      by (intro exI [of _ "[Received (wt_armed s), Reload now env]"]) (simp add: watcher_trans_def load_def watcher_get_def)
  qed
qed

definition demo_extract :: "string \<Rightarrow> u16 \<Rightarrow> (string, rszero_config) result" where
  "demo_extract path p = Ok (rszero_config_default\<lparr>rz_port := p\<rparr>)"

theorem watcher_reloads_witness:
  "\<exists>s0 s. fst (watcher_start demo_extract (\<lambda>_ p. p) id ''c.yaml'' 0 1) = Ok s0
     \<and> run (watcher_trans demo_extract (\<lambda>_ p. p) ''c.yaml'') s0 [OnChange (), FsEvent Modify, Received 5, Reload 300000005 2] s
     \<and> rz_port (watcher_get s) = 2 \<and> map (rz_port \<circ> snd) (wt_calls s) = [2]"
proof -
  have ld: "fst (load_config demo_extract (\<lambda>_ p. p) ''c.yaml'' p) = Ok (rszero_config_default\<lparr>rz_port := p\<rparr>)" for p
    by (simp add: load_config_def demo_extract_def)
  obtain s0 :: "unit watcher" where s0: "fst (watcher_start demo_extract (\<lambda>_ p. p) id ''c.yaml'' 0 1) = Ok s0"
    "wt_armed s0 = 0" "\<not> wt_signal s0"
    by (simp add: watcher_start_def load_config_def demo_extract_def)
  obtain s where s: "run (watcher_trans demo_extract (\<lambda>_ p. p) ''c.yaml'') s0 [OnChange (), FsEvent Modify, Received 5, Reload 300000005 2] s"
    using s0(2) by (simp add: watcher_trans_def ld debounce_def from_millis_def)
  have "rz_port (watcher_get s) = 2" "map (rz_port \<circ> snd) (wt_calls s) = [2]"
    using watcher_reloads [OF s0(1), unfolded id_apply, OF s, of "[]" "[]" 0 2 rszero_config_default] by (simp_all add: ld)
  with s0(1) s show ?thesis by (intro exI [of _ s0] exI [of _ s] conjI)
qed

end
