(* ===== verification/Store.thy ===== *)
theory Store
  imports Config Sharding
begin

text \<open>
  The database store (\<open>rszero/src/store/mod.rs\<close>) and the store with a read replica (\<open>rszero/src/store/replica.rs\<close>).  The
  sea-orm client is a parameter: the calls the code makes, on a world \<open>'w\<close>, with errors as their text.
  Logging is left out, except for the masking of the DSN that is logged.
\<close>

section \<open>The client\<close>

record connect_options =
  co_url :: string
  co_max_connections :: u32
  co_min_connections :: u32
  co_acquire_timeout :: duration
  co_connect_timeout :: duration
  co_idle_timeout :: duration
  co_max_lifetime :: duration
  co_sqlx_logging :: bool

text \<open>What \<open>Database::connect\<close> is given: options, or a DSN alone.\<close>

datatype connect_target = Options connect_options | Dsn string

record ('c, 't, 'w) db_client =
  db_connect :: "connect_target \<Rightarrow> 'w \<Rightarrow> (string, 'c) result \<times> 'w"
  db_ping :: "'c \<Rightarrow> 'w \<Rightarrow> (string, unit) result \<times> 'w"
  db_close :: "'c \<Rightarrow> 'w \<Rightarrow> (string, unit) result \<times> 'w"
  db_begin :: "'c \<Rightarrow> 'w \<Rightarrow> (string, 't) result \<times> 'w"
  db_commit :: "'t \<Rightarrow> 'w \<Rightarrow> (string, unit) result \<times> 'w"
  db_rollback :: "'t \<Rightarrow> 'w \<Rightarrow> (string, unit) result \<times> 'w"
  db_execute :: "'c \<Rightarrow> string \<Rightarrow> string list option \<Rightarrow> 'w \<Rightarrow> (string, unit) result \<times> 'w"
  db_count :: "'c \<Rightarrow> string \<Rightarrow> 'w \<Rightarrow> (string, int option option) result \<times> 'w"

text \<open>The error of a client call as the code reports it.\<close>

definition db_error :: "string \<Rightarrow> (string, 'a) result \<times> 'w \<Rightarrow> 'a rszero_result \<times> 'w" where
  "db_error what = (\<lambda>(r, w). (map_sum (\<lambda>e. Database (what @ e) None) id r, w))"

lemma db_error_simps [simp]:
  "db_error what (Inl e, w) = (Err (Database (what @ e) None), w)"
  "db_error what (Inr x, w) = (Ok x, w)"
  by (simp_all add: db_error_def)

section \<open>Store\<close>

record 'c store =
  st_conn :: 'c
  st_config :: store_config

definition connect_with_config :: "('c, 't, 'w) db_client \<Rightarrow> store_config \<Rightarrow> 'w \<Rightarrow> 'c rszero_result \<times> 'w" where
  "connect_with_config D cfg w = db_error [] (db_connect D
     (Options \<lparr>co_url = so_dsn cfg, co_max_connections = so_max_connections cfg, co_min_connections = so_min_connections cfg,
        co_acquire_timeout = from_secs 30, co_connect_timeout = from_secs 10, co_idle_timeout = from_secs 600,
        co_max_lifetime = from_secs 1800, co_sqlx_logging = False\<rparr>) w)"

definition store_new :: "('c, 't, 'w) db_client \<Rightarrow> store_config \<Rightarrow> 'w \<Rightarrow> 'c store rszero_result \<times> 'w" where
  "store_new D cfg w =
     (if so_dsn cfg = [] then (Err (Database ''empty DSN'' None), w)
      else case connect_with_config D cfg w of
             (Inl e, w') \<Rightarrow> (Err e, w')
           | (Inr c, w') \<Rightarrow> (Ok \<lparr>st_conn = c, st_config = cfg\<rparr>, w'))"

definition store_close :: "('c, 't, 'w) db_client \<Rightarrow> 'c store \<Rightarrow> 'w \<Rightarrow> unit rszero_result \<times> 'w" where
  "store_close D s w = db_error [] (db_close D (st_conn s) w)"

definition store_ping :: "('c, 't, 'w) db_client \<Rightarrow> 'c store \<Rightarrow> 'w \<Rightarrow> unit rszero_result \<times> 'w" where
  "store_ping D s w = db_error [] (db_ping D (st_conn s) w)"

definition reconnect :: "('c, 't, 'w) db_client \<Rightarrow> 'c store \<Rightarrow> 'w \<Rightarrow> unit rszero_result \<times> 'c store \<times> 'w" where
  "reconnect D s w =
     (case connect_with_config D (st_config s) w of
        (Inr c, w') \<Rightarrow> (Ok (), s\<lparr>st_conn := c\<rparr>, w')
      | (Inl e, w') \<Rightarrow> (Err e, s, w'))"

text \<open>One tick of the background health check.\<close>

definition health_check_tick :: "('c, 't, 'w) db_client \<Rightarrow> 'c store \<Rightarrow> 'w \<Rightarrow> 'c store \<times> 'w" where
  "health_check_tick D s w =
     (case store_ping D s w of
        (Inr _, w') \<Rightarrow> (s, w')
      | (Inl _, w') \<Rightarrow> snd (reconnect D s w'))"

definition store_is_healthy :: "('c, 't, 'w) db_client \<Rightarrow> 'c store \<Rightarrow> 'w \<Rightarrow> bool \<times> 'w" where
  "store_is_healthy D s w = (case store_ping D s w of (r, w') \<Rightarrow> (is_ok r, w'))"

definition store_health_check :: "('c, 't, 'w) db_client \<Rightarrow> 'c store \<Rightarrow> 'w \<Rightarrow> store_health \<times> 'w" where
  "store_health_check D s w =
     (case store_ping D s w of
        (Inr _, w') \<Rightarrow> (Healthy, w')
      | (Inl e, w') \<Rightarrow> (Unhealthy (display e), w'))"

definition store_execute :: "('c, 't, 'w) db_client \<Rightarrow> string \<Rightarrow> string list \<Rightarrow> 'c store \<Rightarrow> 'w \<Rightarrow> unit rszero_result \<times> 'w" where
  "store_execute D sql params s w = db_error ''execute failed: '' (db_execute D (st_conn s) sql (Some params) w)"

definition store_execute_raw :: "('c, 't, 'w) db_client \<Rightarrow> string \<Rightarrow> 'c store \<Rightarrow> 'w \<Rightarrow> unit rszero_result \<times> 'w" where
  "store_execute_raw D sql s w = db_error ''execute failed: '' (db_execute D (st_conn s) sql None w)"

section \<open>Transactions\<close>

record 't transaction =
  tx_inner :: "'t option"

definition store_transaction :: "('c, 't, 'w) db_client \<Rightarrow> 'c store \<Rightarrow> 'w \<Rightarrow> 't transaction rszero_result \<times> 'w" where
  "store_transaction D s w =
     (case db_error ''begin transaction failed: '' (db_begin D (st_conn s) w) of
        (r, w') \<Rightarrow> (map_sum id (\<lambda>t. \<lparr>tx_inner = Some t\<rparr>) r, w'))"

text \<open>Committing and rolling back take the inner transaction out; the second component is what \<open>drop\<close> finds.\<close>

definition tx_finish :: "string \<Rightarrow> ('t \<Rightarrow> 'w \<Rightarrow> (string, unit) result \<times> 'w) \<Rightarrow> 't transaction \<Rightarrow> 'w \<Rightarrow> unit rszero_result \<times> 't transaction \<times> 'w" where
  "tx_finish what call x w =
     (case tx_inner x of
        Some t \<Rightarrow> (case db_error what (call t w) of (r, w') \<Rightarrow> (r, x\<lparr>tx_inner := None\<rparr>, w'))
      | None \<Rightarrow> (Ok (), x, w))"

definition commit :: "('c, 't, 'w) db_client \<Rightarrow> 't transaction \<Rightarrow> 'w \<Rightarrow> unit rszero_result \<times> 't transaction \<times> 'w" where
  "commit D = tx_finish ''commit failed: '' (db_commit D)"

definition rollback :: "('c, 't, 'w) db_client \<Rightarrow> 't transaction \<Rightarrow> 'w \<Rightarrow> unit rszero_result \<times> 't transaction \<times> 'w" where
  "rollback D = tx_finish ''rollback failed: '' (db_rollback D)"

section \<open>Pool statistics\<close>

record pool_stats =
  ps_size :: u32
  ps_available :: u32
  ps_acquired :: u32

definition store_stats :: "'c store \<Rightarrow> pool_stats" where
  "store_stats s = \<lparr>ps_size = so_max_connections (st_config s), ps_available = 0, ps_acquired = 0\<rparr>"

definition stats_query :: string where
  "stats_query = ''SELECT count(*) FROM pg_stat_activity WHERE datname = current_database()''"

text \<open>
  \<open>db_count\<close> is the first row of the query, if there is one, and its first column, if it is an integer.  The cast of the 64-bit count to
  32 bits keeps its low bits.
\<close>

definition stats_real :: "('c, 't, 'w) db_client \<Rightarrow> 'c store \<Rightarrow> 'w \<Rightarrow> pool_stats \<times> 'w" where
  "stats_real D s w =
     (case db_count D (st_conn s) stats_query w of
        (r, w') \<Rightarrow>
          (let active = (case r of Inr (Some (Some n)) \<Rightarrow> n | _ \<Rightarrow> 0) :: int;
               a = word_of_int active :: u32
           in (\<lparr>ps_size = so_max_connections (st_config s), ps_available = saturating_sub (so_max_connections (st_config s)) a, ps_acquired = a\<rparr>, w')))"

section \<open>Masking the DSN\<close>

fun find_str :: "string \<Rightarrow> string \<Rightarrow> nat option" where
  "find_str pat [] = (if pat = [] then Some 0 else None)"
| "find_str pat (c # cs) = (if take (length pat) (c # cs) = pat then Some 0 else map_option Suc (find_str pat cs))"

definition dsn_delimiter :: "char \<Rightarrow> bool" where
  "dsn_delimiter c \<longleftrightarrow> c \<in> set ''& @/''"

definition mask_dsn :: "string \<Rightarrow> string" where
  "mask_dsn dsn =
     (case find_str ''password='' (map to_ascii_lower dsn) of
        Some pos \<Rightarrow>
          let start = pos + length ''password='';
              rest = drop start dsn
          in take start dsn @ ''***'' @ dropWhile (\<lambda>c. \<not> dsn_delimiter c) rest
      | None \<Rightarrow> dsn)"

section \<open>Read replicas\<close>

record 'c replica_store =
  rp_primary :: 'c
  rp_replica :: "'c option"

definition replica_connect :: "('c, 't, 'w) db_client \<Rightarrow> string \<Rightarrow> 'w \<Rightarrow> 'c rszero_result \<times> 'w" where
  "replica_connect D dsn w = db_error [] (db_connect D (Dsn dsn) w)"

definition replica_store_new :: "('c, 't, 'w) db_client \<Rightarrow> store_config \<Rightarrow> 'w \<Rightarrow> 'c replica_store rszero_result \<times> 'w" where
  "replica_store_new D cfg w =
     (case replica_connect D (so_dsn cfg) w of
        (r, w') \<Rightarrow> (map_sum id (\<lambda>c. \<lparr>rp_primary = c, rp_replica = None\<rparr>) r, w'))"

definition with_replica :: "('c, 't, 'w) db_client \<Rightarrow> store_config \<Rightarrow> string \<Rightarrow> 'w \<Rightarrow> 'c replica_store rszero_result \<times> 'w" where
  "with_replica D cfg replica_dsn w =
     (case replica_connect D (so_dsn cfg) w of
        (Inl e, w1) \<Rightarrow> (Err e, w1)
      | (Inr c, w1) \<Rightarrow>
          (case replica_connect D replica_dsn w1 of
             (Inl e, w2) \<Rightarrow> (Err e, w2)
           | (Inr r, w2) \<Rightarrow> (Ok \<lparr>rp_primary = c, rp_replica = Some r\<rparr>, w2)))"

definition replica_read :: "'c replica_store \<Rightarrow> 'c" where
  "replica_read s = (case rp_replica s of Some r \<Rightarrow> r | None \<Rightarrow> rp_primary s)"

definition has_replica :: "'c replica_store \<Rightarrow> bool" where
  "has_replica s \<longleftrightarrow> rp_replica s \<noteq> None"

definition ping_all :: "('c, 't, 'w) db_client \<Rightarrow> 'c replica_store \<Rightarrow> 'w \<Rightarrow> unit rszero_result \<times> 'w" where
  "ping_all D s w =
     (case db_error [] (db_ping D (rp_primary s) w) of
        (Inl e, w1) \<Rightarrow> (Err e, w1)
      | (Inr _, w1) \<Rightarrow>
          (case rp_replica s of
             None \<Rightarrow> (Ok (), w1)
           | Some r \<Rightarrow> db_error ''replica ping failed: '' (db_ping D r w1)))"

section \<open>Lemmas\<close>

lemma find_str_None_iff: "find_str pat s = None \<longleftrightarrow> \<not> contains_str pat s"
  by (induction s) auto

lemma find_str_first:
  "\<not> contains_str pat (a @ butlast pat) \<Longrightarrow> find_str pat (a @ pat @ b) = Some (length a)"
proof (induction a)
  case Nil
  have "take (length pat) (pat @ b) = pat" by simp
  then show ?case by (cases "pat @ b") auto
next
  case (Cons c a)
  have "take (length pat) (c # a @ pat @ b) \<noteq> pat"
  proof
    assume p: "take (length pat) (c # a @ pat @ b) = pat"
    have "pat \<noteq> []" using Cons.prems by auto
    then have "take (length pat) (c # a @ butlast pat) = take (length pat) (c # a @ pat @ b)"
      by (cases pat rule: rev_cases) (auto simp: take_Cons')
    then show False using Cons.prems p by simp
  qed
  moreover have "\<not> contains_str pat (a @ butlast pat)" using Cons.prems by simp
  ultimately show ?case using Cons.IH by simp
qed

text \<open>A finished transaction leaves nothing for \<open>drop\<close> to roll back.\<close>

lemma tx_finish_taken: "tx_finish what call x w = (r, x', w') \<Longrightarrow> tx_inner x' = None"
  by (auto simp: tx_finish_def split: option.splits prod.splits)

lemma ping_all_Ok_iff:
  "fst (ping_all D s w) = Ok () \<longleftrightarrow>
     (\<exists>w1. db_ping D (rp_primary s) w = (Ok (), w1)
        \<and> (case rp_replica s of None \<Rightarrow> True | Some r \<Rightarrow> fst (db_ping D r w1) = Ok ()))"
  by (cases "db_ping D (rp_primary s) w"; cases "rp_replica s")
    (auto simp: ping_all_def db_error_def map_sum_def split: sum.splits prod.splits)

section \<open>Properties\<close>

text \<open>
  A DSN is logged without the value of its password parameter: whatever the case of the key, the value up to
  the next delimiter is replaced, so the logged text does not depend on it.  A DSN without such a
  parameter, for instance with the credentials in front of the host, is logged as it is.
\<close>

theorem mask_dsn_spec:
  assumes key: "map to_ascii_lower k = ''password=''" and first: "\<not> contains_str ''password='' (map to_ascii_lower (pre @ butlast k))"
    and pw: "list_all (\<lambda>c. \<not> dsn_delimiter c) pw" and rest: "rest = [] \<or> dsn_delimiter (hd rest)"
  shows "mask_dsn (pre @ k @ pw @ rest) = pre @ k @ ''***'' @ rest
    \<and> (contains_str ''password='' (map to_ascii_lower dsn) \<or> mask_dsn dsn = dsn)"
proof
  have len: "length k = 9" using arg_cong [OF key, of length] by simp
  have "find_str ''password='' (map to_ascii_lower pre @ ''password='' @ map to_ascii_lower (pw @ rest)) = Some (length pre)"
    using first find_str_first [of "''password=''" "map to_ascii_lower pre"] by (simp add: map_butlast key)
  then have "find_str ''password='' (map to_ascii_lower (pre @ k @ pw @ rest)) = Some (length pre)" by (simp add: key)
  moreover have "dropWhile (\<lambda>c. \<not> dsn_delimiter c) (pw @ rest) = rest"
    using pw rest by (cases rest) (auto simp: list_all_iff dropWhile_append)
  ultimately show "mask_dsn (pre @ k @ pw @ rest) = pre @ k @ ''***'' @ rest"
    by (simp add: mask_dsn_def len)
  show "contains_str ''password='' (map to_ascii_lower dsn) \<or> mask_dsn dsn = dsn"
    using find_str_None_iff [of "''password=''" "map to_ascii_lower dsn"] by (auto simp: mask_dsn_def split: option.split)
qed

theorem mask_dsn_spec_witness:
  "mask_dsn ''host=h Password=s3cret user=u'' = ''host=h Password=*** user=u''
     \<and> mask_dsn ''postgres://u:s3cret@h/d'' = ''postgres://u:s3cret@h/d''"
proof -
  let ?url = "''postgres://u:s3cret@h/d''"
  have low: "map to_ascii_lower ''Password='' = ''password=''" "map to_ascii_lower (''host=h '' @ butlast ''Password='') = ''host=h password''"
    "map to_ascii_lower ?url = ?url"
    by (simp_all add: to_ascii_lower_def char_of_def bit_0)
  have "\<not> contains_str ''password='' (map to_ascii_lower (''host=h '' @ butlast ''Password=''))" unfolding low(2) by simp
  moreover have "list_all (\<lambda>c. \<not> dsn_delimiter c) ''s3cret''" "dsn_delimiter (hd '' user=u'')"
    by (simp_all add: dsn_delimiter_def)
  ultimately have m: "mask_dsn (''host=h '' @ ''Password='' @ ''s3cret'' @ '' user=u'') = ''host=h '' @ ''Password='' @ ''***'' @ '' user=u''"
    and u: "contains_str ''password='' (map to_ascii_lower ?url) \<or> mask_dsn ?url = ?url"
    using mask_dsn_spec [OF low(1), of "''host=h ''" "''s3cret''" "'' user=u''" ?url] by blast+
  have "\<not> contains_str ''password='' (map to_ascii_lower ?url)" unfolding low(3) by simp
  with u have "mask_dsn ?url = ?url" by blast
  with m show ?thesis by simp
qed

end
