(* ===== verification/Redis_Cache.thy ===== *)
theory Redis_Cache
  imports Config
begin

text \<open>
  The Redis cache client (\<open>Cache\<close> of \<open>rszero/src/cache/mod.rs\<close>).  The fred client is a parameter: the commands the code sends, on
  a world \<open>'w\<close>, with errors as their text; serialisation is a pair of functions.
\<close>

record ('c, 'w) redis_client =
  rk_from_url :: "string \<Rightarrow> (string, unit) result"
  rk_connect :: "string \<Rightarrow> 'w \<Rightarrow> (string, 'c) result \<times> 'w"
  rk_get :: "'c \<Rightarrow> string \<Rightarrow> 'w \<Rightarrow> (string, string option) result \<times> 'w"
  rk_set :: "'c \<Rightarrow> string \<Rightarrow> string \<Rightarrow> int option \<Rightarrow> 'w \<Rightarrow> (string, unit) result \<times> 'w"
  rk_del :: "'c \<Rightarrow> string \<Rightarrow> 'w \<Rightarrow> (string, int) result \<times> 'w"
  rk_exists :: "'c \<Rightarrow> string \<Rightarrow> 'w \<Rightarrow> (string, int) result \<times> 'w"

definition cache_error :: "(string, 'a) result \<Rightarrow> 'a rszero_result" where
  "cache_error = map_sum (\<lambda>e. Cache e None) id"

lemma cache_error_simps [simp]:
  "cache_error (Inl e) = Err (Cache e None)" "cache_error (Inr x) = Ok x"
  by (simp_all add: cache_error_def)

text \<open>Neither the password nor the pool size of the configuration is used.\<close>

definition redis_url :: "redis_config \<Rightarrow> string" where
  "redis_url cfg = ''redis://'' @ rd_host cfg @ '':'' @ show_nat (unat (rd_port cfg)) @ ''/'' @ show_nat (unat (rd_db cfg))"

definition redis_cache_new :: "('c, 'w) redis_client \<Rightarrow> redis_config \<Rightarrow> 'w \<Rightarrow> 'c rszero_result \<times> 'w" where
  "redis_cache_new K cfg w =
     (case rk_from_url K (redis_url cfg) of
        Inl e \<Rightarrow> (Err (Cache e None), w)
      | Inr _ \<Rightarrow> (case rk_connect K (redis_url cfg) w of (r, w') \<Rightarrow> (cache_error r, w')))"

definition redis_get :: "('c, 'w) redis_client \<Rightarrow> (string \<Rightarrow> (string, 't) result) \<Rightarrow> string \<Rightarrow> 'c \<Rightarrow> 'w \<Rightarrow> 't option rszero_result \<times> 'w" where
  "redis_get K from_str k c w =
     (case rk_get K c k w of
        (Inl e, w') \<Rightarrow> (Err (Cache e None), w')
      | (Inr None, w') \<Rightarrow> (Ok None, w')
      | (Inr (Some s), w') \<Rightarrow> (map_sum id Some (cache_error (from_str s)), w'))"

definition redis_store ::
  "('c, 'w) redis_client \<Rightarrow> ('t \<Rightarrow> (string, string) result) \<Rightarrow> int option \<Rightarrow> string \<Rightarrow> 't \<Rightarrow> 'c \<Rightarrow> 'w \<Rightarrow> unit rszero_result \<times> 'w" where
  "redis_store K to_string ex k v c w =
     (case to_string v of
        Inl e \<Rightarrow> (Err (Cache e None), w)
      | Inr s \<Rightarrow> (case rk_set K c k s ex w of (r, w') \<Rightarrow> (cache_error r, w')))"

definition redis_set :: "('c, 'w) redis_client \<Rightarrow> ('t \<Rightarrow> (string, string) result) \<Rightarrow> string \<Rightarrow> 't \<Rightarrow> 'c \<Rightarrow> 'w \<Rightarrow> unit rszero_result \<times> 'w" where
  "redis_set K to_string = redis_store K to_string None"

text \<open>The time to live in seconds is cast from \<open>u64\<close> to \<open>i64\<close>.\<close>

definition redis_set_ex :: "('c, 'w) redis_client \<Rightarrow> ('t \<Rightarrow> (string, string) result) \<Rightarrow> u64 \<Rightarrow> string \<Rightarrow> 't \<Rightarrow> 'c \<Rightarrow> 'w \<Rightarrow> unit rszero_result \<times> 'w" where
  "redis_set_ex K to_string ttl = redis_store K to_string (Some (sint ttl))"

definition redis_del :: "('c, 'w) redis_client \<Rightarrow> string \<Rightarrow> 'c \<Rightarrow> 'w \<Rightarrow> unit rszero_result \<times> 'w" where
  "redis_del K k c w = (case rk_del K c k w of (r, w') \<Rightarrow> (map_sum id (\<lambda>_. ()) (cache_error r), w'))"

definition redis_exists :: "('c, 'w) redis_client \<Rightarrow> string \<Rightarrow> 'c \<Rightarrow> 'w \<Rightarrow> bool rszero_result \<times> 'w" where
  "redis_exists K k c w = (case rk_exists K c k w of (r, w') \<Rightarrow> (map_sum id (\<lambda>n. 0 < n) (cache_error r), w'))"

definition redis_ping :: "('c, 'w) redis_client \<Rightarrow> 'c \<Rightarrow> 'w \<Rightarrow> unit rszero_result \<times> 'w" where
  "redis_ping K c w = (case rk_get K c ''__rszero:ping__'' w of (r, w') \<Rightarrow> (map_sum id (\<lambda>_. ()) (cache_error r), w'))"

definition redis_is_healthy :: "('c, 'w) redis_client \<Rightarrow> 'c \<Rightarrow> 'w \<Rightarrow> bool \<times> 'w" where
  "redis_is_healthy K c w = (case redis_ping K c w of (r, w') \<Rightarrow> (is_ok r, w'))"

section \<open>A client that behaves as documented\<close>

text \<open>
  \<open>vals w\<close> is what the server holds in the world \<open>w\<close>, expired keys aside.  A \<open>SET\<close> that is answered without an
  error has stored the value, if its time to live is positive, and is answered with an error otherwise.
\<close>

definition redis_client_documented :: "('c, 'w) redis_client \<Rightarrow> ('w \<Rightarrow> string \<rightharpoonup> string) \<Rightarrow> bool" where
  "redis_client_documented K vals \<longleftrightarrow>
     (\<forall>c k w r w'. rk_get K c k w = (Inr r, w') \<longrightarrow> r = vals w k \<and> vals w' = vals w) \<and>
     (\<forall>c k s ex w w'. rk_set K c k s ex w = (Inr (), w') \<longrightarrow> (case ex of Some n \<Rightarrow> 0 < n | None \<Rightarrow> True) \<and> vals w' = (vals w)(k \<mapsto> s)) \<and>
     (\<forall>c k w n w'. rk_del K c k w = (Inr n, w') \<longrightarrow> vals w' = (vals w)(k := None)) \<and>
     (\<forall>c k w n w'. rk_exists K c k w = (Inr n, w') \<longrightarrow> (0 < n \<longleftrightarrow> vals w k \<noteq> None) \<and> vals w' = vals w)"

lemma redis_get_vals:
  assumes "redis_client_documented K vals" and "redis_get K from_str k c w = (Ok r, w')"
  shows "vals w' = vals w \<and> (case vals w k of None \<Rightarrow> r = None | Some s \<Rightarrow> \<exists>v. from_str s = Ok v \<and> r = Some v)"
  using assms
  by (auto simp: redis_get_def redis_client_documented_def cache_error_def map_sum_def split: prod.splits sum.splits option.splits)

lemma redis_store_vals:
  assumes "redis_client_documented K vals" and "redis_store K to_string ex k v c w = (Ok (), w')"
  shows "\<exists>s. to_string v = Ok s \<and> vals w' = (vals w)(k \<mapsto> s) \<and> (case ex of Some n \<Rightarrow> 0 < n | None \<Rightarrow> True)"
proof -
  obtain s where s: "to_string v = Inr s" using assms(2) by (auto simp: redis_store_def split: sum.splits)
  then have "rk_set K c k s ex w = (Inr (), w')"
    using assms(2) by (cases "rk_set K c k s ex w") (auto simp: redis_store_def cache_error_def map_sum_def split: sum.splits)
  with assms(1) s show ?thesis by (auto simp: redis_client_documented_def)
qed

section \<open>Properties\<close>

text \<open>
  What was stored is read back: with a client that behaves as documented and a serialiser that round-trips, a
  successful \<open>get\<close> after a successful \<open>set\<close> or \<open>set_ex\<close> of the key returns the value, one of another key what it
  returned before.  A time to live of zero, or one that does not fit in 63 bits, is never stored.
\<close>

theorem redis_set_get:
  assumes doc: "redis_client_documented K vals" and codec: "\<And>v s. to_string v = Ok s \<Longrightarrow> from_str s = Ok v"
    and set: "redis_set_ex K to_string ttl k v c w = (Ok (), w1) \<or> redis_set K to_string k v c w = (Ok (), w1)"
    and get: "redis_get K from_str k' c w1 = (Ok r, w2)"
  shows "(k' = k \<longrightarrow> r = Some v) \<and> (k' \<noteq> k \<longrightarrow> (case vals w k' of None \<Rightarrow> r = None | Some s \<Rightarrow> \<exists>x. from_str s = Ok x \<and> r = Some x))
    \<and> (ttl = 0 \<or> 2 ^ 63 \<le> unat ttl \<longrightarrow> fst (redis_set_ex K to_string ttl k v c w) \<noteq> Ok ())"
proof (intro conjI impI)
  obtain ex s where s: "to_string v = Ok s" "vals w1 = (vals w)(k \<mapsto> s)"
    using set redis_store_vals [OF doc] unfolding redis_set_ex_def redis_set_def by metis
  note g = redis_get_vals [OF doc get]
  show "r = Some v" if "k' = k" using g s that codec by auto
  show "case vals w k' of None \<Rightarrow> r = None | Some s \<Rightarrow> \<exists>x. from_str s = Ok x \<and> r = Some x" if "k' \<noteq> k"
    using g s that by simp
  have neg: "\<not> 0 < sint ttl" if "ttl = 0 \<or> 2 ^ 63 \<le> unat ttl"
    using that
  proof
    assume "2 ^ 63 \<le> unat ttl"
    moreover have "unat ttl < 2 ^ 64" using unsigned_less [of ttl] by simp
    ultimately have "unat ttl div 2 ^ 63 = 1" by (intro div_nat_eqI) simp_all
    then have "bit (unat ttl) 63" by (simp add: bit_iff_odd)
    then have "sint ttl < 0" using bit_last_iff [of ttl] by (simp add: bit_unsigned_iff)
    then show ?thesis by simp
  qed simp
  show "fst (redis_set_ex K to_string ttl k v c w) \<noteq> Ok ()" if "ttl = 0 \<or> 2 ^ 63 \<le> unat ttl"
    using neg [OF that] redis_store_vals [OF doc, of to_string "Some (sint ttl)" k v c w]
    by (cases "redis_set_ex K to_string ttl k v c w") (auto simp: redis_set_ex_def)
qed

definition demo_redis_client :: "(unit, string \<rightharpoonup> string) redis_client" where
  "demo_redis_client = \<lparr>rk_from_url = (\<lambda>_. Ok ()), rk_connect = (\<lambda>_ w. (Ok (), w)), rk_get = (\<lambda>_ k w. (Ok (w k), w)),
     rk_set = (\<lambda>_ k s ex w. if (case ex of Some n \<Rightarrow> 0 < n | None \<Rightarrow> True) then (Ok (), w(k \<mapsto> s)) else (Err ''ERR invalid expire time'', w)),
     rk_del = (\<lambda>_ k w. (Ok (if w k = None then 0 else 1), w(k := None))), rk_exists = (\<lambda>_ k w. (Ok (if w k = None then 0 else 1), w))\<rparr>"

lemma demo_redis_client_documented: "redis_client_documented demo_redis_client (\<lambda>w. w)"
  by (auto simp: redis_client_documented_def demo_redis_client_def split: if_splits option.splits)

theorem redis_set_get_witness:
  "\<exists>w1 r w2. redis_set_ex demo_redis_client Inr 60 ''k'' ''v'' () Map.empty = (Ok (), w1) \<and> redis_get demo_redis_client Inr ''k'' () w1 = (Ok r, w2) \<and> r = Some ''v''"
proof -
  obtain w1 where w1: "redis_set_ex demo_redis_client Inr 60 ''k'' ''v'' () Map.empty = (Ok (), w1)"
    by (simp add: redis_set_ex_def redis_store_def demo_redis_client_def)
  obtain r w2 where r: "redis_get demo_redis_client (Inr :: string \<Rightarrow> (string, string) result) ''k'' () w1 = (Ok r, w2)"
    by (cases "w1 ''k''") (simp_all add: redis_get_def demo_redis_client_def)
  have "r = Some ''v''" using redis_set_get [OF demo_redis_client_documented _ disjI1 [OF w1] r] by simp
  with w1 r show ?thesis by (intro exI conjI)
qed

end
