(* ===== verification/Health.thy ===== *)
theory Health
  imports Store Redis_Cache Http_Middleware "HOL-Library.AList"
begin

text \<open>
  The health tracker (\<open>rszero/src/health/mod.rs\<close>), the background probes that report to it (\<open>monitor_health\<close> of the database
  store, the Redis cache and service discovery) and the endpoints that publish it (\<open>register_builtin_endpoints\<close> of
  \<open>rszero/src/rest/server.rs\<close>).  The dependencies are an association list with distinct keys; its order stands
  for the iteration order of the hash map.
\<close>

datatype dependency_health = Dep_Healthy | Dep_Unhealthy string

record health =
  h_ready :: bool
  h_dependencies :: "(string \<times> dependency_health) list"

definition health_new :: health where
  "health_new = \<lparr>h_ready = True, h_dependencies = []\<rparr>"

definition set_not_ready :: "health \<Rightarrow> health" where
  "set_not_ready h = h\<lparr>h_ready := False\<rparr>"

definition set_ready :: "health \<Rightarrow> health" where
  "set_ready h = h\<lparr>h_ready := True\<rparr>"

definition is_ready :: "health \<Rightarrow> bool" where
  "is_ready h = h_ready h"

definition set_dependency :: "string \<Rightarrow> dependency_health \<Rightarrow> health \<Rightarrow> health" where
  "set_dependency nm d h = h\<lparr>h_dependencies := AList.update nm d (h_dependencies h)\<rparr>"

definition all_dependencies_healthy :: "health \<Rightarrow> bool" where
  "all_dependencies_healthy h = list_all (\<lambda>(nm, d). d = Dep_Healthy) (h_dependencies h)"

definition full_check :: "health \<Rightarrow> bool" where
  "full_check h \<longleftrightarrow> is_ready h \<and> all_dependencies_healthy h"

section \<open>Endpoints\<close>

fun dependency_json :: "dependency_health \<Rightarrow> json" where
  "dependency_json Dep_Healthy = JObject [(''status'', JString ''healthy'')]"
| "dependency_json (Dep_Unhealthy reason) = JObject [(''status'', JString ''unhealthy''), (''reason'', JString reason)]"

definition health_endpoint :: "health \<Rightarrow> http_response" where
  "health_endpoint h =
     (let ok = all_dependencies_healthy h;
          payload = JObject [(''status'', JString (if ok then ''healthy'' else ''degraded'')), (''ready'', JBool (is_ready h)),
                             (''dependencies'', JObject (map (\<lambda>(nm, d). (nm, dependency_json d)) (h_dependencies h)))]
      in json_response (if ok then 200 else 503) payload)"

definition ready_endpoint :: "health \<Rightarrow> http_response" where
  "ready_endpoint h =
     (let ready = full_check h in json_response (if ready then 200 else 503) (JObject [(''ready'', JBool ready)]))"

section \<open>Probes\<close>

text \<open>One tick of each background probe.\<close>

definition store_monitor_tick :: "('c, 't, 'w) db_client \<Rightarrow> 'c store \<Rightarrow> health \<Rightarrow> 'w \<Rightarrow> 'c store \<times> health \<times> 'w" where
  "store_monitor_tick D s h w =
     (case store_is_healthy D s w of
        (True, w') \<Rightarrow> (s, set_dependency ''database'' Dep_Healthy h, w')
      | (False, w') \<Rightarrow>
          (case reconnect D s w' of (_, s', w'') \<Rightarrow> (s', set_dependency ''database'' (Dep_Unhealthy ''ping failed'') h, w'')))"

definition redis_monitor_tick :: "('k, 'w) redis_client \<Rightarrow> 'k \<Rightarrow> health \<Rightarrow> 'w \<Rightarrow> health \<times> 'w" where
  "redis_monitor_tick K c h w =
     (case redis_is_healthy K c w of
        (True, w') \<Rightarrow> (set_dependency ''cache'' Dep_Healthy h, w')
      | (False, w') \<Rightarrow> (set_dependency ''cache'' (Dep_Unhealthy ''ping failed'') h, w'))"

definition discovery_monitor_tick :: "'c etcd \<Rightarrow> 'c service_discovery \<Rightarrow> health \<Rightarrow> 'c service_discovery \<times> health" where
  "discovery_monitor_tick E d h =
     (case discovery_is_healthy E d of
        (True, d') \<Rightarrow> (d', set_dependency ''discovery'' Dep_Healthy h)
      | (False, d') \<Rightarrow> (d', set_dependency ''discovery'' (Dep_Unhealthy ''etcd unreachable'') h))"

section \<open>A service with its probes\<close>

text \<open>
  A running service: its store, cache and discovery clients, the tracker they share, and the world.  A probe event
  carries the outcome of its ping.
\<close>

record ('c, 'k, 'e, 'w) service =
  sv_store :: "'c store"
  sv_redis :: 'k
  sv_discovery :: "'e service_discovery"
  sv_health :: health
  sv_world :: 'w

datatype service_event = Store_Probe bool | Redis_Probe bool | Discovery_Probe bool | Set_Ready bool | Report string dependency_health

inductive service_step ::
  "('c, 't, 'w) db_client \<Rightarrow> ('k, 'w) redis_client \<Rightarrow> 'e etcd \<Rightarrow> ('c, 'k, 'e, 'w) service \<Rightarrow> service_event \<Rightarrow> ('c, 'k, 'e, 'w) service \<Rightarrow> bool"
  for D K E where
  store_probe:
    "store_monitor_tick D (sv_store s) (sv_health s) (sv_world s) = (st, h, w) \<Longrightarrow> fst (store_is_healthy D (sv_store s) (sv_world s)) = ok
     \<Longrightarrow> service_step D K E s (Store_Probe ok) (s\<lparr>sv_store := st, sv_health := h, sv_world := w\<rparr>)"
| redis_probe:
    "redis_monitor_tick K (sv_redis s) (sv_health s) (sv_world s) = (h, w) \<Longrightarrow> fst (redis_is_healthy K (sv_redis s) (sv_world s)) = ok
     \<Longrightarrow> service_step D K E s (Redis_Probe ok) (s\<lparr>sv_health := h, sv_world := w\<rparr>)"
| discovery_probe:
    "discovery_monitor_tick E (sv_discovery s) (sv_health s) = (d, h) \<Longrightarrow> fst (discovery_is_healthy E (sv_discovery s)) = ok
     \<Longrightarrow> service_step D K E s (Discovery_Probe ok) (s\<lparr>sv_discovery := d, sv_health := h\<rparr>)"
| set_ready: "service_step D K E s (Set_Ready b) (s\<lparr>sv_health := (if b then set_ready else set_not_ready) (sv_health s)\<rparr>)"
| report: "service_step D K E s (Report nm d) (s\<lparr>sv_health := set_dependency nm d (sv_health s)\<rparr>)"
| others: "service_step D K E s e t \<Longrightarrow> service_step D K E s e (t\<lparr>sv_world := w\<rparr>)"

text \<open>What the events say: the reports in order, and the readiness set last.\<close>

fun report_of :: "service_event \<Rightarrow> (string \<times> dependency_health) list" where
  "report_of (Store_Probe ok) = [(''database'', if ok then Dep_Healthy else Dep_Unhealthy ''ping failed'')]"
| "report_of (Redis_Probe ok) = [(''cache'', if ok then Dep_Healthy else Dep_Unhealthy ''ping failed'')]"
| "report_of (Discovery_Probe ok) = [(''discovery'', if ok then Dep_Healthy else Dep_Unhealthy ''etcd unreachable'')]"
| "report_of (Set_Ready b) = []"
| "report_of (Report nm d) = [(nm, d)]"

definition reports :: "service_event list \<Rightarrow> (string \<times> dependency_health) list" where
  "reports es = concat (map report_of es)"

fun ready_after :: "service_event list \<Rightarrow> bool \<Rightarrow> bool" where
  "ready_after [] b = b"
| "ready_after (Set_Ready b' # es) b = ready_after es b'"
| "ready_after (_ # es) b = ready_after es b"

section \<open>Lemmas\<close>

definition health_ok :: "health \<Rightarrow> bool" where
  "health_ok h \<longleftrightarrow> distinct (map fst (h_dependencies h))"

lemma health_ok_simps [simp]:
  "health_ok health_new" "health_ok (set_ready h) = health_ok h" "health_ok (set_not_ready h) = health_ok h"
  "health_ok h \<Longrightarrow> health_ok (set_dependency nm d h)"
  by (simp_all add: health_ok_def health_new_def set_ready_def set_not_ready_def set_dependency_def distinct_update)

lemma all_dependencies_healthy_iff:
  "health_ok h \<Longrightarrow> all_dependencies_healthy h \<longleftrightarrow> (\<forall>nm reason. map_of (h_dependencies h) nm \<noteq> Some (Dep_Unhealthy reason))"
  unfolding all_dependencies_healthy_def health_ok_def list_all_iff
  by (auto simp: map_of_eq_Some_iff) (metis dependency_health.exhaust)

lemma store_monitor_report:
  "store_monitor_tick D s h w = (s', h', w') \<Longrightarrow>
     h' = set_dependency ''database'' (if fst (store_is_healthy D s w) then Dep_Healthy else Dep_Unhealthy ''ping failed'') h"
  by (auto simp: store_monitor_tick_def split: prod.splits bool.splits)

lemma redis_monitor_report:
  "redis_monitor_tick K c h w = (h', w') \<Longrightarrow>
     h' = set_dependency ''cache'' (if fst (redis_is_healthy K c w) then Dep_Healthy else Dep_Unhealthy ''ping failed'') h"
  by (auto simp: redis_monitor_tick_def split: prod.splits bool.splits)

lemma discovery_monitor_report:
  "discovery_monitor_tick E d h = (d', h') \<Longrightarrow>
     h' = set_dependency ''discovery'' (if fst (discovery_is_healthy E d) then Dep_Healthy else Dep_Unhealthy ''etcd unreachable'') h"
  by (auto simp: discovery_monitor_tick_def split: prod.splits bool.splits)

lemmas monitor_reports = store_monitor_report redis_monitor_report discovery_monitor_report

lemma service_step_health:
  assumes "service_step D K E s e t" and "health_ok (sv_health s)"
  shows "health_ok (sv_health t) \<and> h_ready (sv_health t) = ready_after [e] (h_ready (sv_health s))
    \<and> map_of (h_dependencies (sv_health t)) = map_of (h_dependencies (sv_health s)) ++ map_of (rev (report_of e))"
  using assms
  by (induction rule: service_step.induct)
    (auto dest!: monitor_reports simp: set_dependency_def set_ready_def set_not_ready_def update_conv health_ok_def distinct_update)

lemma ready_after_append: "ready_after (es @ fs) b = ready_after fs (ready_after es b)"
  by (induction es b rule: ready_after.induct) auto

lemma service_run_health:
  "run (service_step D K E) s es t \<Longrightarrow> health_ok (sv_health s) \<Longrightarrow>
     health_ok (sv_health t) \<and> h_ready (sv_health t) = ready_after es (h_ready (sv_health s))
     \<and> map_of (h_dependencies (sv_health t)) = map_of (h_dependencies (sv_health s)) ++ map_of (rev (reports es))"
proof (induction es arbitrary: s)
  case (Cons e es)
  then obtain u where u: "service_step D K E s e u" "run (service_step D K E) u es t" by auto
  note e = service_step_health [OF u(1) Cons.prems(2)]
  have "ready_after (e # es) b = ready_after es (ready_after [e] b)" for b using ready_after_append [of "[e]" es b] by simp
  with Cons.IH [OF u(2)] e show ?case by (simp add: reports_def map_add_assoc)
qed (simp add: reports_def)

section \<open>Properties\<close>

text \<open>
  Readiness follows the probes: after any interleaving of probe ticks, reports and readiness switches of a
  service that started with a new tracker, the readiness endpoint answers 200 exactly when the service was last
  switched ready, or never switched, and the last report of every dependency is healthy; otherwise it answers
  503.  The health endpoint answers 200 exactly under the second condition.
\<close>

theorem readiness_follows_probes:
  assumes "run (service_step D K E) s es t" and "sv_health s = health_new"
  defines "good \<equiv> \<forall>nm reason. map_of (rev (reports es)) nm \<noteq> Some (Dep_Unhealthy reason)"
  shows "rs_status (ready_endpoint (sv_health t)) = (if ready_after es True \<and> good then 200 else 503)
    \<and> rs_status (health_endpoint (sv_health t)) = (if good then 200 else 503)"
proof -
  have ok: "health_ok (sv_health t)" and r: "h_ready (sv_health t) = ready_after es True"
    and m: "map_of (h_dependencies (sv_health t)) = map_of (rev (reports es))"
    using service_run_health [OF assms(1)] assms(2) by (simp_all add: health_new_def health_ok_def)
  have "all_dependencies_healthy (sv_health t) \<longleftrightarrow> good"
    unfolding all_dependencies_healthy_iff [OF ok] m good_def by simp
  with r show ?thesis
    by (simp add: ready_endpoint_def health_endpoint_def full_check_def is_ready_def json_response_def Let_def)
qed

text \<open>A database whose first connection is broken and that reconnects at the first probe.\<close>

definition demo_db_client :: "(bool, unit, unit) db_client" where
  "demo_db_client = \<lparr>db_connect = (\<lambda>_ w. (Ok True, w)), db_ping = (\<lambda>c w. (if c then Ok () else Err ''broken'', w)), db_close = (\<lambda>_ w. (Ok (), w)),
     db_begin = (\<lambda>_ w. (Ok (), w)), db_commit = (\<lambda>_ w. (Ok (), w)), db_rollback = (\<lambda>_ w. (Ok (), w)),
     db_execute = (\<lambda>_ _ _ w. (Ok (), w)), db_count = (\<lambda>_ _ w. (Ok None, w))\<rparr>"

definition demo_redis_down :: "(unit, unit) redis_client" where
  "demo_redis_down = \<lparr>rk_from_url = (\<lambda>_. Ok ()), rk_connect = (\<lambda>_ w. (Ok (), w)), rk_get = (\<lambda>_ _ w. (Err ''down'', w)),
     rk_set = (\<lambda>_ _ _ _ w. (Err ''down'', w)), rk_del = (\<lambda>_ _ w. (Err ''down'', w)), rk_exists = (\<lambda>_ _ w. (Err ''down'', w))\<rparr>"

definition demo_service :: "(bool, unit, (string \<times> string) list, unit) service" where
  "demo_service = \<lparr>sv_store = \<lparr>st_conn = False, st_config = store_config_default\<rparr>, sv_redis = (), sv_discovery = discovery_new ''etcd'' [],
     sv_health = health_new, sv_world = ()\<rparr>"

theorem readiness_follows_probes_witness:
  "\<exists>t u. run (service_step demo_db_client demo_redis_down demo_etcd) demo_service [Store_Probe False] t \<and> rs_status (ready_endpoint (sv_health t)) = 503
     \<and> run (service_step demo_db_client demo_redis_down demo_etcd) demo_service [Store_Probe False, Store_Probe True] u \<and> rs_status (ready_endpoint (sv_health u)) = 200"
proof -
  let ?t = "demo_service\<lparr>sv_store := \<lparr>st_conn = True, st_config = store_config_default\<rparr>,
     sv_health := set_dependency ''database'' (Dep_Unhealthy ''ping failed'') health_new, sv_world := ()\<rparr>"
  let ?u = "?t\<lparr>sv_store := sv_store ?t, sv_health := set_dependency ''database'' Dep_Healthy (sv_health ?t), sv_world := ()\<rparr>"
  have a: "service_step demo_db_client demo_redis_down demo_etcd demo_service (Store_Probe False) ?t"
    by (rule store_probe) (simp_all add: store_monitor_tick_def store_is_healthy_def store_ping_def reconnect_def connect_with_config_def
        demo_service_def demo_db_client_def)
  have b: "service_step demo_db_client demo_redis_down demo_etcd ?t (Store_Probe True) ?u"
    by (rule store_probe) (simp_all add: store_monitor_tick_def store_is_healthy_def store_ping_def demo_service_def demo_db_client_def)
  have t: "run (service_step demo_db_client demo_redis_down demo_etcd) demo_service [Store_Probe False] ?t" using a by (auto intro: run.intros)
  have u: "run (service_step demo_db_client demo_redis_down demo_etcd) demo_service [Store_Probe False, Store_Probe True] ?u"
    unfolding run_Cons_iff run_Nil_iff using a b by blast
  have h: "sv_health demo_service = health_new" by (simp add: demo_service_def)
  have "rs_status (ready_endpoint (sv_health ?t)) = 503"
    using readiness_follows_probes [OF t h] by (auto simp: reports_def)
  moreover have "rs_status (ready_endpoint (sv_health ?u)) = 200"
    using readiness_follows_probes [OF u h] by (auto simp: reports_def)
  ultimately show ?thesis using t u by (intro exI [of _ ?t] exI [of _ ?u] conjI)
qed

text \<open>
  A discovery client that was never connected fails every probe, and no probe connects it.
\<close>

lemma unconnected_discovery_unhealthy:
  "sd_client d = None \<Longrightarrow> discovery_monitor_tick E d h = (d, set_dependency ''discovery'' (Dep_Unhealthy ''etcd unreachable'') h)"
  by (simp add: discovery_monitor_tick_def discovery_is_healthy_def)

end
