(* ===== verification/Rest_Server.thy ===== *)
theory Rest_Server
  imports Health
begin

text \<open>
  The HTTP server (\<open>rszero/src/rest/server.rs\<close>): CORS configuration, route groups, the server builder, the built-in endpoints
  and the life of a started server; and the response helpers of \<open>rszero/src/rest/types.rs\<close> and
  \<open>rszero/src/rest/httpx.rs\<close>.  The router of axum is a parameter: a type with the operations the code uses.
\<close>

section \<open>CORS\<close>

record cors_config =
  cc_allow_origins :: "string list"
  cc_allow_methods :: "string list"
  cc_allow_headers :: "string list"

definition cors_permissive :: cors_config where
  "cors_permissive = \<lparr>cc_allow_origins = [''*''], cc_allow_methods = [''GET'', ''POST'', ''PUT'', ''DELETE'', ''PATCH''], cc_allow_headers = [''*'']\<rparr>"

definition cors_origins :: "string list \<Rightarrow> cors_config \<Rightarrow> cors_config" where
  "cors_origins origins c = c\<lparr>cc_allow_origins := origins\<rparr>"

definition cors_methods :: "string list \<Rightarrow> cors_config \<Rightarrow> cors_config" where
  "cors_methods methods c = c\<lparr>cc_allow_methods := methods\<rparr>"

text \<open>What the CORS layer allows: anything, or a list.\<close>

datatype allow = Allow_Any | Allow_List "string list"

record cors_layer =
  cy_origins :: allow
  cy_methods :: allow
  cy_headers :: allow

text \<open>\<open>valid_origin\<close>, \<open>valid_method\<close> and \<open>valid_header\<close> tell which texts parse as header values, methods and header names.\<close>

definition cors_build :: "(string \<Rightarrow> bool) \<Rightarrow> (string \<Rightarrow> bool) \<Rightarrow> (string \<Rightarrow> bool) \<Rightarrow> cors_config \<Rightarrow> cors_layer" where
  "cors_build valid_origin valid_method valid_header c =
     (if list_ex (\<lambda>o'. o' = ''*'') (cc_allow_origins c)
      then \<lparr>cy_origins = Allow_Any, cy_methods = Allow_List (filter valid_method (cc_allow_methods c)), cy_headers = Allow_Any\<rparr>
      else \<lparr>cy_origins = Allow_List (filter valid_origin (cc_allow_origins c)), cy_methods = Allow_List (filter valid_method (cc_allow_methods c)),
            cy_headers = Allow_List (filter valid_header (cc_allow_headers c))\<rparr>)"

section \<open>Routers, groups and the server builder\<close>

datatype 'x server_layer = Cors cors_layer | Compression | Trace_Http | Rate_Limit u64 u32 | Custom 'x

record ('r, 'h, 'x) router_api =
  ro_new :: 'r
  ro_route :: "string \<Rightarrow> 'h \<Rightarrow> 'r \<Rightarrow> 'r"
  ro_merge :: "'r \<Rightarrow> 'r \<Rightarrow> 'r"
  ro_layer :: "'x server_layer \<Rightarrow> 'r \<Rightarrow> 'r"

record 'r route_group =
  rg_prefix :: string
  rg_router :: 'r
  rg_version :: "string option"

definition route_group_new :: "('r, 'h, 'x) router_api \<Rightarrow> string \<Rightarrow> 'r route_group" where
  "route_group_new R p = \<lparr>rg_prefix = p, rg_router = ro_new R, rg_version = None\<rparr>"

definition group_version :: "string \<Rightarrow> 'r route_group \<Rightarrow> 'r route_group" where
  "group_version v g = g\<lparr>rg_version := Some v\<rparr>"

definition group_path :: "'r route_group \<Rightarrow> string \<Rightarrow> string" where
  "group_path g path = (case rg_version g of Some v \<Rightarrow> ''/'' @ v @ rg_prefix g @ path | None \<Rightarrow> rg_prefix g @ path)"

definition group_route :: "('r, 'h, 'x) router_api \<Rightarrow> string \<Rightarrow> 'h \<Rightarrow> 'r route_group \<Rightarrow> 'r route_group" where
  "group_route R path mr g = g\<lparr>rg_router := ro_route R (group_path g path) mr (rg_router g)\<rparr>"

definition group_merge :: "('r, 'h, 'x) router_api \<Rightarrow> 'r \<Rightarrow> 'r route_group \<Rightarrow> 'r route_group" where
  "group_merge R r g = g\<lparr>rg_router := ro_merge R (rg_router g) r\<rparr>"

definition group_layer :: "('r, 'h, 'x) router_api \<Rightarrow> 'x server_layer \<Rightarrow> 'r route_group \<Rightarrow> 'r route_group" where
  "group_layer R l g = g\<lparr>rg_router := ro_layer R l (rg_router g)\<rparr>"

record ('r, 'm, 'o) rszero_server =
  sr_host :: string
  sr_port :: u16
  sr_router :: 'r
  sr_metrics :: "'m option"
  sr_health :: health
  sr_enable_health :: bool
  sr_enable_metrics :: bool
  sr_openapi :: "'o option"
  sr_enable_openapi :: bool

definition server_new :: "('r, 'h, 'x) router_api \<Rightarrow> (cors_config \<Rightarrow> cors_layer) \<Rightarrow> string \<Rightarrow> u16 \<Rightarrow> ('r, 'm, 'o) rszero_server" where
  "server_new R build host port =
     \<lparr>sr_host = host, sr_port = port,
      sr_router = ro_layer R Trace_Http (ro_layer R Compression (ro_layer R (Cors (build cors_permissive)) (ro_new R))),
      sr_metrics = None, sr_health = health_new, sr_enable_health = True, sr_enable_metrics = True, sr_openapi = None, sr_enable_openapi = True\<rparr>"

definition from_config :: "('r, 'h, 'x) router_api \<Rightarrow> (cors_config \<Rightarrow> cors_layer) \<Rightarrow> rszero_config \<Rightarrow> ('r, 'm, 'o) rszero_server" where
  "from_config R build c = server_new R build (rz_host c) (rz_port c)"

definition server_layer_add :: "('r, 'h, 'x) router_api \<Rightarrow> 'x server_layer \<Rightarrow> ('r, 'm, 'o) rszero_server \<Rightarrow> ('r, 'm, 'o) rszero_server" where
  "server_layer_add R l s = s\<lparr>sr_router := ro_layer R l (sr_router s)\<rparr>"

definition server_compression :: "('r, 'h, 'x) router_api \<Rightarrow> ('r, 'm, 'o) rszero_server \<Rightarrow> ('r, 'm, 'o) rszero_server" where
  "server_compression R = server_layer_add R Compression"

definition server_cors :: "('r, 'h, 'x) router_api \<Rightarrow> (cors_config \<Rightarrow> cors_layer) \<Rightarrow> cors_config \<Rightarrow> ('r, 'm, 'o) rszero_server \<Rightarrow> ('r, 'm, 'o) rszero_server" where
  "server_cors R build c = server_layer_add R (Cors (build c))"

text \<open>The rate limiter asserts that its parameters are positive.\<close>

definition rate_limiter :: "'x server_layer" where
  "rate_limiter = Rate_Limit 10 30"

definition custom_rate_limiter :: "u64 \<Rightarrow> u32 \<Rightarrow> 'x server_layer outcome" where
  "custom_rate_limiter per_second burst =
     (if per_second = 0 then Panic else if burst = 0 then Panic else Done (Rate_Limit per_second burst))"

definition with_rate_limiter ::
  "('r, 'h, 'x) router_api \<Rightarrow> u64 \<Rightarrow> u32 \<Rightarrow> ('r, 'm, 'o) rszero_server \<Rightarrow> ('r, 'm, 'o) rszero_server outcome" where
  "with_rate_limiter R per_second burst s =
     (case custom_rate_limiter per_second burst of Done l \<Rightarrow> Done (server_layer_add R l s) | Panic \<Rightarrow> Panic)"

definition with_metrics :: "'m \<Rightarrow> ('r, 'm, 'o) rszero_server \<Rightarrow> ('r, 'm, 'o) rszero_server" where
  "with_metrics mt s = s\<lparr>sr_metrics := Some mt\<rparr>"

definition disable_health_endpoint :: "('r, 'm, 'o) rszero_server \<Rightarrow> ('r, 'm, 'o) rszero_server" where
  "disable_health_endpoint s = s\<lparr>sr_enable_health := False\<rparr>"

definition disable_metrics_endpoint :: "('r, 'm, 'o) rszero_server \<Rightarrow> ('r, 'm, 'o) rszero_server" where
  "disable_metrics_endpoint s = s\<lparr>sr_enable_metrics := False\<rparr>"

definition disable_openapi_endpoint :: "('r, 'm, 'o) rszero_server \<Rightarrow> ('r, 'm, 'o) rszero_server" where
  "disable_openapi_endpoint s = s\<lparr>sr_enable_openapi := False\<rparr>"

definition with_openapi_spec :: "'o \<Rightarrow> ('r, 'm, 'o) rszero_server \<Rightarrow> ('r, 'm, 'o) rszero_server" where
  "with_openapi_spec spec s = s\<lparr>sr_openapi := Some spec\<rparr>"

definition server_route :: "('r, 'h, 'x) router_api \<Rightarrow> string \<Rightarrow> 'h \<Rightarrow> ('r, 'm, 'o) rszero_server \<Rightarrow> ('r, 'm, 'o) rszero_server" where
  "server_route R path mr s = s\<lparr>sr_router := ro_route R path mr (sr_router s)\<rparr>"

definition merge_router :: "('r, 'h, 'x) router_api \<Rightarrow> 'r \<Rightarrow> ('r, 'm, 'o) rszero_server \<Rightarrow> ('r, 'm, 'o) rszero_server" where
  "merge_router R r s = s\<lparr>sr_router := ro_merge R (sr_router s) r\<rparr>"

definition server_group :: "('r, 'h, 'x) router_api \<Rightarrow> 'r route_group \<Rightarrow> ('r, 'm, 'o) rszero_server \<Rightarrow> ('r, 'm, 'o) rszero_server" where
  "server_group R g s = merge_router R (rg_router g) s"

section \<open>Built-in endpoints\<close>

text \<open>
  The handlers are made from what they show: \<open>of_health\<close>, \<open>of_ready\<close>, \<open>of_metrics\<close> and \<open>of_openapi\<close> are the method routers for \<open>GET\<close> with
  the closures as their handlers; the first two answer as \<open>health_endpoint\<close> and \<open>ready_endpoint\<close> of the tracker.
\<close>

record ('h, 'm, 'o) builtin_handlers =
  of_health :: "health \<Rightarrow> 'h"
  of_ready :: "health \<Rightarrow> 'h"
  of_metrics :: "'m \<Rightarrow> 'h"
  of_openapi :: "'o \<Rightarrow> 'h"

text \<open>The answer of the OpenAPI endpoint.\<close>

definition openapi_endpoint :: "('o \<Rightarrow> (string, string) result) \<Rightarrow> 'o \<Rightarrow> http_response" where
  "openapi_endpoint to_json spec =
     (case to_json spec of
        Inr b \<Rightarrow> \<lparr>rs_status = 200, rs_headers = [(''content-type'', ''application/json'')], rs_body = RawBody b\<rparr>
      | Inl e \<Rightarrow> \<lparr>rs_status = 500, rs_headers = [], rs_body = RawBody (''failed to generate openapi: '' @ e)\<rparr>)"

definition builtin_routes :: "('h, 'm, 'o) builtin_handlers \<Rightarrow> ('r, 'm, 'o) rszero_server \<Rightarrow> (string \<times> 'h) list" where
  "builtin_routes H s =
     (if sr_enable_health s then [(''/health'', of_health H (sr_health s)), (''/ready'', of_ready H (sr_health s))] else [])
     @ (if sr_enable_metrics s then (case sr_metrics s of Some mt \<Rightarrow> [(''/metrics'', of_metrics H mt)] | None \<Rightarrow> []) else [])
     @ (if sr_enable_openapi s then (case sr_openapi s of Some spec \<Rightarrow> [(''/openapi.json'', of_openapi H spec)] | None \<Rightarrow> []) else [])"

definition register_builtin_endpoints ::
  "('r, 'h, 'x) router_api \<Rightarrow> ('h, 'm, 'o) builtin_handlers \<Rightarrow> ('r, 'm, 'o) rszero_server \<Rightarrow> ('r, 'm, 'o) rszero_server" where
  "register_builtin_endpoints R H s = fold (\<lambda>(p, mr). server_route R p mr) (builtin_routes H s) s"

section \<open>The life of a server\<close>

text \<open>
  \<open>start_with_shutdown\<close>: the built-in endpoints are added and the address is bound, then the serving future and a timer of
  thirty seconds run against each other.  \<open>serve\<close> is when the serving future of a router ends, in nanoseconds
  after it was started, and with what, if it ever ends; when both are ready at once \<open>coin\<close> tells which branch
  \<open>select\<close> takes.  The value is the time at which the call returns and its result.
\<close>

definition drain_timeout :: duration where
  "drain_timeout = from_secs 30"

definition start_with_shutdown ::
  "('r, 'h, 'x) router_api \<Rightarrow> ('h, 'm, 'o) builtin_handlers \<Rightarrow> (string \<Rightarrow> (string, unit) result)
   \<Rightarrow> ('r \<Rightarrow> (duration \<times> (string, unit) result) option) \<Rightarrow> bool \<Rightarrow> ('r, 'm, 'o) rszero_server \<Rightarrow> duration \<times> unit rszero_result" where
  "start_with_shutdown R H bind serve coin s =
     (let s' = register_builtin_endpoints R H s
      in case bind (sr_host s' @ '':'' @ show_nat (unat (sr_port s'))) of
           Inl e \<Rightarrow> (0, Err (from_io e))
         | Inr _ \<Rightarrow>
             (case serve (sr_router s') of
                Some (t, r) \<Rightarrow>
                  if t < drain_timeout \<or> t = drain_timeout \<and> coin then (t, map_sum (\<lambda>e. Internal e None) id r)
                  else (drain_timeout, Ok ())
              | None \<Rightarrow> (drain_timeout, Ok ())))"

text \<open>
  The serving future as axum documents it: it ends when the shutdown signal has come and the requests in flight at
  that time are done, and not before.
\<close>

definition graceful :: "duration option \<Rightarrow> duration \<Rightarrow> (duration \<times> (string, unit) result) option" where
  "graceful signal drain = map_option (\<lambda>t. (t + drain, Ok ())) signal"

section \<open>Response helpers\<close>

record 'd json_reply =
  jr_code :: int
  jr_msg :: string
  jr_data :: "'d option"

definition ok_empty :: "unit json_reply" where
  "ok_empty = \<lparr>jr_code = 0, jr_msg = ''ok'', jr_data = None\<rparr>"

definition reply_ok :: "'d \<Rightarrow> 'd json_reply" where
  "reply_ok d = \<lparr>jr_code = 0, jr_msg = ''ok'', jr_data = Some d\<rparr>"

definition reply_error :: "int \<Rightarrow> string \<Rightarrow> 'd json_reply" where
  "reply_error c m = \<lparr>jr_code = c, jr_msg = m, jr_data = None\<rparr>"

text \<open>Both conversions to a status cast the \<open>i32\<close> code to \<open>u16\<close>.\<close>

definition reply_status :: "(u16 \<Rightarrow> u16 option) \<Rightarrow> 'd json_reply \<Rightarrow> u16" where
  "reply_status from_u16 r =
     (if jr_code r = 0 then 200 else if 500 \<le> jr_code r then 500
      else case from_u16 (word_of_int (jr_code r)) of Some s \<Rightarrow> s | None \<Rightarrow> 400)"

definition httpx_error_status :: "(u16 \<Rightarrow> u16 option) \<Rightarrow> int \<Rightarrow> u16" where
  "httpx_error_status from_u16 c =
     (if 500 \<le> c then 500 else if 400 \<le> c then (case from_u16 (word_of_int c) of Some s \<Rightarrow> s | None \<Rightarrow> 400) else 200)"

section \<open>Which layers wrap which routes\<close>

text \<open>
  Axum documents that a layer wraps the routes that were added before it.  \<open>layers_of r p\<close> is the list of layers around
  the route at \<open>p\<close>, outermost first, if the router has that route.
\<close>

definition axum_documented :: "('r, 'h, 'x) router_api \<Rightarrow> ('r \<Rightarrow> string \<Rightarrow> 'x server_layer list option) \<Rightarrow> bool" where
  "axum_documented R layers_of \<longleftrightarrow>
     (\<forall>p. layers_of (ro_new R) p = None) \<and>
     (\<forall>p mr r q. layers_of r p = None \<longrightarrow> layers_of (ro_route R p mr r) q = (if q = p then Some [] else layers_of r q)) \<and>
     (\<forall>l r q. layers_of (ro_layer R l r) q = map_option ((#) l) (layers_of r q))"

datatype ('h, 'x) server_op = Add_Route string 'h | Add_Layer "'x server_layer"

fun server_apply :: "('r, 'h, 'x) router_api \<Rightarrow> ('h, 'x) server_op \<Rightarrow> ('r, 'm, 'o) rszero_server \<Rightarrow> ('r, 'm, 'o) rszero_server" where
  "server_apply R (Add_Route p mr) s = server_route R p mr s"
| "server_apply R (Add_Layer l) s = server_layer_add R l s"

fun op_paths :: "('h, 'x) server_op list \<Rightarrow> string list" where
  "op_paths [] = []"
| "op_paths (Add_Route p mr # ops) = p # op_paths ops"
| "op_paths (Add_Layer l # ops) = op_paths ops"

fun op_layers :: "('h, 'x) server_op list \<Rightarrow> 'x server_layer list" where
  "op_layers [] = []"
| "op_layers (Add_Route p mr # ops) = op_layers ops"
| "op_layers (Add_Layer l # ops) = l # op_layers ops"

lemma op_paths_append [simp]: "op_paths (xs @ ys) = op_paths xs @ op_paths ys"
  by (induction xs rule: op_paths.induct) auto

lemma op_layers_append: "op_layers (xs @ ys) = op_layers xs @ op_layers ys"
  by (induction xs rule: op_layers.induct) auto

lemma layers_of_ops:
  assumes "axum_documented R layers_of"
  shows "distinct (op_paths ops) \<Longrightarrow> \<forall>q \<in> set (op_paths ops). layers_of (sr_router s) q = None \<Longrightarrow> p \<notin> set (op_paths ops)
    \<Longrightarrow> layers_of (sr_router (fold (server_apply R) ops s)) p = map_option ((@) (rev (op_layers ops))) (layers_of (sr_router s) p)"
proof (induction ops arbitrary: s rule: op_paths.induct)
  case (2 q mr ops)
  have u: "layers_of (sr_router (server_route R q mr s)) x = (if x = q then Some [] else layers_of (sr_router s) x)" for x
    using 2(3) assms by (simp add: server_route_def axum_documented_def)
  have "layers_of (sr_router (fold (server_apply R) ops (server_route R q mr s))) p =
      map_option ((@) (rev (op_layers ops))) (layers_of (sr_router (server_route R q mr s)) p)"
    by (rule 2(1)) (use 2(2-4) u in auto)
  then show ?case using 2(4) u by simp
next
  case (3 l ops)
  have u: "layers_of (sr_router (server_layer_add R l s)) x = map_option ((#) l) (layers_of (sr_router s) x)" for x
    using assms by (simp add: server_layer_add_def axum_documented_def)
  have "layers_of (sr_router (fold (server_apply R) ops (server_layer_add R l s))) p =
      map_option ((@) (rev (op_layers ops))) (layers_of (sr_router (server_layer_add R l s)) p)"
    by (rule 3(1)) (use 3(2-4) u in auto)
  then show ?case using u by (simp add: option.map_comp comp_def)
next
  case 1
  show ?case by (cases "layers_of (sr_router s) p") simp_all
qed

lemma layers_of_absent:
  assumes "axum_documented R layers_of"
    and "distinct (op_paths ops)" "\<forall>q \<in> insert p (set (op_paths ops)). layers_of (sr_router s) q = None" "p \<notin> set (op_paths ops)"
  shows "layers_of (sr_router (fold (server_apply R) ops s)) p = None"
  using layers_of_ops [OF assms(1,2) _ assms(4), of s] assms(3) by simp

lemma layers_of_new: "axum_documented R layers_of \<Longrightarrow> layers_of (sr_router (server_new R build host port)) p = None"
  by (simp add: axum_documented_def server_new_def)

lemma register_builtin_ops:
  "register_builtin_endpoints R H s = fold (server_apply R) (map (\<lambda>(p, mr). Add_Route p mr) (builtin_routes H s)) s"
proof -
  have "fold (\<lambda>(p, mr). server_route R p mr) rs t = fold (server_apply R) (map (\<lambda>(p, mr). Add_Route p mr) rs) t" for rs t
    by (induction rs arbitrary: t) auto
  then show ?thesis by (simp add: register_builtin_endpoints_def)
qed

lemma op_paths_routes [simp]: "op_paths (map (\<lambda>(p, mr). Add_Route p mr) rs) = map fst rs"
  by (induction rs) auto

lemma op_layers_routes [simp]: "op_layers (map (\<lambda>(p, mr). Add_Route p mr) rs) = []"
  by (induction rs) auto

section \<open>Properties\<close>

text \<open>
  Every layer of the server wraps only the routes added before it: whatever routes with distinct paths and layers
  are added to a new server, in whatever order, when it is started the layers around a route are those added
  after it.  In particular the CORS, compression and tracing layers that \<open>new\<close> installs wrap no route at all, and no
  layer wraps the built-in endpoints.
\<close>

theorem layers_cover_earlier_routes:
  fixes R :: "('r, 'h, 'x) router_api" and H :: "('h, 'm, 'o) builtin_handlers"
  assumes doc: "axum_documented R layers_of" and ops: "ops = xs @ Add_Route p mr # ys"
    and s: "s = fold (server_apply R) ops (server_new R build host port :: ('r, 'm, 'o) rszero_server)"
    and dist: "distinct (op_paths ops @ map fst (builtin_routes H s))"
  shows "layers_of (sr_router (register_builtin_endpoints R H s)) p = Some (rev (op_layers ys))
    \<and> (\<forall>q \<in> set (map fst (builtin_routes H s)). layers_of (sr_router (register_builtin_endpoints R H s)) q = Some [])"
proof (intro conjI ballI)
  let ?new = "server_new R build host port :: ('r, 'm, 'o) rszero_server"
  let ?b = "builtin_routes H s" and ?ops = "\<lambda>rs. map (\<lambda>(p, mr). Add_Route p mr) rs :: ('h, 'x) server_op list"
  have all: "register_builtin_endpoints R H s = fold (server_apply R) (ops @ ?ops ?b) ?new"
    by (simp add: register_builtin_ops s)
  have at: "layers_of (sr_router (register_builtin_endpoints R H s)) q = Some (rev (op_layers bs))"
    if split: "ops @ ?ops ?b = as @ Add_Route q m' # bs" for as bs :: "('h, 'x) server_op list" and q m'
  proof -
    have "distinct (op_paths (ops @ ?ops ?b))" using dist by simp
    then have d: "distinct (op_paths as)" "q \<notin> set (op_paths as)" "distinct (op_paths bs)" "q \<notin> set (op_paths bs)"
      "set (op_paths as) \<inter> set (op_paths bs) = {}"
      unfolding split by auto
    let ?u = "fold (server_apply R) as ?new"
    have none: "layers_of (sr_router ?u) x = None" if "x \<notin> set (op_paths as)" for x
      by (rule layers_of_absent [OF doc d(1) _ that]) (simp add: layers_of_new [OF doc])
    have q: "layers_of (sr_router (server_route R q m' ?u)) x = (if x = q then Some [] else layers_of (sr_router ?u) x)" for x
      using doc none [OF d(2)] by (simp add: axum_documented_def server_route_def)
    have fresh: "\<forall>x \<in> set (op_paths bs). layers_of (sr_router (server_route R q m' ?u)) x = None"
      using d none by (auto simp: q)
    have "layers_of (sr_router (fold (server_apply R) bs (server_route R q m' ?u))) q = map_option ((@) (rev (op_layers bs))) (Some [])"
      using layers_of_ops [OF doc d(3) _ d(4), where s = "server_route R q m' ?u"] fresh by (simp add: q)
    then show ?thesis unfolding all split by simp
  qed
  show "layers_of (sr_router (register_builtin_endpoints R H s)) p = Some (rev (op_layers ys))"
    using at [of xs p mr "ys @ ?ops ?b"] ops by (simp add: op_layers_append)
  fix q assume "q \<in> set (map fst ?b)"
  then obtain m' where "(q, m') \<in> set ?b" by auto
  then obtain as bs where "?b = as @ (q, m') # bs" by (auto simp: in_set_conv_decomp)
  then show "layers_of (sr_router (register_builtin_endpoints R H s)) q = Some []"
    using at [of "ops @ ?ops as" q m' "?ops bs"] by simp
qed

definition demo_router :: "((string \<times> unit server_layer list) list, unit, unit) router_api" where
  "demo_router = \<lparr>ro_new = [], ro_route = (\<lambda>p _ r. (p, []) # r), ro_merge = (@), ro_layer = (\<lambda>l. map (\<lambda>(q, ls). (q, l # ls)))\<rparr>"

lemma demo_router_documented: "axum_documented demo_router map_of"
proof -
  have "map_of (map (\<lambda>(q, ls). (q, l # ls)) r) q = map_option ((#) l) (map_of r q)" for l :: "unit server_layer" and r and q :: string
    by (induction r) auto
  then show ?thesis by (simp add: axum_documented_def demo_router_def)
qed

theorem layers_cover_earlier_routes_witness:
  "\<exists>s :: ((string \<times> unit server_layer list) list, unit, unit) rszero_server.
     s = fold (server_apply demo_router) [Add_Route ''/a'' (), Add_Layer Compression] (server_new demo_router (\<lambda>_. \<lparr>cy_origins = Allow_Any, cy_methods = Allow_Any, cy_headers = Allow_Any\<rparr>) ''h'' 80)
     \<and> map_of (sr_router (register_builtin_endpoints demo_router \<lparr>of_health = \<lambda>_. (), of_ready = \<lambda>_. (), of_metrics = \<lambda>_. (), of_openapi = \<lambda>_. ()\<rparr> s)) ''/a'' = Some [Compression]"
proof (intro exI conjI)
  let ?H = "\<lparr>of_health = \<lambda>_. (), of_ready = \<lambda>_. (), of_metrics = \<lambda>_. (), of_openapi = \<lambda>_. ()\<rparr> :: (unit, unit, unit) builtin_handlers"
  let ?ops = "[Add_Route ''/a'' (), Add_Layer Compression] :: (unit, unit) server_op list"
  let ?s = "fold (server_apply demo_router) ?ops (server_new demo_router (\<lambda>_. \<lparr>cy_origins = Allow_Any, cy_methods = Allow_Any, cy_headers = Allow_Any\<rparr>) ''h'' 80)
    :: ((string \<times> unit server_layer list) list, unit, unit) rszero_server"
  show "?s = ?s" ..
  have "distinct (op_paths ?ops @ map fst (builtin_routes ?H ?s))"
    by (simp add: builtin_routes_def server_new_def server_route_def server_layer_add_def)
  then show "map_of (sr_router (register_builtin_endpoints demo_router ?H ?s)) ''/a'' = Some [Compression]"
    using layers_cover_earlier_routes [OF demo_router_documented, of ?ops "[]" "''/a''" "()" "[Add_Layer Compression]" ?s _ _ _ ?H] by simp
qed

text \<open>
  A started server does not live longer than thirty seconds: the drain timer runs from the start and not from the
  shutdown signal, so a server that never gets the signal, or gets it later, returns success after thirty
  seconds, with its requests in flight.
\<close>

theorem server_lifetime:
  "fst (start_with_shutdown R H bind serve coin s) \<le> drain_timeout
   \<and> start_with_shutdown R H (\<lambda>_. Ok ()) (\<lambda>_. graceful None drain) coin s = (drain_timeout, Ok ())
   \<and> (drain_timeout < t + drain \<longrightarrow> start_with_shutdown R H (\<lambda>_. Ok ()) (\<lambda>_. graceful (Some t) drain) coin s = (drain_timeout, Ok ()))"
  by (auto simp: start_with_shutdown_def Let_def graceful_def drain_timeout_def split: sum.split option.split)

text \<open>
  The two ways a handler answers with an application code choose the same status exactly for success, for codes from
  400 on, and for those whose low sixteen bits are 200; a small code such as 1 is 400 in one and 200 in the other.
\<close>

theorem reply_status_agree_iff:
  assumes "status_code_range f"
  shows "reply_status f r = httpx_error_status f (jr_code r) \<longleftrightarrow>
    jr_code r = 0 \<or> 400 \<le> jr_code r \<or> jr_code r mod 2 ^ 16 = 200"
proof (cases "jr_code r = 0 \<or> 400 \<le> jr_code r")
  case False
  let ?w = "word_of_int (jr_code r) :: u16"
  have "?w = 200 \<longleftrightarrow> jr_code r mod 2 ^ 16 = 200"
    using word_of_int_eq_iff [of "jr_code r" 200, where 'a = 16] by (simp add: take_bit_eq_mod)
  with False assms show ?thesis
    by (auto simp: reply_status_def httpx_error_status_def status_code_range_def)
qed (auto simp: reply_status_def httpx_error_status_def)

end
