(* ===== verification/Openapi.thy ===== *)
theory Openapi
  imports Rest_Server
begin

text \<open>
  The OpenAPI builder (\<open>rszero/src/openapi/mod.rs\<close> and \<open>types.rs\<close>) and the server's \<open>route_doc\<close>.  A JSON object is its list of
  members; inserting a member replaces the one with the same key.  The \<open>expect\<close>s of the builder are the outcome
  \<open>Panic\<close>.
\<close>

section \<open>Operations, parameters and security schemes\<close>

record parameter =
  pa_name :: string
  pa_location :: string
  pa_required :: bool
  pa_schema_type :: string
  pa_description :: "string option"

record api_operation =
  ao_summary :: string
  ao_description :: "string option"
  ao_tags :: "string list"
  ao_parameters :: "parameter list"
  ao_responses :: json

definition operation_new :: "string \<Rightarrow> api_operation" where
  "operation_new s = \<lparr>ao_summary = s, ao_description = None, ao_tags = [], ao_parameters = [],
     ao_responses = JObject [(''200'', JObject [(''description'', JString ''Success'')])]\<rparr>"

definition operation_description :: "string \<Rightarrow> api_operation \<Rightarrow> api_operation" where
  "operation_description d p = p\<lparr>ao_description := Some d\<rparr>"

definition operation_tag :: "string \<Rightarrow> api_operation \<Rightarrow> api_operation" where
  "operation_tag t p = p\<lparr>ao_tags := ao_tags p @ [t]\<rparr>"

definition path_param :: "string \<Rightarrow> string \<Rightarrow> api_operation \<Rightarrow> api_operation" where
  "path_param nm ty p = p\<lparr>ao_parameters := ao_parameters p @
     [\<lparr>pa_name = nm, pa_location = ''path'', pa_required = True, pa_schema_type = ty, pa_description = None\<rparr>]\<rparr>"

definition query_param :: "string \<Rightarrow> string \<Rightarrow> api_operation \<Rightarrow> api_operation" where
  "query_param nm ty p = p\<lparr>ao_parameters := ao_parameters p @
     [\<lparr>pa_name = nm, pa_location = ''query'', pa_required = False, pa_schema_type = ty, pa_description = None\<rparr>]\<rparr>"

record security_scheme =
  se_type :: string
  se_scheme :: "string option"
  se_bearer_format :: "string option"

definition security_jwt :: security_scheme where
  "security_jwt = \<lparr>se_type = ''http'', se_scheme = Some ''bearer'', se_bearer_format = Some ''JWT''\<rparr>"

text \<open>The location of an API key is not used.\<close>

definition security_api_key :: "string \<Rightarrow> security_scheme" where
  "security_api_key location = \<lparr>se_type = ''apiKey'', se_scheme = None, se_bearer_format = None\<rparr>"

section \<open>Serialisation\<close>

definition opt_member :: "string \<Rightarrow> string option \<Rightarrow> (string \<times> json) list" where
  "opt_member k v = (case v of Some s \<Rightarrow> [(k, JString s)] | None \<Rightarrow> [])"

definition list_member :: "string \<Rightarrow> json list \<Rightarrow> (string \<times> json) list" where
  "list_member k vs = (if vs = [] then [] else [(k, JArray vs)])"

definition parameter_json :: "parameter \<Rightarrow> json" where
  "parameter_json p = JObject ([(''name'', JString (pa_name p)), (''in'', JString (pa_location p)), (''required'', JBool (pa_required p)),
     (''schema'', JObject [(''type'', JString (pa_schema_type p))])] @ opt_member ''description'' (pa_description p))"

definition operation_json :: "api_operation \<Rightarrow> json" where
  "operation_json p = JObject ((''summary'', JString (ao_summary p)) # opt_member ''description'' (ao_description p)
     @ list_member ''tags'' (map JString (ao_tags p)) @ list_member ''parameters'' (map parameter_json (ao_parameters p)) @ [(''responses'', ao_responses p)])"

definition security_json :: "security_scheme \<Rightarrow> json" where
  "security_json x = JObject ((''type'', JString (se_type x)) # opt_member ''scheme'' (se_scheme x) @ opt_member ''bearerFormat'' (se_bearer_format x))"

section \<open>The document\<close>

record open_api_spec =
  oa_openapi :: string
  oa_title :: string
  oa_version :: string
  oa_description :: "string option"
  oa_paths :: json
  oa_components :: "json option"

definition spec_default :: open_api_spec where
  "spec_default = \<lparr>oa_openapi = ''3.0.0'', oa_title = [], oa_version = [], oa_description = None, oa_paths = JObject [], oa_components = None\<rparr>"

definition spec_new :: "string \<Rightarrow> string \<Rightarrow> open_api_spec" where
  "spec_new title version = \<lparr>oa_openapi = ''3.0.0'', oa_title = title, oa_version = version, oa_description = None, oa_paths = JObject [], oa_components = None\<rparr>"

definition spec_description :: "string \<Rightarrow> open_api_spec \<Rightarrow> open_api_spec" where
  "spec_description d s = s\<lparr>oa_description := Some d\<rparr>"

text \<open>
  Both \<open>path\<close> and \<open>security_scheme\<close> set a member of an object inside an object, making the inner object if it is
  missing.
\<close>

definition insert_nested :: "string \<Rightarrow> string \<Rightarrow> json \<Rightarrow> json \<Rightarrow> json outcome" where
  "insert_nested k k' v j =
     (case j of
        JObject ms \<Rightarrow>
          (case (case map_of ms k of Some x \<Rightarrow> x | None \<Rightarrow> JObject []) of
             JObject inner \<Rightarrow> Done (JObject (AList.update k (JObject (AList.update k' v inner)) ms))
           | _ \<Rightarrow> Panic)
      | _ \<Rightarrow> Panic)"

definition spec_path :: "string \<Rightarrow> string \<Rightarrow> api_operation \<Rightarrow> open_api_spec \<Rightarrow> open_api_spec outcome" where
  "spec_path path mtd p s =
     (case insert_nested path (map to_ascii_lower mtd) (operation_json p) (oa_paths s) of
        Done j \<Rightarrow> Done (s\<lparr>oa_paths := j\<rparr>)
      | Panic \<Rightarrow> Panic)"

definition spec_security :: "string \<Rightarrow> security_scheme \<Rightarrow> open_api_spec \<Rightarrow> open_api_spec outcome" where
  "spec_security nm x s =
     (case insert_nested ''securitySchemes'' nm (security_json x) (case oa_components s of Some c \<Rightarrow> c | None \<Rightarrow> JObject []) of
        Done j \<Rightarrow> Done (s\<lparr>oa_components := Some j\<rparr>)
      | Panic \<Rightarrow> Panic)"

definition spec_json :: "open_api_spec \<Rightarrow> json" where
  "spec_json s = JObject ([(''openapi'', JString (oa_openapi s)),
      (''info'', JObject ([(''title'', JString (oa_title s)), (''version'', JString (oa_version s))] @ opt_member ''description'' (oa_description s))),
      (''paths'', oa_paths s)] @ (case oa_components s of Some c \<Rightarrow> [(''components'', c)] | None \<Rightarrow> []))"

definition spec_to_json :: "(json \<Rightarrow> (string, string) result) \<Rightarrow> open_api_spec \<Rightarrow> (string, string) result" where
  "spec_to_json pretty s = pretty (spec_json s)"

text \<open>The server's \<open>route_doc\<close>; the document is taken out and put back.\<close>

definition route_doc :: "string \<Rightarrow> string \<Rightarrow> api_operation \<Rightarrow> ('r, 'm, open_api_spec) rszero_server \<Rightarrow> ('r, 'm, open_api_spec) rszero_server outcome" where
  "route_doc path mtd p s =
     (case spec_path path mtd p (case sr_openapi s of Some x \<Rightarrow> x | None \<Rightarrow> spec_new ''API'' ''1.0.0'') of
        Done x \<Rightarrow> Done (s\<lparr>sr_openapi := Some x\<rparr>)
      | Panic \<Rightarrow> Panic)"

section \<open>Well-formed documents\<close>

text \<open>Objects of objects, and the member of an inner object.\<close>

fun nested_object :: "json \<Rightarrow> bool" where
  "nested_object (JObject ms) = list_all (\<lambda>(k, v). is_object v) ms"
| "nested_object _ = False"

definition spec_ok :: "open_api_spec \<Rightarrow> bool" where
  "spec_ok s \<longleftrightarrow> nested_object (oa_paths s) \<and> (case oa_components s of Some c \<Rightarrow> nested_object c | None \<Rightarrow> True)"

definition nested_get :: "string \<Rightarrow> string \<Rightarrow> json \<Rightarrow> json option" where
  "nested_get k k' j = Option.bind (json_get k j) (json_get k')"

lemma insert_nested_ok:
  assumes "nested_object j"
  shows "\<exists>j'. insert_nested k k' v j = Done j' \<and> nested_object j'
    \<and> (\<forall>a b. nested_get a b j' = (if a = k \<and> b = k' then Some v else nested_get a b j))"
proof -
  obtain ms where j: "j = JObject ms" "list_all (\<lambda>(k, v). is_object v) ms" using assms by (cases j) auto
  have "is_object (case map_of ms k of Some x \<Rightarrow> x | None \<Rightarrow> JObject [])"
    using j(2) by (auto simp: list_all_iff dest: map_of_SomeD split: option.split)
  then obtain inner where inner: "(case map_of ms k of Some x \<Rightarrow> x | None \<Rightarrow> JObject []) = JObject inner"
    by (cases "case map_of ms k of Some x \<Rightarrow> x | None \<Rightarrow> JObject []") auto
  let ?ms = "AList.update k (JObject (AList.update k' v inner)) ms"
  have "list_all (\<lambda>(k, v). is_object v) ?ms" using j(2) by (auto simp: list_all_iff dest!: subsetD [OF set_alist_update])
  moreover have "nested_get a b (JObject ?ms) = (if a = k \<and> b = k' then Some v else nested_get a b j)" for a b
    using inner by (auto simp: nested_get_def j(1) update_conv split: option.splits)
  ultimately show ?thesis using inner by (simp add: insert_nested_def j(1))
qed

section \<open>Properties\<close>

datatype spec_op = Doc_Path string string api_operation | Doc_Security string security_scheme

fun spec_apply :: "spec_op \<Rightarrow> open_api_spec \<Rightarrow> open_api_spec outcome" where
  "spec_apply (Doc_Path p mtd x) s = spec_path p mtd x s"
| "spec_apply (Doc_Security nm x) s = spec_security nm x s"

fun spec_build :: "spec_op list \<Rightarrow> open_api_spec \<Rightarrow> open_api_spec outcome" where
  "spec_build [] s = Done s"
| "spec_build (x # xs) s = (case spec_apply x s of Done s' \<Rightarrow> spec_build xs s' | Panic \<Rightarrow> Panic)"

text \<open>The operation last documented for a path and a method, if there is one.\<close>

fun documented :: "spec_op list \<Rightarrow> string \<Rightarrow> string \<Rightarrow> api_operation option" where
  "documented [] p mtd = None"
| "documented (Doc_Path p' mtd' x # xs) p mtd =
     (case documented xs p mtd of Some y \<Rightarrow> Some y
      | None \<Rightarrow> if p' = p \<and> map to_ascii_lower mtd' = mtd then Some x else None)"
| "documented (Doc_Security _ _ # xs) p mtd = documented xs p mtd"

lemma spec_apply_ok:
  assumes "spec_ok s"
  shows "\<exists>s'. spec_apply x s = Done s' \<and> spec_ok s' \<and> (\<forall>p mtd. nested_get p mtd (oa_paths s') =
      (case documented [x] p mtd of Some y \<Rightarrow> Some (operation_json y) | None \<Rightarrow> nested_get p mtd (oa_paths s)))"
proof (cases x)
  case (Doc_Path p mtd y)
  have "nested_object (oa_paths s)" using assms by (simp add: spec_ok_def)
  from insert_nested_ok [OF this, of p "map to_ascii_lower mtd" "operation_json y"]
  show ?thesis using assms Doc_Path by (auto simp: spec_path_def spec_ok_def)
next
  case (Doc_Security nm y)
  have "nested_object (case oa_components s of Some c \<Rightarrow> c | None \<Rightarrow> JObject [])"
    using assms by (simp add: spec_ok_def split: option.splits)
  from insert_nested_ok [OF this, of "''securitySchemes''" nm "security_json y"]
  show ?thesis using assms Doc_Security by (auto simp: spec_security_def spec_ok_def)
qed

text \<open>
  The document has what was documented: whatever paths and security schemes are added to a new document, no \<open>expect\<close>
  of the builder fails, and looking up a path and a lower-case method in its paths gives the operation added last
  for them, and nothing if there is none.
\<close>

theorem spec_build_paths:
  "\<exists>s. spec_build xs (spec_new title version) = Done s \<and> spec_ok s
     \<and> (\<forall>p mtd. nested_get p mtd (oa_paths s) = map_option operation_json (documented xs p mtd))"
proof -
  have gen: "\<exists>t. spec_build xs s = Done t \<and> spec_ok t \<and> (\<forall>p mtd. nested_get p mtd (oa_paths t) =
      (case documented xs p mtd of Some y \<Rightarrow> Some (operation_json y) | None \<Rightarrow> nested_get p mtd (oa_paths s)))" if "spec_ok s" for s
    using that
  proof (induction xs arbitrary: s)
    case (Cons x xs)
    obtain u where u: "spec_apply x s = Done u" "spec_ok u" "\<And>p mtd. nested_get p mtd (oa_paths u) =
        (case documented [x] p mtd of Some y \<Rightarrow> Some (operation_json y) | None \<Rightarrow> nested_get p mtd (oa_paths s))"
      using spec_apply_ok [OF Cons.prems, of x] by blast
    obtain t where t: "spec_build xs u = Done t" "spec_ok t" "\<And>p mtd. nested_get p mtd (oa_paths t) =
        (case documented xs p mtd of Some y \<Rightarrow> Some (operation_json y) | None \<Rightarrow> nested_get p mtd (oa_paths u))"
      using Cons.IH [OF u(2)] by blast
    have "(case documented (x # xs) p mtd of Some y \<Rightarrow> Some (operation_json y) | None \<Rightarrow> nested_get p mtd (oa_paths s))
        = nested_get p mtd (oa_paths t)" for p mtd
      unfolding t(3) u(3) by (cases x) (auto split: option.splits)
    with t u(1) show ?case by (intro exI [of _ t]) simp
  qed simp
  have "spec_ok (spec_new title version)" by (simp add: spec_ok_def spec_new_def)
  moreover have "nested_get p mtd (oa_paths (spec_new title version)) = None" for p mtd
    by (simp add: nested_get_def spec_new_def)
  ultimately show ?thesis using gen [of "spec_new title version"] by (auto simp: map_option_case split: option.split)
qed

end
