(* ===== verification/Observability.thy ===== *)
theory Observability
  imports Http_Middleware Trace_Context
begin

text \<open>
  The logging, tracing and access-log middleware (\<open>log.rs\<close>, \<open>trace.rs\<close> and \<open>access_log.rs\<close> under \<open>rszero/src/middleware/\<close>).  What a
  middleware logs is returned beside the response and the world.  Tracing is modelled with the \<open>trace\<close>
  feature; random bytes and clock readings are arguments.
\<close>

section \<open>Request logging\<close>

definition sensitive_query_params :: "string list" where
  "sensitive_query_params = [''token'', ''api_key'', ''apikey'', ''password'', ''secret'', ''auth'', ''session'', ''jwt'', ''credential'']"

definition sensitive_headers :: "string list" where
  "sensitive_headers = [''authorization'', ''cookie'', ''x-api-key'', ''x-auth-token'']"

definition sensitive_key :: "string \<Rightarrow> bool" where
  "sensitive_key k \<longleftrightarrow> list_ex (\<lambda>s. contains_str s (map to_ascii_lower k)) sensitive_query_params"

text \<open>\<open>str::split_once\<close> and \<open>join\<close>.\<close>

fun split_once :: "char \<Rightarrow> string \<Rightarrow> (string \<times> string) option" where
  "split_once d [] = None"
| "split_once d (c # cs) = (if c = d then Some ([], cs) else map_option (\<lambda>(a, b). (c # a, b)) (split_once d cs))"

fun join_with :: "char \<Rightarrow> string list \<Rightarrow> string" where
  "join_with d [] = []"
| "join_with d [p] = p"
| "join_with d (p # q # ps) = p @ d # join_with d (q # ps)"

definition mask_pair :: "string \<Rightarrow> string" where
  "mask_pair pair =
     (case split_once (CHR ''='') pair of
        Some (k, v) \<Rightarrow> if sensitive_key k then k @ ''=***'' else pair
      | None \<Rightarrow> pair)"

text \<open>The query of a URI, if it has one, as the argument.\<close>

definition mask_query :: "string option \<Rightarrow> string" where
  "mask_query query =
     (let q = (case query of Some q \<Rightarrow> q | None \<Rightarrow> [])
      in if q = [] then [] else join_with (CHR ''&'') (map mask_pair (split_on (CHR ''&'') q)))"

definition safe_uri :: "string \<Rightarrow> string option \<Rightarrow> string" where
  "safe_uri path query =
     (let mq = mask_query query in if mq = [] then path else path @ ''?'' @ mq)"

datatype log_entry =
    Sensitive_Header string string
  | Request_Completed string string nat nat

definition mask_header :: "string \<Rightarrow> string" where
  "mask_header v =
     (case to_str v of
        Some s \<Rightarrow> if 8 < length s then take 8 s @ ''...'' else ''***''
      | None \<Rightarrow> ''***'')"

definition header_log :: "(string \<times> string) list \<Rightarrow> log_entry list" where
  "header_log hs = map (\<lambda>(nm, v). Sensitive_Header nm (mask_header v)) (filter (\<lambda>(nm, v). map to_ascii_lower nm \<in> set sensitive_headers) hs)"

definition log_middleware ::
  "string option \<Rightarrow> duration \<Rightarrow> 'w handler \<Rightarrow> http_request \<Rightarrow> 'w \<Rightarrow> http_response \<times> 'w \<times> log_entry list" where
  "log_middleware query elapsed next req w =
     (case next req w of
        (res, w') \<Rightarrow>
          (res, w', header_log (rq_headers req) @ [Request_Completed (rq_method req) (safe_uri (rq_path req) query) (rs_status res) (elapsed div 10 ^ 6)]))"

section \<open>Access log\<close>

record access_log_entry =
  ae_timestamp :: string
  ae_method :: string
  ae_uri :: string
  ae_client_ip :: "string option"
  ae_user_agent :: "string option"
  ae_status :: nat
  ae_duration_ms :: u64
  ae_request_id :: "string option"
  ae_response_length :: "nat option"

text \<open>\<open>trim\<close> is \<open>str::trim\<close>.\<close>

definition client_ip :: "(string \<Rightarrow> string) \<Rightarrow> http_request \<Rightarrow> string option" where
  "client_ip trim req =
     map_option (\<lambda>s. trim (hd (split_on (CHR '','') s)))
       (Option.bind (case header_get ''x-forwarded-for'' (rq_headers req) of Some v \<Rightarrow> Some v | None \<Rightarrow> header_get ''x-real-ip'' (rq_headers req)) to_str)"

definition access_log_middleware ::
  "(string \<Rightarrow> string) \<Rightarrow> string \<Rightarrow> duration \<Rightarrow> 'w handler \<Rightarrow> http_request \<Rightarrow> 'w \<Rightarrow> http_response \<times> 'w \<times> access_log_entry" where
  "access_log_middleware trim timestamp elapsed next req w =
     (case next req w of
        (res, w') \<Rightarrow>
          (res, w',
           \<lparr>ae_timestamp = timestamp, ae_method = rq_method req, ae_uri = rq_uri req, ae_client_ip = client_ip trim req,
            ae_user_agent = header_str ''user-agent'' req, ae_status = rs_status res, ae_duration_ms = word_of_nat (elapsed div 10 ^ 6),
            ae_request_id = header_str request_id_header req,
            ae_response_length = Option.bind (Option.bind (header_get ''content-length'' (rs_headers res)) to_str) (parse_uint (2 ^ 64 - 1))\<rparr>))"

section \<open>Tracing\<close>

text \<open>Sixteen random bytes make a trace identifier and eight a span identifier.\<close>

definition generate_trace_id :: "u8 list \<Rightarrow> string" where
  "generate_trace_id draws = generate_hex (take 16 draws)"

definition generate_span_id :: "u8 list \<Rightarrow> string" where
  "generate_span_id draws = generate_hex (take 8 draws)"

definition fallback_trace_info :: "u8 list \<Rightarrow> u8 list \<Rightarrow> http_request \<Rightarrow> string \<times> string \<times> bool" where
  "fallback_trace_info a b req =
     (case header_str ''X-Trace-Id'' req of Some s \<Rightarrow> s | None \<Rightarrow> generate_trace_id a,
      generate_span_id b,
      case header_str ''X-Sampled'' req of Some s \<Rightarrow> s = ''true'' | None \<Rightarrow> True)"

definition trace_info :: "u8 list \<Rightarrow> u8 list \<Rightarrow> http_request \<Rightarrow> string \<times> string \<times> bool" where
  "trace_info a b req =
     (case Option.bind (header_str ''traceparent'' req) trace_context_parse of
        Some tp \<Rightarrow> (tc_trace_id tp, tc_parent_span_id tp, and (tc_flags tp) 1 = 1)
      | None \<Rightarrow> fallback_trace_info a b req)"

text \<open>\<open>HeaderValue::from_str\<close> accepts what \<open>to_str\<close> gives back.\<close>

definition insert_valid :: "string \<Rightarrow> string \<Rightarrow> (string \<times> string) list \<Rightarrow> (string \<times> string) list" where
  "insert_valid nm v hs = (case to_str v of Some x \<Rightarrow> header_insert nm x hs | None \<Rightarrow> hs)"

definition insert_or :: "string \<Rightarrow> string \<Rightarrow> string \<Rightarrow> (string \<times> string) list \<Rightarrow> (string \<times> string) list" where
  "insert_or dflt nm v hs = header_insert nm (case to_str v of Some x \<Rightarrow> x | None \<Rightarrow> dflt) hs"

definition traceparent_of :: "string \<times> string \<times> bool \<Rightarrow> string" where
  "traceparent_of = (\<lambda>(tid, sid, sampled). to_traceparent \<lparr>tc_trace_id = tid, tc_parent_span_id = sid, tc_flags = if sampled then 1 else 0\<rparr>)"

definition traced_request :: "string \<times> string \<times> bool \<Rightarrow> http_request \<Rightarrow> http_request" where
  "traced_request info req =
     (case info of (tid, sid, _) \<Rightarrow>
        req\<lparr>rq_headers := insert_valid ''X-Span-Id'' sid (insert_valid ''X-Trace-Id'' tid (insert_valid ''traceparent'' (traceparent_of info) (rq_headers req)))\<rparr>)"

definition trace_middleware :: "u8 list \<Rightarrow> u8 list \<Rightarrow> 'w handler \<Rightarrow> 'w handler" where
  "trace_middleware a b next req w =
     (let info = trace_info a b req
      in case next (traced_request info req) w of
           (res, w') \<Rightarrow>
             (res\<lparr>rs_headers := insert_or ''unknown'' ''X-Trace-Id'' (fst info)
                (insert_or ''00-00000000000000000000000000000000-0000000000000000-00'' ''traceparent'' (traceparent_of info) (rs_headers res))\<rparr>, w'))"

section \<open>Lemmas\<close>

lemma split_once_append: "d \<notin> set k \<Longrightarrow> split_once d (k @ d # v) = Some (k, v)"
  by (induction k) auto

lemma split_on_join: "ps \<noteq> [] \<Longrightarrow> list_all (\<lambda>p. d \<notin> set p) ps \<Longrightarrow> split_on d (join_with d ps) = ps"
  by (induction d ps rule: join_with.induct) (auto simp: split_on_append split_on_no_sep)

lemma join_with_Nil: "join_with d ps = [] \<Longrightarrow> ps = [] \<or> ps = [[]]"
  by (cases "(d, ps)" rule: join_with.cases) auto

lemma header_get_insert_other: "\<not> same_name nm nm' \<Longrightarrow> header_get nm' (header_insert nm v hs) = header_get nm' hs"
  by (induction hs) (auto simp: header_get_def header_insert_def same_name_def)

lemma trace_names:
  "\<not> same_name ''X-Trace-Id'' ''traceparent''" "\<not> same_name ''X-Span-Id'' ''traceparent''"
  by (simp_all add: same_name_def to_ascii_lower_def)

lemma to_str_SomeI: "to_str s = Some s' \<Longrightarrow> set t \<subseteq> set s \<Longrightarrow> to_str t = Some t"
  by (auto simp: to_str_def list_all_iff split: if_splits)

lemma split_on_subset: "p \<in> set (split_on d s) \<Longrightarrow> set p \<subseteq> set s"
  by (induction s arbitrary: p) (auto split: if_splits list.splits, blast+)

lemma to_str_append: "to_str a = Some a \<Longrightarrow> to_str b = Some b \<Longrightarrow> to_str (a @ b) = Some (a @ b)"
  by (auto simp: to_str_def split: if_splits)

lemma parse_printable:
  assumes "to_str s = Some s'" and "trace_context_parse s = Some ctx"
  shows "to_str (tc_trace_id ctx) = Some (tc_trace_id ctx) \<and> to_str (tc_parent_span_id ctx) = Some (tc_parent_span_id ctx)"
proof -
  obtain v fl where "split_on (CHR ''-'') s = [v, tc_trace_id ctx, tc_parent_span_id ctx, fl]"
    using assms(2) by (auto simp: trace_context_parse_def split: list.splits option.splits if_splits)
  then show ?thesis using split_on_subset [of _ "CHR ''-''" s] to_str_SomeI [OF assms(1)] by simp
qed

lemma hex2_flags: "hex2 0 = ''00''" "hex2 1 = ''01''"
  by (simp_all add: hex2_def hex_char_def char_of_def bit_0)

lemma traceparent_of_printable:
  "to_str tid = Some tid \<Longrightarrow> to_str sid = Some sid \<Longrightarrow> to_str (traceparent_of (tid, sid, b)) = Some (traceparent_of (tid, sid, b))"
  unfolding traceparent_of_def to_traceparent_def prod.case trace_context.simps
  by (intro to_str_append) (auto simp: to_str_def hex2_flags)

section \<open>Properties\<close>

text \<open>
  The request log keeps secrets out of the query: for every list of parameters, the logged query has the same
  parameters in the same order with the value of each whose key contains a sensitive word, in any case, replaced
  by stars, and every other value kept.
\<close>

theorem mask_query_spec:
  assumes "pairs \<noteq> []" and "list_all (\<lambda>(k, v). CHR ''&'' \<notin> set k \<and> CHR ''='' \<notin> set k \<and> CHR ''&'' \<notin> set v) pairs"
  defines "render \<equiv> \<lambda>kvs. join_with (CHR ''&'') (map (\<lambda>(k, v). k @ ''='' @ v) kvs)"
  shows "mask_query (Some (render pairs)) = render (map (\<lambda>(k, v). (k, if sensitive_key k then ''***'' else v)) pairs)"
proof -
  let ?ps = "map (\<lambda>(k, v). k @ ''='' @ v) pairs"
  have ne: "?ps \<noteq> []" "?ps \<noteq> [[]]" using assms(1) by (auto simp: map_eq_Cons_conv)
  then have "render pairs \<noteq> []" using join_with_Nil [of "CHR ''&''" ?ps] by (auto simp: render_def)
  moreover have "split_on (CHR ''&'') (render pairs) = ?ps"
    unfolding render_def by (rule split_on_join) (use assms(1,2) in \<open>auto simp: list_all_iff\<close>)
  moreover have "map mask_pair ?ps = map (\<lambda>(k, v). k @ ''='' @ v) (map (\<lambda>(k, v). (k, if sensitive_key k then ''***'' else v)) pairs)"
    using assms(2) by (auto simp: list_all_iff mask_pair_def split_once_append)
  ultimately have "mask_query (Some (render pairs)) = join_with (CHR ''&'') (map (\<lambda>(k, v). k @ ''='' @ v) (map (\<lambda>(k, v). (k, if sensitive_key k then ''***'' else v)) pairs))"
    by (simp only: mask_query_def option.case Let_def if_False)
  then show ?thesis by (simp only: render_def)
qed

theorem mask_query_spec_witness:
  "mask_query (Some ''user=ann&Access_Token=t0p'') = ''user=ann&Access_Token=***''"
proof -
  have "sensitive_key ''Access_Token''" "\<not> sensitive_key ''user''"
    by (simp_all add: sensitive_key_def sensitive_query_params_def to_ascii_lower_def char_of_def bit_0)
  then show ?thesis using mask_query_spec [of "[(''user'', ''ann''), (''Access_Token'', ''t0p'')]"] by simp
qed

text \<open>
  A trace is continued: when a request carries a valid \<open>traceparent\<close>, the handler behind the middleware sees one with
  the same trace and span identifiers, and so does the client in the response; of the flags only the sampling bit
  survives.
\<close>

theorem trace_continued:
  assumes "header_str ''traceparent'' req = Some s" and "trace_context_parse s = Some ctx"
  shows "\<exists>req'. trace_middleware a b next req w =
       (case next req' w of (res, w') \<Rightarrow> (fst (trace_middleware a b next req w), w'))
     \<and> Option.bind (header_str ''traceparent'' req') trace_context_parse = Some (ctx\<lparr>tc_flags := and (tc_flags ctx) 1\<rparr>)
     \<and> Option.bind (header_get ''traceparent'' (rs_headers (fst (trace_middleware a b next req w)))) trace_context_parse
         = Some (ctx\<lparr>tc_flags := and (tc_flags ctx) 1\<rparr>)"
proof -
  let ?ctx = "ctx\<lparr>tc_flags := and (tc_flags ctx) 1\<rparr>"
  have str: "to_str s = Some s" using assms(1) by (auto simp: header_str_def to_str_def split: Option.bind_splits if_splits)
  have fl: "(if and (tc_flags ctx) 1 = 1 then 1 else 0) = and (tc_flags ctx) 1" by (simp add: and_one_eq)
  have info: "trace_info a b req = (tc_trace_id ctx, tc_parent_span_id ctx, and (tc_flags ctx) 1 = 1)"
    using assms by (simp add: trace_info_def)
  have tp: "traceparent_of (trace_info a b req) = to_traceparent ?ctx" by (simp add: info traceparent_of_def fl to_traceparent_def)
  have ok: "to_str (traceparent_of (trace_info a b req)) = Some (traceparent_of (trace_info a b req))"
    unfolding info using parse_printable [OF str assms(2)] by (intro traceparent_of_printable) auto
  have parse: "trace_context_parse (to_traceparent ?ctx) = Some ?ctx"
    using trace_ok_parse [OF assms(2)] by (intro parse_to_traceparent) (simp add: trace_ok_def)
  have "header_get ''traceparent'' (rq_headers (traced_request (trace_info a b req) req)) = Some (to_traceparent ?ctx)"
    using ok by (simp add: traced_request_def info header_get_insert_other trace_names insert_valid_def tp [unfolded info] split: option.split)
  then have req: "Option.bind (header_str ''traceparent'' (traced_request (trace_info a b req) req)) trace_context_parse = Some ?ctx"
    using ok by (simp add: header_str_def tp parse)
  have res: "Option.bind (header_get ''traceparent'' (rs_headers (fst (trace_middleware a b next req w)))) trace_context_parse = Some ?ctx"
    using ok parse by (simp add: trace_middleware_def Let_def insert_or_def header_get_insert_other trace_names tp split: prod.split)
  show ?thesis
    by (rule exI [of _ "traced_request (trace_info a b req) req"])
      (use req res in \<open>simp add: trace_middleware_def Let_def split: prod.split\<close>)
qed

definition demo_traced :: http_request where
  "demo_traced = \<lparr>rq_method = ''GET'', rq_path = ''/'', rq_uri = ''/'',
     rq_headers = [(''traceparent'', ''00-0123456789abcdef0123456789abcdef-0123456789abcdef-03'')], rq_body = Bytes [], rq_tenant = None, rq_canary = None\<rparr>"

theorem trace_continued_witness:
  "Option.bind (header_get ''traceparent'' (rs_headers (fst (trace_middleware [] [] (\<lambda>r w. (json_response 200 JNull, w)) demo_traced ())))) trace_context_parse
     = Some \<lparr>tc_trace_id = ''0123456789abcdef0123456789abcdef'', tc_parent_span_id = ''0123456789abcdef'', tc_flags = 1\<rparr>"
proof -
  let ?s = "''00-0123456789abcdef0123456789abcdef-0123456789abcdef-03''"
  have h: "header_str ''traceparent'' demo_traced = Some ?s"
    by (simp add: header_str_def header_get_def demo_traced_def same_name_def to_str_def)
  have p: "trace_context_parse ?s = Some \<lparr>tc_trace_id = ''0123456789abcdef0123456789abcdef'', tc_parent_span_id = ''0123456789abcdef'', tc_flags = 3\<rparr>"
    by (simp add: trace_context_parse_def u8_from_hex_def hex_value_def)
  show ?thesis using trace_continued [OF h p, of "[]" "[]" "\<lambda>r w. (json_response 200 JNull, w)" "()"] by simp
qed

text \<open>
  A legacy identifier that is not of the length the standard asks for makes a \<open>traceparent\<close> that no receiver parses.
\<close>

lemma legacy_trace_id_unparsable:
  assumes "header_str ''traceparent'' req = None" and "header_str ''X-Trace-Id'' req = Some s" and "CHR ''-'' \<notin> set s" and "length s \<noteq> 32"
  shows "trace_context_parse (traceparent_of (trace_info a b req)) = None"
proof -
  have "CHR ''-'' \<notin> set (generate_span_id b)" using generate_hex_ok by (simp add: generate_span_id_def)
  moreover have "CHR ''-'' \<notin> set (hex2 f)" for f by (rule hex2_plain)
  ultimately show ?thesis using assms
    by (simp add: trace_info_def fallback_trace_info_def traceparent_of_def to_traceparent_def trace_context_parse_def split_on_append split_on_no_sep
        split: option.split)
qed

end
