(* ===== verification/Scheduler.thy ===== *)
theory Scheduler
  imports Errors Transition_Systems
begin

text \<open>
  The task scheduler (\<open>rszero/src/scheduler/mod.rs\<close>).  A scheduled job is the spawned task with the cancellation token it shares with
  its handle; each step is a branch that its \<open>select\<close> takes, or an action on the handle.  The interval and the sleep of
  tokio are parameters: \<open>tick k\<close> is the time from which the \<open>k\<close>-th tick is ready.  An interval of zero, at which
  tokio panics, is excluded where it matters.
\<close>

record job =
  jb_cancelled :: bool
  jb_ended :: bool
  jb_now :: instant
  jb_runs :: "instant list"

datatype job_event =
    Run instant
  | Cancel_Job
  | End_Job

definition job_spawn :: "instant \<Rightarrow> job" where
  "job_spawn now = \<lparr>jb_cancelled = False, jb_ended = False, jb_now = now, jb_runs = []\<rparr>"

text \<open>\<open>JobHandle::cancel\<close>, and dropping the handle.\<close>

definition cancel :: "job \<Rightarrow> job" where
  "cancel j = j\<lparr>jb_cancelled := True\<rparr>"

text \<open>
  \<open>every\<close>: the loop runs the task at a tick that is ready, to its end, or leaves once the token is cancelled; when both
  are ready either may happen.
\<close>

fun every_step :: "(nat \<Rightarrow> instant) \<Rightarrow> job \<Rightarrow> job_event \<Rightarrow> job option" where
  "every_step tick j (Run now) =
     (if \<not> jb_ended j \<and> jb_now j \<le> now \<and> tick (length (jb_runs j)) \<le> now
      then Some (j\<lparr>jb_now := now, jb_runs := jb_runs j @ [now]\<rparr>) else None)"
| "every_step tick j Cancel_Job = Some (cancel j)"
| "every_step tick j End_Job = (if \<not> jb_ended j \<and> jb_cancelled j then Some (j\<lparr>jb_ended := True\<rparr>) else None)"

text \<open>\<open>after\<close>: the task runs once when the sleep is over, or never if the cancellation is taken first.\<close>

fun after_step :: "instant \<Rightarrow> job \<Rightarrow> job_event \<Rightarrow> job option" where
  "after_step due j (Run now) =
     (if \<not> jb_ended j \<and> jb_now j \<le> now \<and> due \<le> now
      then Some (j\<lparr>jb_ended := True, jb_now := now, jb_runs := jb_runs j @ [now]\<rparr>) else None)"
| "after_step due j Cancel_Job = Some (cancel j)"
| "after_step due j End_Job = (if \<not> jb_ended j \<and> jb_cancelled j then Some (j\<lparr>jb_ended := True\<rparr>) else None)"

text \<open>\<open>at\<close>: the delay until a time stamp of the system clock, zero if it has passed.\<close>

definition at_delay :: "instant \<Rightarrow> instant \<Rightarrow> duration" where
  "at_delay timestamp system_now = (if system_now \<le> timestamp then nat (timestamp - system_now) else 0)"

definition at_step :: "instant \<Rightarrow> instant \<Rightarrow> instant \<Rightarrow> job \<Rightarrow> job_event \<Rightarrow> job option" where
  "at_step timestamp system_now start = after_step (start + int (at_delay timestamp system_now))"

section \<open>Invariants\<close>

definition every_ok :: "(nat \<Rightarrow> instant) \<Rightarrow> job \<Rightarrow> bool" where
  "every_ok tick j \<longleftrightarrow> sorted (jb_runs j) \<and> (\<forall>t \<in> set (jb_runs j). t \<le> jb_now j) \<and> (\<forall>k < length (jb_runs j). tick k \<le> jb_runs j ! k)"

interpretation every: inductive_invariant "\<lambda>j. j = job_spawn start" "\<lambda>j e t. every_step tick j e = Some t" "every_ok tick" for tick start
proof unfold_locales
  fix j e t assume "every_ok tick j" "every_step tick j e = Some t"
  then show "every_ok tick t"
    by (cases e) (fastforce simp: every_ok_def cancel_def sorted_append nth_append less_Suc_eq split: if_splits)+
qed (simp add: every_ok_def job_spawn_def)

definition after_ok :: "instant \<Rightarrow> job \<Rightarrow> bool" where
  "after_ok due j \<longleftrightarrow> jb_runs j = [] \<or> jb_ended j \<and> (\<exists>t. due \<le> t \<and> jb_runs j = [t])"

interpretation after: inductive_invariant "\<lambda>j. j = job_spawn start" "\<lambda>j e t. after_step due j e = Some t" "after_ok due" for due start
proof unfold_locales
  fix j e t assume "after_ok due j" "after_step due j e = Some t"
  then show "after_ok due t" by (cases e) (auto simp: after_ok_def cancel_def split: if_splits)
qed (simp add: after_ok_def job_spawn_def)

text \<open>Once a job has ended, its task does not run again.\<close>

lemma every_ended:
  "run (\<lambda>j e t. every_step tick j e = Some t) j es t \<Longrightarrow> jb_ended j \<Longrightarrow> jb_ended t \<and> jb_runs t = jb_runs j"
proof (induction es arbitrary: j)
  case (Cons e es)
  then show ?case by (cases e) (auto simp: cancel_def)
qed simp

section \<open>The times at which tasks run\<close>

text \<open>
  With ticks as tokio documents them, the first at once and the others a period apart: in every run of the job the
  \<open>k\<close>-th execution is not before \<open>k\<close> periods after the start, so at most one more than the number of elapsed periods has
  happened.  The first can happen immediately, although it is documented to wait for the interval.
\<close>

theorem every_runs:
  assumes tick: "\<And>k. tick k = start + int k * int period" and period: "0 < period"
    and run: "run (\<lambda>j e t. every_step tick j e = Some t) (job_spawn start) es j"
  shows "(\<forall>k < length (jb_runs j). start + int k * int period \<le> jb_runs j ! k)
    \<and> (jb_runs j = [] \<or> (int (length (jb_runs j)) - 1) * int period \<le> jb_now j - start)
    \<and> every_step tick (job_spawn start) (Run start) = Some ((job_spawn start)\<lparr>jb_runs := [start]\<rparr>)"
proof (intro conjI)
  have ok: "every_ok tick j" by (rule every.run_from_init [OF refl run])
  then show k: "\<forall>k < length (jb_runs j). start + int k * int period \<le> jb_runs j ! k" by (simp add: every_ok_def tick)
  show "jb_runs j = [] \<or> (int (length (jb_runs j)) - 1) * int period \<le> jb_now j - start"
  proof (cases "jb_runs j")
    case (Cons a as)
    then have "start + int (length as) * int period \<le> jb_runs j ! length as" using k by simp
    moreover have "jb_runs j ! length as \<le> jb_now j"
      using ok nth_mem [of "length as" "jb_runs j"] Cons by (auto simp: every_ok_def)
    ultimately show ?thesis using Cons by simp
  qed simp
  show "every_step tick (job_spawn start) (Run start) = Some ((job_spawn start)\<lparr>jb_runs := [start]\<rparr>)"
    by (simp add: tick job_spawn_def)
qed

text \<open>A one-shot job runs its task at most once, not before its delay; a time stamp in the past means no delay.\<close>

theorem at_runs_once:
  assumes "run (\<lambda>j e t. at_step timestamp system_now start j e = Some t) (job_spawn start) es j"
  shows "jb_runs j = [] \<or> (\<exists>t. start + max 0 (timestamp - system_now) \<le> t \<and> jb_runs j = [t])"
  using after.run_from_init [OF refl, of "start + int (at_delay timestamp system_now)" start es j] assms
  by (auto simp: at_step_def after_ok_def at_delay_def max_def split: if_splits)

end
