(* ===== verification/Upload.thy ===== *)
theory Upload
  imports Http_Middleware
begin

text \<open>
  File upload and download (\<open>rszero/src/rest/upload.rs\<close>).  Paths follow \<open>std::path::Path\<close>: the text is cut at
  slashes, empty and dot components disappear (a leading dot stays), and a path is absolute when it starts with a
  slash.  The disk is the state: files by path, the directories, and which paths the operating system refuses, with
  what a failed write leaves behind.  The file name that a fresh UUID gives, the MIME type guessed from a path and the
  check of a header value are arguments.
\<close>

section \<open>Strings and paths\<close>

text \<open>\<open>str::replace\<close> with a non-empty pattern: matches from the left that do not overlap.\<close>

function replace_str :: "string \<Rightarrow> string \<Rightarrow> string \<Rightarrow> string" where
  "replace_str pat rep s =
     (if pat = [] \<or> s = [] then s
      else case strip_prefix pat s of
             Some rest \<Rightarrow> rep @ replace_str pat rep rest
           | None \<Rightarrow> hd s # replace_str pat rep (tl s))"
  by pat_completeness auto
termination
  by (relation "measure (\<lambda>(pat, rep, s). length s)") (auto simp: strip_prefix_def split: if_splits)

declare replace_str.simps [simp del]

type_synonym fpath = "bool \<times> string list"

definition nontrivial :: "string \<Rightarrow> bool" where
  "nontrivial c \<longleftrightarrow> c \<noteq> [] \<and> c \<noteq> ''.''"

definition path_of :: "string \<Rightarrow> fpath" where
  "path_of s =
     (let absolute = s \<noteq> [] \<and> hd s = CHR ''/''; ps = split_on (CHR ''/'') s
      in (absolute, (if \<not> absolute \<and> hd ps = ''.'' then [''.''] else []) @ filter nontrivial ps))"

definition path_join :: "string \<Rightarrow> string \<Rightarrow> string" where
  "path_join d n =
     (if n \<noteq> [] \<and> hd n = CHR ''/'' then n
      else if d = [] \<or> last d = CHR ''/'' then d @ n else d @ CHR ''/'' # n)"

definition path_parent :: "fpath \<Rightarrow> fpath option" where
  "path_parent p = (if snd p = [] then None else Some (fst p, butlast (snd p)))"

text \<open>\<open>Path::extension\<close>: what follows the last dot of the last component, unless that dot starts it.\<close>

definition path_extension :: "string \<Rightarrow> string option" where
  "path_extension s =
     (let cs = snd (path_of s)
      in if cs = [] \<or> last cs \<in> {''.'', ''..''} then None
         else let parts = split_on (CHR ''.'') (last cs)
              in if length parts = 1 \<or> (length parts = 2 \<and> hd parts = []) then None else Some (last parts))"

section \<open>The disk\<close>

record disk =
  d_files :: "fpath \<Rightarrow> string option"
  d_dirs :: "fpath list"
  d_mkdir_fault :: "fpath \<Rightarrow> string option"
  d_write_fault :: "fpath \<Rightarrow> (string \<times> string option) option"

definition is_dir :: "disk \<Rightarrow> fpath \<Rightarrow> bool" where
  "is_dir D p \<longleftrightarrow> snd p = [] \<or> p \<in> set (d_dirs D)"

fun mkdirs :: "fpath list \<Rightarrow> disk \<Rightarrow> (string, unit) result \<times> disk" where
  "mkdirs [] D = (Ok (), D)"
| "mkdirs (p # ps) D =
     (if is_dir D p then mkdirs ps D
      else case d_mkdir_fault D p of
             Some e \<Rightarrow> (Err e, D)
           | None \<Rightarrow>
               if d_files D p \<noteq> None
               then (Err (if ps = [] then ''File exists (os error 17)'' else ''Not a directory (os error 20)''), D)
               else mkdirs ps (D\<lparr>d_dirs := p # d_dirs D\<rparr>))"

definition create_dir_all :: "fpath \<Rightarrow> disk \<Rightarrow> (string, unit) result \<times> disk" where
  "create_dir_all p D = mkdirs (map (\<lambda>i. (fst p, take i (snd p))) [1..<Suc (length (snd p))]) D"

definition write_file :: "string \<Rightarrow> string \<Rightarrow> disk \<Rightarrow> (string, unit) result \<times> disk" where
  "write_file s data D =
     (let p = path_of s; l = last (split_on (CHR ''/'') s); up = (fst p, butlast (snd p))
      in if l \<in> {'''', ''.'', ''..''}
         then (Err (if is_dir D p then ''Is a directory (os error 21)'' else ''No such file or directory (os error 2)''), D)
         else if is_dir D p then (Err ''Is a directory (os error 21)'', D)
         else if \<not> is_dir D up
         then (Err (if d_files D up = None then ''No such file or directory (os error 2)'' else ''Not a directory (os error 20)''), D)
         else case d_write_fault D p of
                Some (e, None) \<Rightarrow> (Err e, D)
              | Some (e, Some part) \<Rightarrow> (Err e, D\<lparr>d_files := (d_files D)(p \<mapsto> part)\<rparr>)
              | None \<Rightarrow> (Ok (), D\<lparr>d_files := (d_files D)(p \<mapsto> data)\<rparr>))"

section \<open>Saving an upload\<close>

record upload_config =
  uc_max_size :: nat
  uc_allowed_types :: "string list"
  uc_allowed_extensions :: "string list"

definition upload_config_default :: upload_config where
  "upload_config_default = \<lparr>uc_max_size = 10 * 1024 * 1024, uc_allowed_types = [], uc_allowed_extensions = []\<rparr>"

record file_upload =
  fu_original_name :: string
  fu_saved_path :: fpath
  fu_size :: nat
  fu_content_type :: string
  fu_checksum :: "string option"

record multipart_field =
  mf_file_name :: "string option"
  mf_content_type :: "string option"
  mf_chunks :: "(string, string) result list"

definition sanitize_filename :: "string \<Rightarrow> string \<Rightarrow> string" where
  "sanitize_filename uuid name0 =
     (let name1 = replace_str ''..'' ''_'' name0;
          name2 = replace_str ''/'' ''_'' name1;
          nm = replace_str [CHR 92] ''_'' name2
      in if nm = [] \<or> list_all (\<lambda>c. c = CHR ''_'') nm then ''upload_'' @ uuid else nm)"

definition extension_allowed :: "upload_config \<Rightarrow> string \<Rightarrow> bool" where
  "extension_allowed cfg nm \<longleftrightarrow>
     uc_allowed_extensions cfg = [] \<or>
     list_ex (\<lambda>e. same_name e (case path_extension nm of Some x \<Rightarrow> x | None \<Rightarrow> '''')) (uc_allowed_extensions cfg)"

fun read_chunks :: "nat \<Rightarrow> string \<Rightarrow> (string, string) result list \<Rightarrow> string rszero_result" where
  "read_chunks mx data [] = Ok data"
| "read_chunks mx data (Inl e # cs) = Err (Http 400 (''upload read error: '' @ e))"
| "read_chunks mx data (Inr chunk # cs) =
     (let data' = data @ chunk
      in if mx < length data'
         then Err (Http 413 (''file exceeds maximum size of '' @ show_nat mx @ '' bytes''))
         else read_chunks mx data' cs)"

definition save_upload :: "string \<Rightarrow> multipart_field \<Rightarrow> string \<Rightarrow> upload_config \<Rightarrow> disk \<Rightarrow> file_upload rszero_result \<times> disk" where
  "save_upload uuid fld dest_dir cfg D =
     (let file_name = (case mf_file_name fld of Some n \<Rightarrow> n | None \<Rightarrow> ''unnamed'');
          content_type = (case mf_content_type fld of Some t \<Rightarrow> t | None \<Rightarrow> ''application/octet-stream'')
      in if uc_allowed_types cfg \<noteq> [] \<and> content_type \<notin> set (uc_allowed_types cfg)
         then (Err (Http 415 (''content type '' @ [CHR 39] @ content_type @ [CHR 39] @ '' not allowed'')), D)
         else if \<not> extension_allowed cfg file_name
         then (Err (Http 415 (''file extension '' @ [CHR 39] @ (case path_extension file_name of Some x \<Rightarrow> x | None \<Rightarrow> '''') @ [CHR 39] @
                      '' not allowed'')), D)
         else case read_chunks (uc_max_size cfg) [] (mf_chunks fld) of
                Inl e \<Rightarrow> (Err e, D)
              | Inr data \<Rightarrow>
                  (let dest = path_join dest_dir (sanitize_filename uuid file_name)
                   in case (case path_parent (path_of dest) of None \<Rightarrow> (Ok (), D) | Some up \<Rightarrow> create_dir_all up D) of
                        (Inl e, D1) \<Rightarrow> (Err (Internal (''failed to create upload dir: '' @ e) None), D1)
                      | (Inr _, D1) \<Rightarrow>
                          (case write_file dest data D1 of
                             (Inl e, D2) \<Rightarrow> (Err (Internal (''failed to write upload: '' @ e) None), D2)
                           | (Inr _, D2) \<Rightarrow>
                               (Ok \<lparr>fu_original_name = file_name, fu_saved_path = path_of dest, fu_size = length data,
                                    fu_content_type = content_type, fu_checksum = None\<rparr>, D2))))"

text \<open>The fields of a request in order; the UUID drawn for a field is indexed by the number of files saved before it.\<close>

fun save_fields ::
  "(nat \<Rightarrow> string) \<Rightarrow> string \<Rightarrow> upload_config \<Rightarrow> file_upload list \<Rightarrow> (string, multipart_field) result list \<Rightarrow> disk \<Rightarrow>
   file_upload list rszero_result \<times> disk" where
  "save_fields uuids dest cfg ups [] D = (Ok ups, D)"
| "save_fields uuids dest cfg ups (Inl e # fs) D = (Err (Http 400 (''multipart error: '' @ e)), D)"
| "save_fields uuids dest cfg ups (Inr f # fs) D =
     (if mf_file_name f = None then save_fields uuids dest cfg ups fs D
      else case save_upload (uuids (length ups)) f dest cfg D of
             (Inl e, D') \<Rightarrow> (Err e, D')
           | (Inr u, D') \<Rightarrow> save_fields uuids dest cfg (ups @ [u]) fs D')"

definition save_multipart ::
  "(nat \<Rightarrow> string) \<Rightarrow> (string, multipart_field) result list \<Rightarrow> string \<Rightarrow> upload_config \<Rightarrow> disk \<Rightarrow> file_upload list rszero_result \<times> disk" where
  "save_multipart uuids flds dest cfg D = save_fields uuids dest cfg [] flds D"

section \<open>Downloads\<close>

text \<open>Well-formed UTF-8, as \<open>String::from_utf8\<close> checks it: no overlong forms, no surrogates, nothing above U+10FFFF.\<close>

definition utf8_tail :: "nat \<Rightarrow> bool" where
  "utf8_tail b \<longleftrightarrow> 128 \<le> b \<and> b \<le> 191"

function utf8_bytes :: "nat list \<Rightarrow> bool" where
  "utf8_bytes bs =
     (case bs of
        [] \<Rightarrow> True
      | b # r \<Rightarrow>
          if b < 128 then utf8_bytes r
          else if 194 \<le> b \<and> b \<le> 223
          then (case r of b1 # r1 \<Rightarrow> utf8_tail b1 \<and> utf8_bytes r1 | _ \<Rightarrow> False)
          else if 224 \<le> b \<and> b \<le> 239
          then (case r of
                  b1 # b2 # r2 \<Rightarrow>
                    utf8_tail b1 \<and> utf8_tail b2 \<and> (b = 224 \<longrightarrow> 160 \<le> b1) \<and> (b = 237 \<longrightarrow> b1 \<le> 159) \<and> utf8_bytes r2
                | _ \<Rightarrow> False)
          else if 240 \<le> b \<and> b \<le> 244
          then (case r of
                  b1 # b2 # b3 # r3 \<Rightarrow>
                    utf8_tail b1 \<and> utf8_tail b2 \<and> utf8_tail b3 \<and> (b = 240 \<longrightarrow> 144 \<le> b1) \<and> (b = 244 \<longrightarrow> b1 \<le> 143) \<and> utf8_bytes r3
                | _ \<Rightarrow> False)
          else False)"
  by pat_completeness auto
termination
  by (relation "measure length") auto

declare utf8_bytes.simps [simp del]

definition read_to_string :: "fpath \<Rightarrow> disk \<Rightarrow> (string, string) result" where
  "read_to_string p D =
     (if is_dir D p then Err ''Is a directory (os error 21)''
      else case d_files D p of
             None \<Rightarrow> Err ''No such file or directory (os error 2)''
           | Some b \<Rightarrow> if utf8_bytes (map of_char b) then Ok b else Err ''stream did not contain valid UTF-8'')"

definition file_download_response ::
  "(fpath \<Rightarrow> string) \<Rightarrow> (string \<Rightarrow> bool) \<Rightarrow> fpath \<Rightarrow> string option \<Rightarrow> disk \<Rightarrow> http_response rszero_result" where
  "file_download_response mime valid_value p filename D =
     (case read_to_string p D of
        Inl e \<Rightarrow> Err (Http 404 (''file not found: '' @ e))
      | Inr data \<Rightarrow>
          (let disposition = (case filename of
                                Some n \<Rightarrow> ''attachment; filename='' @ [CHR 34] @ n @ [CHR 34]
                              | None \<Rightarrow> ''inline'');
               content_type = mime p
           in if valid_value content_type \<and> valid_value disposition
              then Ok \<lparr>rs_status = 200, rs_headers = [(''content-type'', content_type), (''content-disposition'', disposition)],
                       rs_body = RawBody data\<rparr>
              else Err (Internal ''response build error: failed to parse header value'' None)))"

text \<open>The length that the operating system reports for a directory is an argument.\<close>

definition file_info :: "(fpath \<Rightarrow> string) \<Rightarrow> (fpath \<Rightarrow> nat) \<Rightarrow> fpath \<Rightarrow> disk \<Rightarrow> (nat \<times> string) rszero_result" where
  "file_info mime dir_len p D =
     (if is_dir D p then Ok (dir_len p, mime p)
      else case d_files D p of
        None \<Rightarrow> Err (Http 404 ''file not found: No such file or directory (os error 2)'')
      | Some b \<Rightarrow> Ok (length b, mime p))"

section \<open>The stored name\<close>

lemma replace_str_Nil [simp]: "replace_str pat rep [] = []"
  by (simp add: replace_str.simps)

lemma replace_str_Cons:
  "pat \<noteq> [] \<Longrightarrow> replace_str pat rep (c # cs) =
     (case strip_prefix pat (c # cs) of Some rest \<Rightarrow> rep @ replace_str pat rep rest | None \<Rightarrow> c # replace_str pat rep cs)"
  by (subst replace_str.simps) (simp only: list.simps simp_thms if_False list.sel)

lemma replace_char [simp]: "replace_str [c] [d] s = map (\<lambda>x. if x = c then d else x) s"
  by (induction s) (auto simp: replace_str_Cons strip_prefix_def)

lemma replace_str_no_match: "\<not> contains_str pat s \<Longrightarrow> replace_str pat rep s = s"
proof (induction s)
  case (Cons c cs)
  then show ?case by (cases "pat = []") (simp_all add: replace_str.simps [of "[]"] replace_str_Cons strip_prefix_def)
qed simp

text \<open>No dot of the result is followed by another one.\<close>

fun dot_pair :: "string \<Rightarrow> bool" where
  "dot_pair (a # b # s) = ((a = CHR ''.'' \<and> b = CHR ''.'') \<or> dot_pair (b # s))"
| "dot_pair s = False"

lemma dot_pair_iff: "contains_str ''..'' s \<longleftrightarrow> dot_pair s"
  by (induction s rule: dot_pair.induct) auto

lemma dot_pair_Cons: "dot_pair (c # s) \<longleftrightarrow> (c = CHR ''.'' \<and> s \<noteq> [] \<and> hd s = CHR ''.'') \<or> dot_pair s"
  by (cases s) auto

lemma replace_dots_hd:
  "s \<noteq> [] \<Longrightarrow> hd s \<noteq> CHR ''.'' \<Longrightarrow> replace_str ''..'' ''_'' s \<noteq> [] \<and> hd (replace_str ''..'' ''_'' s) \<noteq> CHR ''.''"
  by (cases s) (auto simp: replace_str_Cons strip_prefix_def)

lemma replace_dots_no_pair: "\<not> dot_pair (replace_str ''..'' ''_'' s)"
proof (induction "length s" arbitrary: s rule: less_induct)
  case less
  show ?case
  proof (cases s)
    case (Cons c cs)
    show ?thesis
    proof (cases "strip_prefix ''..'' s")
      case None
      moreover have "c = CHR ''.'' \<Longrightarrow> cs \<noteq> [] \<Longrightarrow> hd cs \<noteq> CHR ''.''"
        using None Cons by (cases cs) (auto simp: strip_prefix_def)
      ultimately show ?thesis
        using less [of cs] replace_dots_hd [of cs] Cons by (cases "cs = []") (auto simp: replace_str_Cons dot_pair_Cons)
    next
      case (Some rest)
      then have "length rest < length s" using strip_prefix_SomeD [OF Some] by simp
      then show ?thesis using less [of rest] Some Cons by (auto simp: replace_str_Cons dot_pair_Cons)
    qed
  qed simp
qed

lemma dot_pair_map:
  "(\<And>x. f x = CHR ''.'' \<longleftrightarrow> x = CHR ''.'') \<Longrightarrow> dot_pair (map f s) = dot_pair s"
  by (induction s rule: dot_pair.induct) auto

definition unslash :: "char \<Rightarrow> char" where
  "unslash c = (if c = CHR ''/'' \<or> c = CHR 92 then CHR ''_'' else c)"

lemma sanitize_alt:
  "sanitize_filename uuid n =
     (let nm = map unslash (replace_str ''..'' ''_'' n)
      in if list_all (\<lambda>c. c = CHR ''_'') nm then ''upload_'' @ uuid else nm)"
proof -
  have "replace_str [CHR 92] ''_'' (replace_str ''/'' ''_'' m) = map unslash m" for m
    by (simp add: unslash_def)
  then show ?thesis by (simp add: sanitize_filename_def Let_def disj_absorb list_all_iff del: replace_char)
qed

text \<open>A UUID as it is printed: hexadecimal digits and dashes.\<close>

definition uuid_format :: "string \<Rightarrow> bool" where
  "uuid_format u \<longleftrightarrow> list_all (\<lambda>c. c \<in> set ''0123456789abcdef-'') u"

definition safe_component :: "string \<Rightarrow> bool" where
  "safe_component n \<longleftrightarrow> n \<noteq> [] \<and> CHR ''/'' \<notin> set n \<and> CHR 92 \<notin> set n \<and> \<not> contains_str ''..'' n"

lemma dot_free_no_pair: "CHR ''.'' \<notin> set s \<Longrightarrow> \<not> dot_pair s"
  by (induction s rule: dot_pair.induct) auto

lemma unslash_safe:
  "map unslash (replace_str ''..'' ''_'' n) \<noteq> [] \<Longrightarrow> safe_component (map unslash (replace_str ''..'' ''_'' n))"
  unfolding safe_component_def dot_pair_iff
  by (subst dot_pair_map) (auto simp: unslash_def replace_dots_no_pair split: if_splits)

lemma upload_name_safe: "uuid_format uuid \<Longrightarrow> safe_component (''upload_'' @ uuid)"
proof -
  assume u: "uuid_format uuid"
  have "c \<notin> set uuid" if "c \<notin> set ''0123456789abcdef-''" for c
    using u that unfolding uuid_format_def list_all_iff by blast
  from this [of "CHR ''/''"] this [of "CHR 92"] this [of "CHR ''.''"]
  have "CHR ''/'' \<notin> set (''upload_'' @ uuid)" "CHR 92 \<notin> set (''upload_'' @ uuid)" "CHR ''.'' \<notin> set (''upload_'' @ uuid)"
    by simp_all
  then show ?thesis unfolding safe_component_def dot_pair_iff using dot_free_no_pair by blast
qed

lemma sanitize_safe:
  assumes "uuid_format uuid"
  shows "safe_component (sanitize_filename uuid n)"
proof (cases "list_all (\<lambda>c. c = CHR ''_'') (map unslash (replace_str ''..'' ''_'' n))")
  case True
  then have "sanitize_filename uuid n = ''upload_'' @ uuid" unfolding sanitize_alt Let_def by (rule if_P)
  with upload_name_safe [OF assms] show ?thesis by (simp only:)
next
  case False
  then have "sanitize_filename uuid n = map unslash (replace_str ''..'' ''_'' n)" unfolding sanitize_alt Let_def by (rule if_not_P)
  moreover have "map unslash (replace_str ''..'' ''_'' n) \<noteq> []" using False by force
  ultimately show ?thesis using unslash_safe by (simp only:)
qed

lemma sanitize_keeps:
  assumes "safe_component n" and "\<exists>c\<in>set n. c \<noteq> CHR ''_''"
  shows "sanitize_filename uuid n = n"
proof -
  have "replace_str ''..'' ''_'' n = n" using assms by (intro replace_str_no_match) (simp add: safe_component_def)
  moreover have "map unslash n = n" using assms by (intro map_idI) (auto simp: unslash_def safe_component_def)
  ultimately show ?thesis using assms(2) by (auto simp: sanitize_alt list_all_iff)
qed

section \<open>Paths\<close>

lemma split_on_snoc_sep: "split_on d (s @ d # t) = split_on d s @ split_on d t"
  by (induction s) (auto split: list.splits)

lemma path_of_join:
  assumes n: "n \<noteq> []" "n \<noteq> ''.''" "CHR ''/'' \<notin> set n"
  shows "path_of (path_join d n) = (fst (path_of d), snd (path_of d) @ [n])"
proof -
  have nsep: "split_on (CHR ''/'') n = [n]" using n by (simp add: split_on_no_sep)
  have hn: "hd n \<noteq> CHR ''/''" using n by (metis hd_in_set)
  consider "d = []" | e where "d = e @ [CHR ''/'']" | "d \<noteq> []" "last d \<noteq> CHR ''/''"
    by (metis append_butlast_last_id)
  then show ?thesis
  proof cases
    case 1
    then show ?thesis using n hn nsep by (simp add: path_of_def path_join_def nontrivial_def)
  next
    case 2
    then show ?thesis
      using n hn nsep split_on_snoc_sep [of "CHR ''/''" e n] split_on_snoc_sep [of "CHR ''/''" e "[]"]
      by (auto simp: path_of_def path_join_def nontrivial_def Let_def hd_append)
  next
    case 3
    then show ?thesis
      using n hn nsep split_on_snoc_sep [of "CHR ''/''" d n]
      by (auto simp: path_of_def path_join_def nontrivial_def Let_def hd_append)
  qed
qed

section \<open>What an upload leaves on the disk\<close>

lemma mkdirs_files: "mkdirs ps D = (r, D') \<Longrightarrow> d_files D' = d_files D \<and> d_write_fault D' = d_write_fault D"
  by (induction ps arbitrary: D) (fastforce split: if_splits option.splits)+

lemma create_dir_all_files: "create_dir_all p D = (r, D') \<Longrightarrow> d_files D' = d_files D"
  unfolding create_dir_all_def using mkdirs_files by blast

lemma write_file_Ok:
  "write_file s data D = (Inr u, D') \<Longrightarrow>
     last (split_on (CHR ''/'') s) \<notin> {'''', ''.'', ''..''} \<and> \<not> is_dir D (path_of s) \<and> D' = D\<lparr>d_files := (d_files D)(path_of s \<mapsto> data)\<rparr>"
  by (auto simp: write_file_def Let_def split: if_splits option.splits)

lemma write_file_Err:
  "write_file s data D = (Inl e, D') \<Longrightarrow> \<forall>p. p \<noteq> path_of s \<longrightarrow> d_files D' p = d_files D p"
  by (auto simp: write_file_def Let_def split: if_splits option.splits)

lemma read_chunks_Ok:
  "read_chunks mx data cs = Inr out \<Longrightarrow> length data \<le> mx \<Longrightarrow>
     length out \<le> mx \<and> (\<exists>bs. cs = map Inr bs \<and> out = data @ concat bs)"
proof (induction mx data cs rule: read_chunks.induct)
  case (3 mx data chunk cs)
  then obtain bs where "cs = map Inr bs" "out = (data @ chunk) @ concat bs" "length out \<le> mx"
    by (auto simp: Let_def split: if_splits)
  then show ?case by (intro conjI exI [of _ "chunk # bs"]) auto
qed auto

lemma read_chunks_complete: "length (data @ concat bs) \<le> mx \<Longrightarrow> read_chunks mx data (map Inr bs) = Ok (data @ concat bs)"
  by (induction bs arbitrary: data) (auto simp: Let_def)

lemma last_split_join: "CHR ''/'' \<notin> set n \<Longrightarrow> last (split_on (CHR ''/'') (path_join d n)) = n"
proof (induction d rule: rev_induct)
  case Nil
  then show ?case by (auto simp: path_join_def split_on_no_sep)
next
  case (snoc c e)
  then have h: "n \<noteq> [] \<Longrightarrow> hd n \<noteq> CHR ''/''" by (metis hd_in_set)
  show ?case
    using snoc.prems h split_on_snoc_sep [of "CHR ''/''" e n] split_on_snoc_sep [of "CHR ''/''" "e @ [c]" n]
    by (auto simp: path_join_def split_on_no_sep)
qed

definition stored_in :: "string \<Rightarrow> fpath \<Rightarrow> bool" where
  "stored_in dest p \<longleftrightarrow> (\<exists>n. p = (fst (path_of dest), snd (path_of dest) @ [n]) \<and> safe_component n \<and> n \<noteq> ''.'')"

lemma save_upload_Ok:
  assumes u: "uuid_format uuid" and ok: "save_upload uuid fld dest cfg D = (Inr f, D')"
  obtains bs where "stored_in dest (fu_saved_path f)" "mf_chunks fld = map Inr bs" "fu_size f = length (concat bs)"
    "fu_size f \<le> uc_max_size cfg" "uc_allowed_types cfg = [] \<or> fu_content_type f \<in> set (uc_allowed_types cfg)"
    "extension_allowed cfg (fu_original_name f)" "d_files D' = (d_files D)(fu_saved_path f \<mapsto> concat bs)"
    "\<not> is_dir D' (fu_saved_path f)"
proof -
  let ?name = "case mf_file_name fld of Some n \<Rightarrow> n | None \<Rightarrow> ''unnamed''"
  let ?n = "sanitize_filename uuid ?name"
  let ?dest = "path_join dest ?n"
  obtain data D1 where rd: "read_chunks (uc_max_size cfg) [] (mf_chunks fld) = Inr data"
    and mk: "(case path_parent (path_of ?dest) of None \<Rightarrow> (Ok (), D) | Some up \<Rightarrow> create_dir_all up D) = (Inr (), D1)"
    and wr: "write_file ?dest data D1 = (Inr (), D')"
    and f: "fu_saved_path f = path_of ?dest" "fu_size f = length data" "fu_original_name f = ?name"
    and chk: "uc_allowed_types cfg = [] \<or> fu_content_type f \<in> set (uc_allowed_types cfg)" "extension_allowed cfg ?name"
    using ok unfolding save_upload_def Let_def by (auto split: if_splits sum.splits prod.splits)
  have safe: "safe_component ?n" by (rule sanitize_safe [OF u])
  have last: "last (split_on (CHR ''/'') ?dest) = ?n" using safe by (intro last_split_join) (simp add: safe_component_def)
  note w = write_file_Ok [OF wr]
  have "?n \<noteq> ''.''" using w unfolding last by simp
  moreover from this have p: "path_of ?dest = (fst (path_of dest), snd (path_of dest) @ [?n])"
    using safe by (intro path_of_join) (auto simp: safe_component_def)
  ultimately have "stored_in dest (fu_saved_path f)" using f safe unfolding stored_in_def by metis
  moreover obtain bs where "mf_chunks fld = map Inr bs" "data = concat bs" "length data \<le> uc_max_size cfg"
    using read_chunks_Ok [OF rd] by auto
  moreover have "d_files D1 = d_files D" using mk create_dir_all_files by (auto split: option.splits)
  ultimately show thesis using that [of bs] f chk w by (auto simp: is_dir_def)
qed

lemma save_upload_Err_frame:
  assumes u: "uuid_format uuid" and er: "save_upload uuid fld dest cfg D = (Inl e, D')" and q: "d_files D' p \<noteq> d_files D p"
  shows "stored_in dest p"
proof -
  let ?n = "sanitize_filename uuid (case mf_file_name fld of Some n \<Rightarrow> n | None \<Rightarrow> ''unnamed'')"
  let ?dest = "path_join dest ?n"
  obtain data D1 e' where mk: "(case path_parent (path_of ?dest) of None \<Rightarrow> (Ok (), D) | Some up \<Rightarrow> create_dir_all up D) = (Inr (), D1)"
    and wr: "write_file ?dest data D1 = (Inl e', D')"
    using er q create_dir_all_files unfolding save_upload_def Let_def
    by (fastforce split: if_splits sum.splits prod.splits option.splits)
  have D1: "d_files D1 = d_files D" using mk create_dir_all_files by (auto split: option.splits)
  have safe: "safe_component ?n" by (rule sanitize_safe [OF u])
  have last: "last (split_on (CHR ''/'') ?dest) = ?n" using safe by (intro last_split_join) (simp add: safe_component_def)
  have pd: "p = path_of ?dest" using write_file_Err [OF wr] q D1 by metis
  have "?n \<noteq> ''.''"
  proof
    assume "?n = ''.''"
    then have "D' = D1" using wr last by (simp add: write_file_def Let_def)
    then show False using q D1 by simp
  qed
  moreover from this have "path_of ?dest = (fst (path_of dest), snd (path_of dest) @ [?n])"
    using safe by (intro path_of_join) (auto simp: safe_component_def)
  ultimately show ?thesis using pd safe unfolding stored_in_def by metis
qed

lemma save_upload_frame:
  assumes "uuid_format uuid" and "save_upload uuid fld dest cfg D = (r, D')" and "d_files D' p \<noteq> d_files D p"
  shows "stored_in dest p"
  using assms by (cases r) (auto elim: save_upload_Ok dest: save_upload_Err_frame split: if_splits)

lemma save_fields_frame:
  "save_fields uuids dest cfg ups fs D = (r, D') \<Longrightarrow> \<forall>i. uuid_format (uuids i) \<Longrightarrow> d_files D' p \<noteq> d_files D p \<Longrightarrow> stored_in dest p"
proof (induction uuids dest cfg ups fs D rule: save_fields.induct)
  case (3 uuids dest cfg ups f fs D)
  show ?case
  proof (cases "mf_file_name f")
    case None
    then show ?thesis using 3 by auto
  next
    case (Some n)
    obtain q D1 where up: "save_upload (uuids (length ups)) f dest cfg D = (q, D1)" by fastforce
    then show ?thesis
    proof (cases "d_files D1 p = d_files D p")
      case True
      then show ?thesis using 3 Some up by (cases q) auto
    next
      case False
      then show ?thesis using 3(4) save_upload_frame [OF _ up] by blast
    qed
  qed
qed auto

lemma save_fields_Ok:
  "save_fields uuids dest cfg ups fs D = (Inr out, D') \<Longrightarrow> \<forall>i. uuid_format (uuids i) \<Longrightarrow>
     \<exists>new. out = ups @ new \<and> length new = length (filter (\<lambda>f. \<exists>g n. f = Inr g \<and> mf_file_name g = Some n) fs) \<and>
       (\<forall>u\<in>set new. stored_in dest (fu_saved_path u) \<and> fu_size u \<le> uc_max_size cfg)"
proof (induction uuids dest cfg ups fs D rule: save_fields.induct)
  case (3 uuids dest cfg ups f fs D)
  show ?case
  proof (cases "mf_file_name f")
    case None
    then show ?thesis using 3 by auto
  next
    case (Some n)
    obtain u D1 where up: "save_upload (uuids (length ups)) f dest cfg D = (Inr u, D1)"
      using 3(3) Some by (auto split: prod.splits sum.splits)
    obtain new where "out = (ups @ [u]) @ new"
      "length new = length (filter (\<lambda>f. \<exists>g n. f = Inr g \<and> mf_file_name g = Some n) fs)"
      "\<forall>u\<in>set new. stored_in dest (fu_saved_path u) \<and> fu_size u \<le> uc_max_size cfg"
      using 3 Some up by auto
    moreover have "stored_in dest (fu_saved_path u) \<and> fu_size u \<le> uc_max_size cfg"
      using up 3(4) by (blast elim: save_upload_Ok)
    ultimately show ?thesis using Some by (intro exI [of _ "u # new"]) auto
  qed
qed auto


definition demo_disk :: disk where
  "demo_disk = \<lparr>d_files = \<lambda>_. None, d_dirs = [], d_mkdir_fault = \<lambda>_. None, d_write_fault = \<lambda>_. None\<rparr>"

definition demo_field :: multipart_field where
  "demo_field = \<lparr>mf_file_name = Some ''../a.b'', mf_content_type = None, mf_chunks = [Inr ''hi'']\<rparr>"

lemmas upload_eval = save_upload_def Let_def extension_allowed_def upload_config_default_def demo_field_def demo_disk_def
  sanitize_filename_def replace_str_Cons strip_prefix_def path_join_def path_of_def path_parent_def nontrivial_def
  create_dir_all_def is_dir_def write_file_def

lemma demo_upload:
  "save_upload ''0'' demo_field ''up'' upload_config_default demo_disk =
     (Ok \<lparr>fu_original_name = ''../a.b'', fu_saved_path = (False, [''up'', ''__a.b'']), fu_size = 2,
          fu_content_type = ''application/octet-stream'', fu_checksum = None\<rparr>,
      demo_disk\<lparr>d_dirs := [(False, [''up''])], d_files := [(False, [''up'', ''__a.b'']) \<mapsto> ''hi'']\<rparr>)"
  by (simp add: upload_eval)


text \<open>
  A stored upload that is well-formed UTF-8 can be downloaded unchanged from the path it was saved
  under, when the header values are acceptable; any other content is answered with a not-found error although the
  file exists, and the file's reported length is the size recorded at the upload.
\<close>

theorem upload_download:
  assumes "uuid_format uuid" and "save_upload uuid fld dest cfg D = (Inr f, D')"
  shows "\<exists>data. d_files D' (fu_saved_path f) = Some data \<and> file_info mime dl (fu_saved_path f) D' = Ok (fu_size f, mime (fu_saved_path f)) \<and>
    (utf8_bytes (map of_char data) \<longrightarrow> valid (mime (fu_saved_path f)) \<longrightarrow> valid ''inline'' \<longrightarrow>
       file_download_response mime valid (fu_saved_path f) None D' =
         Ok \<lparr>rs_status = 200, rs_headers = [(''content-type'', mime (fu_saved_path f)), (''content-disposition'', ''inline'')],
             rs_body = RawBody data\<rparr>) \<and>
    (\<not> utf8_bytes (map of_char data) \<longrightarrow>
       file_download_response mime valid (fu_saved_path f) filename D' =
         Err (Http 404 ''file not found: stream did not contain valid UTF-8''))"
proof -
  obtain bs where "d_files D' = (d_files D)(fu_saved_path f \<mapsto> concat bs)" "\<not> is_dir D' (fu_saved_path f)" "fu_size f = length (concat bs)"
    using assms by (blast elim: save_upload_Ok)
  then show ?thesis by (intro exI [of _ "concat bs"]) (simp add: file_info_def file_download_response_def read_to_string_def)
qed

theorem upload_download_witness:
  "\<exists>data. file_download_response (\<lambda>_. ''text/plain'') (\<lambda>_. True) (False, [''up'', ''__a.b'']) None
      (demo_disk\<lparr>d_dirs := [(False, [''up''])], d_files := [(False, [''up'', ''__a.b'']) \<mapsto> ''hi'']\<rparr>) =
    Ok \<lparr>rs_status = 200, rs_headers = [(''content-type'', ''text/plain''), (''content-disposition'', ''inline'')], rs_body = RawBody data\<rparr>"
  using upload_download [OF _ demo_upload, of "\<lambda>_. ''text/plain''" _ "\<lambda>_. True" None]
  by (auto simp: uuid_format_def utf8_bytes.simps)

end
