(* ===== verification/Request_Context.thy ===== *)
theory Request_Context
  imports Http_Middleware Cron "HOL-Library.AList"
begin

text \<open>
  The request context (\<open>rszero/src/rest/context.rs\<close>) and the parameter extractors (\<open>rszero/src/rest/param.rs\<close>).  A
  context is a shared pointer to a locked map, so contexts are addresses into a heap: a clone is the same
  address, \<open>fork\<close> allocates a new one.  A value of any type carries the identifier of its type, which \<open>downcast_ref\<close>
  compares.  Type identifiers and values are type variables.
\<close>

section \<open>Contexts\<close>

datatype 'ty context_key = Context_Key (key_type: 'ty) (key_name: string)

datatype ('ty, 'v) any = Any (any_type: 'ty) (any_value: 'v)

type_synonym ('ty, 'v) context_map = "('ty context_key \<times> ('ty, 'v) any) list"

record ('ty, 'v) context_heap =
  ch_maps :: "nat \<Rightarrow> ('ty, 'v) context_map"
  ch_next :: nat

definition context_key_new :: "'ty \<Rightarrow> string \<Rightarrow> 'ty context_key" where
  "context_key_new t nm = Context_Key t nm"

definition context_alloc :: "('ty, 'v) context_map \<Rightarrow> ('ty, 'v) context_heap \<Rightarrow> nat \<times> ('ty, 'v) context_heap" where
  "context_alloc m H = (ch_next H, H\<lparr>ch_maps := (ch_maps H)(ch_next H := m), ch_next := Suc (ch_next H)\<rparr>)"

definition context_new :: "('ty, 'v) context_heap \<Rightarrow> nat \<times> ('ty, 'v) context_heap" where
  "context_new = context_alloc []"

definition context_set :: "'ty \<Rightarrow> string \<Rightarrow> 'v \<Rightarrow> nat \<Rightarrow> ('ty, 'v) context_heap \<Rightarrow> ('ty, 'v) context_heap" where
  "context_set t k v c H = H\<lparr>ch_maps := (ch_maps H)(c := AList.update (context_key_new t k) (Any t v) (ch_maps H c))\<rparr>"

definition downcast :: "'ty \<Rightarrow> ('ty, 'v) any \<Rightarrow> 'v option" where
  "downcast t a = (if any_type a = t then Some (any_value a) else None)"

definition context_get :: "'ty \<Rightarrow> string \<Rightarrow> nat \<Rightarrow> ('ty, 'v) context_heap \<Rightarrow> 'v option" where
  "context_get t k c H = Option.bind (map_of (ch_maps H c) (context_key_new t k)) (downcast t)"

definition context_remove :: "'ty \<Rightarrow> string \<Rightarrow> nat \<Rightarrow> ('ty, 'v) context_heap \<Rightarrow> 'v option \<times> ('ty, 'v) context_heap" where
  "context_remove t k c H =
     (Option.bind (map_of (ch_maps H c) (context_key_new t k)) (downcast t),
      H\<lparr>ch_maps := (ch_maps H)(c := AList.delete (context_key_new t k) (ch_maps H c))\<rparr>)"

definition context_has :: "'ty \<Rightarrow> string \<Rightarrow> nat \<Rightarrow> ('ty, 'v) context_heap \<Rightarrow> bool" where
  "context_has t k c H \<longleftrightarrow> map_of (ch_maps H c) (context_key_new t k) \<noteq> None"

definition context_len :: "nat \<Rightarrow> ('ty, 'v) context_heap \<Rightarrow> nat" where
  "context_len c H = length (ch_maps H c)"

definition context_is_empty :: "nat \<Rightarrow> ('ty, 'v) context_heap \<Rightarrow> bool" where
  "context_is_empty c H \<longleftrightarrow> context_len c H = 0"

definition context_clear :: "nat \<Rightarrow> ('ty, 'v) context_heap \<Rightarrow> ('ty, 'v) context_heap" where
  "context_clear c H = H\<lparr>ch_maps := (ch_maps H)(c := [])\<rparr>"

definition context_fork :: "nat \<Rightarrow> ('ty, 'v) context_heap \<Rightarrow> nat \<times> ('ty, 'v) context_heap" where
  "context_fork c H = context_alloc (ch_maps H c) H"

definition context_into_response :: http_response where
  "context_into_response = json_response 200 (JObject [(''context'', JString ''RequestContext'')])"

section \<open>Parameters\<close>

datatype param_error = PE_Path string | PE_Query string | PE_Parse string | PE_Validation string

definition bad_request :: "string \<Rightarrow> http_response" where
  "bad_request m = json_response 400 (code_msg 400 m)"

fun param_error_response :: "param_error \<Rightarrow> http_response" where
  "param_error_response (PE_Path m) = bad_request (''path param error: '' @ m)"
| "param_error_response (PE_Query m) = bad_request (''query param error: '' @ m)"
| "param_error_response (PE_Parse m) = bad_request (''parse error: '' @ m)"
| "param_error_response (PE_Validation m) = bad_request (''validation error: '' @ m)"

text \<open>
  The extractors read the parameters as a map of strings, turn it into JSON and decode the result; the axum extractor
  and the decoder of the target type are arguments.  A map of strings always has a JSON form.
\<close>

definition strings_json :: "(string \<times> string) list \<Rightarrow> json" where
  "strings_json ps = JObject (map (\<lambda>(k, v). (k, JString v)) ps)"

definition path_param_extract ::
  "(http_request \<Rightarrow> (string, (string \<times> string) list) result) \<Rightarrow> (json \<Rightarrow> (string, 'a) result) \<Rightarrow> http_request \<Rightarrow> (param_error, 'a) result" where
  "path_param_extract path from_value req =
     (case path req of
        Inl e \<Rightarrow> Err (PE_Path e)
      | Inr ps \<Rightarrow> (case from_value (strings_json ps) of Inl e \<Rightarrow> Err (PE_Parse e) | Inr v \<Rightarrow> Ok v))"

definition query_param_extract ::
  "(http_request \<Rightarrow> (string, (string \<times> string) list) result) \<Rightarrow> (json \<Rightarrow> (string, 'a) result) \<Rightarrow> http_request \<Rightarrow> (param_error, 'a) result" where
  "query_param_extract query from_value req =
     (case query req of
        Inl e \<Rightarrow> Err (PE_Query e)
      | Inr ps \<Rightarrow> (case from_value (strings_json ps) of Inl e \<Rightarrow> Err (PE_Parse e) | Inr v \<Rightarrow> Ok v))"

definition validate_required :: "string \<Rightarrow> string \<Rightarrow> (param_error, unit) result" where
  "validate_required v nm = (if trim v = [] then Err (PE_Validation (nm @ '' is required'')) else Ok ())"

definition validate_range :: "('a::ord \<Rightarrow> string) \<Rightarrow> 'a \<Rightarrow> string \<Rightarrow> 'a \<Rightarrow> 'a \<Rightarrow> (param_error, unit) result" where
  "validate_range to_string v nm lo hi =
     (if v < lo \<or> hi < v then Err (PE_Validation (nm @ '' must be between '' @ to_string lo @ '' and '' @ to_string hi)) else Ok ())"

section \<open>Typed keys and isolation\<close>

text \<open>Keys are distinct, and every value has the type of its key.\<close>

definition context_wf :: "('ty, 'v) context_heap \<Rightarrow> bool" where
  "context_wf H \<longleftrightarrow> (\<forall>c. distinct (map fst (ch_maps H c)) \<and> (\<forall>(k, a)\<in>set (ch_maps H c). any_type a = key_type k))"

datatype ('ty, 'v) context_op =
    Op_New | Op_Set 'ty string 'v nat | Op_Remove 'ty string nat | Op_Clear nat | Op_Fork nat

fun context_apply :: "('ty, 'v) context_op \<Rightarrow> ('ty, 'v) context_heap \<Rightarrow> ('ty, 'v) context_heap" where
  "context_apply Op_New H = snd (context_new H)"
| "context_apply (Op_Set t k v c) H = context_set t k v c H"
| "context_apply (Op_Remove t k c) H = snd (context_remove t k c H)"
| "context_apply (Op_Clear c) H = context_clear c H"
| "context_apply (Op_Fork c) H = snd (context_fork c H)"

fun op_writes :: "('ty, 'v) context_op \<Rightarrow> nat option" where
  "op_writes (Op_Set t k v c) = Some c"
| "op_writes (Op_Remove t k c) = Some c"
| "op_writes (Op_Clear c) = Some c"
| "op_writes _ = None"

lemmas context_defs = context_alloc_def context_new_def context_set_def context_remove_def context_clear_def context_fork_def
  context_key_new_def

lemma set_update_alist: "x \<in> set (AList.update k v xs) \<Longrightarrow> x = (k, v) \<or> x \<in> set xs"
  by (induction xs) (auto split: if_splits)

lemma length_update_alist: "length (AList.update k v xs) = (if map_of xs k = None then Suc (length xs) else length xs)"
  by (induction xs) auto

lemma set_delete_alist: "x \<in> set (AList.delete k xs) \<Longrightarrow> x \<in> set xs"
  by (induction xs) (auto split: if_splits)

lemma context_apply_wf: "context_wf H \<Longrightarrow> context_wf (context_apply op H)"
  by (cases op)
     (auto simp: context_wf_def context_defs distinct_update distinct_delete dest!: set_update_alist dest!: set_delete_alist)

lemma contexts_apply_wf: "context_wf H \<Longrightarrow> context_wf (fold context_apply ops H)"
  by (induction ops arbitrary: H) (auto simp: context_apply_wf)

lemma context_get_eq: "context_wf H \<Longrightarrow> context_get t k c H = map_option any_value (map_of (ch_maps H c) (Context_Key t k))"
proof (cases "map_of (ch_maps H c) (Context_Key t k)")
  case (Some a)
  assume "context_wf H"
  then have "any_type a = t" using map_of_SomeD [OF Some] by (fastforce simp: context_wf_def)
  then show ?thesis using Some by (simp add: context_get_def context_key_new_def downcast_def)
qed (simp add: context_get_def context_key_new_def)

text \<open>An operation does not touch the map at an allocated address other than the one it writes.\<close>

lemma context_apply_other:
  "c < ch_next H \<Longrightarrow> op_writes op \<noteq> Some c \<Longrightarrow>
     ch_maps (context_apply op H) c = ch_maps H c \<and> ch_next H \<le> ch_next (context_apply op H)"
  by (cases op) (auto simp: context_defs)

lemma contexts_apply_other:
  "c < ch_next H \<Longrightarrow> \<forall>op\<in>set ops. op_writes op \<noteq> Some c \<Longrightarrow> ch_maps (fold context_apply ops H) c = ch_maps H c"
proof (induction ops arbitrary: H)
  case (Cons op ops)
  then show ?case using context_apply_other [of c H op] by (auto simp: order.strict_trans2)
qed simp

text \<open>
  A forked context starts with the values of its parent and is separate from it: whatever is set, removed,
  cleared, created or forked elsewhere later, its values stay as they were at the fork, and writes to the fork never
  show in the parent.
\<close>

theorem fork_isolated:
  assumes "context_wf H" and "a < ch_next H" and "context_fork a H = (c, H')"
  shows "(\<forall>op\<in>set ops. op_writes op \<noteq> Some c) \<Longrightarrow> context_get t k c (fold context_apply ops H') = context_get t k a H"
    and "(\<forall>op\<in>set ops. op_writes op \<noteq> Some a) \<Longrightarrow> context_get t k a (fold context_apply ops H') = context_get t k a H"
proof -
  have H': "ch_maps H' = (ch_maps H)(c := ch_maps H a)" "c = ch_next H" "ch_next H' = Suc c"
    using assms(3) by (auto simp: context_defs)
  show "context_get t k c (fold context_apply ops H') = context_get t k a H" if "\<forall>op\<in>set ops. op_writes op \<noteq> Some c"
    using contexts_apply_other [of c H' ops] that H' by (simp add: context_get_def)
  show "context_get t k a (fold context_apply ops H') = context_get t k a H" if "\<forall>op\<in>set ops. op_writes op \<noteq> Some a"
    using contexts_apply_other [of a H' ops] that H' assms(2) by (simp add: context_get_def)
qed

text \<open>
  On every heap that the operations build, a context behaves as a map from typed keys to values: a value set is
  the value read, for its own type and name only; the same name under another type is another key; removing returns
  the value and makes the key absent; \<open>has\<close> tells whether \<open>get\<close> finds a value, and the length grows by one exactly
  when the key was absent.
\<close>

theorem context_typed_map:
  fixes ops :: "('ty, 'v) context_op list" and H0 :: "('ty, 'v) context_heap"
  defines "H \<equiv> fold context_apply ops H0"
  assumes "context_wf H0"
  shows "context_get t' k' c (context_set t k v c H) = (if t' = t \<and> k' = k then Some v else context_get t' k' c H)"
    and "fst (context_remove t k c H) = context_get t k c H"
    and "context_get t' k' c (snd (context_remove t k c H)) = (if t' = t \<and> k' = k then None else context_get t' k' c H)"
    and "context_has t k c H \<longleftrightarrow> context_get t k c H \<noteq> None"
    and "context_len c (context_set t k v c H) = (if context_has t k c H then context_len c H else Suc (context_len c H))"
    and "context_get t k c (context_clear c H) = None"
proof -
  have wf: "context_wf H" unfolding H_def using assms(2) by (rule contexts_apply_wf)
  have wfs: "context_wf (context_set t k v c H)" using context_apply_wf [OF wf, of "Op_Set t k v c"] by simp
  have wfr: "context_wf (snd (context_remove t k c H))" using context_apply_wf [OF wf, of "Op_Remove t k c"] by simp
  show "context_get t' k' c (context_set t k v c H) = (if t' = t \<and> k' = k then Some v else context_get t' k' c H)"
    using wf wfs by (simp add: context_get_eq) (simp add: context_defs update_conv')
  show "context_get t' k' c (snd (context_remove t k c H)) = (if t' = t \<and> k' = k then None else context_get t' k' c H)"
    using wf wfr by (simp add: context_get_eq) (simp add: context_defs delete_conv')
  show "context_has t k c H \<longleftrightarrow> context_get t k c H \<noteq> None"
    using wf by (simp add: context_get_eq) (simp add: context_has_def context_key_new_def)
  show "context_len c (context_set t k v c H) = (if context_has t k c H then context_len c H else Suc (context_len c H))"
    by (simp add: context_len_def context_has_def context_defs length_update_alist)
qed (simp_all add: context_remove_def context_get_def context_clear_def)

text \<open>
  The extractors decode strings only: a decoder that accepts an object only with a number under some key,
  as the decoder of a structure with a numeric field does, rejects every request.
\<close>

theorem numeric_field_never_extracted:
  assumes "\<And>j v. from_value j = Inr v \<Longrightarrow> \<exists>fs n. j = JObject fs \<and> (f, JNumber n) \<in> set fs"
  shows "\<exists>e. path_param_extract path from_value req = Inl e \<and> rs_status (param_error_response e) = 400"
proof -
  have "\<exists>e. from_value (strings_json ps) = Inl e" for ps
    using assms [of "strings_json ps"] by (cases "from_value (strings_json ps)") (auto simp: strings_json_def)
  then obtain d where d: "\<And>ps. from_value (strings_json ps) = Inl (d ps)" by metis
  have "rs_status (param_error_response e) = 400" for e by (cases e) (simp_all add: bad_request_def json_response_def)
  then show ?thesis using d by (simp add: path_param_extract_def split: sum.splits)
qed

end
