(* ===== verification/Load_Test.thy ===== *)
theory Load_Test
  imports Observability Cron F64 Transition_Systems
begin

text \<open>
  The load generator of the command-line tool (\<open>rszeroctl/src/cmd/loadtest.rs\<close>): the URL parser, one request over a
  TCP stream, the percentile of the report, and the concurrent run, a transition system over the shared counters, the
  stop flag, the workers, the two tasks that stop them, the progress task and the main task.  The TCP stream is
  an argument; every step of a task is one access to shared state.
\<close>

section \<open>URL, request and report\<close>

record parsed_url =
  pu_host :: string
  pu_port :: nat
  pu_path :: string

definition parse_url :: "string \<Rightarrow> (string, parsed_url) result" where
  "parse_url url0 =
     (let u = (case strip_prefix ''http://'' url0 of
                 Some r \<Rightarrow> r
               | None \<Rightarrow> (case strip_prefix ''https://'' url0 of Some r \<Rightarrow> r | None \<Rightarrow> url0));
          (host_port, path) = (case split_once (CHR ''/'') u of Some (h, p) \<Rightarrow> (h, CHR ''/'' # p) | None \<Rightarrow> (u, ''/''))
      in case split_once (CHR '':'') host_port of
           Some (h, p) \<Rightarrow>
             (case parse_uint 65535 p of
                None \<Rightarrow> Err ''invalid port''
              | Some n \<Rightarrow> Ok \<lparr>pu_host = h, pu_port = n, pu_path = path\<rparr>)
         | None \<Rightarrow> Ok \<lparr>pu_host = host_port, pu_port = 80, pu_path = path\<rparr>)"

record ('k, 'w) tcp =
  tcp_connect :: "string \<Rightarrow> 'w \<Rightarrow> (string, 'k) result \<times> 'w"
  tcp_write_all :: "'k \<Rightarrow> string \<Rightarrow> 'w \<Rightarrow> (string, unit) result \<times> 'w"
  tcp_read :: "'k \<Rightarrow> nat \<Rightarrow> 'w \<Rightarrow> (string, string) result \<times> 'w"

definition crlf :: string where
  "crlf = [CHR 13, CHR 10]"

definition request_text :: "string \<Rightarrow> string \<Rightarrow> string \<Rightarrow> string" where
  "request_text host path meth =
     map to_ascii_upper meth @ '' '' @ path @ '' HTTP/1.1'' @ crlf @ ''Host: '' @ host @ crlf @ ''Connection: close'' @ crlf @ crlf"

definition status_of_reply :: "string \<Rightarrow> nat" where
  "status_of_reply reply =
     (let status_line = takeWhile (\<lambda>c. c \<noteq> CHR 10) reply; ws = split_whitespace status_line
      in if length ws < 2 then 0 else case parse_uint 65535 (ws ! 1) of Some n \<Rightarrow> n | None \<Rightarrow> 0)"

definition send_http_request :: "('k, 'w) tcp \<Rightarrow> string \<Rightarrow> nat \<Rightarrow> string \<Rightarrow> string \<Rightarrow> 'w \<Rightarrow> (string, nat) result \<times> 'w" where
  "send_http_request T host port path meth w =
     (case tcp_connect T (host @ '':'' @ show_nat port) w of
        (Inl e, w1) \<Rightarrow> (Err e, w1)
      | (Inr k, w1) \<Rightarrow>
          (case tcp_write_all T k (request_text host path meth) w1 of
             (Inl e, w2) \<Rightarrow> (Err e, w2)
           | (Inr _, w2) \<Rightarrow>
               (case tcp_read T k 4096 w2 of
                  (Inl e, w3) \<Rightarrow> (Err e, w3)
                | (Inr reply, w3) \<Rightarrow> (Ok (status_of_reply reply), w3))))"

text \<open>\<open>f64::round\<close>: to the nearest integer, halves away from zero.\<close>

fun f64_half_up :: "f64 \<Rightarrow> f64" where
  "f64_half_up (Fin x) = Fin (of_int (if 0 \<le> x then \<lfloor>x + 1/2\<rfloor> else \<lceil>x - 1/2\<rceil>))"
| "f64_half_up v = v"

definition percentile :: "nat list \<Rightarrow> f64 \<Rightarrow> nat" where
  "percentile xs p =
     (if xs = [] then 0
      else let idx = unat (f64_to_u64 (f64_half_up (f64_mul (f64_of_nat (length xs - 1)) p)))
           in xs ! min idx (length xs - 1))"

record report =
  rp_sent :: nat
  rp_ok :: nat
  rp_err :: nat
  rp_qps :: f64
  rp_latency :: "(nat \<times> nat \<times> f64 \<times> nat \<times> nat \<times> nat) option"

section \<open>The concurrent run\<close>

text \<open>
  Where a worker is: at the stop check, at the total check, waiting for a response, with a response and its
  latency not yet stored, stored but not yet counted, with a failed request not yet counted, counted but not yet
  classified (\<open>True\<close> for a success; a failed request is the last alternative), about to print its error, or ended.
\<close>

datatype worker_pc = W_Stop | W_Total | W_Request | W_Reply nat nat | W_Stored nat | W_Failed | W_Class bool | W_Error | W_Print | W_End

datatype main_pc = M_Join nat | M_Progress | M_Report

record load_state =
  ls_sent :: nat
  ls_ok :: nat
  ls_err :: nat
  ls_lat :: "nat list"
  ls_stop :: bool
  ls_workers :: "worker_pc list"
  ls_timer :: bool
  ls_limiter :: bool
  ls_progress :: bool
  ls_main :: main_pc

record load_params =
  lp_workers :: nat
  lp_total :: nat
  lp_duration :: nat
  lp_stderr :: bool

definition load_start :: "load_params \<Rightarrow> load_state" where
  "load_start L =
     \<lparr>ls_sent = 0, ls_ok = 0, ls_err = 0, ls_lat = [], ls_stop = False, ls_workers = replicate (lp_workers L) W_Stop,
      ls_timer = 0 < lp_duration L, ls_limiter = 0 < lp_total L, ls_progress = True, ls_main = M_Join 0\<rparr>"

text \<open>One access of a worker to the shared state; \<open>W_Request\<close> is left by the response or the error that the step carries.\<close>

fun worker_access :: "load_params \<Rightarrow> (string, nat \<times> nat) result \<Rightarrow> worker_pc \<Rightarrow> load_state \<Rightarrow> worker_pc \<times> load_state" where
  "worker_access L r W_Stop s = (if ls_stop s then W_End else W_Total, s)"
| "worker_access L r W_Total s = (if 0 < lp_total L \<and> lp_total L \<le> ls_sent s then W_End else W_Request, s)"
| "worker_access L r W_Request s = (case r of Inr (status, ms) \<Rightarrow> W_Reply status ms | Inl e \<Rightarrow> W_Failed, s)"
| "worker_access L r (W_Reply status ms) s = (W_Stored status, s\<lparr>ls_lat := ls_lat s @ [ms]\<rparr>)"
| "worker_access L r (W_Stored status) s = (W_Class (200 \<le> status \<and> status < 300), s\<lparr>ls_sent := Suc (ls_sent s)\<rparr>)"
| "worker_access L r W_Failed s = (W_Error, s\<lparr>ls_sent := Suc (ls_sent s)\<rparr>)"
| "worker_access L r (W_Class good) s =
     (W_Stop, if good then s\<lparr>ls_ok := Suc (ls_ok s)\<rparr> else s\<lparr>ls_err := Suc (ls_err s)\<rparr>)"
| "worker_access L r W_Error s = (W_Print, s\<lparr>ls_err := Suc (ls_err s)\<rparr>)"
| "worker_access L r W_Print s = (if ls_err s \<le> 5 \<and> \<not> lp_stderr L then W_End else W_Stop, s)"
| "worker_access L r W_End s = (W_End, s)"

datatype load_event = Ev_Worker nat "(string, nat \<times> nat) result" | Ev_Timer | Ev_Limiter | Ev_Progress | Ev_Main

text \<open>
  The progress task loops for ever; only a failed write to the standard error stream, which makes \<open>eprint\<close> panic,
  ends it, and it writes only when something was sent.  In the same way a worker that prints an error ends when the
  stream is broken; the first five errors are printed.
\<close>

inductive load_step :: "load_params \<Rightarrow> load_state \<Rightarrow> load_event \<Rightarrow> load_state \<Rightarrow> bool" for L where
  step_worker: "i < length (ls_workers s) \<Longrightarrow> ls_workers s ! i \<noteq> W_End \<Longrightarrow> worker_access L r (ls_workers s ! i) s = (w', s') \<Longrightarrow>
     load_step L s (Ev_Worker i r) (s'\<lparr>ls_workers := (ls_workers s)[i := w']\<rparr>)"
| step_timer: "ls_timer s \<Longrightarrow> load_step L s Ev_Timer (s\<lparr>ls_stop := True, ls_timer := False\<rparr>)"
| step_limiter: "ls_limiter s \<Longrightarrow>
     load_step L s Ev_Limiter (if lp_total L \<le> ls_sent s then s\<lparr>ls_stop := True, ls_limiter := False\<rparr> else s)"
| step_progress: "ls_progress s \<Longrightarrow>
     load_step L s Ev_Progress (if ls_sent s = 0 \<or> lp_stderr L then s else s\<lparr>ls_progress := False\<rparr>)"
| step_join: "ls_main s = M_Join i \<Longrightarrow> i < length (ls_workers s) \<Longrightarrow> ls_workers s ! i = W_End \<Longrightarrow>
     load_step L s Ev_Main (s\<lparr>ls_main := M_Join (Suc i)\<rparr>)"
| step_joined: "ls_main s = M_Join (length (ls_workers s)) \<Longrightarrow> load_step L s Ev_Main (s\<lparr>ls_stop := True, ls_main := M_Progress\<rparr>)"
| step_progress_ended: "ls_main s = M_Progress \<Longrightarrow> \<not> ls_progress s \<Longrightarrow> load_step L s Ev_Main (s\<lparr>ls_main := M_Report\<rparr>)"

definition final_report :: "f64 \<Rightarrow> load_state \<Rightarrow> report" where
  "final_report elapsed s =
     (let xs = sort (ls_lat s)
      in \<lparr>rp_sent = ls_sent s, rp_ok = ls_ok s, rp_err = ls_err s, rp_qps = f64_div (f64_of_nat (ls_sent s)) elapsed,
          rp_latency =
            (if xs = [] then None
             else Some (hd xs, last xs, f64_div (f64_of_nat (sum_list xs)) (f64_of_nat (length xs)),
                        percentile xs (f64_round (50 / 100)), percentile xs (f64_round (90 / 100)),
                        percentile xs (f64_round (99 / 100))))\<rparr>)"

section \<open>Accounting of a run\<close>

definition in_flight :: "worker_pc \<Rightarrow> bool" where
  "in_flight w \<longleftrightarrow> (case w of W_Request \<Rightarrow> True | W_Reply _ _ \<Rightarrow> True | W_Stored _ \<Rightarrow> True | W_Failed \<Rightarrow> True | _ \<Rightarrow> False)"

definition unclassified :: "worker_pc \<Rightarrow> bool" where
  "unclassified w \<longleftrightarrow> (case w of W_Class _ \<Rightarrow> True | W_Error \<Rightarrow> True | _ \<Rightarrow> False)"

definition stored :: "worker_pc \<Rightarrow> bool" where
  "stored w \<longleftrightarrow> (case w of W_Stored _ \<Rightarrow> True | _ \<Rightarrow> False)"

lemmas pc_classes = in_flight_def unclassified_def stored_def

definition load_inv :: "load_params \<Rightarrow> load_state \<Rightarrow> bool" where
  "load_inv L s \<longleftrightarrow>
     length (ls_workers s) = lp_workers L \<and>
     ls_ok s + ls_err s + tally unclassified (ls_workers s) = ls_sent s \<and>
     length (ls_lat s) \<le> ls_sent s + tally stored (ls_workers s) \<and>
     (0 < lp_total L \<longrightarrow> ls_sent s + tally in_flight (ls_workers s) < lp_total L + lp_workers L) \<and>
     (ls_limiter s \<longrightarrow> 0 < lp_total L) \<and> (ls_timer s \<longrightarrow> 0 < lp_duration L) \<and>
     (case ls_main s of M_Join i \<Rightarrow> i \<le> length (ls_workers s) \<and> (\<forall>k<i. ls_workers s ! k = W_End)
                      | _ \<Rightarrow> \<forall>w\<in>set (ls_workers s). w = W_End) \<and>
     (lp_stderr L \<longrightarrow> ls_progress s \<and> ls_main s \<noteq> M_Report) \<and>
     (lp_stderr L \<and> lp_duration L = 0 \<and> (ls_stop s \<or> W_End \<in> set (ls_workers s)) \<and> 0 < lp_workers L \<longrightarrow>
        0 < lp_total L \<and> lp_total L \<le> ls_sent s)"

definition main_ok :: "main_pc \<Rightarrow> worker_pc list \<Rightarrow> bool" where
  "main_ok m ws \<longleftrightarrow> (case m of M_Join i \<Rightarrow> i \<le> length ws \<and> (\<forall>k<i. ws ! k = W_End) | _ \<Rightarrow> \<forall>w\<in>set ws. w = W_End)"

lemma main_ok_update: "main_ok m ws \<Longrightarrow> i < length ws \<Longrightarrow> ws ! i \<noteq> W_End \<Longrightarrow> main_ok m (ws[i := w])"
  by (cases m) (auto simp: main_ok_def nth_list_update)

lemma end_update: "W_End \<in> set (ws[i := w]) \<Longrightarrow> w = W_End \<or> W_End \<in> set ws"
  using set_update_subset_insert by fast

lemma load_inv_alt:
  "load_inv L s \<longleftrightarrow>
     length (ls_workers s) = lp_workers L \<and>
     ls_ok s + ls_err s + tally unclassified (ls_workers s) = ls_sent s \<and>
     length (ls_lat s) \<le> ls_sent s + tally stored (ls_workers s) \<and>
     (0 < lp_total L \<longrightarrow> ls_sent s + tally in_flight (ls_workers s) < lp_total L + lp_workers L) \<and>
     (ls_limiter s \<longrightarrow> 0 < lp_total L) \<and> (ls_timer s \<longrightarrow> 0 < lp_duration L) \<and> main_ok (ls_main s) (ls_workers s) \<and>
     (lp_stderr L \<longrightarrow> ls_progress s \<and> ls_main s \<noteq> M_Report) \<and>
     (lp_stderr L \<and> lp_duration L = 0 \<and> (ls_stop s \<or> W_End \<in> set (ls_workers s)) \<and> 0 < lp_workers L \<longrightarrow>
        0 < lp_total L \<and> lp_total L \<le> ls_sent s)"
  unfolding load_inv_def main_ok_def ..

lemma worker_access_frame:
  "worker_access L r w s = (w', s') \<Longrightarrow>
     ls_stop s' = ls_stop s \<and> ls_timer s' = ls_timer s \<and> ls_limiter s' = ls_limiter s \<and> ls_progress s' = ls_progress s \<and>
     ls_main s' = ls_main s \<and> ls_sent s \<le> ls_sent s'"
  by (cases w) (auto split: if_splits)

lemma worker_access_classified:
  "worker_access L r w s = (w', s') \<Longrightarrow>
     ls_ok s' + ls_err s' + of_bool (unclassified w') + ls_sent s = ls_ok s + ls_err s + of_bool (unclassified w) + ls_sent s'"
  by (cases w) (auto simp: pc_classes split: if_splits sum.splits)

lemma worker_access_stored:
  "worker_access L r w s = (w', s') \<Longrightarrow>
     length (ls_lat s') + of_bool (stored w) + ls_sent s \<le> length (ls_lat s) + of_bool (stored w') + ls_sent s'"
  by (cases w) (auto simp: pc_classes split: if_splits sum.splits)

lemma worker_access_flight:
  "worker_access L r w s = (w', s') \<Longrightarrow>
     ls_sent s' + of_bool (in_flight w') \<le> ls_sent s + of_bool (in_flight w) \<or>
     ls_sent s' = ls_sent s \<and> (0 < lp_total L \<longrightarrow> ls_sent s < lp_total L)"
  by (cases w) (auto simp: pc_classes split: if_splits sum.splits)

lemma worker_access_end:
  "worker_access L r w s = (W_End, s') \<Longrightarrow>
     w = W_End \<or> ls_stop s \<or> \<not> lp_stderr L \<or> 0 < lp_total L \<and> lp_total L \<le> ls_sent s"
  by (cases w) (auto split: if_splits sum.splits)

lemma worker_step_inv:
  assumes inv: "load_inv L s" and i: "i < length (ls_workers s)" and ne: "ls_workers s ! i \<noteq> W_End"
    and acc: "worker_access L r (ls_workers s ! i) s = (w', s')"
  shows "load_inv L (s'\<lparr>ls_workers := (ls_workers s)[i := w']\<rparr>)"
proof -
  let ?ws = "ls_workers s" and ?ws' = "(ls_workers s)[i := w']"
  note fr = worker_access_frame [OF acc]
  note cnt = tally_update [OF i, of _ w', folded of_bool_def]
  have "ls_ok s' + ls_err s' + tally unclassified ?ws' = ls_sent s'"
    using worker_access_classified [OF acc] cnt [of unclassified] inv unfolding load_inv_alt by linarith
  moreover have "length (ls_lat s') \<le> ls_sent s' + tally stored ?ws'"
    using worker_access_stored [OF acc] cnt [of stored] inv unfolding load_inv_alt by linarith
  moreover have "ls_sent s' + tally in_flight ?ws' < lp_total L + lp_workers L" if "0 < lp_total L"
    using worker_access_flight [OF acc] cnt [of in_flight] tally_le [of in_flight ?ws'] inv that
    unfolding load_inv_alt length_list_update by linarith
  moreover have "main_ok (ls_main s') ?ws'" using inv fr i ne by (simp add: load_inv_alt main_ok_update)
  moreover have "0 < lp_total L \<and> lp_total L \<le> ls_sent s'"
    if "lp_stderr L" "lp_duration L = 0" "ls_stop s' \<or> W_End \<in> set ?ws'" "0 < lp_workers L"
  proof -
    from that(3) have "w' = W_End \<or> ls_stop s \<or> W_End \<in> set ?ws" using fr end_update by blast
    then have "0 < lp_total L \<and> lp_total L \<le> ls_sent s"
      using that inv acc ne worker_access_end [of L r "?ws ! i" s s'] unfolding load_inv_alt by blast
    then show ?thesis using fr by linarith
  qed
  ultimately show ?thesis using inv fr by (simp add: load_inv_alt)
qed

lemma end_in_all: "load_inv L s \<Longrightarrow> \<forall>w\<in>set (ls_workers s). w = W_End \<Longrightarrow> 0 < lp_workers L \<Longrightarrow> W_End \<in> set (ls_workers s)"
  unfolding load_inv_alt by (cases "ls_workers s") auto

lemma load_start_inv: "load_inv L (load_start L)"
  by (auto simp: load_inv_alt load_start_def pc_classes main_ok_def)

lemma load_step_inv: "load_inv L s \<Longrightarrow> load_step L s e t \<Longrightarrow> load_inv L t"
proof (erule load_step.cases, goal_cases)
  case (1 i s r w' s')
  then show ?case using worker_step_inv by blast
next
  case (5 s i)
  then show ?case by (auto simp: load_inv_alt main_ok_def less_Suc_eq)
next
  case (6 s)
  then have "\<forall>w\<in>set (ls_workers s). w = W_End" by (auto simp: load_inv_alt main_ok_def in_set_conv_nth)
  moreover from this have "0 < lp_workers L \<Longrightarrow> W_End \<in> set (ls_workers s)"
    using end_in_all 6 by blast
  ultimately show ?case using 6 by (auto simp: load_inv_alt main_ok_def)
next
  case (7 s)
  then show ?case by (auto simp: load_inv_alt main_ok_def)
qed (auto simp: load_inv_alt split: if_splits)

interpretation load: inductive_invariant "\<lambda>s. s = load_start L" "load_step L" "load_inv L" for L
  by unfold_locales (simp add: load_start_inv, rule load_step_inv)

text \<open>
  C38. In every schedule of the tasks of a load test: every counted request is a success or an error, except
  those being classified; a run of \<open>total\<close> requests with \<open>n\<close> workers sends at most \<open>total + n - 1\<close> requests; when all
  workers have ended, the successes and errors add up to the requests sent, and without a time limit at least \<open>total\<close>
  requests were sent; and as long as the standard error stream can be written the command never reaches its report,
  because it waits for the progress task.
\<close>

theorem loadtest_accounting:
  assumes "reach (\<lambda>s. s = load_start L) (load_step L) s"
  shows "ls_ok s + ls_err s + tally unclassified (ls_workers s) = ls_sent s \<and>
    (0 < lp_total L \<longrightarrow> ls_sent s < lp_total L + lp_workers L) \<and>
    (list_all (\<lambda>w. w = W_End) (ls_workers s) \<longrightarrow>
       ls_ok s + ls_err s = ls_sent s \<and>
       (0 < lp_workers L \<and> lp_stderr L \<and> lp_duration L = 0 \<longrightarrow> lp_total L \<le> ls_sent s)) \<and>
    (lp_stderr L \<longrightarrow> ls_main s \<noteq> M_Report)"
proof -
  have inv: "load_inv L s" using assms by (rule load.reach_inv)
  have "ls_ok s + ls_err s = ls_sent s" if "list_all (\<lambda>w. w = W_End) (ls_workers s)"
  proof -
    have "tally unclassified (ls_workers s) = 0" using that by (intro tally_all) (auto simp: unclassified_def list_all_iff)
    then show ?thesis using inv by (simp add: load_inv_def)
  qed
  moreover have "lp_total L \<le> ls_sent s"
    if "list_all (\<lambda>w. w = W_End) (ls_workers s)" "0 < lp_workers L" "lp_stderr L" "lp_duration L = 0"
  proof -
    have "W_End \<in> set (ls_workers s)" using that inv by (intro end_in_all) (simp_all add: list_all_iff)
    then show ?thesis using that inv by (simp add: load_inv_def)
  qed
  ultimately show ?thesis using inv by (auto simp: load_inv_def)
qed

definition demo_params :: load_params where
  "demo_params = \<lparr>lp_workers = 2, lp_total = 1, lp_duration = 0, lp_stderr = True\<rparr>"

definition worker_turns :: "(nat \<times> (string, nat \<times> nat) result) list" where
  "worker_turns =
     (let a = (0, Inr (200, 7)); b = (1, Inr (200, 7))
      in [a, a, b, b, a, a, a, a, a, a, b, b, b, b, b, b])"

definition demo_end :: load_state where
  "demo_end = (load_start demo_params)\<lparr>ls_sent := 2, ls_ok := 2, ls_lat := [7, 7], ls_workers := [W_End, W_End]\<rparr>"

text \<open>A sequence of worker turns, computed; \<open>None\<close> when one is not possible.\<close>

fun worker_exec :: "load_params \<Rightarrow> (nat \<times> (string, nat \<times> nat) result) list \<Rightarrow> load_state \<Rightarrow> load_state option" where
  "worker_exec L [] s = Some s"
| "worker_exec L ((i, r) # es) s =
     (if i < length (ls_workers s) \<and> ls_workers s ! i \<noteq> W_End
      then case worker_access L r (ls_workers s ! i) s of (w', s') \<Rightarrow> worker_exec L es (s'\<lparr>ls_workers := (ls_workers s)[i := w']\<rparr>)
      else None)"

lemma worker_exec_run: "worker_exec L es s = Some t \<Longrightarrow> run (load_step L) s (map (\<lambda>(i, r). Ev_Worker i r) es) t"
  by (induction L es s rule: worker_exec.induct) (auto split: if_splits prod.splits intro: step_worker)

lemma replicate_2: "replicate 2 x = [x, x]"
  by (simp add: numeral_2_eq_2)

lemma demo_params_run: "worker_exec demo_params worker_turns (load_start demo_params) = Some demo_end"
  by (simp add: worker_turns_def demo_end_def load_start_def demo_params_def Let_def replicate_2)

theorem loadtest_accounting_witness:
  "\<exists>s. reach (\<lambda>s. s = load_start demo_params) (load_step demo_params) s \<and> lp_total demo_params = 1 \<and> ls_sent s = 2 \<and>
     list_all (\<lambda>w. w = W_End) (ls_workers s) \<and> ls_ok s + ls_err s = 2 \<and> ls_main s \<noteq> M_Report"
proof -
  have "reach (\<lambda>s. s = load_start demo_params) (load_step demo_params) demo_end"
    using reach_run [OF reach_init worker_exec_run [OF demo_params_run]] by simp
  from this loadtest_accounting [OF this] show ?thesis
    by (intro exI [of _ demo_end]) (simp add: demo_end_def demo_params_def load_start_def)
qed

section \<open>Percentiles\<close>

lemma u64_le_max: "unat x \<le> unat (- 1 :: u64)" for x :: u64
  using word_order.extremum [of x] unfolding word_le_nat_alt .

lemma f64_to_u64_mono:
  assumes "x \<le> y"
  shows "unat (f64_to_u64 (Fin x)) \<le> unat (f64_to_u64 (Fin y))"
proof (cases "0 < x \<and> y < 2 ^ 64")
  case True
  have w: "unat (f64_to_u64 (Fin z)) = nat \<lfloor>z\<rfloor>" if "0 < z" "z < 2 ^ 64" for z
  proof -
    have "\<lfloor>z\<rfloor> < 2 ^ 64" using that by (simp add: floor_less_iff)
    moreover have "0 \<le> \<lfloor>z\<rfloor>" using that by simp
    ultimately have "unat (word_of_int \<lfloor>z\<rfloor> :: u64) = nat \<lfloor>z\<rfloor>"
      by (simp add: unsigned_of_int take_bit_int_eq_self)
    then show ?thesis using that by simp
  qed
  have "nat \<lfloor>x\<rfloor> \<le> nat \<lfloor>y\<rfloor>" using assms by (intro nat_mono floor_mono)
  then show ?thesis using True assms w [of x] w [of y] by (simp del: f64_to_u64.simps)
next
  case False
  then have "f64_to_u64 (Fin x) = 0 \<or> f64_to_u64 (Fin y) = - 1" using assms by auto
  then show ?thesis using u64_le_max by (auto simp del: f64_to_u64.simps)
qed

definition rank :: "nat \<Rightarrow> rat \<Rightarrow> nat" where
  "rank n p = unat (f64_to_u64 (f64_half_up (f64_mul (f64_of_nat n) (Fin p))))"

lemma rank_eq:
  "n < 2 ^ 53 \<Longrightarrow> 0 \<le> p \<Longrightarrow>
     rank n p = (let v = f64_mag (of_nat n * p) in if 2 powi 1024 \<le> v then unat (- 1 :: u64) else unat (f64_to_u64 (Fin (of_int \<lfloor>v + 1/2\<rfloor>))))"
  unfolding rank_def f64_of_nat_def by (simp only: f64_round_of_nat f64_mul.simps)
    (use f64_round_nonneg [of "of_nat n * p"] f64_mag_nonneg [of "of_nat n * p"] in \<open>auto simp: Let_def simp del: f64_to_u64.simps(1)\<close>)

lemma rank_mono:
  assumes "n < 2 ^ 53" and "0 \<le> p" and "p \<le> q"
  shows "rank n p \<le> rank n q"
proof -
  have le: "of_nat n * p \<le> of_nat n * q" and nn: "0 \<le> of_nat n * p" "0 \<le> of_nat n * q"
    using assms by (auto intro: mult_left_mono)
  have m: "f64_mag (of_nat n * p) \<le> f64_mag (of_nat n * q)" by (rule f64_mag_mono [OF nn(1) le])
  then have "(of_int \<lfloor>f64_mag (of_nat n * p) + 1/2\<rfloor> :: rat) \<le> of_int \<lfloor>f64_mag (of_nat n * q) + 1/2\<rfloor>" by (simp add: floor_mono)
  from f64_to_u64_mono [OF this] show ?thesis
    using m u64_le_max order_trans [OF _ m, of "2 powi 1024"] assms unfolding rank_eq [OF assms(1,2)] rank_eq [OF assms(1) order_trans [OF assms(2,3)]] Let_def
    by (auto simp del: f64_to_u64.simps(1))
qed

lemma percentile_rank: "xs \<noteq> [] \<Longrightarrow> percentile xs (Fin p) = xs ! min (rank (length xs - 1) p) (length xs - 1)"
  by (simp add: percentile_def rank_def Let_def)

lemma percentile_mono:
  assumes "sorted xs" and "xs \<noteq> []" and "length xs \<le> 2 ^ 53" and "0 \<le> p" and "p \<le> q"
  shows "hd xs \<le> percentile xs (Fin p)" "percentile xs (Fin p) \<le> percentile xs (Fin q)" "percentile xs (Fin q) \<le> last xs"
proof -
  have "length xs - 1 < 2 ^ 53" using assms(2,3) by (cases xs) auto
  then have "rank (length xs - 1) p \<le> rank (length xs - 1) q" using assms by (intro rank_mono)
  then show "percentile xs (Fin p) \<le> percentile xs (Fin q)"
    using assms(1,2) by (auto simp: percentile_rank min_less_iff_disj intro!: sorted_nth_mono)
  show "hd xs \<le> percentile xs (Fin p)" "percentile xs (Fin q) \<le> last xs"
    using assms(1,2) by (auto simp: percentile_rank min_less_iff_disj hd_conv_nth last_conv_nth intro!: sorted_nth_mono)
qed

lemma sorted_extremes: "sorted xs \<Longrightarrow> xs \<noteq> [] \<Longrightarrow> hd xs = Min (set xs) \<and> last xs = Max (set xs)"
proof (induction xs)
  case (Cons x xs)
  then show ?case by (cases "xs = []") (auto simp: min_absorb1 max_absorb2)
qed simp

lemma f64_fraction: "0 \<le> x \<Longrightarrow> x \<le> y \<Longrightarrow> y \<le> 1 \<Longrightarrow> \<exists>p q. f64_round x = Fin p \<and> f64_round y = Fin q \<and> 0 \<le> p \<and> p \<le> q"
  using f64_round_01 [of x] f64_round_01 [of y] f64_mag_mono [of x y]
  by (auto simp: f64_round_nonneg f64_mag_nonneg split: if_splits)

text \<open>
  The latencies that a report shows are in order: the minimum, the three percentiles and the maximum never
  decrease, although the ranks are computed in floating point, and the minimum and maximum are those of the
  measured latencies.
\<close>

theorem report_latencies_ordered:
  assumes "rp_latency (final_report elapsed s) = Some (mn, mx, avg, p50, p90, p99)" and "length (ls_lat s) \<le> 2 ^ 53"
  shows "mn = Min (set (ls_lat s)) \<and> mn \<le> p50 \<and> p50 \<le> p90 \<and> p90 \<le> p99 \<and> p99 \<le> mx \<and> mx = Max (set (ls_lat s))"
proof -
  let ?xs = "sort (ls_lat s)"
  have r: "?xs \<noteq> []" "mn = hd ?xs" "mx = last ?xs" "p50 = percentile ?xs (f64_round (50/100))"
    "p90 = percentile ?xs (f64_round (90/100))" "p99 = percentile ?xs (f64_round (99/100))"
    using assms(1) by (auto simp: final_report_def Let_def split: if_splits)
  obtain a b where ab: "f64_round (50/100) = Fin a" "f64_round (90/100) = Fin b" "0 \<le> a" "a \<le> b"
    using f64_fraction [of "50/100" "90/100"] by auto
  obtain b' c where c: "f64_round (90/100) = Fin b'" "f64_round (99/100) = Fin c" "0 \<le> b'" "b' \<le> c"
    using f64_fraction [of "90/100" "99/100"] by auto
  note mono = percentile_mono [of ?xs]
  have "hd ?xs = Min (set (ls_lat s))" "last ?xs = Max (set (ls_lat s))"
    using sorted_extremes [of ?xs] r(1) by simp_all
  then show ?thesis
    using r ab c mono(1) [of a b] mono(2) [of a b] mono(2) [of b' c] mono(3) [of b' c] assms(2) by auto
qed

section \<open>URLs\<close>

lemma split_once_none: "d \<notin> set p \<Longrightarrow> split_once d p = None"
  by (induction p) auto

text \<open>
  A URL with a host, a port and a path is read back as these three, with either scheme: the scheme \<open>https\<close>
  is accepted and the request is still sent in the clear, to port 80 when no port is given.
\<close>

theorem parse_url_parts:
  assumes "scheme \<in> {''http://'', ''https://''}" and "CHR ''/'' \<notin> set h" and "CHR '':'' \<notin> set h" and "n < 65536"
  shows "parse_url (scheme @ h @ '':'' @ show_nat n @ ''/'' @ path) = Ok \<lparr>pu_host = h, pu_port = n, pu_path = CHR ''/'' # path\<rparr>"
    and "parse_url (scheme @ h @ ''/'' @ path) = Ok \<lparr>pu_host = h, pu_port = 80, pu_path = CHR ''/'' # path\<rparr>"
proof -
  have "CHR ''/'' \<notin> set (show_nat n)" using show_nat_digits by (fastforce simp: is_ascii_digit_def)
  then have "split_once (CHR ''/'') (h @ '':'' @ show_nat n @ ''/'' @ path) = Some (h @ '':'' @ show_nat n, path)"
    using assms(2) split_once_append [of "CHR ''/''" "h @ '':'' @ show_nat n" path] by simp
  then show "parse_url (scheme @ h @ '':'' @ show_nat n @ ''/'' @ path) = Ok \<lparr>pu_host = h, pu_port = n, pu_path = CHR ''/'' # path\<rparr>"
    using assms split_once_append [of "CHR '':''" h "show_nat n"]
    by (auto simp: parse_url_def strip_prefix_def parse_uint_show_nat)
  show "parse_url (scheme @ h @ ''/'' @ path) = Ok \<lparr>pu_host = h, pu_port = 80, pu_path = CHR ''/'' # path\<rparr>"
    using assms split_once_append [of "CHR ''/''" h path] split_once_none [of "CHR '':''" h]
    by (auto simp: parse_url_def strip_prefix_def)
qed

end
