(* ===== verification/Rabbit_Queue.thy ===== *)
theory Rabbit_Queue
  imports Message_Queue
begin

text \<open>
  The RabbitMQ backend of the message queue (\<open>RabbitMqBackend\<close> of \<open>rszero/src/queue/mod.rs\<close>).  The AMQP client
  is an argument, a record of the calls the backend makes; the world \<open>'w\<close> holds the connection and the broker.
  Payloads and identifiers are text, so the lossy decoding of a delivery is the identity.
\<close>

record delivery =
  dl_tag :: nat
  dl_data :: string
  dl_message_id :: "string option"

record ('c, 'h, 'k, 'w) amqp =
  amqp_connect :: "string \<Rightarrow> 'w \<Rightarrow> (string, 'c) result \<times> 'w"
  amqp_channel :: "'c \<Rightarrow> 'w \<Rightarrow> (string, 'h) result \<times> 'w"
  amqp_declare :: "'h \<Rightarrow> string \<Rightarrow> 'w \<Rightarrow> (string, unit) result \<times> 'w"
  amqp_publish :: "'h \<Rightarrow> string \<Rightarrow> string \<Rightarrow> string \<Rightarrow> string \<Rightarrow> 'w \<Rightarrow> (string, unit) result \<times> 'w"
  amqp_consume :: "'h \<Rightarrow> string \<Rightarrow> string \<Rightarrow> 'w \<Rightarrow> (string, 'k) result \<times> 'w"
  amqp_ack :: "delivery \<Rightarrow> 'w \<Rightarrow> (string, unit) result \<times> 'w"
  amqp_nack :: "delivery \<Rightarrow> bool \<Rightarrow> 'w \<Rightarrow> (string, unit) result \<times> 'w"
  amqp_close :: "'c \<Rightarrow> nat \<Rightarrow> string \<Rightarrow> 'w \<Rightarrow> (string, unit) result \<times> 'w"

text \<open>A call whose error is wrapped with its prefix, and what follows when it succeeds.\<close>

definition amqp_try :: "string \<Rightarrow> (string, 'a) result \<times> 'w \<Rightarrow> ('a \<Rightarrow> 'w \<Rightarrow> 'b rszero_result \<times> 'w) \<Rightarrow> 'b rszero_result \<times> 'w" where
  "amqp_try what call cont =
     (case call of
        (Inl e, w) \<Rightarrow> (Err (Queue (what @ e) None), w)
      | (Inr x, w) \<Rightarrow> cont x w)"

definition rabbit_new :: "('c, 'h, 'k, 'w) amqp \<Rightarrow> string \<Rightarrow> 'w \<Rightarrow> 'c rszero_result \<times> 'w" where
  "rabbit_new A u w = amqp_try ''rabbitmq connect failed: '' (amqp_connect A u w) (\<lambda>c w. (Ok c, w))"

definition rabbit_publish :: "('c, 'h, 'k, 'w) amqp \<Rightarrow> 'c \<Rightarrow> message \<Rightarrow> 'w \<Rightarrow> unit rszero_result \<times> 'w" where
  "rabbit_publish A c m w =
     amqp_try ''create channel failed: '' (amqp_channel A c w) (\<lambda>h w.
       amqp_try ''declare queue failed: '' (amqp_declare A h (msg_topic m) w) (\<lambda>_ w.
         amqp_try ''publish failed: '' (amqp_publish A h '''' (msg_topic m) (msg_payload m) (msg_id m) w) (\<lambda>_ w. (Ok (), w))))"

definition rabbit_consume :: "('c, 'h, 'k, 'w) amqp \<Rightarrow> 'c \<Rightarrow> string \<Rightarrow> 'w \<Rightarrow> message option rszero_result \<times> 'w" where
  "rabbit_consume A c t w =
     amqp_try ''create channel failed: '' (amqp_channel A c w) (\<lambda>h w.
       amqp_try ''consume failed: '' (amqp_consume A h t ''rszero-consumer'' w) (\<lambda>_ w. (Ok None, w)))"

definition rabbit_pending :: "string \<Rightarrow> 'w \<Rightarrow> nat rszero_result \<times> 'w" where
  "rabbit_pending t w = (Ok 0, w)"

definition rabbit_ack :: "string \<Rightarrow> 'w \<Rightarrow> unit rszero_result \<times> 'w" where
  "rabbit_ack i w = (Ok (), w)"

definition rabbit_nack :: "string \<Rightarrow> bool \<Rightarrow> 'w \<Rightarrow> unit rszero_result \<times> 'w" where
  "rabbit_nack i requeue w = (Ok (), w)"

definition delivery_message :: "string \<Rightarrow> delivery \<Rightarrow> message" where
  "delivery_message t d =
     \<lparr>msg_topic = t, msg_payload = dl_data d, msg_headers = Map.empty,
      msg_id = (case dl_message_id d of Some i \<Rightarrow> i | None \<Rightarrow> '''')\<rparr>"

text \<open>The consumer task over the items of its stream, up to the end of the stream.\<close>

fun rabbit_task ::
  "('c, 'h, 'k, 'w) amqp \<Rightarrow> (message \<Rightarrow> 'w \<Rightarrow> unit rszero_result \<times> 'w) \<Rightarrow> string \<Rightarrow> (string, delivery) result list \<Rightarrow> 'w \<Rightarrow> 'w" where
  "rabbit_task A hdl t [] w = w"
| "rabbit_task A hdl t (Inl e # ds) w = rabbit_task A hdl t ds w"
| "rabbit_task A hdl t (Inr d # ds) w =
     (case hdl (delivery_message t d) w of
        (Inl e, w') \<Rightarrow> rabbit_task A hdl t ds (snd (amqp_nack A d True w'))
      | (Inr _, w') \<Rightarrow> rabbit_task A hdl t ds (snd (amqp_ack A d w')))"

text \<open>The result of \<open>subscribe\<close>, with the consumer whose stream the task reads.\<close>

definition rabbit_subscribe :: "('c, 'h, 'k, 'w) amqp \<Rightarrow> 'c \<Rightarrow> string \<Rightarrow> 'w \<Rightarrow> 'k rszero_result \<times> 'w" where
  "rabbit_subscribe A c t w =
     amqp_try ''create channel failed: '' (amqp_channel A c w) (\<lambda>h w.
       amqp_try ''declare queue failed: '' (amqp_declare A h t w) (\<lambda>_ w.
         amqp_try ''consume failed: '' (amqp_consume A h t ''rszero-consumer'' w) (\<lambda>k w. (Ok k, w))))"

definition rabbit_close :: "('c, 'h, 'k, 'w) amqp \<Rightarrow> 'c \<Rightarrow> 'w \<Rightarrow> unit rszero_result \<times> 'w" where
  "rabbit_close A c w = amqp_try ''close failed: '' (amqp_close A c 200 ''rszero closing'' w) (\<lambda>_ w. (Ok (), w))"

section \<open>Settling deliveries\<close>

text \<open>
  What the task relies on: acknowledging and rejecting a delivery settle it with the broker, and handlers
  settle nothing.
\<close>

definition amqp_settles ::
  "('c, 'h, 'k, 'w) amqp \<Rightarrow> (message \<Rightarrow> 'w \<Rightarrow> unit rszero_result \<times> 'w) \<Rightarrow> ('w \<Rightarrow> (delivery \<times> bool) list) \<Rightarrow> bool" where
  "amqp_settles A hdl settled \<longleftrightarrow>
     (\<forall>d w. settled (snd (amqp_ack A d w)) = settled w @ [(d, True)]) \<and>
     (\<forall>d w. settled (snd (amqp_nack A d True w)) = settled w @ [(d, False)]) \<and>
     (\<forall>m w. settled (snd (hdl m w)) = settled w)"

definition good_deliveries :: "(string, delivery) result list \<Rightarrow> delivery list" where
  "good_deliveries ds = List.map_filter (\<lambda>d. case d of Inl _ \<Rightarrow> None | Inr x \<Rightarrow> Some x) ds"

lemma good_deliveries_simps [simp]:
  "good_deliveries [] = []" "good_deliveries (Inl e # ds) = good_deliveries ds"
  "good_deliveries (Inr d # ds) = d # good_deliveries ds"
  by (simp_all add: good_deliveries_def map_filter_simps)

text \<open>
  Each delivery that the subscription receives is settled exactly once and in order of arrival:
  acknowledged when the handler accepts the message built from it and rejected for redelivery when the handler fails.
\<close>

theorem rabbit_settles_each:
  assumes "amqp_settles A hdl settled" and "\<forall>m w. fst (hdl m w) = verdict m"
  shows "settled (rabbit_task A hdl t ds w) =
    settled w @ map (\<lambda>d. (d, is_ok (verdict (delivery_message t d)))) (good_deliveries ds)"
proof (induction ds arbitrary: w)
  case (Cons x ds)
  show ?case
  proof (cases x)
    case (Inr d)
    obtain w' where h: "hdl (delivery_message t d) w = (verdict (delivery_message t d), w')"
      using assms(2) by (metis prod.collapse)
    have "settled w' = settled w" using assms(1) h unfolding amqp_settles_def by (metis snd_conv)
    then show ?thesis
      using Cons.IH assms(1) h Inr by (cases "verdict (delivery_message t d)") (simp_all add: amqp_settles_def)
  qed (use Cons.IH in simp)
qed simp

definition demo_amqp :: "(unit, unit, unit, (delivery \<times> bool) list) amqp" where
  "demo_amqp = \<lparr>amqp_connect = \<lambda>_ w. (Ok (), w), amqp_channel = \<lambda>_ w. (Ok (), w), amqp_declare = \<lambda>_ _ w. (Ok (), w),
     amqp_publish = \<lambda>_ _ _ _ _ w. (Ok (), w), amqp_consume = \<lambda>_ _ _ w. (Ok (), w),
     amqp_ack = \<lambda>d w. (Ok (), w @ [(d, True)]), amqp_nack = \<lambda>d r w. (Ok (), w @ [(d, \<not> r)]), amqp_close = \<lambda>_ _ _ w. (Ok (), w)\<rparr>"

definition demo_delivery :: "nat \<Rightarrow> delivery" where
  "demo_delivery n = \<lparr>dl_tag = n, dl_data = ''x'', dl_message_id = None\<rparr>"

theorem rabbit_settles_each_witness:
  "rabbit_task demo_amqp (\<lambda>m w. (Err RateLimit, w)) ''t'' [Inr (demo_delivery 1), Inl ''lost'', Inr (demo_delivery 2)] [] =
     [(demo_delivery 1, False), (demo_delivery 2, False)]"
  using rabbit_settles_each [of demo_amqp "\<lambda>m w. (Err RateLimit, w)" id "\<lambda>_. Err RateLimit" "''t''"
      "[Inr (demo_delivery 1), Inl ''lost'', Inr (demo_delivery 2)]" "[]"]
  by (simp add: amqp_settles_def demo_amqp_def)

text \<open>
  Through the operations of the queue trait the backend does not keep the queue that the other backends keep:
  whatever the broker does, a consume that succeeds returns no message and the pending count is zero, also right after
  a message was published.
\<close>

theorem rabbit_not_a_queue:
  assumes "backend_run (rabbit_publish A c) (rabbit_consume A c) rabbit_pending [Publish m, Pending (msg_topic m), Consume (msg_topic m)] w = (Inr rs, w')"
  shows "rs = [Published, PendingCount 0, Consumed None] \<and>
    fst (fifo_run [Publish m, Pending (msg_topic m), Consume (msg_topic m)] (\<lambda>_. [])) = [Published, PendingCount 1, Consumed (Some m)]"
  using assms
  by (auto simp: rabbit_publish_def rabbit_consume_def rabbit_pending_def amqp_try_def map_sum_def split: prod.splits sum.splits)

theorem rabbit_not_a_queue_witness:
  "\<exists>rs. backend_run (rabbit_publish demo_amqp ()) (rabbit_consume demo_amqp ()) rabbit_pending
      [Publish (delivery_message ''t'' (demo_delivery 1)), Pending ''t'', Consume ''t''] [] = (Inr rs, []) \<and> Consumed None \<in> set rs"
proof -
  let ?m = "delivery_message ''t'' (demo_delivery 1)"
  have "backend_run (rabbit_publish demo_amqp ()) (rabbit_consume demo_amqp ()) rabbit_pending
      [Publish ?m, Pending (msg_topic ?m), Consume (msg_topic ?m)] [] = (Inr [Published, PendingCount 0, Consumed None], [])"
    by (simp add: rabbit_publish_def rabbit_consume_def rabbit_pending_def amqp_try_def demo_amqp_def)
  from rabbit_not_a_queue [OF this] this show ?thesis by (auto simp: delivery_message_def)
qed

end
