(* ===== verification/Rpc_Server.thy ===== *)
theory Rpc_Server
  imports Config Health
begin

text \<open>
  The RPC server (\<open>rszero/src/rpc/server.rs\<close>): the builder, and the life of a started server with its registration
  in etcd and its readiness.  The address parser, the Volo server, the service and the signal are arguments; the
  readiness that callers of the health endpoint see is recorded at each point where the server waits.
\<close>

record rpc_server =
  rs_config :: rpc_config
  rs_graceful_timeout :: duration
  rs_health :: health
  rs_service_name :: string

definition rpc_server_new :: "rpc_config \<Rightarrow> rpc_server" where
  "rpc_server_new c = \<lparr>rs_config = c, rs_graceful_timeout = 30 * 10 ^ 9, rs_health = health_new, rs_service_name = rc_name c\<rparr>"

definition rpc_server_from_config :: "rszero_config \<Rightarrow> rpc_server" where
  "rpc_server_from_config c = rpc_server_new (rz_rpc c)"

definition rs_with_timeout :: "duration \<Rightarrow> rpc_server \<Rightarrow> rpc_server" where
  "rs_with_timeout d s = s\<lparr>rs_graceful_timeout := d\<rparr>"

definition rs_with_service_name :: "string \<Rightarrow> rpc_server \<Rightarrow> rpc_server" where
  "rs_with_service_name n s = s\<lparr>rs_service_name := n\<rparr>"

definition rs_listen_on :: "rpc_server \<Rightarrow> string" where
  "rs_listen_on s = rc_listen_on (rs_config s)"

text \<open>What ends the wait for the server: the server itself or the interrupt, whichever comes first.\<close>

datatype wait_end = Server_Ended "(string, unit) result" | Interrupted

text \<open>The result, the health tracker as it is left, the readiness during the wait, and the time slept before returning.\<close>

record server_run =
  run_result :: "unit rszero_result"
  run_health :: health
  run_serving :: "bool option"
  run_drained :: duration

definition try_register ::
  "'c etcd \<Rightarrow> (json \<Rightarrow> string) \<Rightarrow> string \<Rightarrow> rpc_server \<Rightarrow> (int rszero_result \<times> 'c service_discovery) option" where
  "try_register E enc now s =
     map_option (\<lambda>(hosts, key). register_service E enc now (rs_service_name s) (rs_listen_on s) (discovery_from_etcd hosts)) (rc_etcd (rs_config s))"

definition rpc_start_with_service ::
  "(string \<Rightarrow> (string, 'a) result) \<Rightarrow> ('a \<Rightarrow> wait_end) \<Rightarrow> (unit \<Rightarrow> 's) \<Rightarrow> 'c etcd \<Rightarrow> (json \<Rightarrow> string) \<Rightarrow> string \<Rightarrow> rpc_server \<Rightarrow>
   (int rszero_result \<times> 'c service_discovery) option \<times> server_run" where
  "rpc_start_with_service parse_addr volo_run make_service E enc now s =
     (let h = set_ready (rs_health s); registration = try_register E enc now s
      in (registration,
          case parse_addr (rs_listen_on s) of
            Inl e \<Rightarrow> \<lparr>run_result = Err (Config (''invalid listen address: '' @ e) None), run_health = h, run_serving = None, run_drained = 0\<rparr>
          | Inr addr \<Rightarrow>
              (let _ = make_service ()
               in case volo_run addr of
                    Server_Ended (Inl e) \<Rightarrow> \<lparr>run_result = Err (Rpc e None), run_health = h, run_serving = Some (is_ready h), run_drained = 0\<rparr>
                  | _ \<Rightarrow> \<lparr>run_result = Ok (), run_health = set_not_ready h, run_serving = Some (is_ready h), run_drained = rs_graceful_timeout s\<rparr>)))"

definition rpc_start :: "(string, unit) result \<Rightarrow> rpc_server \<Rightarrow> server_run" where
  "rpc_start interrupt s =
     (let h = set_ready (rs_health s)
      in case interrupt of
           Inl e \<Rightarrow> \<lparr>run_result = Err (Internal e None), run_health = h, run_serving = Some (is_ready h), run_drained = 0\<rparr>
         | Inr _ \<Rightarrow> \<lparr>run_result = Ok (), run_health = set_not_ready h, run_serving = Some (is_ready h), run_drained = rs_graceful_timeout s\<rparr>)"

text \<open>
  The life of a server: it succeeds exactly when its address parses and its wait ends without an error of the
  server, whatever the registration did; then it has left the ready state and has slept for the graceful timeout.  On
  every error it is still marked ready, and a registration made before the error stays in etcd.
\<close>

theorem rpc_server_life:
  assumes "rpc_start_with_service parse_addr volo_run mk E enc now s = (reg, r)"
  shows "(run_result r = Ok () \<longleftrightarrow> (\<exists>a. parse_addr (rs_listen_on s) = Inr a \<and> (\<forall>e. volo_run a \<noteq> Server_Ended (Inl e)))) \<and>
    (run_result r = Ok () \<longrightarrow> \<not> is_ready (run_health r) \<and> run_serving r = Some True \<and> run_drained r = rs_graceful_timeout s) \<and>
    (run_result r \<noteq> Ok () \<longrightarrow> is_ready (run_health r) \<and> run_drained r = 0) \<and>
    (reg = None \<longleftrightarrow> rc_etcd (rs_config s) = None)"
  using assms
  by (auto simp: rpc_start_with_service_def Let_def try_register_def is_ready_def set_ready_def set_not_ready_def
      split: sum.splits wait_end.splits)

theorem rpc_server_life_witness:
  "\<exists>r. rpc_start_with_service (\<lambda>_. Inr ()) (\<lambda>_. Server_Ended (Inl ''bind'')) (\<lambda>_. ()) (undefined :: unit etcd) (\<lambda>_. '''') ''now''
      (rpc_server_new \<lparr>rc_name = ''svc'', rc_listen_on = ''0.0.0.0:1'', rc_etcd = None\<rparr>) = (None, r) \<and>
     run_result r = Err (Rpc ''bind'' None) \<and> is_ready (run_health r)"
proof -
  let ?s = "rpc_server_new \<lparr>rc_name = ''svc'', rc_listen_on = ''0.0.0.0:1'', rc_etcd = None\<rparr>"
  let ?r = "\<lparr>run_result = Err (Rpc ''bind'' None), run_health = set_ready health_new, run_serving = Some True, run_drained = 0\<rparr>"
  have "rpc_start_with_service (\<lambda>_. Inr ()) (\<lambda>_. Server_Ended (Inl ''bind'')) (\<lambda>_. ()) (undefined :: unit etcd) (\<lambda>_. '''') ''now'' ?s = (None, ?r)"
    by (simp add: rpc_start_with_service_def rpc_server_new_def try_register_def Let_def is_ready_def set_ready_def)
  from this rpc_server_life [OF this] show ?thesis by auto
qed

end
