(* ===== verification/Tenant_Service.thy ===== *)
theory Tenant_Service
  imports Rest_Server Transition_Systems
begin

text \<open>
  The multi-tenant example (\<open>examples/tenant-management/src\<close>): models, services, rate limiter, middleware, handlers and
  router.  The SQLite tables are lists of rows with the constraints of the schema in \<open>db.rs\<close>; every
  statement may fail, as the list of faults in the database state says, one entry per statement.  Clock readings are
  arguments or a field of the state.
\<close>

section \<open>Models\<close>

datatype tenant_status = TS_Active | TS_Suspended | TS_Pending
datatype tenant_plan = TP_Free | TP_Pro | TP_Enterprise
datatype user_role = UR_Admin | UR_Member | UR_Viewer

fun status_as_str :: "tenant_status \<Rightarrow> string" where
  "status_as_str TS_Active = ''active''"
| "status_as_str TS_Suspended = ''suspended''"
| "status_as_str TS_Pending = ''pending''"

definition status_from_str :: "string \<Rightarrow> (string, tenant_status) result" where
  "status_from_str s =
     (if s = ''active'' then Ok TS_Active else if s = ''suspended'' then Ok TS_Suspended
      else if s = ''pending'' then Ok TS_Pending else Err (''unknown tenant status: '' @ s))"

fun plan_as_str :: "tenant_plan \<Rightarrow> string" where
  "plan_as_str TP_Free = ''free''"
| "plan_as_str TP_Pro = ''pro''"
| "plan_as_str TP_Enterprise = ''enterprise''"

definition plan_from_str :: "string \<Rightarrow> (string, tenant_plan) result" where
  "plan_from_str s =
     (if s = ''free'' then Ok TP_Free else if s = ''pro'' then Ok TP_Pro
      else if s = ''enterprise'' then Ok TP_Enterprise else Err (''unknown tenant plan: '' @ s))"

fun role_as_str :: "user_role \<Rightarrow> string" where
  "role_as_str UR_Admin = ''admin''"
| "role_as_str UR_Member = ''member''"
| "role_as_str UR_Viewer = ''viewer''"

definition role_from_str :: "string \<Rightarrow> (string, user_role) result" where
  "role_from_str s =
     (if s = ''admin'' then Ok UR_Admin else if s = ''member'' then Ok UR_Member
      else if s = ''viewer'' then Ok UR_Viewer else Err (''unknown user role: '' @ s))"

record tenant_quota =
  tq_max_users :: int
  tq_max_rpm :: int

definition tenant_quota_default :: tenant_quota where
  "tenant_quota_default = \<lparr>tq_max_users = 10, tq_max_rpm = 100\<rparr>"

record tenant =
  tn_id :: int
  tn_name :: string
  tn_slug :: string
  tn_status :: tenant_status
  tn_plan :: tenant_plan
  tn_quota :: tenant_quota
  tn_created_at :: int
  tn_updated_at :: int

record user =
  us_id :: int
  us_tenant_id :: int
  us_name :: string
  us_email :: string
  us_role :: user_role
  us_created_at :: int
  us_updated_at :: int

record create_tenant_req =
  ct_name :: string
  ct_slug :: string
  ct_plan :: tenant_plan

record update_tenant_req =
  ut_name :: "string option"
  ut_status :: "tenant_status option"
  ut_plan :: "tenant_plan option"

record create_user_req =
  cu_name :: string
  cu_email :: string
  cu_role :: user_role

definition default_member_role :: user_role where
  "default_member_role = UR_Member"

record update_user_req =
  uu_name :: "string option"
  uu_email :: "string option"
  uu_role :: "user_role option"

record 'a api_response =
  ar_code :: int
  ar_message :: string
  ar_data :: "'a option"

definition api_ok :: "'a \<Rightarrow> 'a api_response" where
  "api_ok d = \<lparr>ar_code = 0, ar_message = ''success'', ar_data = Some d\<rparr>"

definition api_err :: "int \<Rightarrow> string \<Rightarrow> 'a api_response" where
  "api_err c m = \<lparr>ar_code = c, ar_message = m, ar_data = None\<rparr>"

definition api_ok_empty :: "'a api_response" where
  "api_ok_empty = \<lparr>ar_code = 0, ar_message = ''success'', ar_data = None\<rparr>"

section \<open>Tables and statements\<close>

record tenant_row =
  tr_id :: int
  tr_name :: string
  tr_slug :: string
  tr_status :: string
  tr_plan :: string
  tr_max_users :: int
  tr_max_rpm :: int
  tr_created_at :: int
  tr_updated_at :: int

record user_row =
  ur_id :: int
  ur_tenant_id :: int
  ur_name :: string
  ur_email :: string
  ur_role :: string
  ur_created_at :: int
  ur_updated_at :: int

record tenant_db =
  td_tenants :: "tenant_row list"
  td_users :: "user_row list"
  td_next_tenant :: int
  td_next_user :: int
  td_now :: int
  td_faults :: "string option list"

type_synonym 'a sql = "tenant_db \<Rightarrow> (string, 'a) result \<times> tenant_db"

definition sql_run :: "'a sql \<Rightarrow> 'a sql" where
  "sql_run stmt db =
     (let db' = db\<lparr>td_faults := tl (td_faults db)\<rparr>
      in case td_faults db of Some e # _ \<Rightarrow> (Err e, db') | _ \<Rightarrow> stmt db')"

definition sql_then :: "'a sql \<Rightarrow> ('a \<Rightarrow> 'b sql) \<Rightarrow> 'b sql" where
  "sql_then m f db = (case m db of (Inl e, db') \<Rightarrow> (Err e, db') | (Inr x, db') \<Rightarrow> f x db')"

definition sql_return :: "'a \<Rightarrow> 'a sql" where
  "sql_return x db = (Ok x, db)"

definition no_rows :: string where
  "no_rows = ''no rows returned by a query that expected to return at least one row''"

definition fetch_one :: "('r \<Rightarrow> bool) \<Rightarrow> (tenant_db \<Rightarrow> 'r list) \<Rightarrow> 'r sql" where
  "fetch_one P rows = sql_run (\<lambda>db. (case List.find P (rows db) of Some r \<Rightarrow> Ok r | None \<Rightarrow> Err no_rows, db))"

definition insert_tenant :: "string \<Rightarrow> string \<Rightarrow> string \<Rightarrow> string \<Rightarrow> int \<Rightarrow> int \<Rightarrow> int sql" where
  "insert_tenant nm slug st pl mu rpm = sql_run (\<lambda>db.
     if list_ex (\<lambda>r. tr_slug r = slug) (td_tenants db) then (Err ''UNIQUE constraint failed: tenants.slug'', db)
     else (Ok (td_next_tenant db),
           db\<lparr>td_tenants := td_tenants db @ [\<lparr>tr_id = td_next_tenant db, tr_name = nm, tr_slug = slug, tr_status = st, tr_plan = pl,
                tr_max_users = mu, tr_max_rpm = rpm, tr_created_at = td_now db, tr_updated_at = td_now db\<rparr>],
              td_next_tenant := td_next_tenant db + 1\<rparr>))"

definition update_tenants :: "(tenant_row \<Rightarrow> tenant_row) \<Rightarrow> int \<Rightarrow> unit sql" where
  "update_tenants f i = sql_run (\<lambda>db. (Ok (), db\<lparr>td_tenants := map (\<lambda>r. if tr_id r = i then f r else r) (td_tenants db)\<rparr>))"

definition insert_user :: "int \<Rightarrow> string \<Rightarrow> string \<Rightarrow> string \<Rightarrow> int sql" where
  "insert_user t nm em ro = sql_run (\<lambda>db.
     if \<not> list_ex (\<lambda>r. tr_id r = t) (td_tenants db) then (Err ''FOREIGN KEY constraint failed'', db)
     else if list_ex (\<lambda>r. ur_tenant_id r = t \<and> ur_email r = em) (td_users db)
     then (Err ''UNIQUE constraint failed: users.tenant_id, users.email'', db)
     else (Ok (td_next_user db),
           db\<lparr>td_users := td_users db @ [\<lparr>ur_id = td_next_user db, ur_tenant_id = t, ur_name = nm, ur_email = em, ur_role = ro,
                ur_created_at = td_now db, ur_updated_at = td_now db\<rparr>],
              td_next_user := td_next_user db + 1\<rparr>))"

definition update_users :: "(user_row \<Rightarrow> user_row) \<Rightarrow> int \<Rightarrow> int \<Rightarrow> unit sql" where
  "update_users f t i = sql_run (\<lambda>db.
     (Ok (), db\<lparr>td_users := map (\<lambda>r. if ur_id r = i \<and> ur_tenant_id r = t then f r else r) (td_users db)\<rparr>))"

text \<open>The update of an email address is refused when another row of the tenant has it.\<close>

definition update_user_email :: "string \<Rightarrow> int \<Rightarrow> int \<Rightarrow> unit sql" where
  "update_user_email em t i = sql_run (\<lambda>db.
     if list_ex (\<lambda>r. ur_id r = i \<and> ur_tenant_id r = t) (td_users db) \<and>
        list_ex (\<lambda>r. ur_id r \<noteq> i \<and> ur_tenant_id r = t \<and> ur_email r = em) (td_users db)
     then (Err ''UNIQUE constraint failed: users.tenant_id, users.email'', db)
     else (Ok (), db\<lparr>td_users := map (\<lambda>r. if ur_id r = i \<and> ur_tenant_id r = t then r\<lparr>ur_email := em\<rparr> else r) (td_users db)\<rparr>))"

definition delete_users :: "int \<Rightarrow> int \<Rightarrow> nat sql" where
  "delete_users t i = sql_run (\<lambda>db.
     (Ok (length (filter (\<lambda>r. ur_id r = i \<and> ur_tenant_id r = t) (td_users db))),
      db\<lparr>td_users := filter (\<lambda>r. \<not> (ur_id r = i \<and> ur_tenant_id r = t)) (td_users db)\<rparr>))"

definition tenant_of_row :: "tenant_row \<Rightarrow> tenant" where
  "tenant_of_row r =
     \<lparr>tn_id = tr_id r, tn_name = tr_name r, tn_slug = tr_slug r,
      tn_status = (case status_from_str (tr_status r) of Inr s \<Rightarrow> s | Inl _ \<Rightarrow> TS_Pending),
      tn_plan = (case plan_from_str (tr_plan r) of Inr p \<Rightarrow> p | Inl _ \<Rightarrow> TP_Free),
      tn_quota = \<lparr>tq_max_users = tr_max_users r, tq_max_rpm = tr_max_rpm r\<rparr>,
      tn_created_at = tr_created_at r, tn_updated_at = tr_updated_at r\<rparr>"

definition user_of_row :: "user_row \<Rightarrow> user" where
  "user_of_row r =
     \<lparr>us_id = ur_id r, us_tenant_id = ur_tenant_id r, us_name = ur_name r, us_email = ur_email r,
      us_role = (case role_from_str (ur_role r) of Inr x \<Rightarrow> x | Inl _ \<Rightarrow> UR_Member),
      us_created_at = ur_created_at r, us_updated_at = ur_updated_at r\<rparr>"

section \<open>Services\<close>

definition tenant_find :: "int \<Rightarrow> tenant sql" where
  "tenant_find i = sql_then (fetch_one (\<lambda>r. tr_id r = i) td_tenants) (\<lambda>r. sql_return (tenant_of_row r))"

definition tenant_create :: "create_tenant_req \<Rightarrow> tenant sql" where
  "tenant_create req =
     sql_then (insert_tenant (ct_name req) (ct_slug req) (status_as_str TS_Active) (plan_as_str (ct_plan req))
                (tq_max_users tenant_quota_default) (tq_max_rpm tenant_quota_default)) tenant_find"

definition tenant_list :: "tenant list sql" where
  "tenant_list = sql_run (\<lambda>db. (Ok (map tenant_of_row (sort_key tr_id (td_tenants db))), db))"

definition when_some :: "'a option \<Rightarrow> ('a \<Rightarrow> unit sql) \<Rightarrow> unit sql" where
  "when_some x f = (case x of None \<Rightarrow> sql_return () | Some v \<Rightarrow> f v)"

definition tenant_update :: "int \<Rightarrow> update_tenant_req \<Rightarrow> tenant sql" where
  "tenant_update i req =
     sql_then (when_some (ut_name req) (\<lambda>n. update_tenants (\<lambda>r. r\<lparr>tr_name := n\<rparr>) i)) (\<lambda>_.
     sql_then (when_some (ut_status req) (\<lambda>s. update_tenants (\<lambda>r. r\<lparr>tr_status := status_as_str s\<rparr>) i)) (\<lambda>_.
     sql_then (when_some (ut_plan req) (\<lambda>p. update_tenants (\<lambda>r. r\<lparr>tr_plan := plan_as_str p\<rparr>) i)) (\<lambda>_. tenant_find i)))"

definition tenant_delete :: "int \<Rightarrow> unit sql" where
  "tenant_delete i = update_tenants (\<lambda>r. r\<lparr>tr_status := ''suspended''\<rparr>) i"

definition show_int :: "int \<Rightarrow> string" where
  "show_int n = (if n < 0 then CHR ''-'' # show_nat (nat (- n)) else show_nat (nat n))"

definition user_find :: "int \<Rightarrow> int \<Rightarrow> user sql" where
  "user_find t i db =
     (case fetch_one (\<lambda>r. ur_id r = i \<and> ur_tenant_id r = t) td_users db of
        (Inl e, db') \<Rightarrow> (Err ''user not found'', db')
      | (Inr r, db') \<Rightarrow> (Ok (user_of_row r), db'))"

definition count_users :: "int \<Rightarrow> int sql" where
  "count_users t = sql_run (\<lambda>db. (Ok (int (length (filter (\<lambda>r. ur_tenant_id r = t) (td_users db)))), db))"

definition quota_message :: "int \<Rightarrow> int \<Rightarrow> string" where
  "quota_message n mx = ''tenant user quota exceeded: '' @ show_int n @ '' of '' @ show_int mx"

definition user_create :: "int \<Rightarrow> create_user_req \<Rightarrow> user sql" where
  "user_create t req =
     sql_then (count_users t) (\<lambda>n.
     sql_then (fetch_one (\<lambda>r. tr_id r = t) td_tenants) (\<lambda>r.
       if tr_max_users r \<le> n then (\<lambda>db. (Err (quota_message n (tr_max_users r)), db))
       else sql_then (insert_user t (cu_name req) (cu_email req) (role_as_str (cu_role req))) (user_find t)))"

definition user_list :: "int \<Rightarrow> user list sql" where
  "user_list t = sql_run (\<lambda>db. (Ok (map user_of_row (sort_key ur_id (filter (\<lambda>r. ur_tenant_id r = t) (td_users db)))), db))"

definition user_update :: "int \<Rightarrow> int \<Rightarrow> update_user_req \<Rightarrow> user sql" where
  "user_update t i req =
     sql_then (user_find t i) (\<lambda>_.
     sql_then (when_some (uu_name req) (\<lambda>n. update_users (\<lambda>r. r\<lparr>ur_name := n\<rparr>) t i)) (\<lambda>_.
     sql_then (when_some (uu_email req) (\<lambda>e. update_user_email e t i)) (\<lambda>_.
     sql_then (when_some (uu_role req) (\<lambda>x. update_users (\<lambda>r. r\<lparr>ur_role := role_as_str x\<rparr>) t i)) (\<lambda>_. user_find t i))))"

definition user_delete :: "int \<Rightarrow> int \<Rightarrow> unit sql" where
  "user_delete t i =
     sql_then (delete_users t i) (\<lambda>n. if n = 0 then (\<lambda>db. (Err ''user not found'', db)) else sql_return ())"

section \<open>Rate limiter and middleware\<close>

record tenant_context =
  tc_tenant_id :: int
  tc_tenant_slug :: string
  tc_plan :: string
  tc_quota_rpm :: int

record rate_window =
  rw_count :: u32
  rw_reset_at :: instant

type_synonym rate_limiter = "int \<rightharpoonup> rate_window"

definition rate_limiter_new :: rate_limiter where
  "rate_limiter_new = Map.empty"

definition minute :: int where
  "minute = 60 * 10 ^ 9"

definition rate_check :: "instant \<Rightarrow> int \<Rightarrow> int \<Rightarrow> rate_limiter \<Rightarrow> bool \<times> rate_limiter" where
  "rate_check now t quota ws =
     (let w0 = (case ws t of Some w \<Rightarrow> w | None \<Rightarrow> \<lparr>rw_count = 0, rw_reset_at = now + minute\<rparr>);
          w1 = (if rw_reset_at w0 < now then \<lparr>rw_count = 0, rw_reset_at = now + minute\<rparr> else w0)
      in if word_of_int quota \<le> rw_count w1 then (False, ws(t \<mapsto> w1))
         else (True, ws(t \<mapsto> w1\<lparr>rw_count := rw_count w1 + 1\<rparr>)))"

record tenant_world =
  tw_db :: tenant_db
  tw_limiter :: rate_limiter

definition status_json :: "nat \<Rightarrow> string \<Rightarrow> http_response" where
  "status_json c m = json_response c (JObject [(''code'', JNumber (PosInt (word_of_nat c))), (''message'', JString m)])"

definition tenant_validation_middleware ::
  "instant \<Rightarrow> (tenant_context \<Rightarrow> tenant_world handler) \<Rightarrow> tenant_world handler" where
  "tenant_validation_middleware now nxt req w =
     (case header_str ''x-tenant-id'' req of
        None \<Rightarrow> (status_json 400 ''missing X-Tenant-ID header'', w)
      | Some slug \<Rightarrow>
          (case fetch_one (\<lambda>r. tr_slug r = slug \<and> tr_status r = ''active'') td_tenants (tw_db w) of
             (Inl e, db') \<Rightarrow> (status_json 403 ''tenant not found or inactive'', w\<lparr>tw_db := db'\<rparr>)
           | (Inr r, db') \<Rightarrow>
               (case rate_check now (tr_id r) (tr_max_rpm r) (tw_limiter w) of
                  (False, l) \<Rightarrow> (status_json 429 ''tenant rate limit exceeded'', w\<lparr>tw_db := db', tw_limiter := l\<rparr>)
                | (True, l) \<Rightarrow>
                    nxt \<lparr>tc_tenant_id = tr_id r, tc_tenant_slug = tr_slug r, tc_plan = tr_plan r, tc_quota_rpm = tr_max_rpm r\<rparr>
                      req (w\<lparr>tw_db := db', tw_limiter := l\<rparr>))))"

definition admin_guard_middleware :: "'w handler \<Rightarrow> 'w handler" where
  "admin_guard_middleware nxt req w =
     (if header_str ''x-admin-token'' req = Some ''supersecrettoken'' then nxt req w
      else (status_json 401 ''admin access required'', w))"

section \<open>Handlers and router\<close>

definition list_tenants :: "tenant_db \<Rightarrow> tenant list api_response \<times> tenant_db" where
  "list_tenants db = (case tenant_list db of (Inr d, db') \<Rightarrow> (api_ok d, db') | (Inl e, db') \<Rightarrow> (api_err 500 (''database error: '' @ e), db'))"

definition create_tenant :: "create_tenant_req \<Rightarrow> tenant_db \<Rightarrow> tenant api_response \<times> tenant_db" where
  "create_tenant req db =
     (if ct_name req = [] \<or> ct_slug req = [] then (api_err 400 ''name and slug are required'', db)
      else case tenant_create req db of
             (Inr d, db') \<Rightarrow> (api_ok d, db')
           | (Inl e, db') \<Rightarrow> (api_err 500 (''failed to create tenant: '' @ e), db'))"

definition get_tenant :: "int \<Rightarrow> tenant_db \<Rightarrow> tenant api_response \<times> tenant_db" where
  "get_tenant i db = (case tenant_find i db of (Inr d, db') \<Rightarrow> (api_ok d, db') | (Inl e, db') \<Rightarrow> (api_err 404 ''tenant not found'', db'))"

definition update_tenant :: "int \<Rightarrow> update_tenant_req \<Rightarrow> tenant_db \<Rightarrow> tenant api_response \<times> tenant_db" where
  "update_tenant i req db =
     (case tenant_update i req db of (Inr d, db') \<Rightarrow> (api_ok d, db') | (Inl e, db') \<Rightarrow> (api_err 404 ''tenant not found'', db'))"

definition delete_tenant :: "int \<Rightarrow> tenant_db \<Rightarrow> unit api_response \<times> tenant_db" where
  "delete_tenant i db =
     (case tenant_delete i db of (Inr d, db') \<Rightarrow> (api_ok_empty, db') | (Inl e, db') \<Rightarrow> (api_err 500 (''failed to delete tenant: '' @ e), db'))"

definition list_users :: "tenant_context \<Rightarrow> tenant_db \<Rightarrow> user list api_response \<times> tenant_db" where
  "list_users c db =
     (case user_list (tc_tenant_id c) db of (Inr d, db') \<Rightarrow> (api_ok d, db') | (Inl e, db') \<Rightarrow> (api_err 500 (''database error: '' @ e), db'))"

definition create_user :: "tenant_context \<Rightarrow> create_user_req \<Rightarrow> tenant_db \<Rightarrow> user api_response \<times> tenant_db" where
  "create_user c req db =
     (if cu_name req = [] \<or> cu_email req = [] then (api_err 400 ''name and email are required'', db)
      else case user_create (tc_tenant_id c) req db of
             (Inr d, db') \<Rightarrow> (api_ok d, db')
           | (Inl m, db') \<Rightarrow>
               (if contains_str ''quota'' m then api_err 429 m else api_err 500 (''failed to create user: '' @ m), db'))"

definition get_user :: "tenant_context \<Rightarrow> int \<Rightarrow> tenant_db \<Rightarrow> user api_response \<times> tenant_db" where
  "get_user c i db =
     (case user_find (tc_tenant_id c) i db of (Inr d, db') \<Rightarrow> (api_ok d, db') | (Inl e, db') \<Rightarrow> (api_err 404 ''user not found'', db'))"

definition update_user :: "tenant_context \<Rightarrow> int \<Rightarrow> update_user_req \<Rightarrow> tenant_db \<Rightarrow> user api_response \<times> tenant_db" where
  "update_user c i req db =
     (case user_update (tc_tenant_id c) i req db of
        (Inr d, db') \<Rightarrow> (api_ok d, db') | (Inl e, db') \<Rightarrow> (api_err 404 ''user not found'', db'))"

definition delete_user :: "tenant_context \<Rightarrow> int \<Rightarrow> tenant_db \<Rightarrow> unit api_response \<times> tenant_db" where
  "delete_user c i db =
     (case user_delete (tc_tenant_id c) i db of
        (Inr d, db') \<Rightarrow> (api_ok_empty, db') | (Inl e, db') \<Rightarrow> (api_err 404 ''user not found'', db'))"

definition ready_handler :: "tenant_db \<Rightarrow> unit api_response \<times> tenant_db" where
  "ready_handler db =
     (case sql_run (\<lambda>db. (Ok (), db)) db of
        (Inr _, db') \<Rightarrow> (api_ok_empty, db') | (Inl e, db') \<Rightarrow> (api_err 503 (''not ready: '' @ e), db'))"

datatype tenant_layer = Admin_Guard | Tenant_Validation | Ext_Db | Ext_Limiter | Ext_Tenant_Svc | Ext_User_Svc

definition tenant_app :: "('r, 'h, tenant_layer) router_api \<Rightarrow> (string \<Rightarrow> 'h) \<Rightarrow> 'r" where
  "tenant_app R h =
     (let route = (\<lambda>p. ro_route R p (h p)); layer = (\<lambda>l. ro_layer R (Custom l))
      in layer Ext_User_Svc (layer Ext_Tenant_Svc (layer Ext_Limiter (layer Ext_Db (layer Tenant_Validation
           (route ''/users/:id'' (route ''/users'' (layer Admin_Guard
              (route ''/admin/tenants/:id'' (route ''/admin/tenants'' (route ''/ready'' (route ''/health'' (ro_new R)))))))))))))"

section \<open>Set-up\<close>

definition tenant_db_init :: "int \<Rightarrow> tenant_db" where
  "tenant_db_init now =
     snd (sql_then (insert_tenant ''Acme Corporation'' ''acme'' ''active'' ''enterprise'' 10 100)
            (\<lambda>t. insert_user t ''Alice Admin'' ''alice@acme.com'' ''admin'')
            \<lparr>td_tenants = [], td_users = [], td_next_tenant = 1, td_next_user = 1, td_now = now, td_faults = []\<rparr>)"

section \<open>Isolation\<close>

definition user_view :: "int \<Rightarrow> tenant_db \<Rightarrow> user_row list" where
  "user_view t db = filter (\<lambda>r. ur_tenant_id r = t) (td_users db)"

text \<open>A statement is confined to a tenant: it changes no tenant and no user of another tenant.\<close>

definition confined :: "int \<Rightarrow> 'a sql \<Rightarrow> bool" where
  "confined t m \<longleftrightarrow> (\<forall>db. td_tenants (snd (m db)) = td_tenants db \<and> (\<forall>u. u \<noteq> t \<longrightarrow> user_view u (snd (m db)) = user_view u db))"

text \<open>A statement depends on a tenant's own users only (and on its tenant row, the clock and the faults).\<close>

definition same_view :: "int \<Rightarrow> tenant_db \<Rightarrow> tenant_db \<Rightarrow> bool" where
  "same_view t a b \<longleftrightarrow> user_view t a = user_view t b \<and> td_faults a = td_faults b"

definition sees_own :: "int \<Rightarrow> 'a sql \<Rightarrow> bool" where
  "sees_own t m \<longleftrightarrow> (\<forall>a b. same_view t a b \<longrightarrow> fst (m a) = fst (m b) \<and> same_view t (snd (m a)) (snd (m b)))"

named_theorems scoped_intros

lemma sql_then_parts:
  "fst (sql_then m f db) = (case fst (m db) of Inl e \<Rightarrow> Err e | Inr x \<Rightarrow> fst (f x (snd (m db))))"
  "snd (sql_then m f db) = (case fst (m db) of Inl e \<Rightarrow> snd (m db) | Inr x \<Rightarrow> snd (f x (snd (m db))))"
  by (simp_all add: sql_then_def split: prod.splits sum.splits)

lemma sql_run_parts:
  "sql_run m db = (if td_faults db \<noteq> [] \<and> hd (td_faults db) \<noteq> None
     then (Err (the (hd (td_faults db))), db\<lparr>td_faults := tl (td_faults db)\<rparr>) else m (db\<lparr>td_faults := tl (td_faults db)\<rparr>))"
  by (auto simp: sql_run_def Let_def split: list.splits option.splits)

lemma user_find_parts:
  "fst (user_find t i db) = (case fst (fetch_one (\<lambda>r. ur_id r = i \<and> ur_tenant_id r = t) td_users db) of
     Inl e \<Rightarrow> Err ''user not found'' | Inr r \<Rightarrow> Ok (user_of_row r))"
  "snd (user_find t i db) = snd (fetch_one (\<lambda>r. ur_id r = i \<and> ur_tenant_id r = t) td_users db)"
  by (simp_all add: user_find_def split: prod.splits sum.splits)

lemma confined_then [scoped_intros]: "confined t m \<Longrightarrow> (\<And>x. confined t (f x)) \<Longrightarrow> confined t (sql_then m f)"
  unfolding confined_def sql_then_parts by (auto split: sum.splits)

lemma confined_if [scoped_intros]: "confined t m \<Longrightarrow> confined t n \<Longrightarrow> confined t (if c then m else n)"
  by simp

lemma confined_return [scoped_intros]: "confined t (sql_return x)"
  by (simp add: confined_def sql_return_def)

lemma confined_fail [scoped_intros]: "confined t (\<lambda>db. (Inl e, db))"
  by (simp add: confined_def)

lemma confined_when [scoped_intros]: "(\<And>x. confined t (f x)) \<Longrightarrow> confined t (when_some o' f)"
  by (cases o') (simp_all add: when_some_def confined_return)

lemma view_faults [simp]: "user_view t (db\<lparr>td_faults := fs\<rparr>) = user_view t db"
  by (simp add: user_view_def)

lemma confined_run: "confined t m \<Longrightarrow> confined t (sql_run m)"
  unfolding confined_def sql_run_parts by auto

lemma confined_fetch [scoped_intros]: "confined t (fetch_one P rows)"
  unfolding fetch_one_def by (rule confined_run) (simp add: confined_def)

lemma confined_count [scoped_intros]: "confined t (count_users u)"
  unfolding count_users_def by (rule confined_run) (simp add: confined_def)

lemma confined_insert [scoped_intros]: "confined t (insert_user t n e r)"
  unfolding insert_user_def by (rule confined_run) (auto simp: confined_def user_view_def)

lemma filter_map_other:
  "(\<And>r. P r \<Longrightarrow> \<not> Q r \<and> \<not> Q (f r)) \<Longrightarrow> filter Q (map (\<lambda>r. if P r then f r else r) xs) = filter Q xs"
  by (induction xs) auto

lemma confined_update [scoped_intros]:
  "(\<And>r. ur_tenant_id (f r) = ur_tenant_id r) \<Longrightarrow> confined t (update_users f t i)"
  unfolding update_users_def by (rule confined_run) (auto simp: confined_def user_view_def intro!: filter_map_other)

lemma confined_email [scoped_intros]: "confined t (update_user_email e t i)"
  unfolding update_user_email_def by (rule confined_run) (auto simp: confined_def user_view_def intro!: filter_map_other)

lemma confined_delete [scoped_intros]: "confined t (delete_users t i)"
  unfolding delete_users_def by (rule confined_run) (auto simp: confined_def user_view_def intro!: filter_cong)

lemma confined_find [scoped_intros]: "confined t (user_find u i)"
  using confined_fetch [of t "\<lambda>r. ur_id r = i \<and> ur_tenant_id r = u" td_users]
  unfolding confined_def user_find_parts .

lemma confined_list [scoped_intros]: "confined t (user_list u)"
  unfolding user_list_def by (rule confined_run) (simp add: confined_def)

lemma confined_ops [scoped_intros]:
  "confined t (user_create t req)" "confined t (user_update t i ureq)" "confined t (user_delete t i)"
  unfolding user_create_def user_update_def user_delete_def
  by (intro scoped_intros; simp)+

lemma sees_then [scoped_intros]: "sees_own t m \<Longrightarrow> (\<And>x. sees_own t (f x)) \<Longrightarrow> sees_own t (sql_then m f)"
  unfolding sees_own_def sql_then_parts by (auto split: sum.splits)

lemma sees_if [scoped_intros]: "sees_own t m \<Longrightarrow> sees_own t n \<Longrightarrow> sees_own t (if c then m else n)"
  by simp

lemma sees_return [scoped_intros]: "sees_own t (sql_return x)"
  by (simp add: sees_own_def sql_return_def)

lemma sees_fail [scoped_intros]: "sees_own t (\<lambda>db. (Inl e, db))"
  by (simp add: sees_own_def)

lemma sees_when [scoped_intros]: "(\<And>x. sees_own t (f x)) \<Longrightarrow> sees_own t (when_some o' f)"
  by (cases o') (simp_all add: when_some_def sees_return)

lemma same_view_faults: "same_view t a b \<Longrightarrow> same_view t (a\<lparr>td_faults := fs\<rparr>) (b\<lparr>td_faults := fs\<rparr>)"
  by (simp add: same_view_def)

lemma sees_run: "sees_own t m \<Longrightarrow> sees_own t (sql_run m)"
  unfolding sees_own_def sql_run_parts using same_view_faults [of t] by (auto simp: same_view_def)

lemma find_filter: "(\<And>r. P r \<Longrightarrow> Q r) \<Longrightarrow> List.find P (filter Q xs) = List.find P xs"
  by (induction xs) auto

lemma find_user_view: "List.find (\<lambda>r. ur_id r = i \<and> ur_tenant_id r = t) (td_users db) = List.find (\<lambda>r. ur_id r = i \<and> ur_tenant_id r = t) (user_view t db)"
  unfolding user_view_def by (rule find_filter [symmetric]) simp

lemma sees_fetch [scoped_intros]: "sees_own t (fetch_one (\<lambda>r. ur_id r = i \<and> ur_tenant_id r = t) td_users)"
  unfolding fetch_one_def by (rule sees_run) (simp add: sees_own_def same_view_def find_user_view)

lemma sees_find [scoped_intros]: "sees_own t (user_find t i)"
  using sees_fetch [of t i] unfolding sees_own_def user_find_parts by simp

lemma sees_list [scoped_intros]: "sees_own t (user_list t)"
  unfolding user_list_def by (rule sees_run) (simp add: sees_own_def same_view_def flip: user_view_def)

lemma view_map:
  "(\<And>r. ur_tenant_id (f r) = ur_tenant_id r) \<Longrightarrow>
     user_view t (db\<lparr>td_users := map (\<lambda>r. if ur_id r = i \<and> ur_tenant_id r = t then f r else r) (td_users db)\<rparr>) =
     map (\<lambda>r. if ur_id r = i then f r else r) (user_view t db)"
  unfolding user_view_def by (induction "td_users db" arbitrary: db) (auto simp: filter_map comp_def intro!: map_cong filter_cong)

lemma sees_update [scoped_intros]: "(\<And>r. ur_tenant_id (f r) = ur_tenant_id r) \<Longrightarrow> sees_own t (update_users f t i)"
  unfolding update_users_def by (rule sees_run) (simp add: sees_own_def same_view_def view_map)

lemma list_ex_view:
  "list_ex (\<lambda>r. Q r \<and> ur_tenant_id r = t \<and> P r) (td_users db) = list_ex (\<lambda>r. Q r \<and> P r) (user_view t db)"
  by (auto simp: user_view_def list_ex_iff)

lemma sees_email [scoped_intros]: "sees_own t (update_user_email e t i)"
  unfolding update_user_email_def
  using list_ex_view [of "\<lambda>r. ur_id r = i" t "\<lambda>_. True"] list_ex_view [of "\<lambda>r. ur_id r \<noteq> i" t "\<lambda>r. ur_email r = e"]
  by (intro sees_run) (simp add: sees_own_def same_view_def view_map)

lemma sees_delete [scoped_intros]: "sees_own t (delete_users t i)"
proof -
  have "filter (\<lambda>r. ur_id r = i \<and> ur_tenant_id r = t) (td_users db) = filter (\<lambda>r. ur_id r = i) (user_view t db)" for db
    by (simp add: user_view_def conj_commute)
  moreover have "user_view t (db\<lparr>td_users := filter (\<lambda>r. \<not> (ur_id r = i \<and> ur_tenant_id r = t)) (td_users db)\<rparr>) =
      filter (\<lambda>r. ur_id r \<noteq> i) (user_view t db)" for db
    by (auto simp: user_view_def intro!: filter_cong)
  ultimately show ?thesis unfolding delete_users_def by (intro sees_run) (simp add: sees_own_def same_view_def del: de_Morgan_conj)
qed

lemma sees_ops [scoped_intros]: "sees_own t (user_update t i req)" "sees_own t (user_delete t i)"
  unfolding user_update_def user_delete_def by (intro scoped_intros; simp)+

text \<open>The tenant-scoped operations and what they show of the users table.\<close>

datatype user_op = Op_List | Op_Create create_user_req | Op_Get int | Op_Update int update_user_req | Op_Delete int

definition sql_map :: "('a \<Rightarrow> 'b) \<Rightarrow> 'a sql \<Rightarrow> 'b sql" where
  "sql_map f m = sql_then m (\<lambda>x. sql_return (f x))"

fun user_serve :: "int \<Rightarrow> user_op \<Rightarrow> user list sql" where
  "user_serve t Op_List = user_list t"
| "user_serve t (Op_Create req) = sql_map (\<lambda>u. [u]) (user_create t req)"
| "user_serve t (Op_Get i) = sql_map (\<lambda>u. [u]) (user_find t i)"
| "user_serve t (Op_Update i req) = sql_map (\<lambda>u. [u]) (user_update t i req)"
| "user_serve t (Op_Delete i) = sql_map (\<lambda>_. []) (user_delete t i)"

lemma user_serve_confined: "confined t (user_serve t op)"
  by (cases op) (auto simp: sql_map_def intro!: scoped_intros)

lemma user_serve_sees: "(\<And>req. op \<noteq> Op_Create req) \<Longrightarrow> sees_own t (user_serve t op)"
  by (cases op) (auto simp: sql_map_def intro!: scoped_intros)

text \<open>Every user shown is a row of the tenant, as the table is after the operation.\<close>

definition shows_own :: "int \<Rightarrow> user list sql \<Rightarrow> bool" where
  "shows_own t m \<longleftrightarrow> (\<forall>db us db'. m db = (Inr us, db') \<longrightarrow> set us \<subseteq> user_of_row ` set (user_view t db'))"

lemma user_find_shows: "user_find t i db = (Inr u, db') \<Longrightarrow> u \<in> user_of_row ` set (user_view t db') \<and> us_id u = i"
  by (auto simp: user_find_def fetch_one_def sql_run_parts find_Some_iff in_set_conv_nth user_view_def image_iff Bex_def user_of_row_def
      split: sum.splits option.splits prod.splits if_splits) fastforce+

lemma shows_then: "(\<And>x. shows_own t (f x)) \<Longrightarrow> shows_own t (sql_then m f)"
  unfolding shows_own_def sql_then_def by (auto split: prod.splits sum.splits)

lemma shows_fail: "shows_own t (\<lambda>db. (Inl e, db))" and shows_nil: "shows_own t (sql_return [])"
  by (simp_all add: shows_own_def sql_return_def)

lemma shows_find: "shows_own t (sql_map (\<lambda>u. [u]) (user_find t i))"
  unfolding shows_own_def sql_map_def sql_then_def sql_return_def using user_find_shows by (fastforce split: prod.splits sum.splits)

lemma sql_map_then: "sql_map g (sql_then m f) = sql_then m (\<lambda>x. sql_map g (f x))"
  by (rule ext) (simp add: sql_map_def sql_then_def split: prod.splits sum.splits)

lemma sql_map_fail: "sql_map g (\<lambda>db. (Inl e, db)) = (\<lambda>db. (Inl e, db))"
  by (rule ext) (simp add: sql_map_def sql_then_def)

lemma sql_map_if: "sql_map g (if c then m else n) = (if c then sql_map g m else sql_map g n)"
  by simp

lemma user_serve_shows: "shows_own t (user_serve t op)"
proof (cases op)
  case Op_List
  then show ?thesis by (auto simp: shows_own_def user_list_def sql_run_parts user_view_def split: if_splits)
next
  case (Op_Create req)
  show ?thesis unfolding Op_Create user_serve.simps user_create_def sql_map_then sql_map_if sql_map_fail
    by (intro shows_then) (simp add: shows_fail shows_then shows_find)
next
  case (Op_Update i req)
  show ?thesis unfolding Op_Update user_serve.simps user_update_def sql_map_then by (intro shows_then shows_find)
next
  case (Op_Delete i)
  show ?thesis unfolding Op_Delete user_serve.simps sql_map_def by (intro shows_then shows_nil)
qed (simp add: shows_find)

lemma served_by_others: "\<forall>(t, op)\<in>set ops. t \<noteq> u \<Longrightarrow> user_view u (fold (\<lambda>(t, op) db. snd (user_serve t op db)) ops db) = user_view u db"
proof (induction ops arbitrary: db)
  case (Cons x ops)
  then show ?case using user_serve_confined [of "fst x" "snd x"] by (auto simp: confined_def split_beta)
qed simp

text \<open>
  Tenant isolation.  Whatever operations other tenants perform, in whatever order and with whatever
  failures of the database, the users of a tenant stay as they are; every user that an operation shows is a row of the
  tenant that asked; and apart from creation, whose identifiers come from one counter, the answer and the effect of
  an operation depend on the users of that tenant only, so that a user of another tenant is answered like one
  that does not exist.
\<close>

theorem tenant_isolation:
  "((\<forall>(s, op)\<in>set ops. s \<noteq> t) \<longrightarrow> user_view t (fold (\<lambda>(s, op) db. snd (user_serve s op db)) ops a) = user_view t a) \<and>
   (\<forall>us a'. user_serve t op a = (Inr us, a') \<longrightarrow> set us \<subseteq> user_of_row ` set (user_view t a') \<and> (\<forall>x\<in>set us. us_tenant_id x = t)) \<and>
   (same_view t a b \<and> (\<forall>req. op \<noteq> Op_Create req) \<longrightarrow>
     fst (user_serve t op a) = fst (user_serve t op b) \<and> same_view t (snd (user_serve t op a)) (snd (user_serve t op b)))"
proof (intro conjI allI impI)
  fix us a'
  assume "user_serve t op a = (Inr us, a')"
  then show own: "set us \<subseteq> user_of_row ` set (user_view t a')" using user_serve_shows unfolding shows_own_def by blast
  then show "\<forall>x\<in>set us. us_tenant_id x = t" by (auto simp: user_of_row_def user_view_def)
qed (use served_by_others user_serve_sees [of op t] in \<open>auto simp: sees_own_def\<close>)

definition two_tenants :: tenant_db where
  "two_tenants =
     snd (sql_then (insert_tenant ''Beta'' ''beta'' ''active'' ''free'' 10 100) (\<lambda>t. insert_user t ''Bob'' ''bob@beta'' ''member'') (tenant_db_init 0))"

lemmas tenant_eval = tenant_db_init_def two_tenants_def sql_then_def sql_run_def sql_return_def insert_tenant_def insert_user_def
  Let_def user_view_def

theorem tenant_isolation_witness:
  "user_view 1 (fold (\<lambda>(s, op) db. snd (user_serve s op db)) [(2, Op_Delete 1), (2, Op_Update 1 \<lparr>uu_name = Some ''x'', uu_email = None, uu_role = None\<rparr>)] two_tenants) =
     user_view 1 two_tenants \<and> length (user_view 1 two_tenants) = 1"
  using tenant_isolation [of "[(2, Op_Delete 1), (2, Op_Update 1 \<lparr>uu_name = Some ''x'', uu_email = None, uu_role = None\<rparr>)]" 1 two_tenants Op_List]
  by (simp add: tenant_eval)

section \<open>User quota\<close>

definition quota_of :: "int \<Rightarrow> tenant_db \<Rightarrow> int option" where
  "quota_of t db = map_option tr_max_users (List.find (\<lambda>r. tr_id r = t) (td_tenants db))"

definition within_quota :: "int \<Rightarrow> tenant_db \<Rightarrow> bool" where
  "within_quota t db \<longleftrightarrow> (\<forall>mx. quota_of t db = Some mx \<longrightarrow> int (length (user_view t db)) \<le> mx)"

text \<open>
  The statements of a creation one by one: counting, reading the limit, inserting, reading back.  Run without
  interruption they are \<open>user_create\<close>; two clients can interleave them.
\<close>

datatype create_pc = C_Count | C_Limit int | C_Insert | C_Find int | C_Done "(string, user) result"

fun create_step :: "int \<Rightarrow> create_user_req \<Rightarrow> create_pc \<Rightarrow> tenant_db \<Rightarrow> create_pc \<times> tenant_db" where
  "create_step t req C_Count db =
     (case count_users t db of (Inl e, db') \<Rightarrow> (C_Done (Inl e), db') | (Inr n, db') \<Rightarrow> (C_Limit n, db'))"
| "create_step t req (C_Limit n) db =
     (case fetch_one (\<lambda>r. tr_id r = t) td_tenants db of
        (Inl e, db') \<Rightarrow> (C_Done (Inl e), db')
      | (Inr r, db') \<Rightarrow> (if tr_max_users r \<le> n then C_Done (Inl (quota_message n (tr_max_users r))) else C_Insert, db'))"
| "create_step t req C_Insert db =
     (case insert_user t (cu_name req) (cu_email req) (role_as_str (cu_role req)) db of
        (Inl e, db') \<Rightarrow> (C_Done (Inl e), db') | (Inr i, db') \<Rightarrow> (C_Find i, db'))"
| "create_step t req (C_Find i) db = (case user_find t i db of (r, db') \<Rightarrow> (C_Done r, db'))"
| "create_step t req (C_Done r) db = (C_Done r, db)"

lemma user_create_steps:
  "((\<lambda>(pc, db). create_step t req pc db) ^^ 4) (C_Count, db) = (case user_create t req db of (r, db') \<Rightarrow> (C_Done r, db'))"
  by (simp add: numeral_eq_Suc user_create_def sql_then_def split: prod.splits sum.splits)

text \<open>The clients take turns; a turn names the client that runs its next statement.\<close>

fun create_turns :: "int \<Rightarrow> create_user_req list \<Rightarrow> nat list \<Rightarrow> create_pc list \<Rightarrow> tenant_db \<Rightarrow> create_pc list \<times> tenant_db" where
  "create_turns t reqs [] pcs db = (pcs, db)"
| "create_turns t reqs (i # is) pcs db =
     (case create_step t (reqs ! i) (pcs ! i) db of (pc, db') \<Rightarrow> create_turns t reqs is (pcs[i := pc]) db')"

definition shrinks :: "int \<Rightarrow> 'a sql \<Rightarrow> bool" where
  "shrinks t m \<longleftrightarrow> (\<forall>db. length (user_view t (snd (m db))) \<le> length (user_view t db))"

lemma shrinks_then: "shrinks t m \<Longrightarrow> (\<And>x. shrinks t (f x)) \<Longrightarrow> shrinks t (sql_then m f)"
  unfolding shrinks_def sql_then_parts
proof
  fix db
  assume m: "\<forall>db. length (user_view t (snd (m db))) \<le> length (user_view t db)"
    and f: "\<And>x. \<forall>db. length (user_view t (snd (f x db))) \<le> length (user_view t db)"
  show "length (user_view t (case fst (m db) of Inl e \<Rightarrow> snd (m db) | Inr x \<Rightarrow> snd (f x (snd (m db))))) \<le> length (user_view t db)"
    using m order_trans [OF f [rule_format, of _ "snd (m db)"] m [rule_format, of db]] by (simp split: sum.splits)
qed

lemma shrinks_run: "shrinks t m \<Longrightarrow> shrinks t (sql_run m)"
  unfolding shrinks_def sql_run_parts by (auto intro: order_trans)

lemma shrinks_when: "(\<And>x. shrinks t (f x)) \<Longrightarrow> shrinks t (when_some o' f)"
  by (cases o') (auto simp: when_some_def shrinks_def sql_return_def)

lemma view_fetch [simp]: "user_view t (snd (fetch_one P rows db)) = user_view t db"
  by (simp add: fetch_one_def sql_run_parts)

lemma tenants_fetch [simp]: "td_tenants (snd (fetch_one P rows db)) = td_tenants db"
  by (simp add: fetch_one_def sql_run_parts)

lemma length_filter_mono: "(\<And>x. P x \<Longrightarrow> Q x) \<Longrightarrow> length (filter P xs) \<le> length (filter Q xs)"
  by (induction xs) auto

lemma shrinks_stmts:
  "shrinks t (sql_return x)" "shrinks t (\<lambda>db. (Inl e, db))" "shrinks t (user_find t i)" "shrinks t (user_list t)" "shrinks t (delete_users t i)"
  "(\<And>r. ur_tenant_id (f r) = ur_tenant_id r) \<Longrightarrow> shrinks t (update_users f t i)" "shrinks t (update_user_email em t i)"
proof -
  show "shrinks t (delete_users t i)" unfolding delete_users_def
    by (rule shrinks_run) (auto simp: shrinks_def user_view_def intro!: length_filter_mono)
  show "shrinks t (update_users f t i)" if "\<And>r. ur_tenant_id (f r) = ur_tenant_id r"
    unfolding update_users_def by (rule shrinks_run) (simp add: shrinks_def view_map that)
  show "shrinks t (update_user_email em t i)"
    unfolding update_user_email_def by (rule shrinks_run) (simp add: shrinks_def view_map)
  show "shrinks t (user_list t)" unfolding user_list_def by (rule shrinks_run) (simp add: shrinks_def)
qed (simp_all add: shrinks_def sql_return_def user_find_parts)

lemma shrinks_serve: "(\<And>req. op \<noteq> Op_Create req) \<Longrightarrow> shrinks t (user_serve t op)"
  by (cases op)
     (auto simp: sql_map_def user_update_def user_delete_def intro!: shrinks_then shrinks_when shrinks_stmts)

lemma count_users_parts:
  "fst (count_users t db) = Inr n \<Longrightarrow> n = int (length (user_view t db))"
  "user_view t (snd (count_users s db)) = user_view t db" "td_tenants (snd (count_users s db)) = td_tenants db"
  by (auto simp: count_users_def sql_run_parts user_view_def split: if_splits)

lemma insert_user_grows: "length (user_view t (snd (insert_user t n e r db))) \<le> Suc (length (user_view t db))"
  by (auto simp: insert_user_def sql_run_parts user_view_def)

lemma user_create_quota:
  assumes "within_quota t db"
  shows "within_quota t (snd (user_create t req db))"
proof -
  let ?c = "count_users t db" and ?l = "fetch_one (\<lambda>r. tr_id r = t) td_tenants (snd (count_users t db))"
  have tenants: "td_tenants (snd (user_create t req db)) = td_tenants db"
    using confined_ops(1) [of t req] unfolding confined_def by blast
  have same: "length (user_view t (snd (user_create t req db))) \<le> length (user_view t db) \<or>
      (\<exists>n r. fst ?c = Inr n \<and> fst ?l = Inr r \<and> \<not> tr_max_users r \<le> n \<and>
         length (user_view t (snd (user_create t req db))) \<le> Suc (length (user_view t db)))"
  proof (cases "fst ?c")
    case (Inr n)
    show ?thesis
    proof (cases "fst ?l")
      case l: (Inr r)
      have "length (user_view t (snd (sql_then (insert_user t (cu_name req) (cu_email req) (role_as_str (cu_role req))) (user_find t) (snd ?l))))
          \<le> Suc (length (user_view t db))"
        using insert_user_grows [of t "cu_name req" "cu_email req" "role_as_str (cu_role req)" "snd ?l"]
        by (auto simp: sql_then_parts user_find_parts count_users_parts split: sum.splits)
      then show ?thesis using Inr l by (auto simp: user_create_def sql_then_parts count_users_parts split: sum.splits)
    qed (auto simp: user_create_def sql_then_parts count_users_parts split: sum.splits)
  qed (auto simp: user_create_def sql_then_parts count_users_parts split: sum.splits)
  have l: "quota_of t db = Some (tr_max_users r)" if "fst ?l = Inr r" for r
    using that by (auto simp: fetch_one_def sql_run_parts count_users_parts quota_of_def split: if_splits option.splits)
  show ?thesis
    using assms same l count_users_parts(1) [of t db] tenants unfolding within_quota_def quota_of_def by force
qed

lemma shrinks_quota: "confined t m \<Longrightarrow> shrinks t m \<Longrightarrow> within_quota t db \<Longrightarrow> within_quota t (snd (m db))"
  unfolding confined_def shrinks_def within_quota_def quota_of_def by (metis of_nat_le_iff order_trans)

lemma serve_quota: "within_quota t db \<Longrightarrow> within_quota t (snd (user_serve s op db))"
proof (cases "s = t")
  case False
  then show "within_quota t db \<Longrightarrow> ?thesis" using user_serve_confined [of s op] by (auto simp: confined_def within_quota_def quota_of_def)
next
  case st: True
  assume q: "within_quota t db"
  show ?thesis
  proof (cases op)
    case (Op_Create req)
    have "snd (user_serve s op db) = snd (user_create t req db)"
      by (auto simp: Op_Create st sql_map_def sql_then_parts sql_return_def split: sum.splits)
    then show ?thesis using user_create_quota [OF q] by simp
  qed (use q st shrinks_quota [OF user_serve_confined shrinks_serve, of op t db] in \<open>simp_all del: user_serve.simps\<close>)
qed

definition quota_one :: tenant_db where
  "quota_one = \<lparr>td_tenants = [\<lparr>tr_id = 1, tr_name = ''A'', tr_slug = ''a'', tr_status = ''active'', tr_plan = ''free'', tr_max_users = 1,
     tr_max_rpm = 100, tr_created_at = 0, tr_updated_at = 0\<rparr>], td_users = [], td_next_tenant = 2, td_next_user = 1, td_now = 0, td_faults = []\<rparr>"

definition two_clients :: "create_user_req list" where
  "two_clients = [\<lparr>cu_name = ''x'', cu_email = ''x@a'', cu_role = UR_Member\<rparr>, \<lparr>cu_name = ''y'', cu_email = ''y@a'', cu_role = UR_Member\<rparr>]"

text \<open>
  The user quota of a tenant is kept by every sequence of operations of all tenants that run one after the
  other; but the check and the insertion are separate statements, and two creations that interleave exceed it.
\<close>

theorem user_quota:
  "(within_quota t db \<longrightarrow> within_quota t (fold (\<lambda>(s, op) db. snd (user_serve s op db)) ops db)) \<and>
   within_quota 1 quota_one \<and> \<not> within_quota 1 (snd (create_turns 1 two_clients [0, 0, 1, 1, 0, 1, 0, 1] [C_Count, C_Count] quota_one))"
proof (intro conjI impI)
  show "within_quota t (fold (\<lambda>(s, op) db. snd (user_serve s op db)) ops db)" if "within_quota t db"
    using that by (induction ops arbitrary: db) (auto intro: serve_quota)
  show "within_quota 1 quota_one" by (simp add: within_quota_def quota_of_def user_view_def quota_one_def)
  show "\<not> within_quota 1 (snd (create_turns 1 two_clients [0, 0, 1, 1, 0, 1, 0, 1] [C_Count, C_Count] quota_one))"
    by (simp add: quota_one_def two_clients_def count_users_def sql_run_def Let_def fetch_one_def insert_user_def user_find_def
        within_quota_def quota_of_def user_view_def)
qed

section \<open>Rate limit\<close>

fun rate_run :: "int \<Rightarrow> int \<Rightarrow> instant list \<Rightarrow> rate_limiter \<Rightarrow> bool list \<times> rate_limiter" where
  "rate_run t q [] ws = ([], ws)"
| "rate_run t q (now # ts) ws = (case rate_check now t q ws of (b, ws') \<Rightarrow> (case rate_run t q ts ws' of (bs, ws'') \<Rightarrow> (b # bs, ws'')))"

lemma rate_run_window:
  assumes "ws t = Some w" and "\<forall>x\<in>set ts. x \<le> rw_reset_at w" and "unat (rw_count w) \<le> unat (word_of_int q :: u32)"
  shows "fst (rate_run t q ts ws) =
    (let left = unat (word_of_int q :: u32) - unat (rw_count w)
     in replicate (min (length ts) left) True @ replicate (length ts - left) False)"
  using assms
proof (induction ts arbitrary: ws w)
  case (Cons x ts)
  show ?case
  proof (cases "rw_count w < (word_of_int q :: u32)")
    case True
    then have lt: "unat (rw_count w) < unat (word_of_int q :: u32)" by (simp add: word_less_nat_alt)
    then have c: "unat (rw_count w + 1) = Suc (unat (rw_count w))"
      using lt unsigned_less [of "word_of_int q :: u32", where 'a = nat] by (subst unat_inc_no_overflow) simp_all
    have "rate_check x t q ws = (True, ws(t \<mapsto> w\<lparr>rw_count := rw_count w + 1\<rparr>))"
      using Cons.prems True by (simp add: rate_check_def Let_def not_le)
    moreover obtain k where k: "unat (word_of_int q :: u32) - unat (rw_count w) = Suc k" using lt by (metis Suc_diff_Suc)
    moreover have "fst (rate_run t q ts (ws(t \<mapsto> w\<lparr>rw_count := rw_count w + 1\<rparr>))) = replicate (min (length ts) k) True @ replicate (length ts - k) False"
    proof -
      have "unat (word_of_int q :: u32) - unat (rw_count w + 1) = k" using k c by simp
      then show ?thesis
        using Cons.IH [of "ws(t \<mapsto> w\<lparr>rw_count := rw_count w + 1\<rparr>)" "w\<lparr>rw_count := rw_count w + 1\<rparr>"] Cons.prems lt c
        by (simp add: Let_def fun_upd_def)
    qed
    ultimately show ?thesis by (simp add: Let_def split_beta)
  next
    case False
    then have eq: "unat (rw_count w) = unat (word_of_int q :: u32)" using Cons.prems(3) by (simp add: word_less_nat_alt)
    have "rate_check x t q ws = (False, ws(t \<mapsto> w))" using Cons.prems False by (simp add: rate_check_def Let_def not_less)
    then show ?thesis using Cons.IH [of "ws(t \<mapsto> w)" w] Cons.prems eq by (simp add: Let_def split_beta fun_upd_def)
  qed
qed simp

text \<open>
  C37. The rate limiter of a tenant admits, of the requests in the minute after a window opens, exactly the first
  ones up to the quota and refuses the rest.  The quota is cast to an unsigned number, so a negative quota
  admits more than two thousand million requests a minute.
\<close>

theorem rate_limit_window:
  assumes "ws t = None \<or> (\<exists>w. ws t = Some w \<and> rw_reset_at w < now)" and "\<forall>x\<in>set ts. x \<le> now + minute"
  shows "fst (rate_run t q (now # ts) ws) =
    (let Q = nat (q mod 2 ^ 32); n = Suc (length ts) in replicate (min n Q) True @ replicate (n - Q) False)"
proof -
  let ?w = "\<lparr>rw_count = 0, rw_reset_at = now + minute\<rparr>"
  have "rate_check now t q ws = rate_check now t q (ws(t \<mapsto> ?w))"
    using assms(1) by (auto simp: rate_check_def Let_def minute_def)
  then have "fst (rate_run t q (now # ts) ws) = fst (rate_run t q (now # ts) (ws(t \<mapsto> ?w)))" by simp
  also have "\<dots> = (let left = unat (word_of_int q :: u32) - 0
     in replicate (min (length (now # ts)) left) True @ replicate (length (now # ts) - left) False)"
    using rate_run_window [of "ws(t \<mapsto> ?w)" t ?w "now # ts" q] assms(2) by (simp add: minute_def del: rate_run.simps)
  finally show ?thesis by (simp add: Let_def unsigned_of_int take_bit_eq_mod del: rate_run.simps)
qed

theorem rate_limit_window_witness:
  "fst (rate_run 1 2 [0, 5, 6] rate_limiter_new) = [True, True, False]"
  using rate_limit_window [of rate_limiter_new 1 0 "[5, 6]" 2] by (simp add: rate_limiter_new_def minute_def numeral_eq_Suc del: rate_run.simps)

section \<open>Access to the routes\<close>

text \<open>
  The router wraps more than its comments and the table of the handlers say: the health and readiness
  endpoints, documented as public, and the administration routes, documented without tenant validation, are behind
  both the tenant validation and the administrator check, the tenant validation first; the user routes
  are behind the tenant validation only.
\<close>

theorem tenant_routes_guarded:
  assumes "axum_documented R layers_of"
  shows "\<forall>p\<in>{''/health'', ''/ready'', ''/admin/tenants'', ''/admin/tenants/:id''}.
           layers_of (tenant_app R h) p = Some (map Custom [Ext_User_Svc, Ext_Tenant_Svc, Ext_Limiter, Ext_Db, Tenant_Validation, Admin_Guard])"
    and "\<forall>p\<in>{''/users'', ''/users/:id''}.
           layers_of (tenant_app R h) p = Some (map Custom [Ext_User_Svc, Ext_Tenant_Svc, Ext_Limiter, Ext_Db, Tenant_Validation])"
  using assms unfolding axum_documented_def tenant_app_def Let_def by simp_all

interpretation admin: gate admin_guard_middleware
  "\<lambda>req. if header_str ''x-admin-token'' req = Some ''supersecrettoken'' then None else Some (status_json 401 ''admin access required'')" "\<lambda>req. req"
  by unfold_locales (auto simp: admin_guard_middleware_def split: if_splits)

end
