(* ===== verification/Book_Store.thy ===== *)
theory Book_Store
  imports Memcache Breaker "HOL-Library.AList"
begin

text \<open>
  The bookstore example, shared types (\<open>examples/bookstore/common/src/lib.rs\<close>) and the book service
  (\<open>examples/bookstore/rpc/book/src/main.rs\<close>) over the in-process cache and the circuit breaker of the framework.  The database is an
  association list with distinct keys; its order stands for the iteration order of the hash map.  Clock
  readings and fresh identifiers are arguments.  Arithmetic is checked: an overflow is a panic, as in a debug build.
\<close>

section \<open>Shared types\<close>

datatype bookstore_error =
    BookNotFound string
  | OrderNotFound string
  | InsufficientStock string u32 u32
  | InvalidInput string
  | OrderAlreadyCancelled string
  | BsInternal string

fun bs_display :: "bookstore_error \<Rightarrow> string" where
  "bs_display (BookNotFound i) = ''book not found: '' @ i"
| "bs_display (OrderNotFound i) = ''order not found: '' @ i"
| "bs_display (InsufficientStock i a q) =
     ''insufficient stock: '' @ i @ '' has '' @ show_nat (unat a) @ '', requested '' @ show_nat (unat q)"
| "bs_display (InvalidInput m) = ''invalid input: '' @ m"
| "bs_display (OrderAlreadyCancelled i) = ''order already cancelled: '' @ i"
| "bs_display (BsInternal m) = ''internal error: '' @ m"

fun bs_code :: "bookstore_error \<Rightarrow> int" where
  "bs_code (BookNotFound _) = 404"
| "bs_code (OrderNotFound _) = 404"
| "bs_code (InsufficientStock _ _ _) = 400"
| "bs_code (InvalidInput _) = 400"
| "bs_code (OrderAlreadyCancelled _) = 409"
| "bs_code (BsInternal _) = 500"

type_synonym 'a bookstore_result = "(bookstore_error, 'a) result"

definition i32_checked :: "int \<Rightarrow> int outcome" where
  "i32_checked n = (if - (2 ^ 31) \<le> n \<and> n < 2 ^ 31 then Done n else Panic)"

record pagination =
  pg_page :: int
  pg_page_size :: int
  pg_total :: int

definition pagination_new :: "int \<Rightarrow> int \<Rightarrow> int \<Rightarrow> pagination" where
  "pagination_new p s t = \<lparr>pg_page = p, pg_page_size = s, pg_total = t\<rparr>"

definition outcome_then :: "'a outcome \<Rightarrow> ('a \<Rightarrow> 'b outcome) \<Rightarrow> 'b outcome" where
  "outcome_then x f = (case x of Done v \<Rightarrow> f v | Panic \<Rightarrow> Panic)"

definition pg_offset :: "pagination \<Rightarrow> int outcome" where
  "pg_offset p = outcome_then (i32_checked (pg_page p - 1)) (\<lambda>k. i32_checked (k * pg_page_size p))"

text \<open>Division truncates towards zero and panics on a zero divisor.\<close>

definition trunc_div :: "int \<Rightarrow> int \<Rightarrow> int" where
  "trunc_div a b = sgn a * sgn b * (\<bar>a\<bar> div \<bar>b\<bar>)"

definition pg_total_pages :: "pagination \<Rightarrow> int outcome" where
  "pg_total_pages p =
     outcome_then (i32_checked (pg_total p + pg_page_size p)) (\<lambda>a. outcome_then (i32_checked (a - 1)) (\<lambda>b.
       if pg_page_size p = 0 then Panic else i32_checked (trunc_div b (pg_page_size p))))"

record 'a api_resp =
  resp_code :: int
  resp_msg :: string
  resp_data :: "'a option"

definition resp_ok :: "'a \<Rightarrow> 'a api_resp" where
  "resp_ok d = \<lparr>resp_code = 0, resp_msg = ''ok'', resp_data = Some d\<rparr>"

definition resp_error :: "int \<Rightarrow> string \<Rightarrow> 'a api_resp" where
  "resp_error c m = \<lparr>resp_code = c, resp_msg = m, resp_data = None\<rparr>"

definition resp_from_result :: "'a bookstore_result \<Rightarrow> 'a api_resp" where
  "resp_from_result r = (case r of Inr d \<Rightarrow> resp_ok d | Inl e \<Rightarrow> resp_error (bs_code e) (bs_display e))"

text \<open>
  The slice of a list that a page shows, as \<open>list_books\<close> and \<open>list_orders\<close> compute it: the products are 32-bit, the casts to
  \<open>usize\<close> take a negative number to a huge one, and the sum is 64-bit.
\<close>

definition page_slice :: "'a list \<Rightarrow> int \<Rightarrow> int \<Rightarrow> 'a list outcome" where
  "page_slice xs page page_size =
     outcome_then (pg_offset \<lparr>pg_page = page, pg_page_size = page_size, pg_total = 0\<rparr>) (\<lambda>prod.
       let offset = nat (prod mod 2 ^ 64); size = nat (page_size mod 2 ^ 64)
       in if 2 ^ 64 \<le> offset + size then Panic
          else let last = min (offset + size) (length xs)
               in Done (if offset < length xs then drop offset (take last xs) else []))"

section \<open>The book service\<close>

record book =
  bk_id :: string
  bk_title :: string
  bk_author :: string
  bk_price :: f64
  bk_stock :: u32
  bk_isbn :: string
  bk_category :: string
  bk_created_at :: int
  bk_updated_at :: int

record create_book_req =
  cb_title :: string
  cb_author :: string
  cb_price :: f64
  cb_isbn :: string
  cb_category :: string
  cb_stock :: u32

record update_book_req =
  ub_id :: string
  ub_title :: string
  ub_author :: string
  ub_price :: f64
  ub_stock :: u32

type_synonym book_db = "(string \<times> book) list"

record book_svc =
  bs_book_cache :: "(string, book) mem_cache"
  bs_list_cache :: "(string, book list) mem_cache"
  bs_db :: book_db
  bs_breaker :: circuit_breaker

text \<open>The clock readings of one operation and the iteration orders of the two caches.\<close>

record book_env =
  be_get :: instant
  be_exec :: execute_clock
  be_put :: instant
  be_put_entry :: instant
  be_stamp :: int
  be_iter_book :: "(string, book) entries \<Rightarrow> (string, book) entries"
  be_iter_list :: "(string, book list) entries \<Rightarrow> (string, book list) entries"

definition seed_book :: "int \<Rightarrow> string \<Rightarrow> string \<Rightarrow> string \<Rightarrow> rat \<Rightarrow> u32 \<Rightarrow> string \<Rightarrow> string \<Rightarrow> book" where
  "seed_book now i ti au pr st isbn cat =
     \<lparr>bk_id = i, bk_title = ti, bk_author = au, bk_price = f64_round pr, bk_stock = st, bk_isbn = isbn, bk_category = cat,
      bk_created_at = now, bk_updated_at = now\<rparr>"

definition seed_data :: "int \<Rightarrow> book_db" where
  "seed_data now =
     [(''book-1'', seed_book now ''book-1'' ''The Rust Programming Language'' ''Steve Klabnik'' (3999/100) 100 ''978-1718500440'' ''programming''),
      (''book-2'', seed_book now ''book-2'' ''Programming Rust'' ''Jim Blandy'' (4999/100) 50 ''978-1492052593'' ''programming''),
      (''book-3'', seed_book now ''book-3'' ''Designing Data-Intensive Applications'' ''Martin Kleppmann'' (4499/100) 75 ''978-1449373320'' ''architecture'')]"

definition book_svc_new :: "circuit_breaker \<Rightarrow> int \<Rightarrow> book_svc" where
  "book_svc_new cb now = \<lparr>bs_book_cache = cache_new 500, bs_list_cache = cache_new 100, bs_db = seed_data now, bs_breaker = cb\<rparr>"

definition book_key :: "string \<Rightarrow> string" where
  "book_key i = ''book:'' @ i"

text \<open>A miss reads the database through the breaker; the read and the store into the cache are separate, see below.\<close>

definition get_book_load :: "book_env \<Rightarrow> string \<Rightarrow> book_svc \<Rightarrow> book bookstore_result \<times> book_svc" where
  "get_book_load E i s =
     (case execute (be_exec E) (\<lambda>db. (case map_of db i of Some b \<Rightarrow> Ok b | None \<Rightarrow> Err (bs_display (BookNotFound i)), db))
             (bs_breaker s, bs_db s) of
        (Inl e, cb, db) \<Rightarrow> (Err (BsInternal (display e)), s\<lparr>bs_breaker := cb\<rparr>)
      | (Inr b, cb, db) \<Rightarrow> (Ok b, s\<lparr>bs_breaker := cb\<rparr>))"

definition get_book_store :: "book_env \<Rightarrow> string \<Rightarrow> book \<Rightarrow> book_svc \<Rightarrow> book_svc" where
  "get_book_store E i b s =
     s\<lparr>bs_book_cache := set_with_ttl (be_iter_book E) (be_put E) (be_put_entry E) (book_key i) b (Some (secs 300)) (bs_book_cache s)\<rparr>"

definition get_book :: "book_env \<Rightarrow> string \<Rightarrow> book_svc \<Rightarrow> book bookstore_result \<times> book_svc" where
  "get_book E i s =
     (case cache_get (be_get E) (book_key i) (bs_book_cache s) of
        (Some b, c) \<Rightarrow> (Ok b, s\<lparr>bs_book_cache := c\<rparr>)
      | (None, c) \<Rightarrow>
          (case get_book_load E i (s\<lparr>bs_book_cache := c\<rparr>) of
             (Inl e, s') \<Rightarrow> (Err e, s')
           | (Inr b, s') \<Rightarrow> (Ok b, get_book_store E i b s')))"

definition list_key :: "string option \<Rightarrow> int \<Rightarrow> string" where
  "list_key cat page =
     (let p = (if page < 0 then CHR ''-'' # show_nat (nat (- page)) else show_nat (nat page))
      in case cat of Some c \<Rightarrow> ''books:cat:'' @ c @ '':p'' @ p | None \<Rightarrow> ''books:all:p'' @ p)"

definition list_books :: "book_env \<Rightarrow> string option \<Rightarrow> int \<Rightarrow> int \<Rightarrow> book_svc \<Rightarrow> (book list \<times> nat) outcome \<times> book_svc" where
  "list_books E cat page page_size s =
     (case cache_get (be_get E) (list_key cat page) (bs_list_cache s) of
        (Some bs, c) \<Rightarrow> (Done (bs, length (bs_db s)), s\<lparr>bs_list_cache := c\<rparr>)
      | (None, c) \<Rightarrow>
          (let books = filter (\<lambda>b. case cat of None \<Rightarrow> True | Some x \<Rightarrow> bk_category b = x) (map snd (bs_db s)); s1 = s\<lparr>bs_list_cache := c\<rparr>
           in case page_slice books page page_size of
                Panic \<Rightarrow> (Panic, s1)
              | Done bs \<Rightarrow>
                  (Done (bs, length books),
                   s1\<lparr>bs_list_cache := set_with_ttl (be_iter_list E) (be_put E) (be_put_entry E) (list_key cat page) bs (Some (secs 60)) c\<rparr>)))"

definition clear_caches :: "book_svc \<Rightarrow> book_svc" where
  "clear_caches s = s\<lparr>bs_book_cache := cache_clear (bs_book_cache s), bs_list_cache := cache_clear (bs_list_cache s)\<rparr>"

definition create_book :: "book_env \<Rightarrow> string \<Rightarrow> create_book_req \<Rightarrow> book_svc \<Rightarrow> book bookstore_result \<times> book_svc" where
  "create_book E fresh req s =
     (if cb_title req = [] then (Err (InvalidInput ''title is required''), s)
      else if f64_ge (Fin 0) (cb_price req) then (Err (InvalidInput ''price must be positive''), s)
      else let b = \<lparr>bk_id = fresh, bk_title = cb_title req, bk_author = cb_author req, bk_price = cb_price req, bk_stock = cb_stock req,
                    bk_isbn = cb_isbn req, bk_category = cb_category req, bk_created_at = be_stamp E, bk_updated_at = be_stamp E\<rparr>
           in (Ok b, clear_caches (s\<lparr>bs_db := AList.update fresh b (bs_db s)\<rparr>)))"

definition update_book :: "book_env \<Rightarrow> update_book_req \<Rightarrow> book_svc \<Rightarrow> book bookstore_result \<times> book_svc" where
  "update_book E req s =
     (case map_of (bs_db s) (ub_id req) of
        None \<Rightarrow> (Err (BookNotFound (ub_id req)), s)
      | Some b \<Rightarrow>
          (let b' = b\<lparr>bk_title := ub_title req, bk_author := ub_author req, bk_price := ub_price req, bk_stock := ub_stock req,
                      bk_updated_at := be_stamp E\<rparr>;
               s1 = s\<lparr>bs_db := AList.update (ub_id req) b' (bs_db s)\<rparr>
           in (Ok b', clear_caches (get_book_store E (ub_id req) b' s1))))"

definition delete_book :: "string \<Rightarrow> book_svc \<Rightarrow> bool bookstore_result \<times> book_svc" where
  "delete_book i s =
     (let removed = map_of (bs_db s) i \<noteq> None; s1 = s\<lparr>bs_db := AList.delete i (bs_db s)\<rparr>
      in (Ok removed,
          if removed then clear_caches (s1\<lparr>bs_book_cache := snd (cache_delete (book_key i) (bs_book_cache s1))\<rparr>) else s1))"

definition deduct_body :: "book_env \<Rightarrow> string \<Rightarrow> u32 \<Rightarrow> book_svc \<Rightarrow> (string, unit) result \<times> book_svc" where
  "deduct_body E i q s =
     (case map_of (bs_db s) i of
        None \<Rightarrow> (Err (bs_display (BookNotFound i)), s)
      | Some b \<Rightarrow>
          if bk_stock b < q then (Err (bs_display (InsufficientStock i (bk_stock b) q)), s)
          else (Ok (), clear_caches (s\<lparr>bs_db := AList.update i (b\<lparr>bk_stock := bk_stock b - q, bk_updated_at := be_stamp E\<rparr>) (bs_db s),
                                       bs_book_cache := snd (cache_delete (book_key i) (bs_book_cache s))\<rparr>)))"

definition deduct_stock :: "book_env \<Rightarrow> string \<Rightarrow> u32 \<Rightarrow> book_svc \<Rightarrow> unit bookstore_result \<times> book_svc" where
  "deduct_stock E i q s =
     (case execute (be_exec E) (deduct_body E i q) (bs_breaker s, s) of
        (Inl e, cb, s') \<Rightarrow> (Err (BsInternal (display e)), s'\<lparr>bs_breaker := cb\<rparr>)
      | (Inr u, cb, s') \<Rightarrow> (Ok u, s'\<lparr>bs_breaker := cb\<rparr>))"

section \<open>Pages\<close>

lemma concat_pages: "concat (map (\<lambda>i. take n (drop (i * n) xs)) [0..<k]) = take (k * n) xs"
proof (induction k)
  case (Suc k)
  then show ?case by (simp add: take_add add.commute [of n])
qed simp

lemma i32_checked_Done: "- (2 ^ 31) \<le> n \<Longrightarrow> n < 2 ^ 31 \<Longrightarrow> i32_checked n = Done n"
  by (simp add: i32_checked_def)

lemma page_slice_Done:
  assumes "n < 2 ^ 31" and "k < 2 ^ 31" and "k * n < 2 ^ 31"
  shows "page_slice xs (int k + 1) (int n) = Done (take n (drop (k * n) xs))"
proof -
  have kn: "int k * int n < 2 ^ 31" using assms(3) by (metis of_nat_less_iff of_nat_mult of_nat_numeral of_nat_power)
  have "- (2 ^ 31) \<le> int k * int n" by (rule order_trans [of _ 0]) simp_all
  then have "i32_checked (int k) = Done (int k)" "i32_checked (int k * int n) = Done (int (k * n))"
    using assms(2) kn by (simp_all add: i32_checked_def)
  moreover have "nat (int (k * n) mod 2 ^ 64) = k * n" "nat (int n mod 2 ^ 64) = n"
    using assms by (simp_all add: nat_mod_distrib del: of_nat_mult)
  moreover have "\<not> 2 ^ 64 \<le> k * n + n" using assms by simp
  ultimately show ?thesis
    by (simp add: page_slice_def pg_offset_def outcome_then_def Let_def drop_take min_def del: of_nat_mult)
qed



section \<open>Cached books\<close>

definition coherent :: "book_svc \<Rightarrow> bool" where
  "coherent s \<longleftrightarrow> (\<forall>i e. map_of (cache_entries (bs_book_cache s)) (book_key i) = Some e \<longrightarrow> map_of (bs_db s) i = Some (ce_value e))"

lemma set_with_ttl_entries:
  "map_of (cache_entries (set_with_ttl iter t t' k v ttl c)) k' = Some e \<Longrightarrow>
     (if k' = k then ce_value e = v else map_of (cache_entries c) k' = Some e)"
  by (auto simp: set_with_ttl_def Let_def map_of_insert_key map_of_remove_key cache_entry_new_def split: if_splits option.splits)

lemma book_key_eq [simp]: "book_key i = book_key j \<longleftrightarrow> i = j"
  by (simp add: book_key_def)

lemma coherent_clear: "coherent (clear_caches s)"
  by (simp add: coherent_def clear_caches_def cache_clear_def)

lemma cache_get_entries:
  "cache_get t k c = (r, c') \<Longrightarrow>
     (map_of (cache_entries c') k' = Some e \<longrightarrow> map_of (cache_entries c) k' = Some e) \<and>
     (\<forall>v. r = Some v \<longrightarrow> (\<exists>e. map_of (cache_entries c) k = Some e \<and> ce_value e = v))"
  by (auto simp: cache_get_def map_of_remove_key split: option.splits if_splits)

lemma execute_read_only:
  "execute ck (\<lambda>w. (g w, w)) (cb, w) = (r, cb', w') \<Longrightarrow> w' = w \<and> (\<forall>v. r = Inr v \<longrightarrow> g w = Inr v)"
  by (auto simp: execute_def Let_def split: if_splits prod.splits sum.splits)

lemma get_book_load_parts:
  "get_book_load E i s = (r, s') \<Longrightarrow>
     bs_book_cache s' = bs_book_cache s \<and> bs_list_cache s' = bs_list_cache s \<and> bs_db s' = bs_db s \<and>
     (\<forall>b. r = Inr b \<longrightarrow> map_of (bs_db s) i = Some b)"
  unfolding get_book_load_def
  by (auto dest!: execute_read_only [of "be_exec E" "\<lambda>db. case map_of db i of Some b \<Rightarrow> Inr b | None \<Rightarrow> Inl (bs_display (BookNotFound i))"]
      split: prod.splits sum.splits option.splits)

lemma get_book_coherent:
  assumes "coherent s" and "get_book E i s = (r, s')"
  shows "coherent s' \<and> bs_db s' = bs_db s \<and> (\<forall>b. r = Inr b \<longrightarrow> map_of (bs_db s) i = Some b)"
proof -
  obtain h c where get: "cache_get (be_get E) (book_key i) (bs_book_cache s) = (h, c)" by fastforce
  have c: "coherent (s\<lparr>bs_book_cache := c\<rparr>)" using assms(1) cache_get_entries [OF get] by (auto simp: coherent_def)
  show ?thesis
  proof (cases h)
    case (Some b)
    then obtain e where "map_of (cache_entries (bs_book_cache s)) (book_key i) = Some e" "ce_value e = b"
      using cache_get_entries [OF get] by blast
    then have "map_of (bs_db s) i = Some b" using assms(1) by (auto simp: coherent_def)
    then show ?thesis using assms(2) get c Some by (auto simp: get_book_def)
  next
    case None
    obtain r1 s1 where load: "get_book_load E i (s\<lparr>bs_book_cache := c\<rparr>) = (r1, s1)" by fastforce
    note l = get_book_load_parts [OF load]
    have c1: "coherent s1" using c l by (simp add: coherent_def)
    show ?thesis
    proof (cases r1)
      case (Inr b)
      have "coherent (get_book_store E i b s1)"
        using c1 l Inr by (auto simp: coherent_def get_book_store_def dest!: set_with_ttl_entries split: if_splits)
      then show ?thesis using assms(2) get None load Inr l by (auto simp: get_book_def get_book_store_def)
    qed (use assms(2) get None load l c1 in \<open>auto simp: get_book_def\<close>)
  qed
qed

datatype book_op =
    B_Get string | B_List "string option" int int | B_Create string create_book_req | B_Update update_book_req
  | B_Delete string | B_Deduct string u32

fun book_apply :: "book_env \<times> book_op \<Rightarrow> book_svc \<Rightarrow> book_svc" where
  "book_apply (E, B_Get i) s = snd (get_book E i s)"
| "book_apply (E, B_List cat p n) s = snd (list_books E cat p n s)"
| "book_apply (E, B_Create f req) s = snd (create_book E f req s)"
| "book_apply (E, B_Update req) s = snd (update_book E req s)"
| "book_apply (E, B_Delete i) s = snd (delete_book i s)"
| "book_apply (E, B_Deduct i q) s = snd (deduct_stock E i q s)"

lemma deduct_body_coherent: "coherent s \<Longrightarrow> deduct_body E i q s = (r, s') \<Longrightarrow> coherent s'"
  by (auto simp: deduct_body_def coherent_clear split: option.splits if_splits)

lemma execute_pred:
  "execute ck f (cb, w) = (r, cb', w') \<Longrightarrow> (\<And>r' v. f w = (r', v) \<Longrightarrow> P v) \<Longrightarrow> P w \<Longrightarrow> P w'"
  by (auto simp: execute_def Let_def split: if_splits prod.splits sum.splits)

lemma coherent_breaker [simp]: "coherent (s\<lparr>bs_breaker := cb\<rparr>) = coherent s"
  by (simp add: coherent_def)

lemma deduct_stock_coherent: "coherent s \<Longrightarrow> coherent (snd (deduct_stock E i q s))"
  unfolding deduct_stock_def
  by (auto dest!: execute_pred [where P = coherent] intro: deduct_body_coherent split: prod.splits sum.splits)

lemma book_apply_coherent: "coherent s \<Longrightarrow> coherent (book_apply (E, op) s)"
proof (cases op)
  case (B_Get i)
  then show "coherent s \<Longrightarrow> ?thesis" using get_book_coherent by (metis book_apply.simps(1) prod.collapse)
next
  case (B_List cat p n)
  then show "coherent s \<Longrightarrow> ?thesis"
    by (auto simp: list_books_def coherent_def Let_def split: prod.splits option.splits outcome.splits)
next
  case (B_Delete i)
  assume "coherent s"
  then have "coherent (s\<lparr>bs_db := AList.delete i (bs_db s)\<rparr>)" if "map_of (bs_db s) i = None"
    using that by (auto simp: coherent_def delete_conv') (metis not_None_eq option.distinct(1))
  then show ?thesis unfolding B_Delete by (simp add: delete_book_def Let_def coherent_clear)
qed (auto simp: create_book_def update_book_def Let_def coherent_clear deduct_stock_coherent split: option.splits)

lemma book_run_coherent: "coherent s \<Longrightarrow> coherent (fold book_apply ops s)"
proof (induction ops arbitrary: s)
  case (Cons x ops)
  then show ?case using book_apply_coherent by (cases x) auto
qed simp

lemma coherent_new: "coherent (book_svc_new cb now)"
  by (simp add: coherent_def book_svc_new_def cache_new_def)

text \<open>
  Operations of the book service that run one after the other keep the cache of books coherent with the
  database: a book that \<open>get_book\<close> returns is the one stored at that moment, whether it came from the cache or
  not, whatever was created, updated, deleted or deducted before.
\<close>

theorem book_reads_current:
  assumes "get_book E i (fold book_apply ops (book_svc_new cb now)) = (Inr b, s)"
  shows "map_of (bs_db (fold book_apply ops (book_svc_new cb now))) i = Some b"
  using get_book_coherent [OF book_run_coherent [OF coherent_new] assms] by blast

text \<open>
  Two requests that interleave break this: when a book is updated between the read of a miss and the store of
  that miss into the cache, the old book is cached after the invalidation, and reads return it for five minutes.
\<close>

theorem stale_book_after_race:
  assumes "get_book_load E i s = (Inr b, s1)" and "update_book E' req s1 = (Inr b', s2)" and "ub_id req = i"
    and "be_get E'' \<le> be_put_entry E + 300 * 10 ^ 9"
  shows "fst (get_book E'' i (get_book_store E i b s2)) = Ok b \<and> map_of (bs_db (get_book_store E i b s2)) i = Some b'"
proof -
  have "map_of (bs_db s2) i = Some b'"
    using assms(2,3) by (auto simp: update_book_def Let_def clear_caches_def get_book_store_def update_conv' split: option.splits)
  moreover have "map_of (cache_entries (bs_book_cache (get_book_store E i b s2))) (book_key i) = Some (cache_entry_new (be_put_entry E) b (Some (secs 300)))"
    by (simp add: get_book_store_def set_with_ttl_def Let_def map_of_insert_key)
  then have "fst (get_book E'' i (get_book_store E i b s2)) = Ok b"
    using assms(4) by (simp add: get_book_def cache_get_def is_expired_def cache_entry_new_def secs_def)
  ultimately show ?thesis by (simp add: get_book_store_def)
qed

text \<open>
  A missing book is reported as an internal error with code 500 and counted as a failure by the breaker, which
  was meant for the failures of the database.
\<close>

theorem missing_book_internal:
  assumes "fst (cache_get (be_get E) (book_key i) (bs_book_cache s)) = None" and "map_of (bs_db s) i = None"
  shows "\<exists>e. fst (get_book E i s) = Err (BsInternal e) \<and> resp_code (resp_from_result (fst (get_book E i s))) = 500"
  using assms
  by (auto simp: get_book_def get_book_load_def execute_def Let_def resp_from_result_def resp_error_def split: prod.splits sum.splits if_splits)

text \<open>
  The cache key of a listing does not have the page size in it: within a minute a request for another size gets the
  page of the first one, and the total then counts the books of all categories.
\<close>

theorem list_ignores_page_size:
  assumes "list_books E cat page n s = (Done (bs, tot), s')" and "fst (cache_get (be_get E) (list_key cat page) (bs_list_cache s)) = None"
    and "be_get E' \<le> be_put_entry E + 60 * 10 ^ 9"
  shows "fst (list_books E' cat page n' s') = Done (bs, length (bs_db s))"
proof -
  have "map_of (cache_entries (bs_list_cache s')) (list_key cat page) = Some (cache_entry_new (be_put_entry E) bs (Some (secs 60)))"
    and "bs_db s' = bs_db s"
    using assms(1,2) by (auto simp: list_books_def Let_def set_with_ttl_def map_of_insert_key split: prod.splits outcome.splits)
  then show ?thesis using assms(3) by (simp add: list_books_def cache_get_def is_expired_def cache_entry_new_def secs_def)
qed

section \<open>Stock\<close>

definition stock_of :: "string \<Rightarrow> book_svc \<Rightarrow> nat" where
  "stock_of i s = (case map_of (bs_db s) i of Some b \<Rightarrow> unat (bk_stock b) | None \<Rightarrow> 0)"

fun deduct_all :: "(book_env \<times> string \<times> u32) list \<Rightarrow> book_svc \<Rightarrow> bool list \<times> book_svc" where
  "deduct_all [] s = ([], s)"
| "deduct_all ((E, i, q) # ds) s =
     (case deduct_stock E i q s of (r, s1) \<Rightarrow> (case deduct_all ds s1 of (oks, s2) \<Rightarrow> (is_ok r # oks, s2)))"

definition sold :: "string \<Rightarrow> (book_env \<times> string \<times> u32) list \<Rightarrow> bool list \<Rightarrow> nat" where
  "sold i ds oks = sum_list (map (\<lambda>((E, j, q), good). if good \<and> j = i then unat q else 0) (zip ds oks))"

lemma deduct_body_stock:
  "deduct_body E i q s = (r, s') \<Longrightarrow> stock_of j s = stock_of j s' + (if is_ok r \<and> j = i then unat q else 0)"
  by (auto simp: deduct_body_def stock_of_def clear_caches_def update_conv' unat_sub word_le_nat_alt not_less word_less_nat_alt
      split: option.splits if_splits)

lemma deduct_stock_stock:
  assumes "deduct_stock E i q s = (r, s')"
  shows "stock_of j s = stock_of j s' + (if is_ok r \<and> j = i then unat q else 0)"
proof -
  obtain r1 cb s1 where ex: "execute (be_exec E) (deduct_body E i q) (bs_breaker s, s) = (r1, cb, s1)" by (metis prod_cases3)
  have s': "stock_of j s' = stock_of j s1" "is_ok r = is_ok r1"
    using assms ex by (auto simp: deduct_stock_def stock_of_def split: sum.splits)
  have "s1 = s \<and> \<not> is_ok r1 \<or> (\<exists>r2. deduct_body E i q s = (r2, s1) \<and> is_ok r1 = is_ok r2)"
    using ex by (auto simp: execute_def Let_def split: if_splits prod.splits sum.splits)
  then show ?thesis using deduct_body_stock [of E i q s _ s1 j] s' by auto
qed

text \<open>
  Stock is neither made nor lost: after any sequence of deductions the stock of a book and the quantities of the
  successful deductions from it add up to the stock at the start; so a deduction never takes more than there is,
  and a failed one takes nothing.
\<close>

theorem stock_conserved:
  "deduct_all ds s = (oks, s') \<longrightarrow> stock_of i s' + sold i ds oks = stock_of i s"
proof (induction ds arbitrary: s oks)
  case (Cons d ds)
  obtain E j q where d: "d = (E, j, q)" by (metis prod_cases3)
  obtain r s1 where r: "deduct_stock E j q s = (r, s1)" by fastforce
  obtain rest s2 where rest: "deduct_all ds s1 = (rest, s2)" by fastforce
  show ?case
    using Cons.IH [of s1 rest] deduct_stock_stock [OF r, of i] r rest by (auto simp: d sold_def)
qed (simp add: sold_def)

end
