(* ===== verification/Book_Orders.thy ===== *)
theory Book_Orders
  imports Book_Store Http_Middleware Shedder
begin

text \<open>
  The bookstore example, order service (\<open>examples/bookstore/rpc/order/src/main.rs\<close>) and API gateway
  (\<open>examples/bookstore/api/src/main.rs\<close>).  Tables are association lists with distinct keys, as in the book service.  The queue of
  the order service is a state \<open>'q\<close> with its push operation as an argument.  An order of the gateway is checked under
  one lock and committed under another: the two halves are separate definitions, composed by \<open>gw_create_order\<close>.
\<close>

section \<open>The order service\<close>

datatype order_status = OS_Pending | OS_Confirmed | OS_Shipped | OS_Cancelled | OS_Failed

fun status_debug :: "order_status \<Rightarrow> string" where
  "status_debug OS_Pending = ''Pending''"
| "status_debug OS_Confirmed = ''Confirmed''"
| "status_debug OS_Shipped = ''Shipped''"
| "status_debug OS_Cancelled = ''Cancelled''"
| "status_debug OS_Failed = ''Failed''"

record order =
  od_id :: string
  od_user_id :: string
  od_book_id :: string
  od_quantity :: u32
  od_total :: f64
  od_status :: order_status
  od_created_at :: int
  od_updated_at :: int

record create_order_req =
  co_user_id :: string
  co_book_id :: string
  co_quantity :: u32

record 'q order_svc =
  os_db :: "(string \<times> order) list"
  os_queue :: 'q
  os_breaker :: circuit_breaker

definition order_svc_new :: "'q \<Rightarrow> circuit_breaker \<Rightarrow> 'q order_svc" where
  "order_svc_new q cb = \<lparr>os_db = [], os_queue = q, os_breaker = cb\<rparr>"

definition jstr :: "string \<Rightarrow> string \<Rightarrow> string \<times> json" where
  "jstr k v = (k, JString v)"

definition jqty :: "u32 \<Rightarrow> string \<times> json" where
  "jqty q = (''quantity'', JNumber (PosInt (ucast q)))"

definition create_order ::
  "(string \<Rightarrow> json \<Rightarrow> 'q \<Rightarrow> 'q) \<Rightarrow> execute_clock \<Rightarrow> int \<Rightarrow> string \<Rightarrow> create_order_req \<Rightarrow> 'q order_svc \<Rightarrow> order bookstore_result \<times> 'q order_svc" where
  "create_order push ck now fresh req s =
     (if co_user_id req = [] then (Err (InvalidInput ''user_id is required''), s)
      else if co_quantity req = 0 then (Err (InvalidInput ''quantity must be positive''), s)
      else case execute ck (\<lambda>w. (Ok (), w)) (os_breaker s, ()) of
             (Inl e, cb, _) \<Rightarrow> (Err (BsInternal (''Stock deduction failed: '' @ display e)), s\<lparr>os_breaker := cb\<rparr>)
           | (Inr _, cb, _) \<Rightarrow>
               (let ord = \<lparr>od_id = fresh, od_user_id = co_user_id req, od_book_id = co_book_id req, od_quantity = co_quantity req,
                         od_total = Fin 0, od_status = OS_Confirmed, od_created_at = now, od_updated_at = now\<rparr>
                in (Ok ord,
                    s\<lparr>os_breaker := cb, os_db := AList.update fresh ord (os_db s),
                      os_queue := push ''order.created'' (JObject [jstr ''order_id'' fresh, jstr ''book_id'' (co_book_id req), jqty (co_quantity req)]) (os_queue s)\<rparr>)))"

definition get_order :: "string \<Rightarrow> 'q order_svc \<Rightarrow> order bookstore_result" where
  "get_order i s = (case map_of (os_db s) i of Some ord \<Rightarrow> Ok ord | None \<Rightarrow> Err (OrderNotFound i))"

definition list_orders :: "string option \<Rightarrow> string option \<Rightarrow> int \<Rightarrow> int \<Rightarrow> 'q order_svc \<Rightarrow> (order list \<times> nat) outcome" where
  "list_orders user status page page_size s =
     (let orders = filter (\<lambda>x. (case user of None \<Rightarrow> True | Some u \<Rightarrow> od_user_id x = u) \<and>
                               (case status of None \<Rightarrow> True | Some st \<Rightarrow> status_debug (od_status x) = st)) (map snd (os_db s))
      in outcome_then (page_slice orders page page_size) (\<lambda>p. Done (p, length orders)))"

definition cancel_order ::
  "(string \<Rightarrow> json \<Rightarrow> 'q \<Rightarrow> 'q) \<Rightarrow> int \<Rightarrow> string \<Rightarrow> string \<Rightarrow> 'q order_svc \<Rightarrow> bool bookstore_result \<times> 'q order_svc" where
  "cancel_order push now i reason s =
     (case map_of (os_db s) i of
        None \<Rightarrow> (Err (OrderNotFound i), s)
      | Some ord \<Rightarrow>
          if od_status ord = OS_Cancelled then (Err (OrderAlreadyCancelled i), s)
          else (Ok True,
                s\<lparr>os_db := AList.update i (ord\<lparr>od_status := OS_Cancelled, od_updated_at := now\<rparr>) (os_db s),
                  os_queue := push ''order.cancelled''
                    (JObject [jstr ''order_id'' i, jstr ''book_id'' (od_book_id ord), jqty (od_quantity ord), jstr ''reason'' reason]) (os_queue s)\<rparr>))"

section \<open>The gateway\<close>

record gw_book =
  gb_id :: string
  gb_title :: string
  gb_author :: string
  gb_price :: f64
  gb_stock :: u32
  gb_isbn :: string
  gb_category :: string

record gw_order =
  go_id :: string
  go_user_id :: string
  go_book_id :: string
  go_quantity :: u32
  go_total :: f64
  go_status :: string
  go_created_at :: string

record gw_order_req =
  gr_book_id :: string
  gr_quantity :: u32

record gw_state =
  gw_books :: "(string \<times> gw_book) list"
  gw_orders :: "(string \<times> gw_order) list"
  gw_cache :: "(string, gw_book) mem_cache"
  gw_list_cache :: "(string, gw_book list) mem_cache"
  gw_breaker :: circuit_breaker

definition gw_seed :: "string \<Rightarrow> string \<Rightarrow> string \<Rightarrow> rat \<Rightarrow> u32 \<Rightarrow> string \<Rightarrow> string \<Rightarrow> string \<times> gw_book" where
  "gw_seed i ti au pr st isbn cat =
     (i, \<lparr>gb_id = i, gb_title = ti, gb_author = au, gb_price = f64_round pr, gb_stock = st, gb_isbn = isbn, gb_category = cat\<rparr>)"

definition gw_state_new :: "circuit_breaker \<Rightarrow> gw_state" where
  "gw_state_new cb =
     \<lparr>gw_books =
        [gw_seed ''book-1'' ''The Rust Programming Language'' ''Steve Klabnik'' (3999/100) 100 ''978-1718500440'' ''programming'',
         gw_seed ''book-2'' ''Programming Rust'' ''Jim Blandy'' (4999/100) 50 ''978-1492052593'' ''programming'',
         gw_seed ''book-3'' ''Designing Data-Intensive Applications'' ''Martin Kleppmann'' (4499/100) 75 ''978-1449373320'' ''architecture''],
      gw_orders = [], gw_cache = cache_new 500, gw_list_cache = cache_new 100, gw_breaker = cb\<rparr>"

text \<open>A handler answers with data or with a code and a message.\<close>

type_synonym 'a gw_reply = "(int \<times> string, 'a) result"

definition gw_login :: "(string \<Rightarrow> claims \<Rightarrow> (string, string) result) \<Rightarrow> nat \<Rightarrow> string \<Rightarrow> string \<Rightarrow> string \<Rightarrow> (string \<times> string) gw_reply" where
  "gw_login encode now fresh username password =
     (if username = [] \<or> password = [] then Err (401, ''username and password required'')
      else Ok (case generate_token encode now ''bookstore-jwt-secret-key-2024'' username 86400 of Inr t \<Rightarrow> t | Inl _ \<Rightarrow> ''error'', fresh))"

record gw_env =
  ge_get :: instant
  ge_put :: instant
  ge_put_entry :: instant
  ge_exec :: execute_clock
  ge_iter :: "(string, gw_book) entries \<Rightarrow> (string, gw_book) entries"
  ge_iter_list :: "(string, gw_book list) entries \<Rightarrow> (string, gw_book list) entries"

definition gw_list_key :: "string option \<Rightarrow> string" where
  "gw_list_key cat = ''books:'' @ (case cat of Some c \<Rightarrow> c | None \<Rightarrow> ''all'')"

definition gw_list_books :: "gw_env \<Rightarrow> string option \<Rightarrow> gw_state \<Rightarrow> gw_book list gw_reply \<times> gw_state" where
  "gw_list_books E cat g =
     (case cache_get (ge_get E) (gw_list_key cat) (gw_list_cache g) of
        (Some bs, c) \<Rightarrow> (Ok bs, g\<lparr>gw_list_cache := c\<rparr>)
      | (None, c) \<Rightarrow>
          (let bs = filter (\<lambda>b. case cat of None \<Rightarrow> True | Some x \<Rightarrow> gb_category b = x) (map snd (gw_books g))
           in (Ok bs, g\<lparr>gw_list_cache := set_with_ttl (ge_iter_list E) (ge_put E) (ge_put_entry E) (gw_list_key cat) bs (Some (secs 60)) c\<rparr>)))"

definition gw_get_book :: "gw_env \<Rightarrow> string \<Rightarrow> gw_state \<Rightarrow> gw_book gw_reply \<times> gw_state" where
  "gw_get_book E i g =
     (case cache_get (ge_get E) (book_key i) (gw_cache g) of
        (Some b, c) \<Rightarrow> (Ok b, g\<lparr>gw_cache := c\<rparr>)
      | (None, c) \<Rightarrow>
          (case map_of (gw_books g) i of
             Some b \<Rightarrow> (Ok b, g\<lparr>gw_cache := set_with_ttl (ge_iter E) (ge_put E) (ge_put_entry E) (book_key i) b (Some (secs 300)) c\<rparr>)
           | None \<Rightarrow> (Err (404, ''Book not found''), g\<lparr>gw_cache := c\<rparr>)))"

definition gw_create_book :: "string \<Rightarrow> create_book_req \<Rightarrow> gw_state \<Rightarrow> gw_book gw_reply \<times> gw_state" where
  "gw_create_book fresh req g =
     (let b = \<lparr>gb_id = fresh, gb_title = cb_title req, gb_author = cb_author req, gb_price = cb_price req, gb_stock = cb_stock req,
               gb_isbn = cb_isbn req, gb_category = cb_category req\<rparr>
      in (Ok b, g\<lparr>gw_books := AList.update fresh b (gw_books g), gw_cache := cache_clear (gw_cache g)\<rparr>))"

definition order_check :: "gw_env \<Rightarrow> gw_order_req \<Rightarrow> gw_state \<Rightarrow> (gw_book \<times> u32) rszero_result \<times> gw_state" where
  "order_check E req g =
     (case execute (ge_exec E)
             (\<lambda>books. (case map_of books (gr_book_id req) of
                         None \<Rightarrow> Err ''Book not found''
                       | Some b \<Rightarrow> if gb_stock b < gr_quantity req then Err ''Insufficient stock'' else Ok (b, gr_quantity req), books))
             (gw_breaker g, gw_books g) of
        (r, cb, books) \<Rightarrow> (r, g\<lparr>gw_breaker := cb\<rparr>))"

text \<open>The subtraction panics when the stock is smaller than the quantity by now.\<close>

definition order_commit :: "string \<Rightarrow> string \<Rightarrow> gw_order_req \<Rightarrow> gw_book \<times> u32 \<Rightarrow> gw_state \<Rightarrow> (gw_order \<times> gw_state) outcome" where
  "order_commit fresh now req bq g =
     (case bq of (b, q) \<Rightarrow>
        let ord = \<lparr>go_id = fresh, go_user_id = ''current-user'', go_book_id = gr_book_id req, go_quantity = q,
                   go_total = f64_mul (gb_price b) (f64_of_nat (unat q)), go_status = ''confirmed'', go_created_at = now\<rparr>;
            fin = (\<lambda>books. Done (ord, g\<lparr>gw_books := books, gw_orders := AList.update fresh ord (gw_orders g),
                                        gw_cache := snd (cache_delete (book_key (gr_book_id req)) (gw_cache g))\<rparr>))
        in case map_of (gw_books g) (gb_id b) of
             None \<Rightarrow> fin (gw_books g)
           | Some x \<Rightarrow>
               if gb_stock x < q then Panic
               else fin (AList.update (gb_id b) (x\<lparr>gb_stock := gb_stock x - q\<rparr>) (gw_books g)))"

definition gw_create_order :: "gw_env \<Rightarrow> string \<Rightarrow> string \<Rightarrow> gw_order_req \<Rightarrow> gw_state \<Rightarrow> (gw_order gw_reply \<times> gw_state) outcome" where
  "gw_create_order E fresh now req g =
     (case order_check E req g of
        (Inl e, g1) \<Rightarrow> Done (Err (400, ''Order failed: '' @ display e), g1)
      | (Inr bq, g1) \<Rightarrow> outcome_then (order_commit fresh now req bq g1) (\<lambda>(ord, g2). Done (Ok ord, g2)))"

definition gw_list_orders :: "gw_state \<Rightarrow> gw_order list gw_reply" where
  "gw_list_orders g = Ok (map snd (gw_orders g))"

definition gw_cancel_order :: "string \<Rightarrow> string \<Rightarrow> gw_state \<Rightarrow> gw_order gw_reply \<times> gw_state" where
  "gw_cancel_order now i g =
     (case map_of (gw_orders g) i of
        Some ord \<Rightarrow>
          (let ord' = ord\<lparr>go_status := ''cancelled'', go_created_at := now\<rparr>
           in (Ok ord', g\<lparr>gw_orders := AList.update i ord' (gw_orders g)\<rparr>))
      | None \<Rightarrow> (Err (404, ''Order not found''), g))"

text \<open>The shedder is part of the world; \<open>roll\<close> is the random draw.\<close>

definition shedder_middleware :: "u64 \<Rightarrow> ('w \<Rightarrow> adaptive_shedder) \<Rightarrow> 'w handler \<Rightarrow> 'w handler" where
  "shedder_middleware roll shedder nxt req w =
     (if should_reject roll (shedder w) then (json_response 503 (code_msg 503 ''service overloaded''), w) else nxt req w)"

section \<open>Conservation of stock\<close>

definition gw_stock :: "string \<Rightarrow> gw_state \<Rightarrow> nat" where
  "gw_stock i g = (case map_of (gw_books g) i of Some b \<Rightarrow> unat (gb_stock b) | None \<Rightarrow> 0)"

definition ordered :: "string \<Rightarrow> gw_state \<Rightarrow> nat" where
  "ordered i g = sum_list (map (\<lambda>(k, x). if go_book_id x = i then unat (go_quantity x) else 0) (gw_orders g))"

definition gw_wf :: "gw_state \<Rightarrow> bool" where
  "gw_wf g \<longleftrightarrow> (\<forall>i b. map_of (gw_books g) i = Some b \<longrightarrow> gb_id b = i)"

lemma sum_update_new: "map_of xs k = None \<Longrightarrow> sum_list (map f (AList.update k v xs)) = sum_list (map f xs) + f (k, v)" for f :: "_ \<Rightarrow> nat"
  by (induction xs) (auto split: if_splits)

lemma sum_update_same:
  "map_of xs k = Some v0 \<Longrightarrow> f (k, v) = f (k, v0) \<Longrightarrow> sum_list (map f (AList.update k v xs)) = sum_list (map f xs)" for f :: "_ \<Rightarrow> nat"
  by (induction xs) (auto split: if_splits)

lemma order_check_parts:
  "order_check E req g = (r, g1) \<Longrightarrow>
     gw_books g1 = gw_books g \<and> gw_orders g1 = gw_orders g \<and>
     (\<forall>b q. r = Inr (b, q) \<longrightarrow> map_of (gw_books g) (gr_book_id req) = Some b \<and> q = gr_quantity req \<and> q \<le> gb_stock b)"
  by (auto simp: order_check_def execute_def Let_def not_less split: if_splits prod.splits sum.splits option.splits)

lemma order_commit_stock:
  assumes "gw_wf g" and "map_of (gw_books g) (gr_book_id req) = Some b" and "map_of (gw_orders g) fresh = None"
    and "order_commit fresh now req (b, q) g = Done (ord, g')"
  shows "gw_wf g' \<and> gw_stock i g' + ordered i g' = gw_stock i g + ordered i g"
proof -
  have id: "gb_id b = gr_book_id req" using assms(1,2) by (simp add: gw_wf_def)
  then have q: "q \<le> gb_stock b" and
    g': "gw_books g' = AList.update (gr_book_id req) (b\<lparr>gb_stock := gb_stock b - q\<rparr>) (gw_books g)"
      "gw_orders g' = AList.update fresh ord (gw_orders g)" "go_book_id ord = gr_book_id req" "go_quantity ord = q"
    using assms(2,4) by (auto simp: order_commit_def Let_def not_less split: if_splits)
  have "gw_wf g'" using assms(1) id by (auto simp: gw_wf_def g' update_conv')
  moreover have "ordered i g' = ordered i g + (if gr_book_id req = i then unat q else 0)"
    using assms(3) by (simp add: ordered_def g' sum_update_new)
  moreover have "unat (gb_stock b - q) + unat q = unat (gb_stock b)" using q by (simp add: unat_sub word_le_nat_alt)
  ultimately show ?thesis using assms(2) by (auto simp: gw_stock_def g' update_conv')
qed

datatype gw_op = G_Order gw_env string string gw_order_req | G_Cancel string string | G_Get gw_env string | G_List gw_env "string option"

fun gw_apply :: "gw_op \<Rightarrow> gw_state \<Rightarrow> gw_state outcome" where
  "gw_apply (G_Order E fresh now req) g = outcome_then (gw_create_order E fresh now req g) (\<lambda>(r, g'). Done g')"
| "gw_apply (G_Cancel now i) g = Done (snd (gw_cancel_order now i g))"
| "gw_apply (G_Get E i) g = Done (snd (gw_get_book E i g))"
| "gw_apply (G_List E cat) g = Done (snd (gw_list_books E cat g))"

fun gw_run :: "gw_op list \<Rightarrow> gw_state \<Rightarrow> gw_state outcome" where
  "gw_run [] g = Done g"
| "gw_run (op # ops) g = outcome_then (gw_apply op g) (gw_run ops)"

text \<open>Every new order has an identifier that no order has yet.\<close>

fun fresh_ids :: "gw_op list \<Rightarrow> gw_state \<Rightarrow> bool" where
  "fresh_ids [] g \<longleftrightarrow> True"
| "fresh_ids (op # ops) g \<longleftrightarrow>
     (case op of G_Order E fresh now req \<Rightarrow> map_of (gw_orders g) fresh = None | _ \<Rightarrow> True) \<and>
     (case gw_apply op g of Done g' \<Rightarrow> fresh_ids ops g' | Panic \<Rightarrow> True)"

lemma gw_order_total:
  assumes "gw_wf g" and "map_of (gw_orders g) fresh = None"
  shows "\<exists>r g'. gw_create_order E fresh now req g = Done (r, g') \<and> gw_wf g' \<and> gw_stock i g' + ordered i g' = gw_stock i g + ordered i g"
proof -
  obtain r g1 where chk: "order_check E req g = (r, g1)" by fastforce
  note p = order_check_parts [OF chk]
  have same: "gw_wf g1 = gw_wf g" "gw_stock i g1 = gw_stock i g" "ordered i g1 = ordered i g"
    using p by (simp_all add: gw_wf_def gw_stock_def ordered_def)
  show ?thesis
  proof (cases r)
    case (Inl e)
    then show ?thesis using chk same assms by (simp add: gw_create_order_def)
  next
    case (Inr bq)
    obtain b q where bq: "bq = (b, q)" by fastforce
    have b: "map_of (gw_books g1) (gr_book_id req) = Some b" "q \<le> gb_stock b" using p Inr bq by auto
    then have "gb_id b = gr_book_id req" using assms(1) same(1) by (simp add: gw_wf_def)
    then obtain ord g2 where c: "order_commit fresh now req (b, q) g1 = Done (ord, g2)"
      using b by (simp add: order_commit_def Let_def not_less [symmetric])
    then show ?thesis
      using order_commit_stock [OF _ b(1) _ c, of i] chk Inr bq assms same p by (auto simp: gw_create_order_def outcome_then_def)
  qed
qed

lemma gw_apply_stock:
  assumes "gw_wf g" and "fresh_ids (op # ops) g"
  shows "\<exists>g'. gw_apply op g = Done g' \<and> gw_wf g' \<and> fresh_ids ops g' \<and> gw_stock i g' + ordered i g' = gw_stock i g + ordered i g"
proof (cases op)
  case (G_Order E fresh now req)
  then show ?thesis using gw_order_total [OF assms(1), of fresh E now req i] assms(2) by (auto simp: outcome_then_def)
next
  case (G_Cancel now j)
  have "ordered i (snd (gw_cancel_order now j g)) = ordered i g"
    by (auto simp: gw_cancel_order_def ordered_def Let_def sum_update_same split: option.splits)
  then show ?thesis using assms G_Cancel by (auto simp: gw_cancel_order_def gw_wf_def gw_stock_def Let_def split: option.splits)
next
  case (G_Get E j)
  then show ?thesis using assms by (auto simp: gw_get_book_def gw_wf_def gw_stock_def ordered_def split: option.splits prod.splits)
next
  case (G_List E cat)
  then show ?thesis using assms by (auto simp: gw_list_books_def gw_wf_def gw_stock_def ordered_def Let_def split: option.splits prod.splits)
qed


definition demo_gw_env :: gw_env where
  "demo_gw_env = \<lparr>ge_get = 0, ge_put = 0, ge_put_entry = 0,
     ge_exec = \<lparr>ck_open = 0, ck_eval = 0, ck_rec = 0, ck_window = 0, ck_opened = 0\<rparr>, ge_iter = id, ge_iter_list = id\<rparr>"


text \<open>
  Two orders of the same book that are both checked before either is committed panic in the second subtraction
  when together they ask for more than the stock.
\<close>

theorem concurrent_orders_panic:
  assumes "gw_wf g" and "gr_book_id a = i" and "gr_book_id b = i" and "gw_stock i g < unat (gr_quantity a) + unat (gr_quantity b)"
    and "order_check E a g = (Inr x, g1)" and "order_check E' b g1 = (Inr y, g2)" and "order_commit f1 now1 a x g2 = Done (ord, g3)"
  shows "order_commit f2 now2 b y g3 = Panic"
proof -
  note pa = order_check_parts [OF assms(5)] and pb = order_check_parts [OF assms(6)]
  obtain bk where bk: "map_of (gw_books g) i = Some bk" "x = (bk, gr_quantity a)" "y = (bk, gr_quantity b)" "gb_id bk = i" "gr_quantity a \<le> gb_stock bk"
    using pa pb assms(1-3) by (cases x; cases y) (auto simp: gw_wf_def)
  have g3: "map_of (gw_books g3) i = Some (bk\<lparr>gb_stock := gb_stock bk - gr_quantity a\<rparr>)"
  proof -
    have "map_of (gw_books g2) i = Some bk" using pa pb bk(1) by simp
    then show ?thesis using assms(7) bk(2,4,5) by (auto simp: order_commit_def Let_def update_conv' not_less [symmetric])
  qed
  have "unat (gb_stock bk - gr_quantity a) = unat (gb_stock bk) - unat (gr_quantity a)" using bk(5) by (simp add: unat_sub word_le_nat_alt)
  then have "gb_stock bk - gr_quantity a < gr_quantity b"
    using assms(4) bk(1,5) by (simp add: word_less_nat_alt gw_stock_def word_le_nat_alt)
  then show ?thesis using g3 bk by (simp add: order_commit_def Let_def)
qed

text \<open>
  A book created through the gateway does not appear in a listing that is cached: only the cache of single
  books is cleared.
\<close>

theorem created_book_not_listed:
  assumes "fst (gw_list_books E cat g) = Inr bs" and "ge_get E' \<le> ge_put_entry E + 60 * 10 ^ 9"
    and "fst (cache_get (ge_get E) (gw_list_key cat) (gw_list_cache g)) = None"
  shows "fst (gw_list_books E' cat (snd (gw_create_book fresh req (snd (gw_list_books E cat g))))) = Inr bs"
proof -
  obtain c where c: "cache_get (ge_get E) (gw_list_key cat) (gw_list_cache g) = (None, c)" using assms(3) by (metis prod.collapse)
  have "map_of (cache_entries (gw_list_cache (snd (gw_list_books E cat g)))) (gw_list_key cat) = Some (cache_entry_new (ge_put_entry E) bs (Some (secs 60)))"
    using assms(1) c by (simp add: gw_list_books_def Let_def set_with_ttl_def map_of_insert_key)
  moreover have "gw_list_cache (snd (gw_create_book fresh req h)) = gw_list_cache h" for h by (simp add: gw_create_book_def Let_def)
  ultimately show ?thesis using assms(2) by (simp add: gw_list_books_def [of E'] cache_get_def is_expired_def cache_entry_new_def secs_def)
qed

section \<open>Order states\<close>

text \<open>
  Of the five states of an order the service uses two: every order is confirmed when created and can only become
  cancelled, once; a second cancellation is refused with a conflict.
\<close>

definition order_states :: "'q order_svc \<Rightarrow> bool" where
  "order_states s \<longleftrightarrow> (\<forall>(k, x)\<in>set (os_db s). od_status x \<in> {OS_Confirmed, OS_Cancelled})"

lemma set_update_le: "x \<in> set (AList.update k v xs) \<Longrightarrow> x = (k, v) \<or> x \<in> set xs"
  by (induction xs) (auto split: if_splits)

lemma create_order_states: "order_states s \<Longrightarrow> order_states (snd (create_order push ck now fresh req s))"
  by (auto simp: create_order_def Let_def order_states_def dest!: set_update_le split: prod.splits sum.splits)

theorem order_life:
  assumes "order_states s"
  shows "order_states (snd (create_order push ck now fresh req s)) \<and> order_states (snd (cancel_order push now i reason s)) \<and>
    (fst (cancel_order push now i reason s) = Ok True \<longrightarrow>
       get_order i (snd (cancel_order push now i reason s)) = map_sum id (\<lambda>x. x\<lparr>od_status := OS_Cancelled, od_updated_at := now\<rparr>) (get_order i s) \<and>
       resp_code (resp_from_result (fst (cancel_order push now' i reason' (snd (cancel_order push now i reason s))))) = 409)"
proof (intro conjI impI)
  show "order_states (snd (create_order push ck now fresh req s))" using assms by (rule create_order_states)
  show "order_states (snd (cancel_order push now i reason s))"
    using assms by (auto simp: cancel_order_def order_states_def dest!: set_update_le split: option.splits)
  assume "fst (cancel_order push now i reason s) = Ok True"
  then obtain x where x: "map_of (os_db s) i = Some x" "od_status x \<noteq> OS_Cancelled"
    by (auto simp: cancel_order_def split: option.splits if_splits)
  let ?s = "snd (cancel_order push now i reason s)"
  have db: "map_of (os_db ?s) i = Some (x\<lparr>od_status := OS_Cancelled, od_updated_at := now\<rparr>)" using x by (simp add: cancel_order_def update_conv')
  show "get_order i ?s = map_sum id (\<lambda>x. x\<lparr>od_status := OS_Cancelled, od_updated_at := now\<rparr>) (get_order i s)"
    using x db by (simp add: get_order_def)
  show "resp_code (resp_from_result (fst (cancel_order push now' i reason' ?s))) = 409"
    using db by (simp add: cancel_order_def [of push now' i reason' ?s] resp_from_result_def resp_error_def)
qed

end
