(* ===== verification/Metrics.thy ===== *)
theory Metrics
  imports Errors F64
begin

text \<open>
  Metrics (\<open>rszero/src/metrics/mod.rs\<close>) and business metrics (\<open>rszero/src/metrics/business.rs\<close>).  The prometheus crate is an
  argument: creating a metric with label names, registering it, and updating it at label values, which panics as the
  crate's \<open>with_label_values\<close> does.  \<open>'v\<close> is a metric, \<open>'w\<close> the values of all metrics.
\<close>

section \<open>The prometheus crate\<close>

datatype metric_kind = K_Counter | K_Gauge | K_Histogram

datatype metric_update = M_Inc | M_Dec | M_Add f64 | M_Set f64 | M_Observe f64

record ('v, 'w) prometheus =
  pm_new :: "metric_kind \<Rightarrow> string \<Rightarrow> string \<Rightarrow> string list \<Rightarrow> (string, 'v) result"
  pm_register :: "'v \<Rightarrow> 'w \<Rightarrow> 'w"
  pm_update :: "'v \<Rightarrow> string list \<Rightarrow> metric_update \<Rightarrow> 'w \<Rightarrow> 'w outcome"

section \<open>Request metrics\<close>

record 'v metrics =
  mx_requests_total :: 'v
  mx_request_duration :: 'v
  mx_errors_total :: 'v
  mx_active_requests :: 'v

text \<open>A metric, or its fallback without labels; the fallback must not fail.\<close>

definition new_or_fallback :: "('v, 'w) prometheus \<Rightarrow> metric_kind \<Rightarrow> string \<Rightarrow> string \<Rightarrow> string list \<Rightarrow> 'v outcome" where
  "new_or_fallback P k nm help labels =
     (case pm_new P k nm help labels of
        Inr v \<Rightarrow> Done v
      | Inl e \<Rightarrow> (case pm_new P k (nm @ ''_fb'') ''fallback'' [] of Inr v \<Rightarrow> Done v | Inl e \<Rightarrow> Panic))"

text \<open>The constant label of the gauge is part of its metric, made by \<open>pm_gauge\<close>.\<close>

definition metrics_new ::
  "('v, 'w) prometheus \<Rightarrow> (string \<Rightarrow> (string, 'v) result) \<Rightarrow> string \<Rightarrow> 'w \<Rightarrow> ('v metrics \<times> 'w) outcome" where
  "metrics_new P pm_gauge service w =
     (case (new_or_fallback P K_Counter ''rszero_requests_total'' ''Total number of requests'' [''service'', ''method'', ''path'', ''status''],
            new_or_fallback P K_Histogram ''rszero_request_duration_seconds'' ''Request duration in seconds'' [''service'', ''method'', ''path''],
            new_or_fallback P K_Counter ''rszero_errors_total'' ''Total number of errors'' [''service'', ''error_type''],
            (case pm_gauge service of
               Inr g \<Rightarrow> Done g
             | Inl e \<Rightarrow> (case pm_new P K_Gauge ''rszero_active_requests_fb'' ''fallback'' [] of Inr g \<Rightarrow> Done g | Inl e \<Rightarrow> Panic))) of
        (Done r, Done d, Done e, Done a) \<Rightarrow>
          Done (\<lparr>mx_requests_total = r, mx_request_duration = d, mx_errors_total = e, mx_active_requests = a\<rparr>,
                pm_register P a (pm_register P e (pm_register P d (pm_register P r w))))
      | _ \<Rightarrow> Panic)"

record request_guard =
  gd_method :: string
  gd_path :: string
  gd_start :: instant

definition start_request :: "('v, 'w) prometheus \<Rightarrow> 'v metrics \<Rightarrow> instant \<Rightarrow> string \<Rightarrow> string \<Rightarrow> 'w \<Rightarrow> (request_guard \<times> 'w) outcome" where
  "start_request P m now meth path w =
     (case pm_update P (mx_active_requests m) [] M_Inc w of
        Panic \<Rightarrow> Panic
      | Done w' \<Rightarrow> Done (\<lparr>gd_method = meth, gd_path = path, gd_start = now\<rparr>, w'))"

definition status_class :: "nat \<Rightarrow> string" where
  "status_class s =
     (if 200 \<le> s \<and> s \<le> 299 then ''2xx'' else if 300 \<le> s \<and> s \<le> 399 then ''3xx'' else if 400 \<le> s \<and> s \<le> 499 then ''4xx''
      else if 500 \<le> s \<and> s \<le> 599 then ''5xx'' else ''unknown'')"

definition record_request :: "('v, 'w) prometheus \<Rightarrow> 'v metrics \<Rightarrow> string \<Rightarrow> string \<Rightarrow> nat \<Rightarrow> 'w \<Rightarrow> 'w outcome" where
  "record_request P m meth path status w = pm_update P (mx_requests_total m) ['''', meth, path, status_class status] M_Inc w"

definition record_error :: "('v, 'w) prometheus \<Rightarrow> 'v metrics \<Rightarrow> string \<Rightarrow> 'w \<Rightarrow> 'w outcome" where
  "record_error P m error_type w = pm_update P (mx_errors_total m) ['''', error_type] M_Inc w"

text \<open>The end of a guard; \<open>elapsed\<close> is the duration in seconds.\<close>

definition guard_drop :: "('v, 'w) prometheus \<Rightarrow> 'v metrics \<Rightarrow> f64 \<Rightarrow> request_guard \<Rightarrow> 'w \<Rightarrow> 'w outcome" where
  "guard_drop P m elapsed g w =
     (case pm_update P (mx_active_requests m) [] M_Dec w of
        Panic \<Rightarrow> Panic
      | Done w' \<Rightarrow> pm_update P (mx_request_duration m) ['''', gd_method g, gd_path g] (M_Observe elapsed) w')"

section \<open>Business metrics\<close>

record 'v business_metrics =
  bm_service :: string
  bm_counters :: "string \<rightharpoonup> 'v"
  bm_gauges :: "string \<rightharpoonup> 'v"
  bm_histograms :: "string \<rightharpoonup> 'v"

definition business_new :: "string \<Rightarrow> 'v business_metrics" where
  "business_new service = \<lparr>bm_service = service, bm_counters = Map.empty, bm_gauges = Map.empty, bm_histograms = Map.empty\<rparr>"

definition full_name :: "'v business_metrics \<Rightarrow> string \<Rightarrow> string" where
  "full_name b nm = ''rszero_biz_'' @ bm_service b @ ''_'' @ map (\<lambda>c. if c = CHR ''.'' then CHR ''_'' else c) nm"

text \<open>The entry of a map, created on the first use of its name: the metric, registered, or a fallback without labels.\<close>

definition get_or_create ::
  "('v, 'w) prometheus \<Rightarrow> metric_kind \<Rightarrow> string \<Rightarrow> string \<Rightarrow> string \<Rightarrow> string \<Rightarrow> string list \<Rightarrow> (string \<rightharpoonup> 'v) \<Rightarrow> 'w \<Rightarrow> ('v \<times> (string \<rightharpoonup> 'v) \<times> 'w) outcome" where
  "get_or_create P k fallback_name full what nm labels mp w =
     (case mp full of
        Some v \<Rightarrow> Done (v, mp, w)
      | None \<Rightarrow>
          (case pm_new P k full (what @ nm) labels of
             Inr v \<Rightarrow> Done (v, mp(full \<mapsto> v), pm_register P v w)
           | Inl e \<Rightarrow>
               (case pm_new P k fallback_name ''fallback'' [] of
                  Inr v \<Rightarrow> Done (v, mp(full \<mapsto> v), w)
                | Inl e \<Rightarrow>
                    (case pm_new P k ''_'' ''_'' [] of
                       Inr v \<Rightarrow> Done (v, mp(full \<mapsto> v), w)
                     | Inl e \<Rightarrow> Panic))))"

definition biz_counter :: "('v, 'w) prometheus \<Rightarrow> string \<Rightarrow> string list \<Rightarrow> 'v business_metrics \<Rightarrow> 'w \<Rightarrow> ('v \<times> 'v business_metrics \<times> 'w) outcome" where
  "biz_counter P nm labels b w =
     (case get_or_create P K_Counter ''rszero_biz_counter_fallback'' (full_name b nm) ''Counter for '' nm labels (bm_counters b) w of
        Panic \<Rightarrow> Panic | Done (v, mp, w') \<Rightarrow> Done (v, b\<lparr>bm_counters := mp\<rparr>, w'))"

definition biz_gauge :: "('v, 'w) prometheus \<Rightarrow> string \<Rightarrow> string list \<Rightarrow> 'v business_metrics \<Rightarrow> 'w \<Rightarrow> ('v \<times> 'v business_metrics \<times> 'w) outcome" where
  "biz_gauge P nm labels b w =
     (case get_or_create P K_Gauge ''rszero_biz_gauge_fallback'' (full_name b nm) ''Gauge for '' nm labels (bm_gauges b) w of
        Panic \<Rightarrow> Panic | Done (v, mp, w') \<Rightarrow> Done (v, b\<lparr>bm_gauges := mp\<rparr>, w'))"

definition biz_histogram :: "('v, 'w) prometheus \<Rightarrow> string \<Rightarrow> string list \<Rightarrow> 'v business_metrics \<Rightarrow> 'w \<Rightarrow> ('v \<times> 'v business_metrics \<times> 'w) outcome" where
  "biz_histogram P nm labels b w =
     (case get_or_create P K_Histogram ''rszero_biz_histogram_fallback'' (full_name b nm) ''Histogram for '' nm labels (bm_histograms b) w of
        Panic \<Rightarrow> Panic | Done (v, mp, w') \<Rightarrow> Done (v, b\<lparr>bm_histograms := mp\<rparr>, w'))"

definition counter_inc :: "('v, 'w) prometheus \<Rightarrow> 'v \<Rightarrow> string list \<Rightarrow> 'w \<Rightarrow> 'w outcome" where
  "counter_inc P v lvs = pm_update P v lvs M_Inc"

definition counter_add :: "('v, 'w) prometheus \<Rightarrow> 'v \<Rightarrow> string list \<Rightarrow> f64 \<Rightarrow> 'w \<Rightarrow> 'w outcome" where
  "counter_add P v lvs x = pm_update P v lvs (M_Add x)"

definition gauge_set :: "('v, 'w) prometheus \<Rightarrow> 'v \<Rightarrow> string list \<Rightarrow> f64 \<Rightarrow> 'w \<Rightarrow> 'w outcome" where
  "gauge_set P v lvs x = pm_update P v lvs (M_Set x)"

definition gauge_inc :: "('v, 'w) prometheus \<Rightarrow> 'v \<Rightarrow> string list \<Rightarrow> 'w \<Rightarrow> 'w outcome" where
  "gauge_inc P v lvs = pm_update P v lvs M_Inc"

definition gauge_dec :: "('v, 'w) prometheus \<Rightarrow> 'v \<Rightarrow> string list \<Rightarrow> 'w \<Rightarrow> 'w outcome" where
  "gauge_dec P v lvs = pm_update P v lvs M_Dec"

definition gauge_add :: "('v, 'w) prometheus \<Rightarrow> 'v \<Rightarrow> string list \<Rightarrow> f64 \<Rightarrow> 'w \<Rightarrow> 'w outcome" where
  "gauge_add P v lvs x = pm_update P v lvs (M_Add x)"

definition histogram_observe :: "('v, 'w) prometheus \<Rightarrow> 'v \<Rightarrow> string list \<Rightarrow> f64 \<Rightarrow> 'w \<Rightarrow> 'w outcome" where
  "histogram_observe P v lvs x = pm_update P v lvs (M_Observe x)"

section \<open>What the code relies on\<close>

text \<open>
  The documented rules of the crate: a metric name is letters, digits, underscores and colons and does not start with a
  digit, other names are refused and names with valid label names accepted; a metric has the labels it was made
  with; and label values of another number panic.
\<close>

definition name_char :: "char \<Rightarrow> bool" where
  "name_char c \<longleftrightarrow> c \<in> set ''abcdefghijklmnopqrstuvwxyzABCDEFGHIJKLMNOPQRSTUVWXYZ0123456789_:''"

definition valid_name :: "string \<Rightarrow> bool" where
  "valid_name n \<longleftrightarrow> n \<noteq> [] \<and> \<not> is_ascii_digit (hd n) \<and> list_all name_char n"

definition prometheus_documented :: "('v, 'w) prometheus \<Rightarrow> ('v \<Rightarrow> string list) \<Rightarrow> bool" where
  "prometheus_documented P labels_of \<longleftrightarrow>
     (\<forall>k n h ls v. pm_new P k n h ls = Inr v \<longrightarrow> valid_name n \<and> labels_of v = ls) \<and>
     (\<forall>k n h. valid_name n \<longrightarrow> is_ok (pm_new P k n h [])) \<and>
     (\<forall>v lvs u w. pm_update P v lvs u w = Panic \<longleftrightarrow> length lvs \<noteq> length (labels_of v))"

text \<open>
  A business metric with labels whose full name is not valid, as it is for a service called after the example of
  the documentation, \<open>order-service\<close>, is a fallback without labels, and the first update of it panics.
\<close>

theorem invalid_name_panics:
  assumes "prometheus_documented P labels_of" and "\<not> valid_name (full_name b nm)" and "bm_counters b (full_name b nm) = None" and "lvs \<noteq> []"
  shows "\<exists>v b' w'. biz_counter P nm labels b w = Done (v, b', w') \<and> counter_inc P v lvs w' = Panic"
proof -
  have fb: "valid_name ''rszero_biz_counter_fallback''" by (simp add: valid_name_def name_char_def is_ascii_digit_def)
  obtain e where e: "pm_new P K_Counter (full_name b nm) (''Counter for '' @ nm) labels = Inl e"
    using assms(1,2) unfolding prometheus_documented_def by (metis obj_sumE)
  obtain v where v: "pm_new P K_Counter ''rszero_biz_counter_fallback'' ''fallback'' [] = Inr v" "labels_of v = []"
    using assms(1) fb unfolding prometheus_documented_def is_ok_def by (metis old.sum.simps(5) obj_sumE)
  have "counter_inc P v lvs w = Panic" using assms(1,4) v(2) by (simp add: prometheus_documented_def counter_inc_def)
  then show ?thesis using assms(3) e v(1) by (simp add: biz_counter_def get_or_create_def)
qed

lemma order_service_invalid: "\<not> valid_name (full_name (business_new ''order-service'') nm)"
  by (simp add: valid_name_def full_name_def business_new_def name_char_def)

text \<open>
  The labels of a metric are those of its first use: asking again for the name with another number of labels returns
  the first metric, and updating it with values for the new labels panics.
\<close>

theorem other_labels_panic:
  assumes "prometheus_documented P labels_of" and "bm_counters b (full_name b nm) = None" and "valid_name (full_name b nm)"
    and "pm_new P K_Counter (full_name b nm) (''Counter for '' @ nm) labels = Inr v" and "length lvs \<noteq> length labels"
  shows "\<exists>b' w'. biz_counter P nm labels b w = Done (v, b', w') \<and>
    (\<exists>w''. biz_counter P nm labels' b' w' = Done (v, b', w'') \<and> counter_inc P v lvs w'' = Panic)"
proof -
  have "labels_of v = labels" using assms(1,4) by (auto simp: prometheus_documented_def)
  then have "counter_inc P v lvs w'' = Panic" for w'' using assms(1,5) by (simp add: prometheus_documented_def counter_inc_def)
  then show ?thesis using assms(2,4) by (auto simp: biz_counter_def get_or_create_def full_name_def)
qed

section \<open>Active requests\<close>

text \<open>
  The gauge of active requests counts the open guards.  Events are starts and drops; \<open>value\<close> reads the gauge, which
  increments and decrements change by one and other updates do not.
\<close>

definition gauge_counts :: "('v, 'w) prometheus \<Rightarrow> 'v metrics \<Rightarrow> ('w \<Rightarrow> int) \<Rightarrow> bool" where
  "gauge_counts P m val \<longleftrightarrow>
     (\<forall>w. \<exists>w'. pm_update P (mx_active_requests m) [] M_Inc w = Done w' \<and> val w' = val w + 1) \<and>
     (\<forall>w. \<exists>w'. pm_update P (mx_active_requests m) [] M_Dec w = Done w' \<and> val w' = val w - 1) \<and>
     (\<forall>lvs x w. length lvs = 3 \<longrightarrow> (\<exists>w'. pm_update P (mx_request_duration m) lvs (M_Observe x) w = Done w' \<and> val w' = val w))"

datatype guard_event = Start_Request instant string string | Drop_Guard nat f64

fun guard_run :: "('v, 'w) prometheus \<Rightarrow> 'v metrics \<Rightarrow> guard_event list \<Rightarrow> request_guard list \<Rightarrow> 'w \<Rightarrow> (request_guard list \<times> 'w) outcome" where
  "guard_run P m [] gs w = Done (gs, w)"
| "guard_run P m (Start_Request now meth path # es) gs w =
     (case start_request P m now meth path w of Panic \<Rightarrow> Panic | Done (g, w') \<Rightarrow> guard_run P m es (g # gs) w')"
| "guard_run P m (Drop_Guard i x # es) gs w =
     (if i < length gs then (case guard_drop P m x (gs ! i) w of Panic \<Rightarrow> Panic | Done w' \<Rightarrow> guard_run P m es (take i gs @ drop (Suc i) gs) w')
      else guard_run P m es gs w)"

text \<open>
  In every sequence of starts and drops of guards, in whatever order the guards end, the gauge of active requests has
  grown by the number of guards that are still open.
\<close>

theorem active_requests_balance:
  assumes "gauge_counts P m val"
  shows "\<exists>gs' w'. guard_run P m es gs w = Done (gs', w') \<and> val w' - int (length gs') = val w - int (length gs)"
proof (induction es arbitrary: gs w)
  case (Cons e es)
  show ?case
  proof (cases e)
    case (Start_Request now meth path)
    obtain w1 where "pm_update P (mx_active_requests m) [] M_Inc w = Done w1" "val w1 = val w + 1"
      using assms unfolding gauge_counts_def by blast
    then show ?thesis using Cons.IH [of "\<lparr>gd_method = meth, gd_path = path, gd_start = now\<rparr> # gs" w1]
      by (simp add: Start_Request start_request_def)
  next
    case (Drop_Guard i x)
    obtain w1 where w1: "pm_update P (mx_active_requests m) [] M_Dec w = Done w1" "val w1 = val w - 1"
      using assms unfolding gauge_counts_def by blast
    have "\<exists>w2. pm_update P (mx_request_duration m) ['''', gd_method (gs ! i), gd_path (gs ! i)] (M_Observe x) w1 = Done w2 \<and> val w2 = val w1"
      using assms unfolding gauge_counts_def by (metis length_Cons list.size(3) numeral_3_eq_3)
    then obtain w2 where w2: "pm_update P (mx_request_duration m) ['''', gd_method (gs ! i), gd_path (gs ! i)] (M_Observe x) w1 = Done w2" "val w2 = val w1" by blast
    show ?thesis
    proof (cases "i < length gs")
      case True
      then show ?thesis using Cons.IH [of "take i gs @ drop (Suc i) gs" w2] w1 w2 by (auto simp: Drop_Guard guard_drop_def)
    next
      case False
      then show ?thesis using Cons.IH [of gs w] by (simp add: Drop_Guard)
    qed
  qed
qed simp

end
