(* ===== verification/Dashboard.thy ===== *)
theory Dashboard
  imports Rest_Server F64
begin

text \<open>
  The dashboard (\<open>rszero/src/dashboard/data.rs\<close>, \<open>rszero/src/dashboard/mod.rs\<close>): the global request counters, the snapshots
  computed from them, the route registry, the routes it mounts, and the handlers of its fragments.  A handler is
  modelled by the values it puts into its HTML template, in order; the template itself is fixed text.  The
  uptime, the facts about the process and the two-digit format of a rate are arguments.
\<close>

section \<open>Counters and snapshots\<close>

record request_counts =
  rq_total :: u64
  rq_errors :: u64

definition counts_init :: request_counts where
  "counts_init = \<lparr>rq_total = 0, rq_errors = 0\<rparr>"

definition count_request :: "request_counts \<Rightarrow> request_counts" where
  "count_request c = c\<lparr>rq_total := rq_total c + 1\<rparr>"

definition count_error :: "request_counts \<Rightarrow> request_counts" where
  "count_error c = c\<lparr>rq_errors := rq_errors c + 1\<rparr>"

record system_info =
  sy_os :: string
  sy_arch :: string
  sy_rust_version :: string
  sy_pid :: u32
  sy_uptime :: nat

definition system_collect :: "string \<Rightarrow> string \<Rightarrow> string option \<Rightarrow> u32 \<Rightarrow> nat \<Rightarrow> system_info" where
  "system_collect os arch rust pid uptime =
     \<lparr>sy_os = os, sy_arch = arch, sy_rust_version = (case rust of Some v \<Rightarrow> v | None \<Rightarrow> ''unknown''), sy_pid = pid, sy_uptime = uptime\<rparr>"

definition error_rate :: "request_counts \<Rightarrow> f64" where
  "error_rate c =
     (if 0 < rq_total c then f64_mul (f64_div (f64_of_nat (unat (rq_errors c))) (f64_of_nat (unat (rq_total c)))) (Fin 100) else Fin 0)"

record app_info =
  ai_name :: string
  ai_version :: string
  ai_uptime :: nat
  ai_total :: u64
  ai_errors :: u64
  ai_error_rate :: f64

definition app_collect :: "string \<Rightarrow> string \<Rightarrow> nat \<Rightarrow> request_counts \<Rightarrow> app_info" where
  "app_collect nm ver uptime c =
     \<lparr>ai_name = nm, ai_version = ver, ai_uptime = uptime, ai_total = rq_total c, ai_errors = rq_errors c, ai_error_rate = error_rate c\<rparr>"

record health_check =
  hc_name :: string
  hc_status :: string
  hc_message :: "string option"

record health_status =
  hs_overall :: bool
  hs_checks :: "health_check list"

definition from_health :: "health \<Rightarrow> health_status" where
  "from_health h =
     \<lparr>hs_overall = is_ready h,
      hs_checks = [\<lparr>hc_name = ''framework'', hc_status = (if is_ready h then ''healthy'' else ''unhealthy''), hc_message = None\<rparr>]\<rparr>"

definition pad2 :: "nat \<Rightarrow> string" where
  "pad2 n = (if n < 10 then CHR ''0'' # show_nat n else show_nat n)"

definition format_duration :: "nat \<Rightarrow> string" where
  "format_duration secs =
     (let mins = secs div 60; hours = mins div 60; days = hours div 24
      in if 0 < days then show_nat days @ ''d '' @ pad2 (hours mod 24) @ ''h '' @ pad2 (mins mod 60) @ ''m''
         else if 0 < hours then show_nat hours @ ''h '' @ pad2 (mins mod 60) @ ''m '' @ pad2 (secs mod 60) @ ''s''
         else show_nat mins @ ''m '' @ pad2 (secs mod 60) @ ''s'')"

record metrics_snapshot =
  ms_total :: u64
  ms_errors :: u64
  ms_error_rate :: f64
  ms_uptime :: nat
  ms_uptime_formatted :: string

definition snapshot_collect :: "nat \<Rightarrow> request_counts \<Rightarrow> metrics_snapshot" where
  "snapshot_collect uptime c =
     \<lparr>ms_total = rq_total c, ms_errors = rq_errors c, ms_error_rate = error_rate c, ms_uptime = uptime,
      ms_uptime_formatted = format_duration uptime\<rparr>"

record route_info =
  ri_method :: string
  ri_path :: string

type_synonym route_registry = "route_info list"

definition route_registry_new :: route_registry where
  "route_registry_new = []"

definition route_registry_register :: "string \<Rightarrow> string \<Rightarrow> route_registry \<Rightarrow> route_registry" where
  "route_registry_register meth path r = r @ [\<lparr>ri_method = meth, ri_path = path\<rparr>]"

definition route_registry_list :: "route_registry \<Rightarrow> route_info list" where
  "route_registry_list r = r"

section \<open>Routes and fragments\<close>

definition dashboard_paths :: "string list" where
  "dashboard_paths =
     [''/dashboard'', ''/dashboard/api/metrics'', ''/dashboard/api/health'', ''/dashboard/api/system'', ''/dashboard/api/app'', ''/dashboard/api/routes'']"

definition mount :: "('r, 'h, 'x) router_api \<Rightarrow> (string \<Rightarrow> 'h) \<Rightarrow> 'r \<Rightarrow> 'r" where
  "mount R page r = fold (\<lambda>p. ro_route R p (page p)) dashboard_paths r"

definition with_dashboard :: "('r, 'h, 'x) router_api \<Rightarrow> (string \<Rightarrow> 'h) \<Rightarrow> ('r, 'm, 'o) rszero_server \<Rightarrow> ('r, 'm, 'o) rszero_server" where
  "with_dashboard R page s = s\<lparr>sr_router := mount R page (sr_router s)\<rparr>"

definition metrics_fragment :: "(f64 \<Rightarrow> string) \<Rightarrow> nat \<Rightarrow> request_counts \<Rightarrow> string list" where
  "metrics_fragment fmt uptime c =
     (let m = snapshot_collect uptime c
      in [ms_uptime_formatted m, show_nat (unat (ms_total m)), show_nat (unat (ms_errors m)),
          if f64_less (Fin 5) (ms_error_rate m) then ''text-rose-400'' else ''text-emerald-400'', fmt (ms_error_rate m)])"

text \<open>The icon and text of the heading, and a row of the table for each check.\<close>

definition health_fragment :: "(string \<times> string) \<times> string list list" where
  "health_fragment =
     (let st = from_health health_new;
          row = (\<lambda>c. let (icon, color) = (if hc_status c = ''healthy'' then (''fa-check-circle'', ''text-emerald-400'') else (''fa-times-circle'', ''text-rose-400''))
                     in [hc_name c, color, icon, hc_status c, case hc_message c of Some m \<Rightarrow> m | None \<Rightarrow> [CHR 0xE2, CHR 0x80, CHR 0x94]])
      in (if hs_overall st then (''fa-check-circle'', ''All systems operational'') else (''fa-exclamation-circle'', ''Some systems unhealthy''),
          map row (hs_checks st)))"

definition system_fragment :: "system_info \<Rightarrow> string list" where
  "system_fragment y = [sy_os y, sy_arch y, sy_rust_version y, show_nat (unat (sy_pid y)), show_nat (sy_uptime y)]"

text \<open>The subtraction of two unsigned counters panics below zero.\<close>

definition app_fragment :: "app_info \<Rightarrow> string list outcome" where
  "app_fragment a =
     (if ai_total a < ai_errors a then Panic
      else Done [ai_name a, ai_version a, show_nat (ai_uptime a), show_nat (unat (ai_total a - ai_errors a)), show_nat (unat (ai_errors a))])"

definition routes_fragment :: "(string \<times> string) list" where
  "routes_fragment = [(''GET'', ''/dashboard''), (''GET'', ''/health''), (''GET'', ''/ready''), (''GET'', ''/metrics'')]"

section \<open>Properties\<close>

datatype count_event = Count_Request | Count_Error

fun count_apply :: "count_event \<Rightarrow> request_counts \<Rightarrow> request_counts" where
  "count_apply Count_Request = count_request"
| "count_apply Count_Error = count_error"

lemma counts_are_lengths:
  "length es < 2 ^ 64 \<Longrightarrow>
     unat (rq_total (fold count_apply es counts_init)) = length (filter (\<lambda>e. e = Count_Request) es) \<and>
     unat (rq_errors (fold count_apply es counts_init)) = length (filter (\<lambda>e. e = Count_Error) es)"
proof (induction es rule: rev_induct)
  case (snoc e es)
  have "length (filter P es) < 2 ^ 64 - 1" for P using snoc.prems by (intro le_less_trans [OF length_filter_le]) simp
  then show ?case using snoc by (cases e) (auto simp: count_request_def count_error_def unat_word_ariths)
qed (simp add: counts_init_def)

text \<open>
  The application fragment shows the requests that did not fail, or panics: it panics exactly when more errors
  than requests were counted, which nothing prevents, since the two counters are counted by separate calls.
\<close>

theorem app_fragment_counts:
  assumes "length es < 2 ^ 64"
  defines "n \<equiv> length (filter (\<lambda>e. e = Count_Request) es)" and "k \<equiv> length (filter (\<lambda>e. e = Count_Error) es)"
  shows "app_fragment (app_collect nm ver up (fold count_apply es counts_init)) =
    (if n < k then Panic else Done [nm, ver, show_nat up, show_nat (n - k), show_nat k])"
  using counts_are_lengths [OF assms(1)]
  by (auto simp: app_fragment_def app_collect_def n_def k_def word_less_nat_alt unat_sub word_le_nat_alt not_less)

theorem app_fragment_counts_witness:
  "app_fragment (app_collect ''a'' ''1'' 0 (fold count_apply [Count_Error] counts_init)) = Panic"
  using app_fragment_counts [of "[Count_Error]" "''a''" "''1''" 0] by simp

text \<open>
  The health fragment makes a tracker of its own, which is always ready, so the dashboard reports that all
  systems are operational whatever the tracker of the server says.
\<close>

theorem health_fragment_constant:
  "fst health_fragment = (''fa-check-circle'', ''All systems operational'') \<and> (\<forall>row\<in>set (snd health_fragment). ''healthy'' \<in> set row) \<and>
   \<not> hs_overall (from_health (set_not_ready h))"
  by (simp add: health_fragment_def from_health_def health_new_def is_ready_def set_not_ready_def)

text \<open>
  The layers around the pages of the dashboard: mounted on a server whose router has none of its paths, each page is
  wrapped by the layers added after the mounting, so a rate limit or any other layer added before does
  not cover the dashboard.
\<close>

lemma mount_routes:
  assumes "axum_documented R layers_of" and "distinct ps" and "\<forall>p\<in>set ps. layers_of r p = None"
  shows "layers_of (fold (\<lambda>p. ro_route R p (page p)) ps r) q = (if q \<in> set ps then Some [] else layers_of r q)"
  using assms(2,3)
proof (induction ps arbitrary: r)
  case (Cons p ps)
  have "layers_of (ro_route R p (page p) r) x = (if x = p then Some [] else layers_of r x)" for x
    using assms(1) Cons.prems by (simp add: axum_documented_def)
  moreover have "\<forall>x\<in>set ps. layers_of (ro_route R p (page p) r) x = None" using calculation Cons.prems by auto
  ultimately show ?case using Cons.IH [of "ro_route R p (page p) r"] Cons.prems by auto
qed simp

theorem dashboard_unlayered:
  assumes "axum_documented R layers_of" and "\<forall>p\<in>set dashboard_paths. layers_of (sr_router s) p = None"
  shows "\<forall>p\<in>set dashboard_paths. layers_of (sr_router (with_dashboard R page s)) p = Some []"
  using mount_routes [OF assms(1) _ assms(2)] by (simp add: with_dashboard_def mount_def) (simp add: dashboard_paths_def)

end
