(* ===== verification/Ctl_Templates.thy ===== *)
theory Ctl_Templates
  imports Api_Codegen
begin

text \<open>
  The texts that \<open>rszeroctl\<close> writes (\<open>rszeroctl/src/cmd/*.rs\<close>), line by line and with the places that the commands
  fill as arguments.  Text is UTF-8 bytes; the double quote is \<open>dq\<close>.
\<close>

definition unlines :: "string list \<Rightarrow> string" where
  "unlines ls = concat (map (\<lambda>l. l @ eol) ls)"

lemma unlines_simps [simp]: "unlines [] = []" "unlines (l # ls) = l @ eol @ unlines ls"
  by (simp_all add: unlines_def)

definition api_template :: "string" where
  "api_template = unlines [
      ''// rszero API definition example'',
      ''// Save as desc/user.api and run: rszeroctl api go --api desc/user.api --dir ./api'',
      '''',
      ''type GetUserReq {'',
      ''    Id int64 `path:'' @ dq @ ''id'' @ dq @ ''`'',
      ''}'',
      '''',
      ''type GetUserResp {'',
      ''    Id   int64  `json:'' @ dq @ ''id'' @ dq @ ''`'',
      ''    Name string `json:'' @ dq @ ''name'' @ dq @ ''`'',
      ''    Age  int32  `json:'' @ dq @ ''age'' @ dq @ ''`'',
      ''}'',
      '''',
      ''service user-api {'',
      ''    @handler GetUser'',
      ''    get /users/:id (GetUserReq) returns (GetUserResp)'',
      ''}'']"

definition rpc_template :: "string" where
  "rpc_template = unlines [
      ''syntax = '' @ dq @ ''proto3'' @ dq @ '';'',
      ''package user;'',
      ''option go_package = '' @ dq @ ''./user'' @ dq @ '';'',
      '''',
      ''message GetUserReq {'',
      ''    int64 id = 1;'',
      ''}'',
      '''',
      ''message GetUserResp {'',
      ''    int64 id = 1;'',
      ''    string name = 2;'',
      ''    int32 age = 3;'',
      ''}'',
      '''',
      ''service UserService {'',
      ''    rpc GetUser(GetUserReq) returns (GetUserResp);'',
      ''}'']"

definition model_template :: "string" where
  "model_template = unlines [
      ''use sea_orm::entity::prelude::*;'',
      ''use serde::{Deserialize, Serialize};'',
      '''',
      ''#[derive(Clone, Debug, PartialEq, DeriveEntityModel, Serialize, Deserialize)]'',
      ''#[sea_orm(table_name = '' @ dq @ ''users'' @ dq @ '')]'',
      ''pub struct Model {'',
      ''    #[sea_orm(primary_key)]'',
      ''    pub id: i64,'',
      ''    pub name: String,'',
      ''    pub age: i32,'',
      ''    pub created_at: DateTime,'',
      ''    pub updated_at: DateTime,'',
      ''}'',
      '''',
      ''#[derive(Copy, Clone, Debug, EnumIter, DeriveRelation)]'',
      ''pub enum Relation {}'',
      '''',
      ''impl ActiveModelBehavior for ActiveModel {}'']"

definition kube_manifest :: "string \<Rightarrow> string" where
  "kube_manifest nm = unlines [
      ''apiVersion: apps/v1'',
      ''kind: Deployment'',
      ''metadata:'',
      ''  name: '' @ nm,
      ''  labels:'',
      ''    app: '' @ nm,
      ''spec:'',
      ''  replicas: 3'',
      ''  selector:'',
      ''    matchLabels:'',
      ''      app: '' @ nm,
      ''  template:'',
      ''    metadata:'',
      ''      labels:'',
      ''        app: '' @ nm,
      ''    spec:'',
      ''      containers:'',
      ''        - name: '' @ nm,
      ''          image: '' @ nm @ '':latest'',
      ''          ports:'',
      ''            - containerPort: 8080'',
      ''          resources:'',
      ''            requests:'',
      ''              memory: '' @ dq @ ''64Mi'' @ dq,
      ''              cpu: '' @ dq @ ''100m'' @ dq,
      ''            limits:'',
      ''              memory: '' @ dq @ ''256Mi'' @ dq,
      ''              cpu: '' @ dq @ ''500m'' @ dq,
      ''          livenessProbe:'',
      ''            httpGet:'',
      ''              path: /health'',
      ''              port: 8080'',
      ''            initialDelaySeconds: 5'',
      ''            periodSeconds: 10'',
      ''          readinessProbe:'',
      ''            httpGet:'',
      ''              path: /health'',
      ''              port: 8080'',
      ''            initialDelaySeconds: 3'',
      ''            periodSeconds: 5'',
      ''---'',
      ''apiVersion: v1'',
      ''kind: Service'',
      ''metadata:'',
      ''  name: '' @ nm,
      ''spec:'',
      ''  selector:'',
      ''    app: '' @ nm,
      ''  ports:'',
      ''    - protocol: TCP'',
      ''      port: 80'',
      ''      targetPort: 8080'',
      ''  type: ClusterIP'',
      ''---'',
      ''apiVersion: autoscaling/v2'',
      ''kind: HorizontalPodAutoscaler'',
      ''metadata:'',
      ''  name: '' @ nm,
      ''spec:'',
      ''  scaleTargetRef:'',
      ''    apiVersion: apps/v1'',
      ''    kind: Deployment'',
      ''    name: '' @ nm,
      ''  minReplicas: 3'',
      ''  maxReplicas: 10'',
      ''  metrics:'',
      ''    - type: Resource'',
      ''      resource:'',
      ''        name: cpu'',
      ''        target:'',
      ''          type: Utilization'',
      ''          averageUtilization: 70'']"

definition dockerfile :: "string \<Rightarrow> string" where
  "dockerfile bin = unlines [
      ''# Build stage'',
      ''FROM rust:1.75-alpine AS builder'',
      ''RUN apk add --no-cache musl-dev'',
      ''WORKDIR /app'',
      ''COPY . .'',
      ''RUN cargo build --release --bin '' @ bin,
      '''',
      ''# Runtime stage'',
      ''FROM alpine:3.19'',
      ''RUN apk --no-cache add ca-certificates'',
      ''WORKDIR /root/'',
      ''COPY --from=builder /app/target/release/'' @ bin @ '' .'',
      ''EXPOSE 8080'',
      ''CMD ['' @ dq @ ''./'' @ bin @ dq @ '']'']"

definition model_content :: "string \<Rightarrow> string \<Rightarrow> string" where
  "model_content mname table = unlines [
      ''use sea_orm::{entity::prelude::*, ActiveValue};'',
      ''use serde::{Deserialize, Serialize};'',
      '''',
      ''/// '' @ mname @ '' entity generated from table `'' @ table @ ''`.'',
      ''#[derive(Clone, Debug, PartialEq, DeriveEntityModel, Serialize, Deserialize)]'',
      ''#[sea_orm(table_name = '' @ dq @ table @ dq @ '')]'',
      ''pub struct Model {'',
      ''    #[sea_orm(primary_key)]'',
      ''    pub id: i64,'',
      ''    /// Created at timestamp.'',
      ''    pub created_at: DateTime,'',
      ''    /// Updated at timestamp.'',
      ''    pub updated_at: DateTime,'',
      ''}'',
      '''',
      ''#[derive(Copy, Clone, Debug, EnumIter, DeriveRelation)]'',
      ''pub enum Relation {}'',
      '''',
      ''impl ActiveModelBehavior for ActiveModel {}'',
      '''',
      ''/// Domain type for '' @ mname @ ''.'',
      ''#[derive(Debug, Clone)]'',
      ''pub struct '' @ mname @ '' {'',
      ''    pub id: i64,'',
      ''}'',
      '''',
      ''impl From<Model> for '' @ mname @ '' {'',
      ''    fn from(m: Model) -> Self {'',
      ''        Self { id: m.id }'',
      ''    }'',
      ''}'']"

definition model_mod :: "string \<Rightarrow> string \<Rightarrow> string" where
  "model_mod fname mname = unlines [
      ''pub mod '' @ fname @ '';'',
      ''pub use '' @ fname @ ''::Model as '' @ mname @ ''Model;'']"

definition model_repository :: "string \<Rightarrow> string \<Rightarrow> string" where
  "model_repository fname mname = unlines [
      ''use sea_orm::{DatabaseConnection, EntityTrait, QueryFilter, ColumnTrait, Set};'',
      ''use rszero::prelude::*;'',
      ''use super::'' @ fname @ '';'',
      '''',
      ''/// Repository for '' @ mname @ '' entities.'',
      ''pub struct '' @ mname @ ''Repository;'',
      '''',
      ''impl '' @ mname @ ''Repository {'',
      ''    pub async fn find_by_id(&self, db: &DatabaseConnection, id: i64) -> RszeroResult<Option<super::Model>> {'',
      ''        Entity::find_by_id(id).one(db).await.map_err(|e| RszeroError::Database(e.to_string()))'',
      ''    }'',
      '''',
      ''    pub async fn find_all(&self, db: &DatabaseConnection) -> RszeroResult<Vec<super::Model>> {'',
      ''        Entity::find().all(db).await.map_err(|e| RszeroError::Database(e.to_string()))'',
      ''    }'',
      '''',
      ''    pub async fn create(&self, db: &DatabaseConnection, id: i64) -> RszeroResult<super::Model> {'',
      ''        let active_model = ActiveModel {'',
      ''            id: Set(id),'',
      ''            ..Default::default()'',
      ''        };'',
      ''        active_model.insert(db).await.map_err(|e| RszeroError::Database(e.to_string()))'',
      ''    }'',
      '''',
      ''    pub async fn delete(&self, db: &DatabaseConnection, id: i64) -> RszeroResult<u64> {'',
      ''        let result = Entity::delete_by_id(id).exec(db).await.map_err(|e| RszeroError::Database(e.to_string()))?;'',
      ''        Ok(result.rows_affected)'',
      ''    }'',
      ''}'']"

definition root_cargo_toml :: "string \<Rightarrow> string" where
  "root_cargo_toml nm = unlines [
      ''[workspace]'',
      ''members = ['',
      ''    '' @ dq @ ''api'' @ dq @ '','',
      ''    '' @ dq @ ''rpc/user'' @ dq @ '','',
      ''    '' @ dq @ ''common'' @ dq @ '','',
      '']'',
      ''resolver = '' @ dq @ ''2'' @ dq,
      '''',
      ''[workspace.package]'',
      ''name = '' @ dq @ nm @ dq,
      ''edition = '' @ dq @ ''2021'' @ dq,
      ''version = '' @ dq @ ''0.1.0'' @ dq,
      '''',
      ''[workspace.dependencies]'',
      ''rszero = '' @ dq @ ''0.1'' @ dq,
      ''tokio = { version = '' @ dq @ ''1.0'' @ dq @ '', features = ['' @ dq @ ''full'' @ dq @ ''] }'',
      ''serde = { version = '' @ dq @ ''1.0'' @ dq @ '', features = ['' @ dq @ ''derive'' @ dq @ ''] }'',
      ''serde_json = '' @ dq @ ''1.0'' @ dq]"

definition rpc_cargo_toml :: "string \<Rightarrow> string" where
  "rpc_cargo_toml nm = unlines [
      ''[package]'',
      ''name = '' @ dq @ nm @ ''-user-rpc'' @ dq,
      ''edition.workspace = true'',
      ''version.workspace = true'',
      '''',
      ''[dependencies]'',
      ''rszero.workspace = true'',
      ''tokio.workspace = true'',
      ''serde.workspace = true'',
      ''serde_json.workspace = true'']"

definition env_template :: "string" where
  "env_template = unlines [
      ''RSZERO_LOG_LEVEL=debug'',
      ''RSZERO_CACHE_HOST=127.0.0.1'',
      ''RSZERO_CACHE_PORT=6379'']"

definition api_config_template :: "string" where
  "api_config_template = unlines [
      ''Name: user-api'',
      ''Host: 0.0.0.0'',
      ''Port: 8080'',
      ''Log:'',
      ''  Level: info'',
      ''  Format: json'',
      ''Cache:'',
      ''  Host: 127.0.0.1'',
      ''  Port: 6379'']"

definition rpc_config_template :: "string" where
  "rpc_config_template = unlines [
      ''Name: user-rpc'',
      ''ListenOn: 0.0.0.0:8081'',
      ''Etcd:'',
      ''  Hosts:'',
      ''    - 127.0.0.1:2379'',
      ''  Key: user.rpc'',
      ''Log:'',
      ''  Level: info'',
      ''  Format: json'']"

definition api_main_template :: "string" where
  "api_main_template = unlines [
      ''use rszero::prelude::*;'',
      '''',
      ''#[tokio::main]'',
      ''async fn main() -> anyhow::Result<()> {'',
      ''    let config = load_config('' @ dq @ ''etc/api.yaml'' @ dq @ '')?;'',
      ''    log::init(&config.log);'',
      '''',
      ''    let server = RszeroServer::from_config(&config);'',
      ''    server.start().await?;'',
      '''',
      ''    Ok(())'',
      ''}'']"

definition rpc_main_template :: "string" where
  "rpc_main_template = unlines [
      ''use rszero::prelude::*;'',
      '''',
      ''#[tokio::main]'',
      ''async fn main() -> anyhow::Result<()> {'',
      ''    let config = load_config('' @ dq @ ''../../etc/user-rpc.yaml'' @ dq @ '')?;'',
      ''    log::init(&config.log);'',
      '''',
      ''    let rpc_server = RpcServer::from_config(&config);'',
      ''    rpc_server.start().await?;'',
      '''',
      ''    Ok(())'',
      ''}'']"

definition rpc_logic :: "string" where
  "rpc_logic = unlines [
      ''use rszero::prelude::*;'',
      '''',
      ''/// Business logic for the generated RPC service.'',
      ''pub struct ServiceLogic;'',
      '''',
      ''impl ServiceLogic {'',
      ''    pub async fn get_user(&self, id: i64) -> RszeroResult<User> {'',
      ''        Ok(User {'',
      ''            id,'',
      ''            name: '' @ dq @ ''demo'' @ dq @ ''.into(),'',
      ''            age: 25,'',
      ''        })'',
      ''    }'',
      ''}'',
      '''',
      ''#[derive(Debug, Clone)]'',
      ''pub struct User {'',
      ''    pub id: i64,'',
      ''    pub name: String,'',
      ''    pub age: i32,'',
      ''}'']"

definition rpc_svc :: "string" where
  "rpc_svc = unlines [
      ''use rszero::prelude::*;'',
      '''',
      ''/// Generated service wrapper '' @ [CHR 0xE2, CHR 0x80, CHR 0x94] @ '' integrate with volo-build output.'',
      ''pub struct Svc;'',
      '''',
      ''impl Svc {'',
      ''    pub fn new() -> Self {'',
      ''        Self'',
      ''    }'',
      ''}'']"

definition rpc_main :: "string" where
  "rpc_main = unlines [
      ''use rszero::prelude::*;'',
      '''',
      ''mod logic;'',
      ''mod svc;'',
      '''',
      ''#[tokio::main]'',
      ''async fn main() -> anyhow::Result<()> {'',
      ''    let config = load_config('' @ dq @ ''../../etc/rpc.yaml'' @ dq @ '')?;'',
      ''    log::init(&config.log);'',
      '''',
      ''    let server = RpcServer::from_config(&config)'',
      ''        .service_name('' @ dq @ ''user-rpc'' @ dq @ '');'',
      '''',
      ''    server.start().await?;'',
      ''    Ok(())'',
      ''}'']"

definition rpc_build :: "string" where
  "rpc_build = unlines [
      ''fn main() {'',
      ''    // Uncomment after adding volo-build to dependencies:'',
      ''    // volo_build::Builder::protobuf()'',
      ''    //     .add_service('' @ dq @ ''idl/user.proto'' @ dq @ '')'',
      ''    //     .filename('' @ dq @ ''user.rs'' @ dq @ '')'',
      ''    //     .write()'',
      ''    //     .unwrap();'',
      ''}'']"

definition api_middleware :: "string" where
  "api_middleware = unlines [
      ''use axum::extract::Request;'',
      ''use axum::middleware::Next;'',
      ''use axum::response::Response;'',
      '''',
      ''/// Auto-generated request logging middleware.'',
      ''pub async fn log_middleware(req: Request, next: Next) -> Response {'',
      ''    let method = req.method().clone();'',
      ''    let uri = req.uri().clone();'',
      ''    let res = next.run(req).await;'',
      ''    tracing::info!(%method, %uri, status = res.status().as_u16(), '' @ dq @ ''request handled'' @ dq @ '');'',
      ''    res'',
      ''}'']"

definition api_main :: "string \<Rightarrow> string" where
  "api_main routes_import = unlines [
      ''use rszero::prelude::*;'',
      ''use axum::routing::{get, post, put, delete};'',
      '''',
      ''mod handler;'',
      ''mod types;'',
      ''mod middleware;'',
      routes_import,
      '''',
      ''#[tokio::main]'',
      ''async fn main() -> anyhow::Result<()> {'',
      ''    let config = load_config('' @ dq @ ''etc/api.yaml'' @ dq @ '')?;'',
      ''    log::init(&config.log);'',
      '''',
      ''    let mut server = RszeroServer::from_config(&config);'',
      ''    // Register auto-generated routes'',
      ''    server = routes::register_routes(server);'',
      '''',
      ''    server.start().await?;'',
      ''    Ok(())'',
      ''}'']"

end
