(* ===== verification/Ctl_Commands.thy ===== *)
theory Ctl_Commands
  imports Ctl_Templates Upload Json
begin

text \<open>
  The generators of the command-line tool (\<open>rszeroctl/src/main.rs\<close> and \<open>rszeroctl/src/cmd/\<close>).  A command is a row
  of directory creations and file writes on the disk of \<open>Upload\<close>, stopped by the first failure; the lines it prints
  are left out.  Table names are ASCII.  The text that \<open>serde_json\<close> gives a value and the load generator, which has
  its own theory, are arguments.
\<close>

section \<open>Rows of file operations\<close>

datatype fs_step =
    Create_dir_all fpath
  | Write string string

fun fs_do :: "fs_step \<Rightarrow> disk \<Rightarrow> (string, unit) result \<times> disk" where
  "fs_do (Create_dir_all p) D = create_dir_all p D"
| "fs_do (Write s data) D = write_file s data D"

fun fs_run :: "fs_step list \<Rightarrow> disk \<Rightarrow> (string, unit) result \<times> disk" where
  "fs_run [] D = (Ok (), D)"
| "fs_run (st # sts) D = (case fs_do st D of (Inl e, D') \<Rightarrow> (Err e, D') | (Inr _, D') \<Rightarrow> fs_run sts D')"

text \<open>\<open>Path::exists\<close>.\<close>

definition path_exists :: "string \<Rightarrow> disk \<Rightarrow> bool" where
  "path_exists s D \<longleftrightarrow>
     s \<noteq> [] \<and> (is_dir D (path_of s) \<or>
       (d_files D (path_of s) \<noteq> None \<and> last (split_on (CHR ''/'') s) \<notin> {'''', ''.''}))"

section \<open>A new project\<close>

definition project_write :: "string \<Rightarrow> string \<Rightarrow> fs_step list" where
  "project_write s content =
     (case path_parent (path_of s) of None \<Rightarrow> [] | Some up \<Rightarrow> [Create_dir_all up]) @ [Write s content]"

definition project_files :: "string \<Rightarrow> (string \<times> string) list" where
  "project_files nm =
     [(''Cargo.toml'', root_cargo_toml nm),
      (''.env'', env_template),
      (''etc/api.yaml'', api_config_template),
      (''etc/user-rpc.yaml'', rpc_config_template),
      (''api/desc/.gitkeep'', ''''),
      (''api/main.rs'', api_main_template),
      (''rpc/user/desc/.gitkeep'', ''''),
      (''rpc/user/logic/.gitkeep'', ''''),
      (''rpc/user/svc/.gitkeep'', ''''),
      (''rpc/user/model/.gitkeep'', ''''),
      (''rpc/user/main.rs'', rpc_main_template),
      (''rpc/user/Cargo.toml'', rpc_cargo_toml nm),
      (''idl/.gitkeep'', ''''),
      (''common/.gitkeep'', ''''),
      (''deploy/.gitkeep'', '''')]"

definition new_execute :: "string \<Rightarrow> disk \<Rightarrow> (string, unit) result \<times> disk" where
  "new_execute nm D = fs_run (concat (map (\<lambda>(rel, content). project_write (path_join nm rel) content) (project_files nm))) D"

section \<open>The API gateway\<close>

definition parse_file :: "string \<Rightarrow> disk \<Rightarrow> api_file rszero_result" where
  "parse_file s D =
     (case read_to_string (path_of s) D of
        Inl e \<Rightarrow> Err (Internal (''read api file failed: '' @ e) None)
      | Inr source \<Rightarrow> parse_api source)"

definition api_steps :: "string \<Rightarrow> generated_code \<Rightarrow> fs_step list" where
  "api_steps dir g =
     [Create_dir_all (path_of (path_join dir ''handler'')),
      Create_dir_all (path_of (path_join dir ''types'')),
      Create_dir_all (path_of (path_join dir ''middleware'')),
      Write (path_join dir ''types/mod.rs'') (gen_types g),
      Write (path_join dir ''handler/mod.rs'') (gen_handlers g),
      Write (path_join dir ''routes.rs'') (gen_routes g),
      Write (path_join dir ''middleware/mod.rs'') api_middleware,
      Write (path_join dir ''main.rs'') (api_main (if gen_routes g \<noteq> [] then ''mod routes;'' @ eol else ''''))]"

definition api_execute :: "string \<Rightarrow> string \<Rightarrow> disk \<Rightarrow> (string, unit) result \<times> disk" where
  "api_execute api_file output_dir D =
     (case parse_file api_file D of
        Inl e \<Rightarrow> (Err (''failed to parse api file: '' @ display e), D)
      | Inr api \<Rightarrow>
          (case generate api of
             Inl e \<Rightarrow> (Err (''code generation failed: '' @ display e), D)
           | Inr g \<Rightarrow> fs_run (api_steps output_dir g) D))"

section \<open>An RPC service\<close>

definition rpc_execute :: "string \<Rightarrow> string \<Rightarrow> disk \<Rightarrow> (string, unit) result \<times> disk" where
  "rpc_execute idl_file dir D =
     (case fs_run [Create_dir_all (path_of (path_join dir ''logic'')), Create_dir_all (path_of (path_join dir ''svc'')),
                   Create_dir_all (path_of (path_join dir ''model''))] D of
        (Inl e, D1) \<Rightarrow> (Err e, D1)
      | (Inr _, D1) \<Rightarrow>
          fs_run ((if path_exists idl_file D1 then [] else [Write idl_file rpc_template]) @
                  [Write (path_join dir ''logic/mod.rs'') rpc_logic,
                   Write (path_join dir ''svc/mod.rs'') rpc_svc,
                   Write (path_join dir ''main.rs'') rpc_main,
                   Write (path_join dir ''build.rs'') rpc_build]) D1)"

section \<open>A database model\<close>

definition to_pascal_case :: "string \<Rightarrow> string" where
  "to_pascal_case s =
     concat (map (\<lambda>w. case w of [] \<Rightarrow> [] | f # c \<Rightarrow> to_ascii_upper f # c) (split_on (CHR ''_'') s))"

definition to_snake_case :: "string \<Rightarrow> string" where
  "to_snake_case s = map to_ascii_lower s"

definition model_execute :: "string \<Rightarrow> string \<Rightarrow> string \<Rightarrow> disk \<Rightarrow> (string, unit) result \<times> disk" where
  "model_execute url_arg table dir D =
     (let model_name = to_pascal_case table; file_name = to_snake_case table
      in fs_run [Create_dir_all (path_of dir),
                 Write (path_join dir (file_name @ ''.rs'')) (model_content model_name table),
                 Write (path_join dir ''mod.rs'') (model_mod file_name model_name),
                 Write (path_join dir (file_name @ ''_repository.rs'')) (model_repository file_name model_name)] D)"

section \<open>Deployment files, documentation and templates\<close>

text \<open>\<open>Path::file_stem\<close>: the last component up to its last dot, whole when that dot starts it.\<close>

definition file_stem :: "string \<Rightarrow> string option" where
  "file_stem s =
     (let cs = snd (path_of s)
      in if cs = [] \<or> last cs \<in> {''.'', ''..''} then None
         else let r = dropWhile (\<lambda>c. c \<noteq> CHR ''.'') (rev (last cs))
              in if r = [] \<or> tl r = [] then Some (last cs) else Some (rev (tl r)))"

definition docker_execute :: "string \<Rightarrow> string \<Rightarrow> disk \<Rightarrow> (string, unit) result \<times> disk" where
  "docker_execute main_file output D =
     (let binary_name = (case file_stem main_file of Some b \<Rightarrow> b | None \<Rightarrow> '''')
      in write_file output (dockerfile binary_name) D)"

definition kube_execute :: "string \<Rightarrow> string \<Rightarrow> disk \<Rightarrow> (string, unit) result \<times> disk" where
  "kube_execute nm dir D = fs_run [Create_dir_all (path_of dir), Write (path_join dir (nm @ ''.yaml'')) (kube_manifest nm)] D"

definition swagger_doc :: json where
  "swagger_doc = JObject
     [(''openapi'', JString ''3.0.0''),
      (''info'', JObject [(''title'', JString ''rszero API''), (''version'', JString ''0.1.0''),
                          (''description'', JString ''Auto-generated from rszero API definition'')]),
      (''paths'', JObject [])]"

definition swagger_execute :: "(json \<Rightarrow> string) \<Rightarrow> string \<Rightarrow> string \<Rightarrow> disk \<Rightarrow> (string, unit) result \<times> disk" where
  "swagger_execute pretty api_file dir D =
     fs_run [Create_dir_all (path_of dir), Write (path_join dir ''swagger.json'') (pretty swagger_doc)] D"

definition template_of :: "string \<Rightarrow> (string \<times> string) option" where
  "template_of knd =
     (if knd = ''api'' then Some (api_template, ''api'')
      else if knd = ''rpc'' then Some (rpc_template, ''proto'')
      else if knd = ''model'' then Some (model_template, ''rs'')
      else None)"

definition template_execute :: "string \<Rightarrow> string \<Rightarrow> disk \<Rightarrow> (string, unit) result \<times> disk" where
  "template_execute knd dir D =
     fs_run (Create_dir_all (path_of dir) #
       (case template_of knd of
          None \<Rightarrow> []
        | Some (template, ext) \<Rightarrow> [Write (path_join dir (''example.'' @ ext)) template])) D"

section \<open>The command line\<close>

datatype command =
    New string
  | Api_Go string string
  | Rpc_Protoc string string
  | Model_Datasource string string string
  | Docker string string
  | Swagger string string
  | Kube string string
  | Template string string
  | Loadtest string nat nat nat string
  | Upgrade
  | Env

fun ctl_main ::
  "(string \<Rightarrow> nat \<Rightarrow> nat \<Rightarrow> nat \<Rightarrow> string \<Rightarrow> (string, unit) result) \<Rightarrow> (json \<Rightarrow> string) \<Rightarrow> command \<Rightarrow> disk
   \<Rightarrow> (string, unit) result \<times> disk" where
  "ctl_main load pretty (New nm) D = new_execute nm D"
| "ctl_main load pretty (Api_Go api dir) D = api_execute api dir D"
| "ctl_main load pretty (Rpc_Protoc idl out) D = rpc_execute idl out D"
| "ctl_main load pretty (Model_Datasource u table dir) D = model_execute u table dir D"
| "ctl_main load pretty (Docker go out) D = docker_execute go out D"
| "ctl_main load pretty (Swagger api dir) D = swagger_execute pretty api dir D"
| "ctl_main load pretty (Kube nm dir) D = kube_execute nm dir D"
| "ctl_main load pretty (Template knd dir) D = template_execute knd dir D"
| "ctl_main load pretty (Loadtest u ws tot dur verb) D = (load u ws tot dur verb, D)"
| "ctl_main load pretty Upgrade D = (Ok (), D)"
| "ctl_main load pretty Env D = (Ok (), D)"

section \<open>What a row of operations leaves\<close>

fun step_target :: "fs_step \<Rightarrow> fpath option" where
  "step_target (Create_dir_all p) = None"
| "step_target (Write s data) = Some (path_of s)"

lemma fs_do_frame: "fs_do st D = (r, D') \<Longrightarrow> step_target st \<noteq> Some q \<Longrightarrow> d_files D' q = d_files D q"
proof (cases st)
  case (Write s data)
  assume "fs_do st D = (r, D')" "step_target st \<noteq> Some q"
  then have w: "write_file s data D = (r, D')" "path_of s \<noteq> q" using Write by auto
  then show ?thesis using write_file_Ok [of s data D _ D'] spec [OF write_file_Err [of s data D _ D'], of _ q] by (cases r) auto
qed (auto dest: create_dir_all_files)

lemma fs_run_frame: "fs_run sts D = (r, D') \<Longrightarrow> Some q \<notin> step_target ` set sts \<Longrightarrow> d_files D' q = d_files D q"
proof (induction sts arbitrary: D)
  case (Cons st sts)
  obtain x D1 where d: "fs_do st D = (x, D1)" by (cases "fs_do st D") auto
  have "d_files D1 q = d_files D q" using Cons.prems(2) by (intro fs_do_frame [OF d]) auto
  then show ?case using Cons d by (cases x) auto
qed simp

lemma fs_run_append:
  "fs_run (as @ bs) D = (case fs_run as D of (Inl e, D') \<Rightarrow> (Inl e, D') | (Inr _, D') \<Rightarrow> fs_run bs D')"
  by (induction as arbitrary: D) (auto split: prod.splits sum.splits)

lemma fs_run_written:
  assumes "fs_run sts D = (Inr u, D')" "sts = as @ Write s data # bs" "Some (path_of s) \<notin> step_target ` set bs"
  shows "d_files D' (path_of s) = Some data"
proof -
  obtain v D1 where "fs_run (Write s data # bs) D1 = (Inr u, D')"
    using assms(1,2) by (auto simp: fs_run_append split: prod.splits sum.splits)
  then obtain w D2 where w: "write_file s data D1 = (Inr w, D2)" and r: "fs_run bs D2 = (Inr u, D')"
    by (auto split: prod.splits sum.splits)
  show ?thesis using write_file_Ok [OF w] fs_run_frame [OF r assms(3)] by auto
qed

section \<open>When a project can be written\<close>

definition ancestors :: "fpath \<Rightarrow> fpath list" where
  "ancestors p = map (\<lambda>i. (fst p, take i (snd p))) [1..<length (snd p)]"

text \<open>
  A disk on which the targets \<open>T\<close> can be written: the system refuses nothing, no target is a directory, and nothing on
  the way to a target is a file.
\<close>

definition clear_for :: "fpath list \<Rightarrow> disk \<Rightarrow> bool" where
  "clear_for T D \<longleftrightarrow>
     (\<forall>p. d_mkdir_fault D p = None) \<and> (\<forall>p. d_write_fault D p = None) \<and>
     list_all (\<lambda>t. \<not> is_dir D t \<and> list_all (\<lambda>q. d_files D q = None \<and> q \<notin> set T) (ancestors t)) T"

lemma mkdirs_ok:
  assumes "\<forall>p. d_mkdir_fault D p = None" "\<forall>q\<in>set ps. d_files D q = None"
  shows "\<exists>ds. mkdirs ps D = (Inr (), D\<lparr>d_dirs := ds\<rparr>) \<and> set (d_dirs D) \<subseteq> set ds \<and> set ds \<subseteq> set (d_dirs D) \<union> set ps
           \<and> (\<forall>q\<in>set ps. snd q = [] \<or> q \<in> set ds)"
  using assms
proof (induction ps arbitrary: D)
  case Nil
  show ?case by (intro exI [of _ "d_dirs D"]) simp
next
  case (Cons p ps)
  show ?case
  proof (cases "is_dir D p")
    case True
    then show ?thesis using Cons.IH [of D] Cons.prems by (auto simp: is_dir_def)
  next
    case False
    let ?D = "D\<lparr>d_dirs := p # d_dirs D\<rparr>"
    obtain ds where ds: "mkdirs ps ?D = (Inr (), ?D\<lparr>d_dirs := ds\<rparr>)" "set (d_dirs ?D) \<subseteq> set ds"
        "set ds \<subseteq> set (d_dirs ?D) \<union> set ps" "\<forall>q\<in>set ps. snd q = [] \<or> q \<in> set ds"
      using Cons.IH [of ?D] Cons.prems by auto
    moreover have "d_mkdir_fault D p = None" using Cons.prems(1) by blast
    ultimately show ?thesis using False Cons.prems(2) by (intro exI [of _ ds]) auto
  qed
qed

lemma ancestors_parent:
  "snd t \<noteq> [] \<Longrightarrow> create_dir_all (fst t, butlast (snd t)) D = mkdirs (ancestors t) D"
proof -
  assume "snd t \<noteq> []"
  then have "map (\<lambda>i. (fst t, take i (butlast (snd t)))) [1..<Suc (length (butlast (snd t)))] = ancestors t"
    unfolding ancestors_def by (intro map_cong) (auto simp: take_butlast)
  then show ?thesis by (simp add: create_dir_all_def)
qed

lemma parent_in_ancestors: "snd t \<noteq> [] \<Longrightarrow> butlast (snd t) = [] \<or> (fst t, butlast (snd t)) \<in> set (ancestors t)"
  unfolding ancestors_def by (cases "length (snd t) = 1") (auto simp: butlast_conv_take image_iff intro: bexI [of _ "length (snd t) - 1"])

lemma project_write_ok:
  assumes c: "clear_for T D" and t: "path_of s \<in> set T" and l: "last (split_on (CHR ''/'') s) \<notin> {'''', ''.'', ''..''}"
  shows "\<exists>D'. fs_run (project_write s data) D = (Inr (), D') \<and> d_files D' = (d_files D)(path_of s \<mapsto> data) \<and> clear_for T D'"
proof -
  let ?t = "path_of s" and ?up = "(fst (path_of s), butlast (snd (path_of s)))"
  have nd: "\<not> is_dir D ?t" and anc: "\<forall>q\<in>set (ancestors ?t). d_files D q = None \<and> q \<notin> set T"
    using c t unfolding clear_for_def list_all_iff by blast+
  have ne: "snd ?t \<noteq> []" using nd unfolding is_dir_def by blast
  obtain ds where mk: "mkdirs (ancestors ?t) D = (Inr (), D\<lparr>d_dirs := ds\<rparr>)" and ds: "set ds \<subseteq> set (d_dirs D) \<union> set (ancestors ?t)"
      "\<forall>q\<in>set (ancestors ?t). snd q = [] \<or> q \<in> set ds"
    using mkdirs_ok [of D "ancestors ?t"] c anc unfolding clear_for_def by blast
  let ?D = "D\<lparr>d_dirs := ds\<rparr>"
  have up: "is_dir ?D ?up" using parent_in_ancestors [OF ne] ds(2) by (auto simp: is_dir_def)
  have nt: "\<not> is_dir ?D x" if "x \<in> set T" for x
    using c that ds(1) anc unfolding clear_for_def list_all_iff is_dir_def by fastforce
  have wf: "d_write_fault D ?t = None" using c unfolding clear_for_def by blast
  have wr: "write_file s data ?D = (Inr (), ?D\<lparr>d_files := (d_files D)(?t \<mapsto> data)\<rparr>)"
    using l nt [OF t] up wf by (simp add: write_file_def Let_def)
  let ?E = "?D\<lparr>d_files := (d_files D)(?t \<mapsto> data)\<rparr>"
  have "d_files ?E q = None" if "x \<in> set T" "q \<in> set (ancestors x)" for x q
  proof -
    have q: "d_files D q = None \<and> q \<notin> set T" using c that unfolding clear_for_def list_all_iff by blast
    then have "q \<noteq> ?t" using t by blast
    then show ?thesis using q by simp
  qed
  then have "clear_for T ?E"
    using c nt unfolding clear_for_def list_all_iff is_dir_def by simp
  moreover have "fs_run (project_write s data) D = (Inr (), ?E)"
    using ne mk wr by (simp add: project_write_def path_parent_def ancestors_parent)
  ultimately show ?thesis by (intro exI [of _ ?E]) simp
qed

lemma project_write_all_ok:
  assumes "clear_for T D" "\<forall>(s, data)\<in>set fs. path_of s \<in> set T \<and> last (split_on (CHR ''/'') s) \<notin> {'''', ''.'', ''..''}"
  shows "\<exists>D'. fs_run (concat (map (\<lambda>(s, data). project_write s data) fs)) D = (Inr (), D') \<and>
           d_files D' = foldl (\<lambda>m (s, data). m(path_of s \<mapsto> data)) (d_files D) fs"
  using assms
proof (induction fs arbitrary: D)
  case (Cons f fs)
  obtain s data where f: "f = (s, data)" by (cases f)
  obtain D1 where "fs_run (project_write s data) D = (Inr (), D1)" "d_files D1 = (d_files D)(path_of s \<mapsto> data)" "clear_for T D1"
    using project_write_ok [of T D s data] Cons.prems f by auto
  then show ?case using Cons.IH [of D1] Cons.prems f by (auto simp: fs_run_append)
qed simp

lemma path_of_join_rel:
  assumes n: "n \<noteq> []" "hd n \<noteq> CHR ''/''" "hd (split_on (CHR ''/'') n) \<noteq> ''.''"
  shows "path_of (path_join d n) = (fst (path_of d), snd (path_of d) @ snd (path_of n))"
proof -
  consider "d = []" | e where "d = e @ [CHR ''/'']" | "d \<noteq> []" "last d \<noteq> CHR ''/''"
    by (metis append_butlast_last_id)
  then show ?thesis
  proof cases
    case 1
    then show ?thesis using n by (simp add: path_of_def path_join_def nontrivial_def)
  next
    case 2
    then show ?thesis
      using n split_on_snoc_sep [of "CHR ''/''" e n] split_on_snoc_sep [of "CHR ''/''" e "[]"]
      by (auto simp: path_of_def path_join_def nontrivial_def Let_def hd_append)
  next
    case 3
    then show ?thesis
      using n split_on_snoc_sep [of "CHR ''/''" d n]
      by (auto simp: path_of_def path_join_def nontrivial_def Let_def hd_append)
  qed
qed

lemma last_split_join_rel:
  assumes "n \<noteq> []" "hd n \<noteq> CHR ''/''"
  shows "last (split_on (CHR ''/'') (path_join d n)) = last (split_on (CHR ''/'') n)"
proof (cases d rule: rev_cases)
  case Nil
  then show ?thesis using assms by (simp add: path_join_def)
next
  case (snoc e c)
  then show ?thesis
    using assms split_on_snoc_sep [of "CHR ''/''" e n] split_on_snoc_sep [of "CHR ''/''" "e @ [c]" n]
    by (auto simp: path_join_def)
qed

text \<open>The relative paths that the commands use.\<close>

definition plain_rel :: "string \<Rightarrow> bool" where
  "plain_rel n \<longleftrightarrow> n \<noteq> [] \<and> hd n \<noteq> CHR ''/'' \<and> hd (split_on (CHR ''/'') n) \<noteq> ''.'' \<and>
     last (split_on (CHR ''/'') n) \<notin> {'''', ''.'', ''..''}"

lemma project_files_rel: "map fst (project_files nm) = map fst (project_files [])"
  by (simp add: project_files_def)

lemma project_rel_plain: "list_all plain_rel (map fst (project_files []))"
  by (simp add: project_files_def plain_rel_def)

lemma project_paths_eq:
  "map (snd \<circ> path_of \<circ> fst) (project_files []) =
    [[''Cargo.toml''], [''.env''], [''etc'', ''api.yaml''], [''etc'', ''user-rpc.yaml''],
     [''api'', ''desc'', ''.gitkeep''], [''api'', ''main.rs''], [''rpc'', ''user'', ''desc'', ''.gitkeep''],
     [''rpc'', ''user'', ''logic'', ''.gitkeep''], [''rpc'', ''user'', ''svc'', ''.gitkeep''],
     [''rpc'', ''user'', ''model'', ''.gitkeep''], [''rpc'', ''user'', ''main.rs''], [''rpc'', ''user'', ''Cargo.toml''],
     [''idl'', ''.gitkeep''], [''common'', ''.gitkeep''], [''deploy'', ''.gitkeep'']]"
  by (simp add: project_files_def path_of_def nontrivial_def)

definition project_targets :: "string \<Rightarrow> fpath list" where
  "project_targets nm = map (\<lambda>(rel, content). path_of (path_join nm rel)) (project_files nm)"

lemma project_target:
  "(rel, content) \<in> set (project_files nm) \<Longrightarrow>
     plain_rel rel \<and> path_of (path_join nm rel) = (fst (path_of nm), snd (path_of nm) @ snd (path_of rel))"
proof -
  assume "(rel, content) \<in> set (project_files nm)"
  then have "rel \<in> set (map fst (project_files nm))" by (metis fst_conv image_eqI list.set_map)
  then have "rel \<in> set (map fst (project_files []))" by (simp only: project_files_rel [of nm])
  then have "plain_rel rel" using project_rel_plain by (simp only: list_all_iff)
  then show ?thesis by (simp add: plain_rel_def path_of_join_rel)
qed

lemma project_targets_alt:
  "project_targets nm = map (\<lambda>cs. (fst (path_of nm), snd (path_of nm) @ cs)) (map (snd \<circ> path_of \<circ> fst) (project_files []))"
proof -
  have "project_targets nm = map (\<lambda>rel. (fst (path_of nm), snd (path_of nm) @ snd (path_of rel))) (map fst (project_files nm))"
    unfolding project_targets_def map_map
  proof (intro map_cong refl)
    fix x assume "x \<in> set (project_files nm)"
    then show "(case x of (rel, content) \<Rightarrow> path_of (path_join nm rel)) =
        ((\<lambda>rel. (fst (path_of nm), snd (path_of nm) @ snd (path_of rel))) \<circ> fst) x"
      using project_target [of "fst x" "snd x" nm] by (simp only: prod.collapse case_prod_unfold comp_apply)
  qed
  then show ?thesis by (simp only: project_files_rel [of nm] map_map comp_def)
qed

lemma project_targets_distinct: "distinct (project_targets nm)"
proof -
  have "distinct (map (snd \<circ> path_of \<circ> fst) (project_files []))" unfolding project_paths_eq by simp
  then show ?thesis unfolding project_targets_alt
    by (subst distinct_map) (simp only: inj_on_def prod.inject same_append_eq simp_thms, blast)
qed

lemma foldl_written:
  "distinct (map (path_of \<circ> fst) fs) \<Longrightarrow>
     foldl (\<lambda>m (s, data). m(path_of s \<mapsto> data)) m fs q =
       (case find (\<lambda>(s, data). path_of s = q) fs of None \<Rightarrow> m q | Some (s, data) \<Rightarrow> Some data)"
proof (induction fs arbitrary: m)
  case (Cons f fs)
  obtain s data where f: "f = (s, data)" by (cases f)
  show ?case
  proof (cases "path_of s = q")
    case True
    then have "find (\<lambda>(s, data). path_of s = q) fs = None" using Cons.prems f by (force simp: find_None_iff)
    then show ?thesis using Cons f True by simp
  next
    case False
    then show ?thesis using Cons f by (auto split: option.splits)
  qed
qed simp

text \<open>
  On a disk where its paths are free, the command that creates a project succeeds; afterwards each of the fifteen
  files has its content, and every other path is as before.
\<close>

theorem new_project_created:
  assumes "clear_for (project_targets nm) D"
  shows "\<exists>D'. new_execute nm D = (Ok (), D') \<and>
    list_all (\<lambda>(rel, content). d_files D' (path_of (path_join nm rel)) = Some content) (project_files nm) \<and>
    (\<forall>p. p \<notin> set (project_targets nm) \<longrightarrow> d_files D' p = d_files D p)"
proof -
  define fs where "fs = map (\<lambda>(rel, content). (path_join nm rel, content)) (project_files nm)"
  have tg: "map (path_of \<circ> fst) fs = project_targets nm" by (auto simp: fs_def project_targets_def)
  have ok: "path_of s \<in> set (project_targets nm) \<and> last (split_on (CHR ''/'') s) \<notin> {'''', ''.'', ''..''}" if sd: "(s, data) \<in> set fs" for s data
  proof -
    obtain rel where rel: "s = path_join nm rel" "(rel, data) \<in> set (project_files nm)" using sd unfolding fs_def by force
    have "plain_rel rel" using project_target rel(2) by blast
    then have "last (split_on (CHR ''/'') s) \<notin> {'''', ''.'', ''..''}"
      unfolding rel(1) plain_rel_def using last_split_join_rel by metis
    then show ?thesis using sd unfolding tg [symmetric] by force
  qed
  obtain D' where D': "fs_run (concat (map (\<lambda>(s, data). project_write s data) fs)) D = (Inr (), D')"
      "d_files D' = foldl (\<lambda>m (s, data). m(path_of s \<mapsto> data)) (d_files D) fs"
    using project_write_all_ok [OF assms, of fs] ok by blast
  have run: "new_execute nm D = (Ok (), D')"
    using D'(1) by (simp add: new_execute_def fs_def comp_def case_prod_unfold)
  have val: "d_files D' q = (case find (\<lambda>(s, data). path_of s = q) fs of None \<Rightarrow> d_files D q | Some (s, data) \<Rightarrow> Some data)" for q
    unfolding D'(2) by (rule foldl_written) (simp only: tg project_targets_distinct)
  have "d_files D' (path_of s) = Some data" if "(s, data) \<in> set fs" for s data
  proof -
    have inj: "inj_on (path_of \<circ> fst) (set fs)" using project_targets_distinct [of nm] unfolding tg [symmetric] distinct_map by blast
    have "find (\<lambda>(s', data'). path_of s' = path_of s) fs = Some (s, data)"
    proof (cases "find (\<lambda>(s', data'). path_of s' = path_of s) fs")
      case None
      then show ?thesis using that by (auto simp: find_None_iff)
    next
      case (Some x)
      then have "x \<in> set fs" "path_of (fst x) = path_of s" by (auto simp: find_Some_iff in_set_conv_nth)
      then show ?thesis using inj that Some by (auto simp: inj_on_def)
    qed
    then show ?thesis unfolding val by simp
  qed
  then have "list_all (\<lambda>(rel, content). d_files D' (path_of (path_join nm rel)) = Some content) (project_files nm)"
    unfolding list_all_iff fs_def by force
  moreover have "d_files D' p = d_files D p" if "p \<notin> set (project_targets nm)" for p
  proof -
    have "find (\<lambda>(s, data). path_of s = p) fs = None" using that unfolding tg [symmetric] by (force simp: find_None_iff)
    then show ?thesis unfolding val by simp
  qed
  ultimately show ?thesis using run by blast
qed

text \<open>
  The workspace manifest names \<open>api\<close> and \<open>common\<close> as members, but the command writes no manifest for either.
\<close>

theorem new_project_members:
  assumes "clear_for (project_targets nm) D" and "mem \<in> {''api'', ''common''}"
    and "d_files D (path_of (path_join nm (mem @ ''/Cargo.toml''))) = None"
  shows "\<exists>D'. new_execute nm D = (Ok (), D') \<and> contains_str (dq @ mem @ dq) (root_cargo_toml nm) \<and>
    d_files D' (path_of (path_join nm ''Cargo.toml'')) = Some (root_cargo_toml nm) \<and>
    d_files D' (path_of (path_join nm (mem @ ''/Cargo.toml''))) = None"
proof -
  have rel: "path_of (path_join nm (mem @ ''/Cargo.toml'')) = (fst (path_of nm), snd (path_of nm) @ [mem, ''Cargo.toml''])"
    using assms(2) by (subst path_of_join_rel) (auto simp: path_of_def nontrivial_def)
  have "[mem, ''Cargo.toml''] \<notin> set (map (snd \<circ> path_of \<circ> fst) (project_files []))"
    unfolding project_paths_eq using assms(2) by auto
  then have out: "path_of (path_join nm (mem @ ''/Cargo.toml'')) \<notin> set (project_targets nm)"
    unfolding rel project_targets_alt set_map [of _ "map _ _"] image_iff by (simp only: prod.inject same_append_eq simp_thms) blast
  have "contains_str (dq @ mem @ dq) (root_cargo_toml nm)"
    using assms(2) unfolding root_cargo_toml_def by (elim insertE emptyE) (simp_all add: dq_def eol_def)
  moreover obtain D' where D': "new_execute nm D = (Ok (), D')"
      "list_all (\<lambda>(rel, content). d_files D' (path_of (path_join nm rel)) = Some content) (project_files nm)"
      "\<forall>p. p \<notin> set (project_targets nm) \<longrightarrow> d_files D' p = d_files D p"
    using new_project_created [OF assms(1)] by blast
  moreover have "d_files D' (path_of (path_join nm ''Cargo.toml'')) = Some (root_cargo_toml nm)"
    using D'(2) unfolding project_files_def by simp
  moreover have "d_files D' (path_of (path_join nm (mem @ ''/Cargo.toml''))) = None"
    using D'(3) [rule_format, OF out] assms(3) by simp
  ultimately show ?thesis by blast
qed

section \<open>From the template to the gateway\<close>

definition template_api :: api_file where
  "template_api = \<lparr>api_syntax = ''v1'', api_info = [],
     types =
       [\<lparr>type_name = ''GetUserReq'',
         ty_fields = [\<lparr>field_name = ''Id'', field_ty = ''int64'', field_tag = Some (''path:'' @ dq @ ''id'' @ dq)\<rparr>]\<rparr>,
        \<lparr>type_name = ''GetUserResp'',
         ty_fields = [\<lparr>field_name = ''Id'', field_ty = ''int64'', field_tag = Some (''json:'' @ dq @ ''id'' @ dq)\<rparr>,
                      \<lparr>field_name = ''Name'', field_ty = ''string'', field_tag = Some (''json:'' @ dq @ ''name'' @ dq)\<rparr>,
                      \<lparr>field_name = ''Age'', field_ty = ''int32'', field_tag = Some (''json:'' @ dq @ ''age'' @ dq)\<rparr>]\<rparr>],
     services =
       [\<lparr>service_name = ''user-api'',
         routes = [\<lparr>handler = ''GetUser'', meth = Get, path = ''/users/:id'', request_type = Some ''GetUserReq'',
                    response_type = Some ''GetUserResp''\<rparr>]\<rparr>]\<rparr>"

lemma parse_api_template: "parse_api api_template = Ok template_api"
  by code_simp

lemma api_template_utf8: "utf8_bytes (map of_char api_template)"
  by code_simp

lemma generate_routes_not_empty: "generate api = Ok g \<Longrightarrow> gen_routes g \<noteq> []"
  by (auto simp: generate_def Let_def)

text \<open>
  The example that the template command writes is a description that the gateway command accepts: after the one has
  succeeded, the other parses the file and goes on to write the gateway of its one service, with the routes module
  imported.
\<close>

theorem template_feeds_gateway:
  assumes "template_execute ''api'' dir D = (Ok (), D1)"
  shows "\<exists>g. generate template_api = Ok g \<and>
    api_execute (path_join dir ''example.api'') out D1 = fs_run (api_steps out g) D1 \<and>
    Write (path_join out ''main.rs'') (api_main (''mod routes;'' @ eol)) \<in> set (api_steps out g)"
proof -
  let ?f = "path_join dir ''example.api''"
  obtain g where g: "generate template_api = Ok g" by (simp add: generate_def Let_def)
  have "fs_run [Create_dir_all (path_of dir), Write ?f api_template] D = (Inr (), D1)"
    using assms by (simp add: template_execute_def template_of_def)
  then obtain u D0 where w: "write_file ?f api_template D0 = (Inr u, D1)" by (auto split: prod.splits sum.splits)
  then have "read_to_string (path_of ?f) D1 = Ok api_template"
    using write_file_Ok [OF w] api_template_utf8 by (auto simp: read_to_string_def is_dir_def)
  then have "api_execute ?f out D1 = fs_run (api_steps out g) D1"
    using g by (simp add: api_execute_def parse_file_def parse_api_template)
  moreover have "Write (path_join out ''main.rs'') (api_main (''mod routes;'' @ eol)) \<in> set (api_steps out g)"
    using generate_routes_not_empty [OF g] by (simp add: api_steps_def)
  ultimately show ?thesis using g by blast
qed

text \<open>
  The RPC command keeps an interface file that is already there, whether or not it succeeds, unless one of the four
  files it writes has the same path; it creates the stub when there is none.
\<close>

theorem rpc_keeps_idl:
  assumes "rpc_execute idl dir D = (r, D')" and "d_files D (path_of idl) = Some text0" "last (split_on (CHR ''/'') idl) \<notin> {'''', ''.''}"
    and "path_of idl \<notin> (\<lambda>rel. path_of (path_join dir rel)) ` {''logic/mod.rs'', ''svc/mod.rs'', ''main.rs'', ''build.rs''}"
  shows "d_files D' (path_of idl) = Some text0"
proof -
  let ?mk = "[Create_dir_all (path_of (path_join dir ''logic'')), Create_dir_all (path_of (path_join dir ''svc'')),
              Create_dir_all (path_of (path_join dir ''model''))]"
  obtain x D1 where x: "fs_run ?mk D = (x, D1)" by (cases "fs_run ?mk D") auto
  have k: "d_files D1 (path_of idl) = Some text0" using fs_run_frame [OF x, of "path_of idl"] assms(2) by simp
  have ne: "idl \<noteq> []" using assms(3) by auto
  then have ex: "path_exists idl D1" using k assms(3) by (simp add: path_exists_def)
  show ?thesis
  proof (cases x)
    case (Inl e)
    then show ?thesis using assms(1) x k unfolding rpc_execute_def by simp
  next
    case (Inr u)
    then have "fs_run [Write (path_join dir ''logic/mod.rs'') rpc_logic, Write (path_join dir ''svc/mod.rs'') rpc_svc,
                 Write (path_join dir ''main.rs'') rpc_main, Write (path_join dir ''build.rs'') rpc_build] D1 = (r, D')"
      using assms(1) ex x unfolding rpc_execute_def by (simp del: fs_run.simps)
    from fs_run_frame [OF this, of "path_of idl"] show ?thesis using assms(4) k by auto
  qed
qed

section \<open>Names\<close>

lemma split_on_parts_free: "w \<in> set (split_on d s) \<Longrightarrow> d \<notin> set w"
  by (induction s arbitrary: w) (auto split: if_splits list.splits)

lemma to_ascii_upper_underscore: "to_ascii_upper c = CHR ''_'' \<longleftrightarrow> c = CHR ''_''"
  by (cases c) (auto simp: to_ascii_upper_def char_of_eq_iff split: if_splits)

text \<open>The type name of a table has no underscore, whatever the table is called.\<close>

theorem pascal_no_underscore: "CHR ''_'' \<notin> set (to_pascal_case s)"
proof
  assume "CHR ''_'' \<in> set (to_pascal_case s)"
  then obtain w where w: "w \<in> set (split_on (CHR ''_'') s)" "CHR ''_'' \<in> set (case w of [] \<Rightarrow> [] | f # c \<Rightarrow> to_ascii_upper f # c)"
    by (auto simp: to_pascal_case_def)
  moreover have "CHR ''_'' \<notin> set w" using split_on_parts_free [OF w(1)] .
  ultimately show False by (cases w) (auto simp: to_ascii_upper_underscore dest: sym)
qed

section \<open>A concrete project\<close>

lemma project_targets_demo: "project_targets ''shop'' = map (\<lambda>cs. (False, ''shop'' # cs)) (map (snd \<circ> path_of \<circ> fst) (project_files []))"
  unfolding project_targets_alt by (simp add: path_of_def nontrivial_def)

lemma clear_demo: "clear_for (project_targets ''shop'') demo_disk"
  unfolding clear_for_def project_targets_demo project_paths_eq
  by (simp add: demo_disk_def is_dir_def ancestors_def upt_rec)

theorem new_project_created_witness:
  "\<exists>D'. new_execute ''shop'' demo_disk = (Ok (), D') \<and>
     d_files D' (path_of (path_join ''shop'' ''etc/api.yaml'')) = Some api_config_template"
proof -
  obtain D' where D': "new_execute ''shop'' demo_disk = (Ok (), D')"
      "list_all (\<lambda>(rel, content). d_files D' (path_of (path_join ''shop'' rel)) = Some content) (project_files ''shop'')"
    using new_project_created [OF clear_demo] by blast
  have "(''etc/api.yaml'', api_config_template) \<in> set (project_files ''shop'')" by (simp add: project_files_def)
  then show ?thesis using D' unfolding list_all_iff by blast
qed

lemma template_demo:
  "\<exists>D1. template_execute ''api'' ''d'' demo_disk = (Ok (), D1)"
  by (simp add: template_execute_def template_of_def demo_disk_def path_of_def nontrivial_def path_join_def create_dir_all_def
      is_dir_def write_file_def)

theorem template_feeds_gateway_witness:
  "\<exists>D1 g. template_execute ''api'' ''d'' demo_disk = (Ok (), D1) \<and> generate template_api = Ok g \<and>
     api_execute (path_join ''d'' ''example.api'') ''out'' D1 = fs_run (api_steps ''out'' g) D1"
proof -
  obtain D1 where D1: "template_execute ''api'' ''d'' demo_disk = (Ok (), D1)" using template_demo by blast
  from D1 template_feeds_gateway [OF D1, of "''out''"] show ?thesis by blast
qed

end
