(* ===== verification/Mock_Server.thy ===== *)
theory Mock_Server
  imports Rest_Server
begin

text \<open>
  The mock server (\<open>rszero/src/rest/mock.rs\<close>): canned responses by route.  The router of axum and the constructors of
  its method routers are parameters, as in \<open>Rest_Server\<close>; the current time is an argument.
\<close>

record mock_route =
  mk_path :: string
  mk_method :: string
  mk_body :: json
  mk_status :: nat

record mock_config =
  mc_include_meta_headers :: bool
  mc_delay_ms :: u64

definition mock_config_default :: mock_config where
  "mock_config_default = \<lparr>mc_include_meta_headers = True, mc_delay_ms = 0\<rparr>"

record mock_server =
  ms_routes :: "mock_route list"
  ms_config :: mock_config

definition mock_new :: "mock_config \<Rightarrow> mock_server" where
  "mock_new cfg = \<lparr>ms_routes = [], ms_config = cfg\<rparr>"

definition mock_register :: "mock_route \<Rightarrow> mock_server \<Rightarrow> mock_server" where
  "mock_register r s = s\<lparr>ms_routes := ms_routes s @ [r]\<rparr>"

definition mock_register_all :: "mock_route list \<Rightarrow> mock_server \<Rightarrow> mock_server" where
  "mock_register_all rs s = s\<lparr>ms_routes := ms_routes s @ rs\<rparr>"

text \<open>A handler sleeps for some milliseconds, or not at all, and then answers.\<close>

type_synonym mock_handler = "u64 option \<times> http_response"

definition mock_handler_of :: "mock_config \<Rightarrow> mock_route \<Rightarrow> mock_handler" where
  "mock_handler_of cfg r =
     ((if 0 < mc_delay_ms cfg then Some (mc_delay_ms cfg) else None),
      (let res = json_response (status_or_ok (mk_status r)) (mk_body r)
       in if mc_include_meta_headers cfg then res\<lparr>rs_headers := rs_headers res @ [(''X-Mock-Server'', ''rszero'')]\<rparr> else res))"

datatype method_filter = On_Get | On_Post | On_Put | On_Delete | On_Patch | On_Any

definition mock_filter :: "string \<Rightarrow> method_filter" where
  "mock_filter verb =
     (if verb = ''GET'' then On_Get else if verb = ''POST'' then On_Post else if verb = ''PUT'' then On_Put
      else if verb = ''DELETE'' then On_Delete else if verb = ''PATCH'' then On_Patch else On_Any)"

definition mock_router :: "('r, 'h, 'x) router_api \<Rightarrow> (method_filter \<Rightarrow> mock_handler \<Rightarrow> 'h) \<Rightarrow> mock_server \<Rightarrow> 'r" where
  "mock_router R on s =
     foldl (\<lambda>router r. ro_route R (mk_path r) (on (mock_filter (mk_method r)) (mock_handler_of (ms_config s) r)) router)
       (ro_new R) (ms_routes s)"

text \<open>The double nearest to \<open>pi\<close>.\<close>

definition f64_pi :: f64 where
  "f64_pi = Fin (884279719003555 / 281474976710656)"

definition generate_mock :: "string \<Rightarrow> string \<Rightarrow> json" where
  "generate_mock now hint =
     (if hint = ''uuid'' then JString ''550e8400-e29b-41d4-a716-446655440000''
      else if hint = ''datetime'' then JString now
      else if hint = ''email'' then JString ''mock@example.com''
      else if hint = ''uri'' then JString ''https://example.com''
      else if hint = ''int'' then JNumber (PosInt 42)
      else if hint = ''float'' then JNumber (Float f64_pi)
      else if hint = ''bool'' then JBool True
      else JString ''mock'')"

definition resource_routes :: "string \<Rightarrow> json \<Rightarrow> mock_route list" where
  "resource_routes resource ex =
     (let list_path = ''/'' @ resource; detail_path = ''/'' @ resource @ ''/:id''
      in [\<lparr>mk_path = list_path, mk_method = ''GET'', mk_body = JArray [ex], mk_status = 200\<rparr>,
          \<lparr>mk_path = list_path, mk_method = ''POST'', mk_body = ex, mk_status = 201\<rparr>,
          \<lparr>mk_path = detail_path, mk_method = ''GET'', mk_body = ex, mk_status = 200\<rparr>,
          \<lparr>mk_path = detail_path, mk_method = ''PUT'', mk_body = ex, mk_status = 200\<rparr>,
          \<lparr>mk_path = detail_path, mk_method = ''DELETE'', mk_body = JObject [(''deleted'', JBool True)], mk_status = 200\<rparr>])"

section \<open>What the router answers\<close>

fun accepts :: "method_filter \<Rightarrow> string \<Rightarrow> bool" where
  "accepts On_Get verb = (verb = ''GET'')"
| "accepts On_Post verb = (verb = ''POST'')"
| "accepts On_Put verb = (verb = ''PUT'')"
| "accepts On_Delete verb = (verb = ''DELETE'')"
| "accepts On_Patch verb = (verb = ''PATCH'')"
| "accepts On_Any verb = True"

text \<open>Two routes clash when they have the same path and a method in common; axum panics when it is given the second.\<close>

definition clash :: "mock_route \<Rightarrow> mock_route \<Rightarrow> bool" where
  "clash a b \<longleftrightarrow> mk_path a = mk_path b \<and>
     (mock_filter (mk_method a) = mock_filter (mk_method b) \<or> mock_filter (mk_method a) = On_Any \<or> mock_filter (mk_method b) = On_Any)"

fun clash_free :: "mock_route list \<Rightarrow> bool" where
  "clash_free [] = True"
| "clash_free (r # rs) = (list_all (\<lambda>q. \<not> clash r q) rs \<and> clash_free rs)"

lemma accepts_clash:
  "accepts (mock_filter (mk_method a)) v \<Longrightarrow> accepts (mock_filter (mk_method b)) v \<Longrightarrow> mk_path a = mk_path b \<Longrightarrow> clash a b"
  by (auto simp: clash_def mock_filter_def split: if_splits)

text \<open>
  With a router whose look-up by route and method finds a handler that was added without a clash, and keeps finding
  the others, every registered route is answered by its own canned response; a method that is none of the five in
  capitals answers every request of its path.
\<close>

theorem mock_serves:
  assumes new: "\<And>q v. find_route (ro_new R) q v = None"
    and add: "\<And>r p f h q v. (\<And>w. accepts f w \<Longrightarrow> find_route r p w = None) \<Longrightarrow>
                find_route (ro_route R p (on f h) r) q v = (if q = p \<and> accepts f v then Some h else find_route r q v)"
    and free: "clash_free (ms_routes s)"
  shows "find_route (mock_router R on s) q v =
    map_option (mock_handler_of (ms_config s))
      (find (\<lambda>r. mk_path r = q \<and> accepts (mock_filter (mk_method r)) v) (ms_routes s))"
proof -
  define cfg where "cfg = ms_config s"
  define add_route where "add_route = (\<lambda>router (r :: mock_route). ro_route R (mk_path r) (on (mock_filter (mk_method r)) (mock_handler_of cfg r)) router)"
  define hit where "hit = (\<lambda>q v (r :: mock_route). mk_path r = q \<and> accepts (mock_filter (mk_method r)) v)"
  have gen: "find_route (foldl add_route r0 rs) q v =
      (case find (hit q v) rs of Some r \<Rightarrow> Some (mock_handler_of cfg r) | None \<Rightarrow> find_route r0 q v)"
    if "clash_free rs" "\<And>r w. r \<in> set rs \<Longrightarrow> accepts (mock_filter (mk_method r)) w \<Longrightarrow> find_route r0 (mk_path r) w = None" for rs r0 q v
    using that
  proof (induction rs arbitrary: r0)
    case (Cons r rs)
    have one: "find_route (add_route r0 r) q v = (if hit q v r then Some (mock_handler_of cfg r) else find_route r0 q v)" for q v
      using add [of "mock_filter (mk_method r)" r0 "mk_path r"] Cons.prems(2) [of r] unfolding add_route_def hit_def by auto
    have other: "find_route (add_route r0 r) (mk_path x) w = None" if x: "x \<in> set rs" "accepts (mock_filter (mk_method x)) w" for x w
      using Cons.prems x accepts_clash [of r w x] by (auto simp: one hit_def list_all_iff)
    have "find (hit q v) rs = None" if "hit q v r"
      using that Cons.prems(1) accepts_clash [of r v] by (auto simp: hit_def find_None_iff list_all_iff)
    then show ?case using Cons.IH [of "add_route r0 r"] Cons.prems(1) other by (auto simp: one split: option.splits)
  qed simp
  have "find_route (mock_router R on s) q v =
      (case find (hit q v) (ms_routes s) of Some r \<Rightarrow> Some (mock_handler_of cfg r) | None \<Rightarrow> find_route (ro_new R) q v)"
    unfolding mock_router_def cfg_def [symmetric] add_route_def [symmetric] using gen [OF free, of "ro_new R"] new by simp
  then show ?thesis by (simp add: hit_def cfg_def new split: option.splits)
qed

text \<open>The standard routes of a resource can always be registered together.\<close>

theorem resource_routes_clash_free: "clash_free (resource_routes resource ex)"
  by (simp add: resource_routes_def Let_def clash_def mock_filter_def)

end
