(* ===== verification/User_Service.thy ===== *)
theory User_Service
  imports Rest_Server Transition_Systems
begin

text \<open>
  The user service example (\<open>examples/user-service/src/main.rs\<close>): a list of users and a counter, each behind a mutex of
  its own.  A handler that holds the list's mutex throughout is one step; creating a user takes an identifier in one
  step and pushes the user in a later one, so that other requests run in between.  Identifiers are \<open>i64\<close>: with overflow
  checks on, the creation that would overflow the counter panics with the mutex held, which poisons it for every later
  creation.  The request metrics are left out.
\<close>

record app_user =
  usr_id :: int
  usr_name :: string
  usr_age :: int

record app_create_req =
  cu_name :: string
  cu_age :: int

record app_update_req =
  up_name :: "string option"
  up_age :: "int option"

record app_state =
  as_users :: "app_user list"
  as_next_id :: int
  as_next_poisoned :: bool

definition app_list_users :: "app_state \<Rightarrow> app_user list json_reply" where
  "app_list_users s = reply_ok (as_users s)"

definition app_get_user :: "int \<Rightarrow> app_state \<Rightarrow> app_user json_reply" where
  "app_get_user i s =
     (case find (\<lambda>u. usr_id u = i) (as_users s) of
        Some u \<Rightarrow> reply_ok u
      | None \<Rightarrow> reply_error 404 ''user not found'')"

definition take_id :: "app_state \<Rightarrow> int outcome \<times> app_state" where
  "take_id s =
     (if as_next_poisoned s then (Panic, s)
      else if as_next_id s = 2 ^ 63 - 1 then (Panic, s\<lparr>as_next_poisoned := True\<rparr>)
      else (Done (as_next_id s), s\<lparr>as_next_id := as_next_id s + 1\<rparr>))"

definition new_user :: "int \<Rightarrow> app_create_req \<Rightarrow> app_user" where
  "new_user i req = \<lparr>usr_id = i, usr_name = cu_name req, usr_age = cu_age req\<rparr>"

definition push_user :: "app_user \<Rightarrow> app_state \<Rightarrow> app_user json_reply \<times> app_state" where
  "push_user u s = (reply_ok u, s\<lparr>as_users := as_users s @ [u]\<rparr>)"

text \<open>The whole handler when nothing runs in between.\<close>

definition app_create_user :: "app_create_req \<Rightarrow> app_state \<Rightarrow> app_user json_reply outcome \<times> app_state" where
  "app_create_user req s =
     (case take_id s of
        (Panic, s') \<Rightarrow> (Panic, s')
      | (Done i, s') \<Rightarrow> (case push_user (new_user i req) s' of (r, s'') \<Rightarrow> (Done r, s'')))"

definition set_fields :: "app_update_req \<Rightarrow> app_user \<Rightarrow> app_user" where
  "set_fields req u =
     (let u1 = (case up_name req of Some n \<Rightarrow> u\<lparr>usr_name := n\<rparr> | None \<Rightarrow> u)
      in case up_age req of Some a \<Rightarrow> u1\<lparr>usr_age := a\<rparr> | None \<Rightarrow> u1)"

fun update_first :: "(app_user \<Rightarrow> bool) \<Rightarrow> (app_user \<Rightarrow> app_user) \<Rightarrow> app_user list \<Rightarrow> app_user option \<times> app_user list" where
  "update_first P f [] = (None, [])"
| "update_first P f (u # us) =
     (if P u then (Some (f u), f u # us) else case update_first P f us of (r, us') \<Rightarrow> (r, u # us'))"

definition app_update_user :: "int \<Rightarrow> app_update_req \<Rightarrow> app_state \<Rightarrow> app_user json_reply \<times> app_state" where
  "app_update_user i req s =
     (case update_first (\<lambda>u. usr_id u = i) (set_fields req) (as_users s) of
        (Some u, us) \<Rightarrow> (reply_ok u, s\<lparr>as_users := us\<rparr>)
      | (None, us) \<Rightarrow> (reply_error 404 ''user not found'', s))"

definition app_delete_user :: "int \<Rightarrow> app_state \<Rightarrow> unit json_reply \<times> app_state" where
  "app_delete_user i s =
     (let before = length (as_users s); us = filter (\<lambda>u. usr_id u \<noteq> i) (as_users s); s' = s\<lparr>as_users := us\<rparr>
      in if length us < before then (ok_empty, s') else (reply_error 404 ''user not found'', s'))"

definition app_start :: app_state where
  "app_start = \<lparr>as_users = [\<lparr>usr_id = 1, usr_name = ''Alice'', usr_age = 30\<rparr>, \<lparr>usr_id = 2, usr_name = ''Bob'', usr_age = 25\<rparr>],
     as_next_id = 3, as_next_poisoned = False\<rparr>"

section \<open>Requests that interleave\<close>

text \<open>The users that creations in flight have yet to push stand beside the state.\<close>

datatype app_event =
    Take app_create_req
  | Push app_user
  | Update int app_update_req
  | Delete int

fun app_step :: "app_state \<times> app_user list \<Rightarrow> app_event \<Rightarrow> app_state \<times> app_user list \<Rightarrow> bool" where
  "app_step (s, ps) (Take req) t =
     (case take_id s of (Panic, s') \<Rightarrow> t = (s', ps) | (Done i, s') \<Rightarrow> t = (s', new_user i req # ps))"
| "app_step (s, ps) (Push u) t = (u \<in> set ps \<and> t = (snd (push_user u s), removeAll u ps))"
| "app_step (s, ps) (Update i req) t = (t = (snd (app_update_user i req s), ps))"
| "app_step (s, ps) (Delete i) t = (t = (snd (app_delete_user i s), ps))"

definition app_init :: "app_state \<times> app_user list \<Rightarrow> bool" where
  "app_init x \<longleftrightarrow> x = (app_start, [])"

definition app_inv :: "app_state \<times> app_user list \<Rightarrow> bool" where
  "app_inv x \<longleftrightarrow>
     distinct (map usr_id (as_users (fst x) @ snd x)) \<and> list_all (\<lambda>u. usr_id u < as_next_id (fst x)) (as_users (fst x) @ snd x)"

lemma set_fields_id [simp]: "usr_id (set_fields req u) = usr_id u"
  by (simp add: set_fields_def split: option.splits)

lemma update_first_fst: "fst (update_first P f us) = map_option f (find P us)"
  by (induction us) (auto split: prod.splits)

lemma update_first_none: "find P us = None \<Longrightarrow> snd (update_first P f us) = us"
  by (induction us) (auto split: prod.splits if_splits)

lemma update_first_ids: "map usr_id (snd (update_first P (set_fields req) us)) = map usr_id us"
  by (induction us) (auto split: prod.splits)

lemma app_update_user_state:
  "snd (app_update_user i req s) = s\<lparr>as_users := snd (update_first (\<lambda>u. usr_id u = i) (set_fields req) (as_users s))\<rparr>"
proof (cases "find (\<lambda>u. usr_id u = i) (as_users s)")
  case None
  have "fst (update_first (\<lambda>u. usr_id u = i) (set_fields req) (as_users s)) = None" using None by (simp add: update_first_fst)
  then show ?thesis using update_first_none [OF None, of "set_fields req"]
    by (cases "update_first (\<lambda>u. usr_id u = i) (set_fields req) (as_users s)") (simp add: app_update_user_def)
next
  case (Some u)
  then have "fst (update_first (\<lambda>u. usr_id u = i) (set_fields req) (as_users s)) = Some (set_fields req u)"
    by (simp add: update_first_fst)
  then show ?thesis
    by (cases "update_first (\<lambda>u. usr_id u = i) (set_fields req) (as_users s)") (simp add: app_update_user_def)
qed

lemma app_inv_step: "app_inv x \<Longrightarrow> app_step x e y \<Longrightarrow> app_inv y"
proof (induction x e y rule: app_step.induct)
  case (1 s ps req t)
  have lt: "u \<in> set (as_users s) \<union> set ps \<Longrightarrow> usr_id u < as_next_id s" for u using 1(1) by (auto simp: app_inv_def list_all_iff)
  have le: "u \<in> set (as_users s) \<union> set ps \<Longrightarrow> usr_id u < as_next_id s + 1" for u using lt [of u] by simp
  show ?case using 1 lt le
    by (fastforce simp: app_inv_def take_id_def new_user_def list_all_iff split: if_splits)
next
  case (2 s ps u t)
  have "inj_on usr_id (set ps)" "distinct ps" using 2 by (auto simp: app_inv_def distinct_map)
  then have "distinct (map usr_id (removeAll u ps))" "usr_id u \<notin> usr_id ` set (removeAll u ps)"
    using 2 by (auto simp: distinct_map distinct_removeAll inj_on_def)
  then show ?case using 2 by (auto simp: app_inv_def push_user_def list_all_iff)
next
  case (3 s ps i req t)
  let ?us = "snd (update_first (\<lambda>u. usr_id u = i) (set_fields req) (as_users s))"
  have ids: "map usr_id ?us = map usr_id (as_users s)" by (rule update_first_ids)
  then have "usr_id ` set ?us = usr_id ` set (as_users s)" by (metis list.set_map)
  then have "(\<forall>u\<in>set ?us. usr_id u < n) = (\<forall>u\<in>set (as_users s). usr_id u < n)" for n by (metis (no_types, lifting) imageE imageI)
  then show ?case using 3 ids by (auto simp: app_inv_def list_all_iff app_update_user_state)
next
  case (4 s ps i t)
  then have "t = (s\<lparr>as_users := filter (\<lambda>u. usr_id u \<noteq> i) (as_users s)\<rparr>, ps)" by (simp add: app_delete_user_def Let_def)
  moreover have "distinct (map usr_id (filter (\<lambda>u. usr_id u \<noteq> i) (as_users s)))" using 4 by (simp add: app_inv_def distinct_map_filter)
  ultimately show ?case using 4(1) by (auto simp: app_inv_def list_all_iff)
qed

interpretation users: inductive_invariant app_init app_step app_inv
  by unfold_locales (simp add: app_init_def app_inv_def app_start_def, rule app_inv_step)

section \<open>The service as a map\<close>

definition users_map :: "app_state \<Rightarrow> int \<Rightarrow> app_user option" where
  "users_map s = map_of (map (\<lambda>u. (usr_id u, u)) (as_users s))"

lemma find_map_of: "find (\<lambda>u. usr_id u = i) us = map_of (map (\<lambda>u. (usr_id u, u)) us) i"
  by (induction us) auto

lemma map_of_update_first:
  "map_of (map (\<lambda>u. (usr_id u, u)) (snd (update_first (\<lambda>u. usr_id u = i) (set_fields req) us))) =
     (map_of (map (\<lambda>u. (usr_id u, u)) us))(i := map_option (set_fields req) (map_of (map (\<lambda>u. (usr_id u, u)) us) i))"
  by (induction us) (auto simp: fun_eq_iff split: prod.splits)

lemma map_of_remove:
  "map_of (map (\<lambda>u. (usr_id u, u)) (filter (\<lambda>u. usr_id u \<noteq> i) us)) = (map_of (map (\<lambda>u. (usr_id u, u)) us))(i := None)"
  by (induction us) (auto simp: fun_eq_iff)

lemma filter_shorter_iff:
  "length (filter (\<lambda>u. usr_id u \<noteq> i) us) < length us \<longleftrightarrow> map_of (map (\<lambda>u. (usr_id u, u)) us) i \<noteq> None"
  by (induction us) (auto simp: less_Suc_eq_le)

text \<open>
  C35. Whatever requests have run, and however creations overlap, no two users share an identifier and the service is a
  map from identifiers to users: reading looks an identifier up, pushing a created user adds a new key, updating
  overwrites the fields that the request names and answers 404 exactly when the key is absent, deleting removes the
  key, and the list shows each user once.
\<close>

theorem user_service_map:
  assumes "reach app_init app_step (s, ps)"
  shows "app_get_user i s = (case users_map s i of Some u \<Rightarrow> reply_ok u | None \<Rightarrow> reply_error 404 ''user not found'') \<and>
    app_update_user i req s =
      (case users_map s i of
         Some u \<Rightarrow> (reply_ok (set_fields req u), snd (app_update_user i req s))
       | None \<Rightarrow> (reply_error 404 ''user not found'', s)) \<and>
    users_map (snd (app_update_user i req s)) = (users_map s)(i := map_option (set_fields req) (users_map s i)) \<and>
    users_map (snd (app_delete_user i s)) = (users_map s)(i := None) \<and>
    fst (app_delete_user i s) = (if users_map s i = None then reply_error 404 ''user not found'' else ok_empty) \<and>
    (\<forall>u\<in>set ps. users_map s (usr_id u) = None \<and> users_map (snd (push_user u s)) = (users_map s)(usr_id u \<mapsto> u)) \<and>
    distinct (map usr_id (as_users s)) \<and> set (as_users s) = ran (users_map s)"
proof (intro conjI ballI)
  have d: "distinct (map usr_id (as_users s @ ps))" using users.reach_inv [OF assms] by (simp add: app_inv_def)
  then have du: "distinct (map fst (map (\<lambda>u. (usr_id u, u)) (as_users s)))" by (simp add: comp_def)
  show "app_get_user i s = (case users_map s i of Some u \<Rightarrow> reply_ok u | None \<Rightarrow> reply_error 404 ''user not found'')"
    by (simp add: app_get_user_def users_map_def find_map_of)
  show "app_update_user i req s =
      (case users_map s i of
         Some u \<Rightarrow> (reply_ok (set_fields req u), snd (app_update_user i req s))
       | None \<Rightarrow> (reply_error 404 ''user not found'', s))"
    using update_first_fst [of "\<lambda>u. usr_id u = i" "set_fields req" "as_users s"]
    by (auto simp: app_update_user_def users_map_def find_map_of split: option.splits prod.splits)
  show "users_map (snd (app_update_user i req s)) = (users_map s)(i := map_option (set_fields req) (users_map s i))"
    by (simp add: users_map_def app_update_user_state map_of_update_first)
  show "users_map (snd (app_delete_user i s)) = (users_map s)(i := None)"
    by (simp add: users_map_def app_delete_user_def Let_def map_of_remove)
  show "fst (app_delete_user i s) = (if users_map s i = None then reply_error 404 ''user not found'' else ok_empty)"
    using filter_shorter_iff [of i "as_users s"] by (auto simp: app_delete_user_def Let_def users_map_def)
  {
    fix u assume u: "u \<in> set ps"
    have "map fst (map (\<lambda>u. (usr_id u, u)) (as_users s)) = map usr_id (as_users s)" by simp
    then have "usr_id u \<notin> set (map fst (map (\<lambda>u. (usr_id u, u)) (as_users s)))" using d u by (auto simp del: map_map)
    then show "users_map s (usr_id u) = None" unfolding users_map_def map_of_eq_None_iff by (simp only: set_map not_False_eq_True)
    then show "users_map (snd (push_user u s)) = (users_map s)(usr_id u \<mapsto> u)"
      by (auto simp: users_map_def push_user_def map_add_def fun_eq_iff split: option.splits)
  }
  show "distinct (map usr_id (as_users s))" "set (as_users s) = ran (users_map s)"
    using d ran_distinct [OF du] by (auto simp: users_map_def image_image)
qed

text \<open>Two creations that overlap: the later identifier is pushed first, and the earlier one is still in flight.\<close>

definition demo_app :: "app_state \<times> app_user list" where
  "demo_app = (snd (push_user (new_user 4 \<lparr>cu_name = ''D'', cu_age = 4\<rparr>) (app_start\<lparr>as_next_id := 5\<rparr>)),
     [new_user 3 \<lparr>cu_name = ''C'', cu_age = 3\<rparr>])"

lemma demo_app_reach: "reach app_init app_step demo_app"
proof -
  let ?c = "\<lparr>cu_name = ''C'', cu_age = 3\<rparr>" and ?d = "\<lparr>cu_name = ''D'', cu_age = 4\<rparr>"
  have "run app_step (app_start, []) [Take ?c, Take ?d, Push (new_user 4 ?d)] demo_app"
    by (simp add: demo_app_def app_start_def take_id_def new_user_def)
  then show ?thesis using reach_run [OF reach_init [of app_init "(app_start, [])"]] unfolding app_init_def by blast
qed

theorem user_service_map_witness:
  "app_get_user 3 (fst demo_app) = reply_error 404 ''user not found'' \<and>
   users_map (snd (push_user (new_user 3 \<lparr>cu_name = ''C'', cu_age = 3\<rparr>) (fst demo_app))) 3 =
     Some (new_user 3 \<lparr>cu_name = ''C'', cu_age = 3\<rparr>)"
proof -
  let ?u = "new_user 3 \<lparr>cu_name = ''C'', cu_age = 3\<rparr>"
  have r: "reach app_init app_step (fst demo_app, snd demo_app)" using demo_app_reach by simp
  have "?u \<in> set (snd demo_app)" by (simp add: demo_app_def)
  moreover have "usr_id ?u = 3" by (simp add: new_user_def)
  ultimately show ?thesis using user_service_map [OF r, of 3 "\<lparr>up_name = None, up_age = None\<rparr>"] by fastforce
qed

end
