(* ===== verification/Startup.thy ===== *)
theory Startup
  imports User_Service Book_Orders Openapi
begin

text \<open>
  The programs of the examples up to the start of their servers (\<open>examples/user-service/src/main.rs\<close> and
  \<open>examples/bookstore/api/src/main.rs\<close>), together with the server builder of \<open>Rest_Server\<close>.  The router of axum is
  taken at the type of results that may be a panic, since adding a route that overlaps another one panics.  A method
  router is the list of its methods with their handlers.
\<close>

section \<open>Routers that can panic\<close>

type_synonym 'f method_router = "(string \<times> 'f) list"

type_synonym ('q, 'f, 'x) axum = "('q outcome, 'f method_router, 'x) router_api"

text \<open>
  The behaviour that axum documents of its routers: \<open>has r p m\<close> tells that a router answers the method \<open>m\<close> on the path
  \<open>p\<close>.  A route or a merge that would give a second handler for a method of a path panics, any other adds exactly its own
  methods, and a layer adds none.
\<close>

definition overlap :: "('q \<Rightarrow> string \<Rightarrow> string \<Rightarrow> bool) \<Rightarrow> 'q \<Rightarrow> string \<Rightarrow> 'f method_router \<Rightarrow> bool" where
  "overlap has r p mr \<longleftrightarrow> list_ex (\<lambda>m. has r p (fst m)) mr"

definition axum_routes_documented :: "('q, 'f, 'x) axum \<Rightarrow> ('q \<Rightarrow> string \<Rightarrow> string \<Rightarrow> bool) \<Rightarrow> bool" where
  "axum_routes_documented R has \<longleftrightarrow>
     (\<exists>r. ro_new R = Done r \<and> (\<forall>p m. \<not> has r p m)) \<and>
     (\<forall>p mr r. overlap has r p mr \<longrightarrow> ro_route R p mr (Done r) = Panic) \<and>
     (\<forall>p mr r. \<not> overlap has r p mr \<longrightarrow>
        (\<exists>r'. ro_route R p mr (Done r) = Done r' \<and> (\<forall>q m. has r' q m \<longleftrightarrow> has r q m \<or> q = p \<and> m \<in> fst ` set mr))) \<and>
     (\<forall>p mr. ro_route R p mr Panic = Panic) \<and>
     (\<forall>l r. \<exists>r'. ro_layer R l (Done r) = Done r' \<and> (\<forall>q m. has r' q m \<longleftrightarrow> has r q m)) \<and>
     (\<forall>a b. (\<exists>p m. has a p m \<and> has b p m) \<longrightarrow> ro_merge R (Done a) (Done b) = Panic) \<and>
     (\<forall>a b. \<not> (\<exists>p m. has a p m \<and> has b p m) \<longrightarrow>
        (\<exists>r'. ro_merge R (Done a) (Done b) = Done r' \<and> (\<forall>q m. has r' q m \<longleftrightarrow> has a q m \<or> has b q m)))"

text \<open>The built-in endpoints are method routers for \<open>GET\<close>.\<close>

definition get_endpoints :: "(health \<Rightarrow> 'f) \<Rightarrow> (health \<Rightarrow> 'f) \<Rightarrow> ('m \<Rightarrow> 'f) \<Rightarrow> ('o \<Rightarrow> 'f) \<Rightarrow> ('f method_router, 'm, 'o) builtin_handlers" where
  "get_endpoints fh fr fm fo =
     \<lparr>of_health = \<lambda>h. [(''GET'', fh h)], of_ready = \<lambda>h. [(''GET'', fr h)], of_metrics = \<lambda>m. [(''GET'', fm m)], of_openapi = \<lambda>x. [(''GET'', fo x)]\<rparr>"

definition add_routes :: "('q, 'f, 'x) axum \<Rightarrow> (string \<times> 'f method_router) list \<Rightarrow> 'q outcome \<Rightarrow> 'q outcome" where
  "add_routes R rs r = fold (\<lambda>(p, mr). ro_route R p mr) rs r"

section \<open>The user service\<close>

definition user_api_routes :: "(string \<Rightarrow> 'f) \<Rightarrow> (string \<times> 'f method_router) list" where
  "user_api_routes h =
     [(''/health'', [(''GET'', h ''health_check'')]),
      (''/users'', [(''GET'', h ''list_users''), (''POST'', h ''create_user'')]),
      (''/users/:id'', [(''GET'', h ''get_user''), (''PUT'', h ''update_user''), (''DELETE'', h ''delete_user'')])]"

definition user_service_server ::
  "('q, 'f, 'x) axum \<Rightarrow> (cors_config \<Rightarrow> cors_layer) \<Rightarrow> (string \<Rightarrow> 'f) \<Rightarrow> 'm \<Rightarrow> rszero_config \<Rightarrow> ('q outcome, 'm, 'o) rszero_server" where
  "user_service_server R build h metrics c =
     merge_router R (add_routes R (user_api_routes h) (ro_new R))
       (with_metrics metrics (server_new R build (rz_host c) (rz_port c)))"

section \<open>The bookstore gateway\<close>

datatype gateway_layer = Shedder_Mw | Request_Id_Mw | Trace_Mw

definition gateway_routes :: "(string \<Rightarrow> 'f) \<Rightarrow> (string \<times> 'f method_router) list" where
  "gateway_routes h =
     [(''/health'', [(''GET'', h ''health_check'')]),
      (''/metrics'', [(''GET'', h ''metrics_handler'')]),
      (''/openapi.json'', [(''GET'', h ''openapi_handler'')]),
      (''/v1/auth/login'', [(''POST'', h ''login'')]),
      (''/v1/books'', [(''GET'', h ''list_books'')]),
      (''/v1/books/:id'', [(''GET'', h ''get_book'')]),
      (''/v1/books'', [(''POST'', h ''create_book'')]),
      (''/v1/orders'', [(''POST'', h ''create_order''), (''GET'', h ''list_orders'')]),
      (''/v1/orders/:id/cancel'', [(''POST'', h ''cancel_order'')])]"

definition gateway_app :: "('q, 'f, gateway_layer) axum \<Rightarrow> (string \<Rightarrow> 'f) \<Rightarrow> 'q outcome" where
  "gateway_app R h =
     ro_layer R (Custom Trace_Mw) (ro_layer R (Custom Request_Id_Mw) (ro_layer R (Custom Shedder_Mw)
       (add_routes R (gateway_routes h) (ro_new R))))"

definition gateway_server ::
  "('q, 'f, gateway_layer) axum \<Rightarrow> (cors_config \<Rightarrow> cors_layer) \<Rightarrow> (string \<Rightarrow> 'f) \<Rightarrow> ('q outcome, 'm, 'o) rszero_server" where
  "gateway_server R build h =
     server_compression R (merge_router R (gateway_app R h) (server_new R build ''0.0.0.0'' 8080))"

definition gw_health_check :: "adaptive_shedder \<Rightarrow> json json_reply \<times> adaptive_shedder" where
  "gw_health_check sh =
     (let sh' = record_latency 1 sh
      in (reply_ok (JObject [(''status'', JString ''healthy''), (''service'', JString ''bookstore-api''), (''version'', JString ''0.1.0''),
            (''shedder_active'', JBool (shedder_is_active sh'))]), sh'))"

definition gateway_spec :: "open_api_spec outcome" where
  "gateway_spec =
     outcome_then (spec_path ''/v1/books'' ''GET''
         (query_param ''page'' ''integer'' (query_param ''category'' ''string'' (operation_tag ''books'' (operation_new ''List books''))))
         (spec_description ''Bookstore microservice API'' (spec_new ''Bookstore API'' ''0.1.0''))) (\<lambda>s1.
     outcome_then (spec_path ''/v1/books/{id}'' ''GET''
         (path_param ''id'' ''string'' (operation_tag ''books'' (operation_new ''Get book by ID''))) s1) (\<lambda>s2.
     outcome_then (spec_path ''/v1/books'' ''POST'' (operation_tag ''books'' (operation_new ''Create a new book'')) s2) (\<lambda>s3.
     outcome_then (spec_path ''/v1/orders'' ''POST'' (operation_tag ''orders'' (operation_new ''Create an order'')) s3)
       (spec_security ''BearerAuth'' security_jwt))))"

definition openapi_handler :: "(json \<Rightarrow> (string, string) result) \<Rightarrow> string outcome" where
  "openapi_handler pretty =
     outcome_then gateway_spec (\<lambda>s. Done (case spec_to_json pretty s of Inr b \<Rightarrow> b | Inl _ \<Rightarrow> ''{}''))"

section \<open>Starting the servers\<close>

definition serves :: "(string \<times> 'f method_router) list \<Rightarrow> string \<Rightarrow> string \<Rightarrow> bool" where
  "serves rs p m \<longleftrightarrow> list_ex (\<lambda>(q, mr). q = p \<and> m \<in> set (map fst mr)) rs"

fun overlap_free :: "(string \<times> 'f method_router) list \<Rightarrow> bool" where
  "overlap_free [] = True"
| "overlap_free ((p, mr) # rs) = (list_all (\<lambda>(q, mr'). q = p \<longrightarrow> list_all (\<lambda>m. m \<notin> set (map fst mr)) (map fst mr')) rs \<and> overlap_free rs)"

lemma serves_simps [simp]:
  "serves [] p m = False" "serves ((q, mr) # rs) p m = (q = p \<and> m \<in> fst ` set mr \<or> serves rs p m)"
  by (auto simp: serves_def)

lemma route_panic: "axum_routes_documented R has \<Longrightarrow> overlap has r p mr \<Longrightarrow> ro_route R p mr (Done r) = Panic"
  unfolding axum_routes_documented_def by (elim conjE) simp

lemma route_done:
  "axum_routes_documented R has \<Longrightarrow> \<not> overlap has r p mr \<Longrightarrow>
     \<exists>r'. ro_route R p mr (Done r) = Done r' \<and> (\<forall>q m. has r' q m \<longleftrightarrow> has r q m \<or> q = p \<and> m \<in> fst ` set mr)"
  unfolding axum_routes_documented_def by (elim conjE) simp

lemma layer_done:
  "axum_routes_documented R has \<Longrightarrow> \<exists>r'. ro_layer R l (Done r) = Done r' \<and> (\<forall>q m. has r' q m \<longleftrightarrow> has r q m)"
  unfolding axum_routes_documented_def by (elim conjE) simp

lemma merge_done:
  "axum_routes_documented R has \<Longrightarrow> \<not> (\<exists>p m. has a p m \<and> has b p m) \<Longrightarrow>
     \<exists>r'. ro_merge R (Done a) (Done b) = Done r' \<and> (\<forall>q m. has r' q m \<longleftrightarrow> has a q m \<or> has b q m)"
  unfolding axum_routes_documented_def by (elim conjE) simp

lemma new_done: "axum_routes_documented R has \<Longrightarrow> \<exists>r. ro_new R = Done r \<and> (\<forall>p m. \<not> has r p m)"
  unfolding axum_routes_documented_def by (elim conjE) simp

lemma add_routes_panic: "axum_routes_documented R has \<Longrightarrow> add_routes R rs Panic = Panic"
  by (induction rs) (auto simp: add_routes_def axum_routes_documented_def)

lemma add_routes_Cons: "add_routes R ((p, mr) # rs) r = add_routes R rs (ro_route R p mr r)"
  by (simp add: add_routes_def)

text \<open>Adding routes that do not overlap each other panics exactly when one of them is there already.\<close>

lemma add_routes_cases:
  assumes doc: "axum_routes_documented R has" and "overlap_free rs"
  shows "if (\<exists>p m. has r p m \<and> serves rs p m) then add_routes R rs (Done r) = Panic
    else \<exists>r'. add_routes R rs (Done r) = Done r' \<and> (\<forall>q m. has r' q m \<longleftrightarrow> has r q m \<or> serves rs q m)"
  using assms(2)
proof (induction rs arbitrary: r)
  case Nil
  then show ?case by (simp add: add_routes_def)
next
  case (Cons x rs)
  obtain p mr where x: "x = (p, mr)" by (cases x)
  show ?case
  proof (cases "overlap has r p mr")
    case True
    then obtain m where "m \<in> fst ` set mr" "has r p m" by (auto simp: overlap_def list_ex_iff)
    then show ?thesis using route_panic [OF doc True] add_routes_panic [OF doc] by (auto simp: x add_routes_Cons)
  next
    case False
    from route_done [OF doc False] obtain r1 where r1: "ro_route R p mr (Done r) = Done r1"
      and h1: "\<And>q m. has r1 q m \<longleftrightarrow> has r q m \<or> q = p \<and> m \<in> fst ` set mr" by blast
    have own: "\<not> serves rs p m" if "m \<in> fst ` set mr" for m
      using Cons.prems that by (force simp: x serves_def list_ex_iff list_all_iff)
    have old: "\<not> has r p m" if "m \<in> fst ` set mr" for m using False that by (auto simp: overlap_def list_ex_iff)
    have "(\<exists>q m. has r1 q m \<and> serves rs q m) \<longleftrightarrow> (\<exists>q m. has r q m \<and> serves rs q m)" using h1 own by blast
    moreover have "(\<exists>q m. has r q m \<and> serves rs q m) \<longleftrightarrow> (\<exists>q m. has r q m \<and> serves (x # rs) q m)"
      using old by (auto simp: x)
    ultimately show ?thesis
      using Cons.IH [of r1] Cons.prems h1 by (auto simp: x add_routes_Cons r1 split: if_splits)
  qed
qed

lemma add_routes_done:
  assumes "axum_routes_documented R has" and "overlap_free rs"
  shows "\<exists>r. add_routes R rs (ro_new R) = Done r \<and> (\<forall>q m. has r q m \<longleftrightarrow> serves rs q m)"
proof -
  obtain r0 where "ro_new R = Done r0" "\<forall>p m. \<not> has r0 p m" using new_done [OF assms(1)] by blast
  then show ?thesis using add_routes_cases [OF assms, of r0] by auto
qed

lemma register_builtin_routes:
  "sr_router (register_builtin_endpoints R H s) = add_routes R (builtin_routes H s) (sr_router s)"
proof -
  have "sr_router (fold (\<lambda>(p, mr). server_route R p mr) rs s) = add_routes R rs (sr_router s)" for rs
    by (induction rs arbitrary: s) (auto simp: add_routes_def server_route_def)
  then show ?thesis by (simp add: register_builtin_endpoints_def)
qed

lemma builtin_overlap_free: "overlap_free (builtin_routes (get_endpoints fh fr fm fo) s)"
  by (cases "sr_metrics s"; cases "sr_openapi s") (simp_all add: builtin_routes_def get_endpoints_def)

lemma serves_get: "list_all (\<lambda>(q, mr). fst ` set mr = {''GET''}) rs \<Longrightarrow> serves rs p m \<longleftrightarrow> m = ''GET'' \<and> p \<in> set (map fst rs)"
proof (induction rs)
  case (Cons x rs)
  obtain q mr where x: "x = (q, mr)" by (cases x)
  have "fst ` set mr = {''GET''}" "serves rs p m \<longleftrightarrow> m = ''GET'' \<and> p \<in> set (map fst rs)" using Cons by (simp_all add: x)
  then show ?case unfolding x serves_simps by (simp only: singleton_iff list.map list.set fst_conv insert_iff) blast
qed simp

lemma builtin_get: "list_all (\<lambda>(q, mr). fst ` set mr = {''GET''}) (builtin_routes (get_endpoints fh fr fm fo) s)"
  by (simp add: builtin_routes_def get_endpoints_def split: option.split)

lemmas serves_builtin = serves_get [OF builtin_get]

lemma new_server_router:
  fixes R :: "('q, 'f, 'x) axum"
  assumes "axum_routes_documented R has"
  shows "\<exists>r. sr_router (server_new R build host port :: ('q outcome, 'm, 'o) rszero_server) = Done r \<and> (\<forall>p m. \<not> has r p m)"
proof -
  obtain r0 where r0: "ro_new R = Done r0" "\<forall>p m. \<not> has r0 p m" using new_done [OF assms] by blast
  obtain r1 where r1: "ro_layer R (Cors (build cors_permissive)) (Done r0) = Done r1" "\<forall>q m. has r1 q m \<longleftrightarrow> has r0 q m"
    using layer_done [OF assms] by blast
  obtain r2 where r2: "ro_layer R Compression (Done r1) = Done r2" "\<forall>q m. has r2 q m \<longleftrightarrow> has r1 q m"
    using layer_done [OF assms] by blast
  obtain r3 where r3: "ro_layer R Trace_Http (Done r2) = Done r3" "\<forall>q m. has r3 q m \<longleftrightarrow> has r2 q m"
    using layer_done [OF assms] by blast
  show ?thesis using r0 r1 r2 r3 by (simp add: server_new_def)
qed

lemma merged_router:
  assumes doc: "axum_routes_documented R has" and s: "sr_router s = Done a" "\<forall>p m. \<not> has a p m" and b: "app = Done b"
  shows "\<exists>r. sr_router (merge_router R app s) = Done r \<and> (\<forall>p m. has r p m \<longleftrightarrow> has b p m)"
  using merge_done [OF doc, of a b] s by (auto simp: merge_router_def b)

lemma builtin_start:
  assumes H: "H = get_endpoints fh fr fm fo" and doc: "axum_routes_documented R has" and s: "sr_router s = Done r" and r: "\<And>p m. has r p m \<longleftrightarrow> serves rs p m"
  shows "if \<exists>p \<in> set (map fst (builtin_routes H s)). serves rs p ''GET'' then sr_router (register_builtin_endpoints R H s) = Panic
    else \<exists>r'. sr_router (register_builtin_endpoints R H s) = Done r' \<and>
      (\<forall>p m. has r' p m \<longleftrightarrow> serves rs p m \<or> m = ''GET'' \<and> p \<in> set (map fst (builtin_routes H s)))"
proof -
  have free: "overlap_free (builtin_routes H s)" unfolding H by (rule builtin_overlap_free)
  have get: "serves (builtin_routes H s) p m \<longleftrightarrow> m = ''GET'' \<and> p \<in> set (map fst (builtin_routes H s))" for p m
    unfolding H by (rule serves_builtin)
  have "(\<exists>p m. has r p m \<and> serves (builtin_routes H s) p m) \<longleftrightarrow> (\<exists>p \<in> set (map fst (builtin_routes H s)). serves rs p ''GET'')"
    unfolding get r by blast
  then show ?thesis
    using add_routes_cases [OF doc free, of r] unfolding register_builtin_routes s get r by simp
qed

lemma user_routes_free: "overlap_free (user_api_routes h)" "serves (user_api_routes h) ''/health'' ''GET''"
  "\<not> serves (user_api_routes h) ''/metrics'' ''GET''"
  by (simp_all add: user_api_routes_def)

lemma gateway_routes_free: "overlap_free (gateway_routes h)" "serves (gateway_routes h) ''/health'' ''GET''"
  by (simp_all add: gateway_routes_def)

lemma user_service_router:
  fixes R :: "('q, 'f, 'x) axum"
  assumes doc: "axum_routes_documented R has"
  shows "\<exists>r. sr_router (user_service_server R build h mt c :: ('q outcome, 'm, 'o) rszero_server) = Done r \<and> (\<forall>p m. has r p m \<longleftrightarrow> serves (user_api_routes h) p m)"
proof -
  obtain b where b: "add_routes R (user_api_routes h) (ro_new R) = Done b" "\<forall>p m. has b p m \<longleftrightarrow> serves (user_api_routes h) p m"
    using add_routes_done [OF doc user_routes_free(1)] by blast
  let ?new = "server_new R build (rz_host c) (rz_port c) :: ('q outcome, 'm, 'o) rszero_server"
  obtain a where a: "sr_router ?new = Done a" "\<forall>p m. \<not> has a p m"
    using new_server_router [OF doc, where 'm = 'm and 'o = 'o] by blast
  have "sr_router (with_metrics mt ?new) = Done a" by (simp add: with_metrics_def a)
  then show ?thesis using merged_router [OF doc _ a(2) b(1)] b(2) by (simp add: user_service_server_def)
qed

lemma gateway_router:
  fixes R :: "('q, 'f, gateway_layer) axum"
  assumes doc: "axum_routes_documented R has"
  shows "\<exists>r. sr_router (gateway_server R build h :: ('q outcome, 'm, 'o) rszero_server) = Done r \<and> (\<forall>p m. has r p m \<longleftrightarrow> serves (gateway_routes h) p m)"
proof -
  obtain b where b: "add_routes R (gateway_routes h) (ro_new R) = Done b" "\<forall>p m. has b p m \<longleftrightarrow> serves (gateway_routes h) p m"
    using add_routes_done [OF doc gateway_routes_free(1)] by blast
  obtain b1 where b1: "ro_layer R (Custom Shedder_Mw) (Done b) = Done b1" "\<forall>p m. has b1 p m \<longleftrightarrow> has b p m"
    using layer_done [OF doc] by blast
  obtain b2 where b2: "ro_layer R (Custom Request_Id_Mw) (Done b1) = Done b2" "\<forall>p m. has b2 p m \<longleftrightarrow> has b1 p m"
    using layer_done [OF doc] by blast
  obtain b3 where b3: "ro_layer R (Custom Trace_Mw) (Done b2) = Done b3" "\<forall>p m. has b3 p m \<longleftrightarrow> has b2 p m"
    using layer_done [OF doc] by blast
  have app: "gateway_app R h = Done b3" by (simp add: gateway_app_def b b1 b2 b3)
  let ?new = "server_new R build ''0.0.0.0'' 8080 :: ('q outcome, 'm, 'o) rszero_server"
  obtain a where a: "sr_router ?new = Done a" "\<forall>p m. \<not> has a p m"
    using new_server_router [OF doc, where 'm = 'm and 'o = 'o] by blast
  obtain m where m: "sr_router (merge_router R (gateway_app R h) ?new) = Done m"
    "\<forall>p k. has m p k \<longleftrightarrow> has b3 p k"
    using merged_router [OF doc a app] by blast
  obtain z where "ro_layer R Compression (Done m) = Done z" "\<forall>p k. has z p k \<longleftrightarrow> has m p k"
    using layer_done [OF doc] by blast
  then show ?thesis using m b b1 b2 b3 by (simp add: gateway_server_def server_compression_def server_layer_add_def)
qed

lemma health_overlap:
  assumes doc: "axum_routes_documented R has" and s: "sr_router s = Done r" "\<And>p m. has r p m \<longleftrightarrow> serves rs p m"
    and own: "serves rs ''/health'' ''GET''" and on: "sr_enable_health s"
  shows "sr_router (register_builtin_endpoints R (get_endpoints fh fr fm fo) s) = Panic"
proof -
  have "''/health'' \<in> set (map fst (builtin_routes (get_endpoints fh fr fm fo) s))"
    unfolding builtin_routes_def if_P [OF on] by (simp only: append_Cons list.map fst_conv list.set_intros)
  then have over: "\<exists>p \<in> set (map fst (builtin_routes (get_endpoints fh fr fm fo) s)). serves rs p ''GET''" using own by (rule rev_bexI [where x = "''/health''" and P = "\<lambda>p. serves rs p ''GET''"])
  show ?thesis using builtin_start [OF refl doc s, of fh fr fm fo] unfolding if_P [OF over] .
qed

lemma user_service_health: "sr_enable_health (user_service_server R build h mt c)"
  by (simp add: user_service_server_def merge_router_def with_metrics_def server_new_def)

lemma gateway_health: "sr_enable_health (gateway_server R build h)"
  by (simp add: gateway_server_def merge_router_def server_compression_def server_layer_add_def server_new_def)

section \<open>Properties\<close>


text \<open>A router of axum as the list of the paths and methods it answers.\<close>

definition table_router :: "((string \<times> string) list, unit, gateway_layer) axum" where
  "table_router =
     \<lparr>ro_new = Done [],
      ro_route = \<lambda>p mr r. outcome_then r (\<lambda>t. if list_ex (\<lambda>x. (p, fst x) \<in> set t) mr then Panic else Done (map (\<lambda>x. (p, fst x)) mr @ t)),
      ro_merge = \<lambda>r1 r2. outcome_then r1 (\<lambda>a. outcome_then r2 (\<lambda>b. if list_ex (\<lambda>x. x \<in> set a) b then Panic else Done (a @ b))),
      ro_layer = \<lambda>_ r. r\<rparr>"

lemma table_router_documented: "axum_routes_documented table_router (\<lambda>t p m. (p, m) \<in> set t)"
  unfolding axum_routes_documented_def table_router_def overlap_def
  by (intro conjI allI impI) (auto simp: list_ex_iff outcome_then_def)


end
