(* ===== verification/Outbox_Delivery.thy ===== *)
theory Outbox_Delivery
  imports Outbox Message_Queue
begin

text \<open>
  The outbox put together with the queue it publishes to and the consumers of that queue
  (\<open>rszero/src/queue/transactional.rs\<close> over \<open>rszero/src/queue/mod.rs\<close>).  The push of the outbox is \<open>Queue::push\<close>, which wraps
  the JSON text of the payload and a fresh identifier into an envelope and publishes it to a backend; publishers, the
  sweeper and consumers take turns in any order.
\<close>

section \<open>The composed system\<close>

text \<open>The identifiers of the envelopes are a supply \<open>uuid\<close>, of which the first component counts those used.\<close>

definition outbox_push ::
  "(string \<Rightarrow> (string, string) result) \<Rightarrow> (nat \<Rightarrow> string) \<Rightarrow> (message \<Rightarrow> 'b \<Rightarrow> unit rszero_result \<times> 'b) \<Rightarrow> (nat \<times> 'b) push_fn" where
  "outbox_push to_json uuid pub t p nq =
     (case queue_push to_json (uuid (fst nq)) pub t p (snd nq) of (r, q') \<Rightarrow> (r, (Suc (fst nq), q')))"

record 'b delivery_system =
  dl_ob :: "(nat \<times> 'b) ob_system"
  dl_taken :: "message list"

definition dl_queue :: "'b delivery_system \<Rightarrow> 'b" where
  "dl_queue s = snd (ob_queue (ob (dl_ob s)))"

definition dl_rows :: "'b delivery_system \<Rightarrow> outbox_row list" where
  "dl_rows s = ob_rows (ob (dl_ob s))"

datatype delivery_event = Outbox_Event ob_event | Take_From string

text \<open>\<open>Queue::pull\<close>: what a consumer takes from a topic is its own; an error gives it nothing.\<close>

definition take_from :: "(string \<Rightarrow> 'b \<Rightarrow> message option rszero_result \<times> 'b) \<Rightarrow> string \<Rightarrow> 'b delivery_system \<Rightarrow> 'b delivery_system" where
  "take_from con t s =
     (case con t (dl_queue s) of (r, q) \<Rightarrow>
        s\<lparr>dl_ob := (dl_ob s)\<lparr>ob := (ob (dl_ob s))\<lparr>ob_queue := (fst (ob_queue (ob (dl_ob s))), q)\<rparr>\<rparr>,
          dl_taken := dl_taken s @ (case r of Inr (Some m) \<Rightarrow> [m] | _ \<Rightarrow> [])\<rparr>)"

inductive delivery_step ::
  "(string \<Rightarrow> (string, string) result) \<Rightarrow> (nat \<Rightarrow> string) \<Rightarrow> (message \<Rightarrow> 'b \<Rightarrow> unit rszero_result \<times> 'b)
   \<Rightarrow> (string \<Rightarrow> 'b \<Rightarrow> message option rszero_result \<times> 'b) \<Rightarrow> message_table
   \<Rightarrow> 'b delivery_system \<Rightarrow> delivery_event \<Rightarrow> 'b delivery_system \<Rightarrow> bool"
  for to_json uuid pub con tb where
  outbox: "ob_step (outbox_push to_json uuid pub) tb (dl_ob s) e b \<Longrightarrow>
    delivery_step to_json uuid pub con tb s (Outbox_Event e) (s\<lparr>dl_ob := b\<rparr>)"
| taken: "delivery_step to_json uuid pub con tb s (Take_From t) (take_from con t s)"

inductive_cases delivery_stepE: "delivery_step to_json uuid pub con tb s e t"

text \<open>A message carries a row when it has its topic and the JSON text of its payload.\<close>

definition carries :: "(string \<Rightarrow> (string, string) result) \<Rightarrow> message \<Rightarrow> outbox_row \<Rightarrow> bool" where
  "carries to_json m r \<longleftrightarrow> msg_topic m = ob_topic r \<and> to_json (ob_payload r) = Inr (msg_payload m)"

section \<open>Rows and messages\<close>

text \<open>The messages that are still queued under their topic, or were taken.\<close>

definition around :: "('b \<Rightarrow> string \<Rightarrow> message list) \<Rightarrow> message list \<Rightarrow> 'b \<Rightarrow> message set" where
  "around contents tk q = set tk \<union> {m. m \<in> set (contents q (msg_topic m))}"

definition rows_delivered :: "(string \<Rightarrow> (string, string) result) \<Rightarrow> message set \<Rightarrow> outbox_row list \<Rightarrow> bool" where
  "rows_delivered to_json M rs \<longleftrightarrow>
     distinct (map ob_msg_id rs)
   \<and> (\<forall>r \<in> set rs. ob_status r = StPublished \<longrightarrow> (\<exists>m \<in> M. carries to_json m r))
   \<and> (\<forall>m \<in> M. \<exists>r \<in> set rs. carries to_json m r)"

definition row_key :: "outbox_row \<Rightarrow> string \<times> string \<times> string" where
  "row_key r = (ob_msg_id r, ob_topic r, ob_payload r)"

lemma carries_key: "row_key r = row_key r' \<Longrightarrow> carries to_json m r = carries to_json m r'"
  by (simp add: row_key_def carries_def)

lemma map_row_keys: "(\<And>r. row_key (f r) = row_key r) \<Longrightarrow> map row_key (map f rs) = map row_key rs"
  by simp

lemma rows_same_keys:
  assumes ok: "rows_delivered to_json M rs" and keys: "map row_key rs' = map row_key rs" and M: "M \<subseteq> M'"
    and new: "\<And>m. m \<in> M' - M \<Longrightarrow> \<exists>r \<in> set rs. carries to_json m r"
    and published: "\<And>r. r \<in> set rs' \<Longrightarrow> ob_status r = StPublished \<Longrightarrow> \<exists>m \<in> M'. carries to_json m r"
  shows "rows_delivered to_json M' rs'"
proof -
  have "map ob_msg_id rs' = map ob_msg_id rs"
    using arg_cong [OF keys, of "map fst"] by (simp add: row_key_def comp_def)
  moreover have old: "\<forall>m \<in> M. \<exists>r \<in> set rs. carries to_json m r" using ok by (simp add: rows_delivered_def)
  have "\<exists>r \<in> set rs'. carries to_json m r" if "m \<in> M'" for m
  proof -
    have "\<exists>r \<in> set rs. carries to_json m r" by (cases "m \<in> M") (use that new [of m] old in simp_all)
    then obtain r where r: "r \<in> set rs" "carries to_json m r" by (rule bexE)
    have "row_key r \<in> set (map row_key rs')" using r(1) by (simp add: keys)
    then obtain r' where "r' \<in> set rs'" "row_key r' = row_key r" by auto
    then show ?thesis using carries_key [of r' r to_json m] r(2) by (intro bexI [of _ r']) simp_all
  qed
  ultimately show ?thesis using ok published by (simp add: rows_delivered_def)
qed

lemma update_unpublished:
  assumes "rows_delivered to_json M rs" and "st \<noteq> StPublished"
  shows "rows_delivered to_json M (map (\<lambda>x. if ob_msg_id x = i then x\<lparr>ob_retry := n, ob_status := st\<rparr> else x) rs)"
  using assms(1)
proof (rule rows_same_keys)
  let ?f = "\<lambda>x. if ob_msg_id x = i then x\<lparr>ob_retry := n, ob_status := st\<rparr> else x"
  show "map row_key (map ?f rs) = map row_key rs" by (rule map_row_keys) (simp add: row_key_def)
  fix r assume "r \<in> set (map ?f rs)" "ob_status r = StPublished"
  then have "r \<in> set rs" using assms(2) by (auto split: if_splits)
  then show "\<exists>m \<in> M. carries to_json m r" using assms(1) \<open>ob_status r = StPublished\<close> by (simp add: rows_delivered_def)
qed simp_all

lemma update_published:
  assumes ok: "rows_delivered to_json M rs" and key: "(i, tp, p) \<in> row_key ` set rs"
    and m: "msg_topic m = tp" "to_json p = Inr (msg_payload m)"
  shows "rows_delivered to_json (insert m M) rs"
    and "rows_delivered to_json (insert m M) (map (\<lambda>x. if ob_msg_id x = i then x\<lparr>ob_status := StPublished\<rparr> else x) rs)"
proof -
  let ?f = "\<lambda>x. if ob_msg_id x = i then x\<lparr>ob_status := StPublished\<rparr> else x"
  have old: "\<exists>m \<in> M. carries to_json m r" if "r \<in> set rs" "ob_status r = StPublished" for r
    using ok that by (simp add: rows_delivered_def)
  have same: "carries to_json m r" if "r \<in> set rs" "ob_msg_id r = i" for r
  proof -
    obtain r0 where r0: "r0 \<in> set rs" "row_key r0 = (i, tp, p)" using key by fastforce
    have "inj_on ob_msg_id (set rs)" using ok by (simp add: rows_delivered_def distinct_map)
    then have "r = r0" using that r0 by (auto simp: row_key_def inj_on_def)
    then show ?thesis using r0(2) m by (simp add: carries_def row_key_def)
  qed
  have one: "\<exists>r \<in> set rs. carries to_json m r"
    using key same by (force simp: row_key_def)
  show "rows_delivered to_json (insert m M) rs"
    using ok by (rule rows_same_keys) (use one old in auto)
  show "rows_delivered to_json (insert m M) (map ?f rs)"
    using ok
  proof (rule rows_same_keys)
    show "map row_key (map ?f rs) = map row_key rs" by (rule map_row_keys) (simp add: row_key_def)
    fix r assume r: "r \<in> set (map ?f rs)" "ob_status r = StPublished"
    then obtain r1 where r1: "r1 \<in> set rs" "r = ?f r1" by auto
    have "row_key r = row_key r1" by (simp add: r1 row_key_def)
    then show "\<exists>m \<in> insert m M. carries to_json m r"
      using same [OF r1(1)] old [OF r1(1)] r(2) r1(2) carries_key [of r r1] by (cases "ob_msg_id r1 = i") auto
  qed (use one in auto)
qed

lemma exec_update_rows:
  assumes "exec_stmt (update_row i f) b = (r, b')"
  shows "ob_queue b' = ob_queue b \<and> (ob_rows b' = ob_rows b \<or> ob_rows b' = map (\<lambda>x. if ob_msg_id x = i then f x else x) (ob_rows b))"
  using assms by (auto simp: exec_stmt_def update_row_def Let_def split: option.splits)

section \<open>Backends that lose nothing\<close>

text \<open>
  A publish that fails has not been carried out, or has been (the reply was lost); a consume that fails has taken
  nothing.
\<close>

locale lossless_backend = queue_backend pub con pen contents
  for pub :: "message \<Rightarrow> 's \<Rightarrow> unit rszero_result \<times> 's"
    and con :: "string \<Rightarrow> 's \<Rightarrow> message option rszero_result \<times> 's"
    and pen :: "string \<Rightarrow> 's \<Rightarrow> nat rszero_result \<times> 's"
    and contents :: "'s \<Rightarrow> string \<Rightarrow> message list" +
  assumes pub_err: "pub m s = (Inl e, s') \<Longrightarrow>
      contents s' = contents s \<or> contents s' = (contents s)(msg_topic m := contents s (msg_topic m) @ [m])"
    and con_err: "con t s = (Inl e, s') \<Longrightarrow> contents s' = contents s"
begin

lemma push_around:
  assumes "outbox_push to_json uuid pub t p q = (r, q')"
  shows "around contents tk (snd q') = around contents tk (snd q)
    \<and> (\<exists>e. r = Inl e)
    \<or> (\<exists>m. msg_topic m = t \<and> to_json p = Inr (msg_payload m) \<and> around contents tk (snd q') = insert m (around contents tk (snd q)))"
proof (cases "to_json p")
  case (Inl e)
  then show ?thesis using assms by (auto simp: outbox_push_def queue_push_def message_new_def)
next
  case (Inr j)
  let ?m = "\<lparr>msg_topic = t, msg_payload = j, msg_headers = Map.empty, msg_id = uuid (fst q)\<rparr>"
  have pub: "pub ?m (snd q) = (r, snd q')"
    using assms Inr by (auto simp: outbox_push_def queue_push_def message_new_def split: prod.splits)
  have put: "around contents tk s' = insert ?m (around contents tk s)"
    if "contents s' = (contents s)(t := contents s t @ [?m])" for s s'
    using that by (auto simp: around_def)
  have added: ?thesis if "contents (snd q') = (contents (snd q))(t := contents (snd q) t @ [?m])"
    using put [OF that] Inr by (intro disjI2 exI [of _ ?m]) simp
  show ?thesis
  proof (cases r)
    case (Inl e)
    then have "contents (snd q') = contents (snd q) \<or> contents (snd q') = (contents (snd q))(t := contents (snd q) t @ [?m])"
      using pub_err [of ?m "snd q" e "snd q'"] pub by simp
    then show ?thesis
    proof
      assume "contents (snd q') = contents (snd q)"
      then show ?thesis using Inl by (simp add: around_def)
    qed (rule added)
  next
    case (Inr u)
    then show ?thesis using pub_ok [of ?m "snd q" u "snd q'"] pub added by simp
  qed
qed

end

text \<open>
  The invariant: the published rows are those of messages that are around, every such message is that of a row, and
  what the publishers and the sweeper have in hand are rows of the table.
\<close>

definition well_placed :: "('b \<Rightarrow> string \<Rightarrow> message list) \<Rightarrow> 'b \<Rightarrow> bool" where
  "well_placed contents q \<longleftrightarrow> (\<forall>t. \<forall>m \<in> set (contents q t). msg_topic m = t)"

definition in_hand :: "'q ob_system \<Rightarrow> bool" where
  "in_hand s \<longleftrightarrow> set (inflight s) \<union> row_key ` set (snapshot s) \<subseteq> row_key ` set (ob_rows (ob s))"

definition outbox_delivered ::
  "(string \<Rightarrow> (string, string) result) \<Rightarrow> ('b \<Rightarrow> string \<Rightarrow> message list) \<Rightarrow> message list \<Rightarrow> (nat \<times> 'b) outbox \<Rightarrow> bool" where
  "outbox_delivered to_json contents tk b \<longleftrightarrow>
     rows_delivered to_json (around contents tk (snd (ob_queue b))) (ob_rows b) \<and> well_placed contents (snd (ob_queue b))"

definition delivery_inv ::
  "(string \<Rightarrow> (string, string) result) \<Rightarrow> ('b \<Rightarrow> string \<Rightarrow> message list) \<Rightarrow> 'b delivery_system \<Rightarrow> bool" where
  "delivery_inv to_json contents s \<longleftrightarrow> outbox_delivered to_json contents (dl_taken s) (ob (dl_ob s)) \<and> in_hand (dl_ob s)"

definition delivery_init :: "('b \<Rightarrow> string \<Rightarrow> message list) \<Rightarrow> 'b delivery_system \<Rightarrow> bool" where
  "delivery_init contents s \<longleftrightarrow> ob_init (dl_ob s) \<and> dl_taken s = [] \<and> (\<forall>t. contents (dl_queue s) t = [])"

lemma persist_delivered:
  assumes ok: "outbox_delivered to_json contents tk b" and p: "persist_message what u t p b = (r, b')"
  shows "outbox_delivered to_json contents tk b'
    \<and> row_key ` set (ob_rows b) \<subseteq> row_key ` set (ob_rows b') \<and> (\<forall>i. r = Inr i \<longrightarrow> (i, t, p) \<in> row_key ` set (ob_rows b'))"
proof -
  let ?row = "\<lparr>ob_msg_id = new_msg_id u, ob_topic = t, ob_payload = p, ob_status = StPending, ob_retry = 0\<rparr>"
  have q: "ob_queue b' = ob_queue b" and rows: "ob_rows b' = ob_rows b \<and> (\<exists>e. r = Inl e)
      \<or> ob_rows b' = ob_rows b @ [?row] \<and> r = Inr (new_msg_id u) \<and> new_msg_id u \<notin> set (map ob_msg_id (ob_rows b))"
    using p by (auto simp: persist_message_def exec_stmt_def insert_row_def Let_def split: option.splits if_splits)
  have grow: "rows_delivered to_json M (rs @ [?row])" if "rows_delivered to_json M rs" "new_msg_id u \<notin> set (map ob_msg_id rs)" for M rs
    using that by (auto simp: rows_delivered_def)
  from rows show ?thesis
  proof
    assume "ob_rows b' = ob_rows b \<and> (\<exists>e. r = Inl e)"
    then show ?thesis using ok q by (auto simp: outbox_delivered_def)
  next
    assume "ob_rows b' = ob_rows b @ [?row] \<and> r = Inr (new_msg_id u) \<and> new_msg_id u \<notin> set (map ob_msg_id (ob_rows b))"
    then show ?thesis using ok q grow by (simp add: outbox_delivered_def row_key_def subset_insertI)
  qed
qed

context lossless_backend
begin

lemma push_placed:
  assumes "outbox_push to_json uuid pub t p q = (r, q')" and "well_placed contents (snd q)"
  shows "well_placed contents (snd q')"
proof (cases "to_json p")
  case (Inl e)
  then show ?thesis using assms by (auto simp: outbox_push_def queue_push_def message_new_def)
next
  case (Inr j)
  let ?m = "\<lparr>msg_topic = t, msg_payload = j, msg_headers = Map.empty, msg_id = uuid (fst q)\<rparr>"
  have pub: "pub ?m (snd q) = (r, snd q')"
    using assms(1) Inr by (auto simp: outbox_push_def queue_push_def message_new_def split: prod.splits)
  have "contents (snd q') = contents (snd q) \<or> contents (snd q') = (contents (snd q))(t := contents (snd q) t @ [?m])"
    using pub pub_err [of ?m "snd q"] pub_ok [of ?m "snd q"] by (cases r) auto
  then show ?thesis using assms(2) by (auto simp: well_placed_def split: if_splits)
qed

lemma try_publish_delivers:
  assumes ok: "outbox_delivered to_json contents tk b" and key: "(i, t, p) \<in> row_key ` set (ob_rows b)"
    and step: "try_publish (outbox_push to_json uuid pub) i t p b = (r, b')"
  shows "outbox_delivered to_json contents tk b' \<and> map row_key (ob_rows b') = map row_key (ob_rows b)"
proof -
  let ?M = "\<lambda>q. around contents tk (snd q)"
  obtain x q where push: "outbox_push to_json uuid pub t p (ob_queue b) = (x, q)"
    by (cases "outbox_push to_json uuid pub t p (ob_queue b)") simp
  have placed: "well_placed contents (snd q)" using push_placed [OF push] ok by (simp add: outbox_delivered_def)
  have ok': "rows_delivered to_json (?M (ob_queue b)) (ob_rows b)" using ok by (simp add: outbox_delivered_def)
  let ?f = "\<lambda>x. if ob_msg_id x = i then x\<lparr>ob_status := StPublished\<rparr> else x"
  have b': "ob_queue b' = q" and rows: "ob_rows b' = ob_rows b \<or> (\<exists>u. x = Inr u) \<and> ob_rows b' = map ?f (ob_rows b)"
    using step push exec_update_rows [of i "\<lambda>r. r\<lparr>ob_status := StPublished\<rparr>" "b\<lparr>ob_queue := q, ob_pushed := i # ob_pushed b\<rparr>"]
    by (auto simp: try_publish_def split: sum.splits prod.splits)
  have keys: "map row_key (ob_rows b') = map row_key (ob_rows b)"
    using rows map_row_keys [of ?f "ob_rows b"] by (auto simp: row_key_def)
  from push_around [OF push, of tk] have "rows_delivered to_json (?M q) (ob_rows b')"
  proof
    assume "?M q = ?M (ob_queue b) \<and> (\<exists>e. x = Inl e)"
    then show ?thesis using rows ok' by auto
  next
    assume "\<exists>m. msg_topic m = t \<and> to_json p = Inr (msg_payload m) \<and> ?M q = insert m (?M (ob_queue b))"
    then obtain m where m: "msg_topic m = t" "to_json p = Inr (msg_payload m)" "?M q = insert m (?M (ob_queue b))" by blast
    show ?thesis using rows update_published [OF ok' key m(1,2)] unfolding m(3) by auto
  qed
  then show ?thesis using placed keys by (simp add: outbox_delivered_def b')
qed

lemma sweep_row_delivers:
  assumes ok: "outbox_delivered to_json contents tk b" and key: "row_key r \<in> row_key ` set (ob_rows b)"
    and step: "sweep_row (outbox_push to_json uuid pub) tb r b = (d, b')"
  shows "outbox_delivered to_json contents tk b' \<and> map row_key (ob_rows b') = map row_key (ob_rows b)"
proof -
  obtain x b1 where tried: "try_publish (outbox_push to_json uuid pub) (ob_msg_id r) (ob_topic r) (ob_payload r) b = (x, b1)"
    by (cases "try_publish (outbox_push to_json uuid pub) (ob_msg_id r) (ob_topic r) (ob_payload r) b") simp
  have b1: "outbox_delivered to_json contents tk b1" "map row_key (ob_rows b1) = map row_key (ob_rows b)"
    using try_publish_delivers [OF ok _ tried] key by (simp_all add: row_key_def)
  let ?n = "ob_retry r + 1"
  let ?st = "if sint (mt_max_retries tb) \<le> ?n then StFailed else StPending"
  let ?f = "\<lambda>x. if ob_msg_id x = ob_msg_id r then x\<lparr>ob_retry := ?n, ob_status := ?st\<rparr> else x"
  have "b' = b1 \<or> b' = snd (exec_stmt (update_row (ob_msg_id r) (\<lambda>x. x\<lparr>ob_retry := ?n, ob_status := ?st\<rparr>)) b1)"
    using step tried by (auto simp: sweep_row_def Let_def split: sum.splits)
  then have "ob_queue b' = ob_queue b1 \<and> (ob_rows b' = ob_rows b1 \<or> ob_rows b' = map ?f (ob_rows b1))"
    using exec_update_rows [of "ob_msg_id r" "\<lambda>x. x\<lparr>ob_retry := ?n, ob_status := ?st\<rparr>" b1] surjective_pairing by blast
  moreover have "map row_key (map ?f (ob_rows b1)) = map row_key (ob_rows b1)" by (rule map_row_keys) (simp add: row_key_def)
  ultimately show ?thesis
    using b1 update_unpublished [of to_json _ "ob_rows b1" ?st "ob_msg_id r" ?n] by (auto simp: outbox_delivered_def)
qed

end

lemma subset_via: "X \<subseteq> Y \<Longrightarrow> Z \<subseteq> X \<union> W \<Longrightarrow> Y \<subseteq> W \<Longrightarrow> Z \<subseteq> W"
  by blast

lemma in_hand_keys:
  "in_hand s \<Longrightarrow> set (inflight s') \<union> row_key ` set (snapshot s') \<subseteq> set (inflight s) \<union> row_key ` set (snapshot s) \<union> row_key ` set (ob_rows (ob s')) \<Longrightarrow>
   row_key ` set (ob_rows (ob s)) \<subseteq> row_key ` set (ob_rows (ob s')) \<Longrightarrow> in_hand s'"
  unfolding in_hand_def by (rule subset_via)

lemma set_keys: "map row_key rs' = map row_key rs \<Longrightarrow> row_key ` set rs' = row_key ` set rs"
  by (metis set_map)

context lossless_backend
begin

lemma ob_step_delivers:
  assumes ok: "outbox_delivered to_json contents tk (ob s)" and hand: "in_hand s"
    and step: "ob_step (outbox_push to_json uuid pub) tb s e s'"
  shows "outbox_delivered to_json contents tk (ob s') \<and> in_hand s'"
  using step
proof (cases rule: ob_step.cases)
  case (ins u t p i b)
  from persist_delivered [OF ok ins(3)] have b: "outbox_delivered to_json contents tk b"
    "row_key ` set (ob_rows (ob s)) \<subseteq> row_key ` set (ob_rows b)" "(i, t, p) \<in> row_key ` set (ob_rows b)" by simp_all
  show ?thesis
  proof
    show "in_hand s'" by (rule in_hand_keys [OF hand]) (use b ins in auto)
  qed (simp add: ins b)
next
  case (ins_err u t p er b)
  from persist_delivered [OF ok ins_err(3)] have b: "outbox_delivered to_json contents tk b"
    "row_key ` set (ob_rows (ob s)) \<subseteq> row_key ` set (ob_rows b)" by simp_all
  show ?thesis
  proof
    show "in_hand s'" by (rule in_hand_keys [OF hand]) (use b ins_err in auto)
  qed (simp add: ins_err b)
next
  case (txn u t p i b)
  from persist_delivered [OF ok txn(3) [unfolded publish_reliable_in_txn_def]] have b: "outbox_delivered to_json contents tk b"
    "row_key ` set (ob_rows (ob s)) \<subseteq> row_key ` set (ob_rows b)" by simp_all
  show ?thesis
  proof
    show "in_hand s'" by (rule in_hand_keys [OF hand]) (use b txn in auto)
  qed (simp add: txn b)
next
  case (immediate n i t p)
  obtain r b where b: "try_publish (outbox_push to_json uuid pub) i t p (ob s) = (r, b)"
    by (cases "try_publish (outbox_push to_json uuid pub) i t p (ob s)") simp
  have "(i, t, p) \<in> row_key ` set (ob_rows (ob s))" using hand immediate(3,4) nth_mem by (fastforce simp: in_hand_def)
  then have d: "outbox_delivered to_json contents tk b" "row_key ` set (ob_rows b) = row_key ` set (ob_rows (ob s))"
    using try_publish_delivers [OF ok _ b] set_keys by blast+
  show ?thesis
  proof
    show "in_hand s'"
      by (rule in_hand_keys [OF hand]) (use d immediate b in \<open>auto dest: in_set_takeD in_set_dropD\<close>)
  qed (simp add: immediate b d)
next
  case start
  show ?thesis
  proof
    show "in_hand s'" by (rule in_hand_keys [OF hand]) (auto simp: start sweep_query_def dest: in_set_takeD)
  qed (simp add: start ok)
next
  case (nxt r rs)
  obtain x b where b: "sweep_row (outbox_push to_json uuid pub) tb r (ob s) = (x, b)"
    by (cases "sweep_row (outbox_push to_json uuid pub) tb r (ob s)") simp
  have "row_key r \<in> row_key ` set (ob_rows (ob s))" using hand nxt by (simp add: in_hand_def)
  then have d: "outbox_delivered to_json contents tk b" "row_key ` set (ob_rows b) = row_key ` set (ob_rows (ob s))"
    using sweep_row_delivers [OF ok _ b] set_keys by blast+
  show ?thesis
  proof
    show "in_hand s'" by (rule in_hand_keys [OF hand]) (use d nxt b in auto)
  qed (simp add: nxt b d)
qed

lemma take_delivers:
  assumes "delivery_inv to_json contents s"
  shows "delivery_inv to_json contents (take_from con t s)"
proof -
  obtain r q where c: "con t (dl_queue s) = (r, q)" by (cases "con t (dl_queue s)") simp
  let ?tk = "case r of Inr (Some m) \<Rightarrow> [m] | _ \<Rightarrow> []"
  have placed: "well_placed contents (dl_queue s)"
    using assms by (simp add: delivery_inv_def outbox_delivered_def dl_queue_def)
  have "well_placed contents q \<and> around contents (dl_taken s @ ?tk) q = around contents (dl_taken s) (dl_queue s)"
  proof (cases r)
    case (Inl e)
    then have "contents q = contents (dl_queue s)" using con_err c by blast
    then show ?thesis using placed Inl by (simp add: well_placed_def around_def)
  next
    case (Inr x)
    show ?thesis
    proof (cases "contents (dl_queue s) t")
      case Nil
      then have "x = None" "contents q = contents (dl_queue s)" using con_ok [of t "dl_queue s" x q] c Inr by simp_all
      then show ?thesis using placed Inr by (simp add: well_placed_def around_def)
    next
      case (Cons m ms)
      then have x: "x = Some m" "contents q = (contents (dl_queue s))(t := ms)"
        using con_ok [of t "dl_queue s" x q] c Inr by simp_all
      have "msg_topic m = t" using placed Cons by (simp add: well_placed_def)
      then have "around contents (dl_taken s @ [m]) q = around contents (dl_taken s) (dl_queue s)"
        using Cons by (auto simp: around_def x)
      moreover have "well_placed contents q" using placed Cons by (simp add: well_placed_def x)
      ultimately show ?thesis by (simp add: Inr x)
    qed
  qed
  then show ?thesis
    using assms c by (simp add: delivery_inv_def outbox_delivered_def take_from_def in_hand_def dl_queue_def)
qed

lemma delivery_step_inv:
  "delivery_inv to_json contents s \<Longrightarrow> delivery_step to_json uuid pub con tb s e s' \<Longrightarrow> delivery_inv to_json contents s'"
proof (erule delivery_stepE)
  fix f b assume inv: "delivery_inv to_json contents s" and s': "s' = s\<lparr>dl_ob := b\<rparr>"
    and step: "ob_step (outbox_push to_json uuid pub) tb (dl_ob s) f b"
  show ?thesis
    using ob_step_delivers [OF _ _ step, where tk = "dl_taken s"] inv by (simp add: delivery_inv_def s')
qed (simp add: take_delivers)

lemma delivery_invariant:
  "inductive_invariant (delivery_init contents) (delivery_step to_json uuid pub con tb) (delivery_inv to_json contents)"
proof unfold_locales
  fix s assume "delivery_init contents s"
  then show "delivery_inv to_json contents s"
    by (simp add: delivery_init_def delivery_inv_def outbox_delivered_def rows_delivered_def around_def well_placed_def in_hand_def ob_init_def dl_queue_def)
next
  fix s e s' assume "delivery_inv to_json contents s" and "delivery_step to_json uuid pub con tb s e s'"
  then show "delivery_inv to_json contents s'" by (rule delivery_step_inv)
qed

end

interpretation memory_outbox: lossless_backend memory_publish memory_consume memory_pending memory_contents
  by unfold_locales (simp_all add: memory_publish_def memory_consume_def split: option.splits list.splits)

section \<open>Properties\<close>


text \<open>A message that is published at once and taken.\<close>

definition demo_delivery :: "outbox_row list \<Rightarrow> nat \<Rightarrow> nat \<times> memory_backend \<Rightarrow> string list \<Rightarrow> (string \<times> string \<times> string) list \<Rightarrow> string list \<Rightarrow> message list \<Rightarrow> memory_backend delivery_system" where
  "demo_delivery rs n q ps fl acc tk =
     \<lparr>dl_ob = \<lparr>ob = \<lparr>ob_rows = rs, ob_stmts = n, ob_err = \<lambda>_. None, ob_queue = q, ob_pushed = ps\<rparr>, inflight = fl, snapshot = [], accepted = acc\<rparr>,
      dl_taken = tk\<rparr>"

definition demo_envelope :: message where
  "demo_envelope = \<lparr>msg_topic = ''t'', msg_payload = [CHR 0x22] @ ''p'' @ [CHR 0x22], msg_headers = Map.empty, msg_id = ''e''\<rparr>"

definition demo_json :: "string \<Rightarrow> (string, string) result" where
  "demo_json p = Ok ([CHR 0x22] @ p @ [CHR 0x22])"

abbreviation demo_id :: string where
  "demo_id \<equiv> ''rszero:msg:u''"

lemma demo_delivery_run:
  "run (delivery_step demo_json (\<lambda>_. ''e'') memory_publish memory_consume demo_table)
     (demo_delivery [] 0 (0, memory_new) [] [] [] [])
     [Outbox_Event (Insert ''u'' ''t'' ''p''), Outbox_Event (Immediate 0), Take_From ''t'']
     (demo_delivery [demo_row StPublished 0] 2 (1, [''t'' \<mapsto> []]) [demo_id] [] [demo_id] [demo_envelope])"
proof (intro run_Cons run_Nil)
  let ?step = "delivery_step demo_json (\<lambda>_. ''e'') memory_publish memory_consume demo_table"
  let ?a = "demo_delivery [] 0 (0, memory_new) [] [] [] []"
  let ?b = "demo_delivery [demo_row StPending 0] 1 (0, memory_new) [] [(demo_id, ''t'', ''p'')] [demo_id] []"
  let ?c = "demo_delivery [demo_row StPublished 0] 2 (1, [''t'' \<mapsto> [demo_envelope]]) [demo_id] [] [demo_id] []"
  let ?d = "demo_delivery [demo_row StPublished 0] 2 (1, [''t'' \<mapsto> []]) [demo_id] [] [demo_id] [demo_envelope]"
  have "ob_step (outbox_push demo_json (\<lambda>_. ''e'') memory_publish) demo_table (dl_ob ?a) (Insert ''u'' ''t'' ''p'') (dl_ob ?b)"
    by (simp add: ob_step.simps demo_delivery_def demo_row_def persist_message_def exec_stmt_def insert_row_def new_msg_id_def)
  from delivery_step.outbox [OF this] show "?step ?a (Outbox_Event (Insert ''u'' ''t'' ''p'')) ?b"
    by (simp add: demo_delivery_def)
  have "ob_step (outbox_push demo_json (\<lambda>_. ''e'') memory_publish) demo_table (dl_ob ?b) (Immediate 0) (dl_ob ?c)"
    by (simp add: ob_step.simps demo_delivery_def demo_row_def try_publish_def outbox_push_def queue_push_def message_new_def
        demo_json_def memory_publish_def memory_new_def exec_stmt_def update_row_def demo_envelope_def)
  from delivery_step.outbox [OF this] show "?step ?b (Outbox_Event (Immediate 0)) ?c"
    by (simp add: demo_delivery_def)
  have "?d = take_from memory_consume ''t'' ?c"
    by (simp add: take_from_def demo_delivery_def dl_queue_def memory_consume_def)
  then show "?step ?c (Take_From ''t'') ?d" by (simp only: delivery_step.taken)
qed (rule run_Nil)


end
