(* ===== verification/Tenant_Http.thy ===== *)
theory Tenant_Http
  imports Tenant_Service
begin

text \<open>
  The tenant service as its clients see it (\<open>examples/tenant-management/src/main.rs\<close>): a request passes the tenant
  validation, the administrator check on the routes that have it, and reaches a handler; requests of all
  tenants and of administrators come in any order.  The matching of a request to a handler with its arguments is axum's,
  the rendering of an answer serde's, and both are parameters.
\<close>

section \<open>The application\<close>

datatype tenant_call =
    Call_Health | Call_Ready
  | Call_List_Tenants | Call_Create_Tenant create_tenant_req | Call_Get_Tenant int | Call_Update_Tenant int update_tenant_req
  | Call_Delete_Tenant int
  | Call_List_Users | Call_Create_User create_user_req | Call_Get_User int | Call_Update_User int update_user_req | Call_Delete_User int

datatype tenant_reply =
    Reply_Unit "unit api_response" | Reply_Tenant "tenant api_response" | Reply_Tenants "tenant list api_response"
  | Reply_User "user api_response" | Reply_Users "user list api_response"

fun behind_admin_guard :: "tenant_call \<Rightarrow> bool" where
  "behind_admin_guard Call_List_Users = False"
| "behind_admin_guard (Call_Create_User req) = False"
| "behind_admin_guard (Call_Get_User i) = False"
| "behind_admin_guard (Call_Update_User i req) = False"
| "behind_admin_guard (Call_Delete_User i) = False"
| "behind_admin_guard _ = True"

definition health_handler :: "unit api_response" where
  "health_handler = api_ok_empty"

fun tenant_handle :: "tenant_context \<Rightarrow> tenant_call \<Rightarrow> tenant_db \<Rightarrow> tenant_reply \<times> tenant_db" where
  "tenant_handle c Call_Health db = (Reply_Unit health_handler, db)"
| "tenant_handle c Call_Ready db = map_prod Reply_Unit id (ready_handler db)"
| "tenant_handle c Call_List_Tenants db = map_prod Reply_Tenants id (list_tenants db)"
| "tenant_handle c (Call_Create_Tenant req) db = map_prod Reply_Tenant id (create_tenant req db)"
| "tenant_handle c (Call_Get_Tenant i) db = map_prod Reply_Tenant id (get_tenant i db)"
| "tenant_handle c (Call_Update_Tenant i req) db = map_prod Reply_Tenant id (update_tenant i req db)"
| "tenant_handle c (Call_Delete_Tenant i) db = map_prod Reply_Unit id (delete_tenant i db)"
| "tenant_handle c Call_List_Users db = map_prod Reply_Users id (list_users c db)"
| "tenant_handle c (Call_Create_User req) db = map_prod Reply_User id (create_user c req db)"
| "tenant_handle c (Call_Get_User i) db = map_prod Reply_User id (get_user c i db)"
| "tenant_handle c (Call_Update_User i req) db = map_prod Reply_User id (update_user c i req db)"
| "tenant_handle c (Call_Delete_User i) db = map_prod Reply_Unit id (delete_user c i db)"

definition tenant_endpoint :: "(tenant_reply \<Rightarrow> http_response) \<Rightarrow> tenant_context \<Rightarrow> tenant_call \<Rightarrow> tenant_world handler" where
  "tenant_endpoint render c call req w =
     (case tenant_handle c call (tw_db w) of (r, db') \<Rightarrow> (render r, w\<lparr>tw_db := db'\<rparr>))"

text \<open>
  A request that matches no route, or whose arguments do not parse, is answered with \<open>reject\<close> behind the same
  layers.
\<close>

definition tenant_http ::
  "(http_request \<Rightarrow> tenant_call option) \<Rightarrow> (tenant_reply \<Rightarrow> http_response) \<Rightarrow> http_response \<Rightarrow> instant \<Rightarrow> tenant_world handler" where
  "tenant_http decode render reject now =
     tenant_validation_middleware now (\<lambda>c req w.
       case decode req of
         None \<Rightarrow> (reject, w)
       | Some call \<Rightarrow>
           if behind_admin_guard call then admin_guard_middleware (tenant_endpoint render c call) req w
           else tenant_endpoint render c call req w)"

text \<open>A history of requests with the times at which they come.\<close>

fun serve_requests ::
  "(http_request \<Rightarrow> tenant_call option) \<Rightarrow> (tenant_reply \<Rightarrow> http_response) \<Rightarrow> http_response
   \<Rightarrow> (instant \<times> http_request) list \<Rightarrow> tenant_world \<Rightarrow> tenant_world" where
  "serve_requests decode render reject [] w = w"
| "serve_requests decode render reject ((now, req) # rs) w =
     serve_requests decode render reject rs (snd (tenant_http decode render reject now req w))"

section \<open>The table of tenants\<close>

definition tenant_keys :: "tenant_db \<Rightarrow> (int \<times> string) list" where
  "tenant_keys db = map (\<lambda>r. (tr_id r, tr_slug r)) (td_tenants db)"

text \<open>Identifiers are handed out in increasing order and slugs are unique, so that each determines the other.\<close>

definition tenants_ok :: "tenant_db \<Rightarrow> bool" where
  "tenants_ok db \<longleftrightarrow>
     distinct (map fst (tenant_keys db)) \<and> distinct (map snd (tenant_keys db)) \<and> list_all (\<lambda>k. fst k < td_next_tenant db) (tenant_keys db)"

definition orderly :: "'a sql \<Rightarrow> bool" where
  "orderly m \<longleftrightarrow> (\<forall>db. tenants_ok db \<longrightarrow> tenants_ok (snd (m db)) \<and> set (tenant_keys db) \<subseteq> set (tenant_keys (snd (m db))))"

definition keeps_users :: "'a sql \<Rightarrow> bool" where
  "keeps_users m \<longleftrightarrow> (\<forall>db. td_users (snd (m db)) = td_users db)"

named_theorems table_intros

lemma keys_faults [simp]: "tenant_keys (db\<lparr>td_faults := fs\<rparr>) = tenant_keys db" "tenants_ok (db\<lparr>td_faults := fs\<rparr>) = tenants_ok db"
  by (simp_all add: tenant_keys_def tenants_ok_def)

lemma keys_users [simp]: "tenant_keys (db\<lparr>td_users := us\<rparr>) = tenant_keys db" "tenants_ok (db\<lparr>td_users := us\<rparr>) = tenants_ok db"
  "tenant_keys (db\<lparr>td_next_user := n\<rparr>) = tenant_keys db" "tenants_ok (db\<lparr>td_next_user := n\<rparr>) = tenants_ok db"
  by (simp_all add: tenant_keys_def tenants_ok_def)

lemma orderlyI: "(\<And>db. tenants_ok db \<Longrightarrow> tenants_ok (snd (m db)) \<and> set (tenant_keys db) \<subseteq> set (tenant_keys (snd (m db)))) \<Longrightarrow> orderly m"
  by (simp add: orderly_def)

lemma orderlyD:
  assumes "orderly m" "tenants_ok db"
  shows "tenants_ok (snd (m db))" "set (tenant_keys db) \<subseteq> set (tenant_keys (snd (m db)))"
  using assms by (simp_all add: orderly_def)

lemma orderly_then [table_intros]: "orderly m \<Longrightarrow> (\<And>x. orderly (f x)) \<Longrightarrow> orderly (sql_then m f)"
proof (rule orderlyI)
  fix db assume m: "orderly m" and f: "\<And>x. orderly (f x)" and db: "tenants_ok db"
  note d = orderlyD [OF m db]
  show "tenants_ok (snd (sql_then m f db)) \<and> set (tenant_keys db) \<subseteq> set (tenant_keys (snd (sql_then m f db)))"
    unfolding sql_then_parts using d orderlyD [OF f d(1)] by (auto split: sum.split)
qed

lemma orderly_same: "(\<And>db. tenant_keys (snd (m db)) = tenant_keys db \<and> tenants_ok (snd (m db)) = tenants_ok db) \<Longrightarrow> orderly m"
  by (simp add: orderly_def)

lemma orderly_run: "orderly m \<Longrightarrow> orderly (sql_run m)"
proof (rule orderlyI)
  fix db assume m: "orderly m" and db: "tenants_ok db"
  then have "tenants_ok (db\<lparr>td_faults := tl (td_faults db)\<rparr>)" by simp
  from orderlyD [OF m this] db show "tenants_ok (snd (sql_run m db)) \<and> set (tenant_keys db) \<subseteq> set (tenant_keys (snd (sql_run m db)))"
    by (simp add: sql_run_parts)
qed

lemma orderly_basic [table_intros]:
  "orderly (sql_return x)" "orderly (\<lambda>db. (Inl e, db))" "orderly (fetch_one P rows)" "orderly tenant_list"
  unfolding fetch_one_def tenant_list_def by (intro orderly_run orderly_same; simp add: sql_return_def)+

lemma orderly_users [table_intros]:
  "orderly (count_users t)" "orderly (insert_user t n e r)" "orderly (update_users f t i)" "orderly (update_user_email e t i)"
  "orderly (delete_users t i)" "orderly (user_list t)"
  unfolding count_users_def insert_user_def update_users_def update_user_email_def delete_users_def user_list_def
  by (intro orderly_run orderly_same; simp)+

lemma orderly_find [table_intros]: "orderly (user_find t i)"
  using orderly_basic(3) unfolding orderly_def user_find_parts by blast

lemma orderly_if [table_intros]: "orderly m \<Longrightarrow> orderly n \<Longrightarrow> orderly (if c then m else n)"
  by simp

lemma orderly_when [table_intros]: "(\<And>x. orderly (f x)) \<Longrightarrow> orderly (when_some o' f)"
  by (cases o') (simp_all add: when_some_def orderly_basic)

lemma orderly_update_tenants [table_intros]:
  assumes "\<And>r. tr_id (f r) = tr_id r \<and> tr_slug (f r) = tr_slug r"
  shows "orderly (update_tenants f i)"
  unfolding update_tenants_def
proof (intro orderly_run orderly_same)
  fix db
  let ?f = "\<lambda>r. if tr_id r = i then f r else r"
  have "tenant_keys (db\<lparr>td_tenants := map ?f (td_tenants db)\<rparr>) = tenant_keys db"
    using assms by (simp add: tenant_keys_def)
  then show "tenant_keys (snd (Ok (), db\<lparr>td_tenants := map ?f (td_tenants db)\<rparr>)) = tenant_keys db
      \<and> tenants_ok (snd (Ok (), db\<lparr>td_tenants := map ?f (td_tenants db)\<rparr>)) = tenants_ok db"
    by (simp add: tenants_ok_def)
qed

lemma orderly_insert_tenant [table_intros]: "orderly (insert_tenant n s st p u q)"
  unfolding insert_tenant_def by (rule orderly_run) (auto simp: orderly_def tenants_ok_def tenant_keys_def list_ex_iff list_all_iff)

lemma orderly_services:
  "orderly (tenant_create creq)" "orderly (tenant_find i)" "orderly (tenant_update i ureq)" "orderly (tenant_delete i)"
  "orderly (user_create t cu)" "orderly (user_update t i uu)" "orderly (user_delete t i)"
  unfolding tenant_create_def tenant_find_def tenant_update_def tenant_delete_def user_create_def user_update_def user_delete_def
  by (intro table_intros; simp)+

section \<open>Handlers\<close>

lemma keeps_users_intros [table_intros]:
  "keeps_users m \<Longrightarrow> (\<And>x. keeps_users (f x)) \<Longrightarrow> keeps_users (sql_then m f)" "keeps_users (sql_return x)"
  "keeps_users (fetch_one P rows)" "keeps_users tenant_list" "keeps_users (update_tenants g i)" "keeps_users (insert_tenant n s st p u q)"
  unfolding fetch_one_def tenant_list_def update_tenants_def insert_tenant_def
  by (simp_all add: keeps_users_def sql_then_parts sql_run_parts sql_return_def split: sum.splits)

lemma keeps_users_when [table_intros]: "(\<And>x. keeps_users (f x)) \<Longrightarrow> keeps_users (when_some o' f)"
  by (cases o') (simp_all add: when_some_def keeps_users_intros)

lemma keeps_users_services:
  "keeps_users (tenant_create req)" "keeps_users (tenant_find i)" "keeps_users (tenant_update i ureq)" "keeps_users (tenant_delete i)"
  unfolding tenant_create_def tenant_find_def tenant_update_def tenant_delete_def by (intro table_intros)+

text \<open>A handler leaves the database as the service it calls.\<close>

lemma handler_dbs:
  "snd (list_tenants db) = snd (tenant_list db)" "snd (get_tenant i db) = snd (tenant_find i db)"
  "snd (update_tenant i ureq db) = snd (tenant_update i ureq db)" "snd (delete_tenant i db) = snd (tenant_delete i db)"
  "snd (create_tenant creq db) = (if ct_name creq = [] \<or> ct_slug creq = [] then db else snd (tenant_create creq db))"
  "snd (list_users c db) = snd (user_list (tc_tenant_id c) db)" "snd (get_user c i db) = snd (user_find (tc_tenant_id c) i db)"
  "snd (update_user c i uu db) = snd (user_update (tc_tenant_id c) i uu db)" "snd (delete_user c i db) = snd (user_delete (tc_tenant_id c) i db)"
  "snd (create_user c cu db) = (if cu_name cu = [] \<or> cu_email cu = [] then db else snd (user_create (tc_tenant_id c) cu db))"
  "\<exists>fs. snd (ready_handler db) = db\<lparr>td_faults := fs\<rparr>"
  by (auto simp: list_tenants_def get_tenant_def update_tenant_def delete_tenant_def create_tenant_def list_users_def get_user_def
      update_user_def delete_user_def create_user_def ready_handler_def sql_run_parts split: prod.splits sum.splits)

lemma ready_users: "td_users (snd (ready_handler db)) = td_users db"
  using handler_dbs(11) [of db] by (elim exE) simp

lemma handle_orderly:
  assumes ok: "tenants_ok db"
  shows "tenants_ok (snd (tenant_handle c call db)) \<and> set (tenant_keys db) \<subseteq> set (tenant_keys (snd (tenant_handle c call db)))"
proof (cases call)
  case Call_Ready
  then show ?thesis using ok handler_dbs(11) [of db] by auto
qed (use ok orderlyD [OF orderly_services(1) ok] orderlyD [OF orderly_services(2) ok] orderlyD [OF orderly_services(3) ok]
    orderlyD [OF orderly_services(4) ok] orderlyD [OF orderly_services(5) ok] orderlyD [OF orderly_services(6) ok]
    orderlyD [OF orderly_services(7) ok] orderlyD [OF orderly_find ok] orderlyD [OF orderly_basic(4) ok] orderlyD [OF orderly_users(6) ok]
    in \<open>simp_all add: handler_dbs\<close>)

lemma handle_users:
  assumes "behind_admin_guard call \<or> t \<noteq> tc_tenant_id c"
  shows "user_view t (snd (tenant_handle c call db)) = user_view t db"
proof (cases "behind_admin_guard call")
  case True
  then have "td_users (snd (tenant_handle c call db)) = td_users db"
    using keeps_users_services keeps_users_intros(4)
    by (cases call) (auto simp: handler_dbs ready_users keeps_users_def)
  then show ?thesis by (simp add: user_view_def)
next
  case False
  then have t: "t \<noteq> tc_tenant_id c" using assms by simp
  let ?t = "tc_tenant_id c"
  show ?thesis
    using False t confined_list [of ?t ?t] confined_find [of ?t ?t] confined_ops [of ?t]
    by (cases call) (simp_all add: handler_dbs confined_def)
qed

fun users_shown :: "tenant_reply \<Rightarrow> user list" where
  "users_shown (Reply_User r) = (case ar_data r of Some u \<Rightarrow> [u] | None \<Rightarrow> [])"
| "users_shown (Reply_Users r) = (case ar_data r of Some us \<Rightarrow> us | None \<Rightarrow> [])"
| "users_shown _ = []"

lemma api_data [simp]: "ar_data (api_ok d) = Some d" "ar_data (api_err k m) = None"
  by (simp_all add: api_ok_def api_err_def)

text \<open>A handler shows what the operation of the service returns.\<close>

lemma shown_by_service:
  assumes "u \<in> set (users_shown (fst (tenant_handle c call db)))"
  shows "\<exists>op us db'. user_serve (tc_tenant_id c) op db = (Inr us, db') \<and> u \<in> set us"
proof (cases call)
  case Call_List_Users
  then show ?thesis using assms by (intro exI [of _ Op_List]) (auto simp: list_users_def split: prod.splits sum.splits)
next
  case (Call_Create_User req)
  then show ?thesis using assms
    by (intro exI [of _ "Op_Create req"]) (auto simp: create_user_def sql_map_def sql_then_def sql_return_def split: prod.splits sum.splits if_splits)
next
  case (Call_Get_User i)
  then show ?thesis using assms
    by (intro exI [of _ "Op_Get i"]) (auto simp: get_user_def sql_map_def sql_then_def sql_return_def split: prod.splits sum.splits)
next
  case (Call_Update_User i req)
  then show ?thesis using assms
    by (intro exI [of _ "Op_Update i req"]) (auto simp: update_user_def sql_map_def sql_then_def sql_return_def split: prod.splits sum.splits)
qed (use assms in simp_all)

lemma handle_shows_own:
  assumes "u \<in> set (users_shown (fst (tenant_handle c call db)))"
  shows "us_tenant_id u = tc_tenant_id c"
proof -
  obtain op us db' where "user_serve (tc_tenant_id c) op db = (Inr us, db')" "u \<in> set us"
    using shown_by_service [OF assms] by blast
  then have "u \<in> user_of_row ` set (user_view (tc_tenant_id c) db')" using user_serve_shows unfolding shows_own_def by blast
  then show ?thesis by (auto simp: user_of_row_def user_view_def)
qed

section \<open>Requests\<close>

text \<open>The answers given before a handler is reached.\<close>

definition refusals :: "http_response \<Rightarrow> http_response set" where
  "refusals reject = {status_json 400 ''missing X-Tenant-ID header'', status_json 403 ''tenant not found or inactive'',
     status_json 429 ''tenant rate limit exceeded'', status_json 401 ''admin access required'', reject}"

lemma fetch_tenant:
  assumes "fetch_one P td_tenants db = (x, db')"
  shows "\<exists>fs. db' = db\<lparr>td_faults := fs\<rparr> \<and> (\<forall>r. x = Inr r \<longrightarrow> r \<in> set (td_tenants db) \<and> P r)"
proof -
  have "db' = db\<lparr>td_faults := tl (td_faults db)\<rparr> \<and> (\<forall>r. x = Inr r \<longrightarrow> List.find P (td_tenants db) = Some r)"
    using assms by (auto simp: fetch_one_def sql_run_parts split: if_splits option.splits)
  then show ?thesis by (metis find_Some_iff nth_mem)
qed

lemma tenant_http_cases:
  assumes "tenant_http decode render reject now req w = (resp, w')"
  obtains (refused) fs where "resp \<in> refusals reject" "tw_db w' = (tw_db w)\<lparr>td_faults := fs\<rparr>"
  | (handled) fs r c call where "r \<in> set (td_tenants (tw_db w))" "header_str ''x-tenant-id'' req = Some (tr_slug r)" "tr_status r = ''active''"
      "tc_tenant_id c = tr_id r" "resp = render (fst (tenant_handle c call ((tw_db w)\<lparr>td_faults := fs\<rparr>)))"
      "tw_db w' = snd (tenant_handle c call ((tw_db w)\<lparr>td_faults := fs\<rparr>))"
proof (cases "header_str ''x-tenant-id'' req")
  case None
  then have "resp \<in> refusals reject" "tw_db w' = (tw_db w)\<lparr>td_faults := td_faults (tw_db w)\<rparr>"
    using assms by (auto simp: tenant_http_def tenant_validation_middleware_def refusals_def)
  then show ?thesis by (rule refused)
next
  case (Some slug)
  obtain x db' where f: "fetch_one (\<lambda>r. tr_slug r = slug \<and> tr_status r = ''active'') td_tenants (tw_db w) = (x, db')" by fastforce
  obtain fs where db': "db' = (tw_db w)\<lparr>td_faults := fs\<rparr>"
    and row: "\<And>r. x = Inr r \<Longrightarrow> r \<in> set (td_tenants (tw_db w)) \<and> tr_slug r = slug \<and> tr_status r = ''active''"
    using fetch_tenant [OF f] by blast
  show ?thesis
  proof (cases x)
    case (Inl e)
    then have "resp \<in> refusals reject" "tw_db w' = (tw_db w)\<lparr>td_faults := fs\<rparr>"
      using assms Some f by (auto simp: tenant_http_def tenant_validation_middleware_def refusals_def db')
    then show ?thesis by (rule refused)
  next
    case (Inr r)
    let ?c = "\<lparr>tc_tenant_id = tr_id r, tc_tenant_slug = tr_slug r, tc_plan = tr_plan r, tc_quota_rpm = tr_max_rpm r\<rparr>"
    obtain ok l where lim: "rate_check now (tr_id r) (tr_max_rpm r) (tw_limiter w) = (ok, l)" by fastforce
    have "resp \<in> refusals reject \<and> tw_db w' = db' \<or>
        (\<exists>call. resp = render (fst (tenant_handle ?c call db')) \<and> tw_db w' = snd (tenant_handle ?c call db'))"
      using assms Some f Inr lim
      by (auto simp: tenant_http_def tenant_validation_middleware_def admin_guard_middleware_def tenant_endpoint_def refusals_def
          split: bool.splits option.splits if_splits prod.splits) (metis fst_conv snd_conv)+
    then show ?thesis
    proof
      assume "resp \<in> refusals reject \<and> tw_db w' = db'"
      then show ?thesis unfolding db' by (elim conjE) (rule refused)
    next
      assume "\<exists>call. resp = render (fst (tenant_handle ?c call db')) \<and> tw_db w' = snd (tenant_handle ?c call db')"
      then show ?thesis using handled [of r ?c _ fs] row [OF Inr] Some unfolding db' by auto
    qed
  qed
qed

lemma tenant_http_keeps:
  assumes ok: "tenants_ok (tw_db w)" and key: "(t, s) \<in> set (tenant_keys (tw_db w))"
  shows "tenants_ok (tw_db (snd (tenant_http decode render reject now req w)))
    \<and> (t, s) \<in> set (tenant_keys (tw_db (snd (tenant_http decode render reject now req w))))
    \<and> (header_str ''x-tenant-id'' req \<noteq> Some s \<longrightarrow>
        user_view t (tw_db (snd (tenant_http decode render reject now req w))) = user_view t (tw_db w))"
proof -
  obtain resp w' where step: "tenant_http decode render reject now req w = (resp, w')"
    by (cases "tenant_http decode render reject now req w")
  from step have "tenants_ok (tw_db w') \<and> (t, s) \<in> set (tenant_keys (tw_db w'))
      \<and> (header_str ''x-tenant-id'' req \<noteq> Some s \<longrightarrow> user_view t (tw_db w') = user_view t (tw_db w))"
  proof (cases rule: tenant_http_cases)
    case (refused fs)
    then show ?thesis using ok key by simp
  next
    case (handled fs r c call)
    let ?db = "(tw_db w)\<lparr>td_faults := fs\<rparr>"
    have keep: "tenants_ok (tw_db w') \<and> set (tenant_keys (tw_db w)) \<subseteq> set (tenant_keys (tw_db w'))"
      using handle_orderly [of ?db c call] ok handled(6) by simp
    have "t \<noteq> tc_tenant_id c" if "header_str ''x-tenant-id'' req \<noteq> Some s"
    proof
      assume "t = tc_tenant_id c"
      then have "(t, tr_slug r) \<in> set (tenant_keys (tw_db w))" using handled(1,4) by (auto simp: tenant_keys_def)
      then have "tr_slug r = s" using key ok by (auto simp: tenants_ok_def dest: eq_key_imp_eq_value)
      then show False using that handled(2) by simp
    qed
    then show ?thesis using keep key handle_users [of call t c ?db] handled(6) by auto
  qed
  then show ?thesis using step by simp
qed

lemma serve_requests_keeps:
  assumes "tenants_ok (tw_db w)" and "(t, s) \<in> set (tenant_keys (tw_db w))"
  shows "tenants_ok (tw_db (serve_requests decode render reject rs w))
    \<and> (t, s) \<in> set (tenant_keys (tw_db (serve_requests decode render reject rs w)))
    \<and> (list_all (\<lambda>x. header_str ''x-tenant-id'' (snd x) \<noteq> Some s) rs \<longrightarrow>
        user_view t (tw_db (serve_requests decode render reject rs w)) = user_view t (tw_db w))"
  using assms
proof (induction rs arbitrary: w)
  case (Cons x rs)
  obtain now req where x: "x = (now, req)" by (cases x)
  note k = tenant_http_keeps [OF Cons.prems, where now = now and req = req and decode = decode and render = render and reject = reject]
  show ?case using Cons.IH [OF conjunct1 [OF k] conjunct1 [OF conjunct2 [OF k]]] k by (simp add: x)
qed simp

section \<open>Properties\<close>

text \<open>
  C33. Isolation of the tenants at the door.  Take any history of HTTP requests, of tenants and administrators alike, with
  any failures of the database, over a database whose tenants have unique identifiers and slugs.  As long as no
  request names the slug of a tenant in its \<open>X-Tenant-ID\<close> header, the users of that tenant stay as they are,
  whatever the other tenants and the administrators do; and a request that does name it is refused before it reaches
  a handler, or answered with users of that tenant only.
\<close>

theorem tenant_http_isolation:
  assumes "tenants_ok (tw_db w)" and "(t, s) \<in> set (tenant_keys (tw_db w))"
  shows "(list_all (\<lambda>x. header_str ''x-tenant-id'' (snd x) \<noteq> Some s) rs \<longrightarrow>
       user_view t (tw_db (serve_requests decode render reject rs w)) = user_view t (tw_db w))
    \<and> (header_str ''x-tenant-id'' req = Some s \<longrightarrow>
       fst (tenant_http decode render reject now req (serve_requests decode render reject rs w)) \<in> refusals reject
       \<or> (\<exists>reply. fst (tenant_http decode render reject now req (serve_requests decode render reject rs w)) = render reply
            \<and> (\<forall>u \<in> set (users_shown reply). us_tenant_id u = t)))"
proof -
  let ?w = "serve_requests decode render reject rs w"
  have ok: "tenants_ok (tw_db ?w)" and key: "(t, s) \<in> set (tenant_keys (tw_db ?w))"
    using serve_requests_keeps [OF assms] by blast+
  obtain resp w' where step: "tenant_http decode render reject now req ?w = (resp, w')"
    by (cases "tenant_http decode render reject now req ?w")
  have "resp \<in> refusals reject \<or> (\<exists>reply. resp = render reply \<and> (\<forall>u \<in> set (users_shown reply). us_tenant_id u = t))"
    if "header_str ''x-tenant-id'' req = Some s"
    using step
  proof (cases rule: tenant_http_cases)
    case (handled fs r c call)
    have "(tr_id r, s) \<in> set (tenant_keys (tw_db ?w))" using handled(1,2) that by (auto simp: tenant_keys_def)
    moreover have "inj_on snd (set (tenant_keys (tw_db ?w)))" using ok by (simp add: tenants_ok_def distinct_map)
    ultimately have "tr_id r = t" using inj_onD [of snd _ "(tr_id r, s)" "(t, s)"] key by fastforce
    then show ?thesis using handle_shows_own handled(4,5) by auto
  qed simp
  then show ?thesis using serve_requests_keeps [OF assms] step by simp
qed

definition demo_request :: "string \<Rightarrow> http_request" where
  "demo_request slug = \<lparr>rq_method = ''DELETE'', rq_path = ''/users/1'', rq_uri = ''/users/1'', rq_headers = [(''x-tenant-id'', slug)],
     rq_body = Bytes [], rq_tenant = None, rq_canary = None\<rparr>"

text \<open>The tenant beta asks to delete the first user, who belongs to the tenant acme.\<close>

theorem tenant_http_isolation_witness:
  "header_str ''x-tenant-id'' (demo_request ''beta'') \<noteq> Some ''acme''
    \<and> length (user_view 1 two_tenants) = 1
    \<and> user_view 1 (tw_db (serve_requests (\<lambda>_. Some (Call_Delete_User 1)) (\<lambda>_. status_json 200 []) (status_json 404 [])
         [(0, demo_request ''beta'')] \<lparr>tw_db = two_tenants, tw_limiter = rate_limiter_new\<rparr>)) = user_view 1 two_tenants"
proof -
  let ?w = "\<lparr>tw_db = two_tenants, tw_limiter = rate_limiter_new\<rparr>"
  have h: "header_str ''x-tenant-id'' (demo_request ''beta'') \<noteq> Some ''acme''"
    by (simp add: demo_request_def header_str_def header_get_def same_name_def to_str_def)
  have ok: "tenants_ok (tw_db ?w)" "(1, ''acme'') \<in> set (tenant_keys (tw_db ?w))"
    by (simp_all add: tenants_ok_def tenant_keys_def tenant_eval)
  have "length (user_view 1 two_tenants) = 1" by (simp add: tenant_eval)
  then show ?thesis
    using h tenant_http_isolation [OF ok, of "[(0, demo_request ''beta'')]" "\<lambda>_. Some (Call_Delete_User 1)"
        "\<lambda>_. status_json 200 []" "status_json 404 []"] by simp
qed

end
