(* ===== verification/Timeouts.thy ===== *)
theory Timeouts
  imports Rust_Prelude
begin

text \<open>
  Deadlines on futures (\<open>rszero/src/timeout/mod.rs\<close>) and the identifiers of \<open>rszero/src/utils/helpers.rs\<close>.  A future is when
  it is done, in nanoseconds after it is first polled, and with what, if it ever is.  The timer of tokio is a parameter:
  run on a future and a duration, it gives the value of the future or nothing, and when it does so.
\<close>

type_synonym 'a future = "(duration \<times> 'a) option"

type_synonym 'a timer = "duration \<Rightarrow> 'a future \<Rightarrow> 'a option \<times> duration"

definition timeout :: "'a timer \<Rightarrow> 'a future \<Rightarrow> duration \<Rightarrow> 'a option \<times> duration" where
  "timeout tokio_timeout fut d = tokio_timeout d fut"

definition timeout_err :: "'a timer \<Rightarrow> 'a future \<Rightarrow> duration \<Rightarrow> 'e \<Rightarrow> ('e, 'a) result \<times> duration" where
  "timeout_err tokio_timeout fut d err =
     (case tokio_timeout d fut of (Some x, t) \<Rightarrow> (Ok x, t) | (None, t) \<Rightarrow> (Err err, t))"

text \<open>
  The behaviour that tokio documents: the future is polled before the timer, whose ticks are coarse, so that the call
  ends at most \<open>late\<close> after the deadline.
\<close>

definition timer_documented :: "duration \<Rightarrow> 'a timer \<Rightarrow> bool" where
  "timer_documented late tokio_timeout \<longleftrightarrow>
     (\<forall>d fut. snd (tokio_timeout d fut) \<le> d + late
        \<and> (case fut of Some (t, x) \<Rightarrow> t \<le> d \<longrightarrow> tokio_timeout d fut = (Some x, t) | None \<Rightarrow> fst (tokio_timeout d fut) = None))"

text \<open>Slicing the text of an identifier panics when it is shorter; that of a UUID without hyphens has 32 digits.\<close>

definition generate_short_id :: "string \<Rightarrow> string outcome" where
  "generate_short_id simple = (if length simple < 12 then Panic else Done (take 12 simple))"

text \<open>
  A call with a deadline returns by the deadline whatever the future does, gives the value of every future that is
  done by then, and both forms agree.
\<close>

theorem timeout_contract:
  assumes "timer_documented late T"
  shows "snd (timeout_err T fut d err) \<le> d + late
    \<and> (\<forall>t x. fut = Some (t, x) \<and> t \<le> d \<longrightarrow> timeout T fut d = (Some x, t) \<and> timeout_err T fut d err = (Ok x, t))
    \<and> (fut = None \<longrightarrow> fst (timeout T fut d) = None \<and> fst (timeout_err T fut d err) = Err err)"
proof -
  have d: "snd (T d fut) \<le> d + late" "case fut of Some (t, x) \<Rightarrow> t \<le> d \<longrightarrow> T d fut = (Some x, t) | None \<Rightarrow> fst (T d fut) = None"
    using assms by (simp_all add: timer_documented_def)
  then show ?thesis by (cases "T d fut") (auto simp: timeout_def timeout_err_def split: option.splits)
qed

theorem timeout_contract_witness:
  "timer_documented 1 (\<lambda>d fut. case fut of Some (t, x) \<Rightarrow> if t \<le> d then (Some x, t) else (None, d + 1) | None \<Rightarrow> (None :: nat option, d + 1))
    \<and> fst (timeout_err (\<lambda>d fut. case fut of Some (t, x) \<Rightarrow> if t \<le> d then (Some x, t) else (None, d + 1) | None \<Rightarrow> (None :: nat option, d + 1)) None 5 ''late'')
        = Err ''late''"
proof -
  let ?T = "\<lambda>d fut. case fut of Some (t, x) \<Rightarrow> if t \<le> d then (Some x, t) else (None, d + 1) | None \<Rightarrow> (None :: nat option, d + 1)"
  have T: "timer_documented 1 ?T" by (auto simp: timer_documented_def split: option.splits)
  then show ?thesis using timeout_contract [OF T, of None 5 "''late''"] by simp
qed

theorem short_id_total: "length simple = 32 \<Longrightarrow> \<exists>i. generate_short_id simple = Done i \<and> length i = 12"
  by (simp add: generate_short_id_def)

end
