(* ===== verification/Spec2Isabelle.thy ===== *)
theory Spec2Isabelle
  imports Errors Breaker Saga Retry Worker Message_Queue Outbox Experiment Sharding
    Api_Roundtrip Api_Codegen Cron Memcache Singleflight
    Rpc_Client Locks Websocket Streams Http_Middleware Parallel Migration Trace_Context Shedder
    Interceptors Openapi Observability Scheduler Upload Request_Context Load_Test Rabbit_Queue Rpc_Server
    Tenant_Service Book_Orders Metrics Dashboard Ctl_Commands Mock_Server User_Service Startup Outbox_Delivery Tenant_Http Timeouts
begin

text \<open>
  Verification of the rszero microservices framework (\<open>src/rszero\<close>, Rust), its command-line tool (\<open>src/rszeroctl\<close>) and its
  example services (\<open>src/examples\<close>).

  \<^bold>\<open>The program.\<close>  rszero is a library a service is put together from.  Requests come in through an HTTP server with
  middleware or through an RPC client with interceptors, both find other services through etcd, and resilience parts (circuit
  breaker, retries, load shedder, single flight) surround calls.  State lives in a database store (plain, replicated or
  sharded), in Redis and in an in-process cache; work moves through message queues, a transactional outbox, a background
  worker, sagas and scheduled jobs.  Probes of the store, the cache and discovery report to a health tracker that the server
  publishes.  A small description language for APIs has a lexer, a parser and a code
  generator, which the command-line tool calls; the tool also writes projects from templates and generates load.  Three examples
  are services built on the framework.

  \<^bold>\<open>How code is modelled.\<close>  A struct is a record and an enum a datatype with the source's constructors; integers are words of
  their width, \<open>f64\<close> is the executable binary64 of \<open>F64\<close>; a fallible function returns \<open>rszero_result\<close>, a panic is the
  value \<open>Panic\<close>.  A method becomes a function from the state before to the result and the state after.  Where tasks
  interleave, the code between two await points (or under one lock) is one step of a labelled transition relation, and
  theorems speak of every run.  Clock readings, random draws, fresh identifiers and iteration orders of hash maps are arguments.
  Third-party code (etcd, Redis and database clients, tokio timers, axum routers, serde, JWT and hash functions) is a parameter;
  what a theorem needs of it is a named hypothesis that states its documented behaviour, and a witness shows that
  the hypotheses can hold.  Logging is left out unless a theorem is about what is logged.

  \<^bold>\<open>The library.\<close>
  \<^item> \<open>Rust_Prelude\<close>: integer widths, results, decimal text, splitting and searching strings; \<open>F64\<close>: rounding, the
    operations the code uses and their bounds; \<open>Json\<close>: values of serde_json; \<open>Hashing\<close>: bytes of strings.
  \<^item> \<open>Transition_Systems\<close>: runs, reachability and the locale \<open>inductive_invariant\<close>, interpreted for the breaker, the worker, the
    outbox, single flight, map-reduce, sockets, jobs, the shedder, the load generator and the user service.
  \<^item> Other interfaces are locales as well: \<open>retry_loop\<close> and \<open>remembering_loop\<close> (retry policy, worker, RPC client),
    \<open>queue_backend\<close> (memory and Redis queues) and its extension \<open>lossless_backend\<close> (the outbox over a queue), \<open>saga_persister\<close>, \<open>expiring_cache\<close>, \<open>gate\<close> and \<open>two_gates\<close> (middleware that
    stops or passes a request), \<open>item_list\<close> (loops of the API parser).

  \<^bold>\<open>Components, sources and results\<close> (sources under \<open>src/rszero/src\<close>).
  \<^item> \<open>Errors\<close> (\<open>error/mod.rs\<close>): variants, codes, conversion to responses; where the two conversions to a status agree.
  \<^item> \<open>Breaker\<close> (\<open>breaker/mod.rs\<close>): window, states and admission under concurrent callers; invariant of reachable states, exact
    opening condition, behaviour when open, number of probes until it closes, a half-open state that rejects forever.
  \<^item> \<open>Saga\<close> (\<open>saga/mod.rs\<close>, \<open>saga/persistence.rs\<close>): order of actions and compensations; the persistent saga refines the plain one
    and leaves its final record; what is listed.
  \<^item> \<open>Retry\<close> (\<open>retry/mod.rs\<close>), \<open>Rpc_Client\<close> (\<open>rpc/client.rs\<close>), \<open>Worker\<close> (\<open>worker/mod.rs\<close>): attempts, delays and their
    overflow; the worker accounts for every message and can always shut down.
  \<^item> \<open>Message_Queue\<close> and \<open>Rabbit_Queue\<close> (\<open>queue/mod.rs\<close>), \<open>Streams\<close> (\<open>queue/streams.rs\<close>), \<open>Outbox\<close> (\<open>queue/transactional.rs\<close>): queues refine
    first-in first-out; acknowledgement by identifier; every accepted message is published, pending or exhausted;
    \<open>Outbox_Delivery\<close>: outbox, queue and consumers together lose nothing that is marked as published and make nothing up.
  \<^item> \<open>Experiment\<close> (\<open>experiment/mod.rs\<close>), \<open>Sharding\<close> (\<open>store/sharding.rs\<close>): assignment by weight; the hash ring equals its
    reference definition and adding a shard moves keys only to it.
  \<^item> \<open>Api_Lexer\<close>, \<open>Api_Parser\<close>, \<open>Api_Roundtrip\<close>, \<open>Api_Codegen\<close> (\<open>api/\<close>): parsing what was printed returns it.
  \<^item> \<open>Cron\<close> (\<open>scheduler/cron.rs\<close>), \<open>Scheduler\<close> (\<open>scheduler/mod.rs\<close>): ranges of parsed fields; the search for the next minute ends
    and finds the earliest one; the loop serves every matching minute once; when jobs run.
  \<^item> \<open>Memcache\<close> (\<open>cache/memcache.rs\<close>, \<open>cache/aside.rs\<close>), \<open>Redis_Cache\<close> (\<open>cache/mod.rs\<close>), \<open>Locks\<close> (\<open>cache/lock.rs\<close>,
    \<open>cache/redlock.rs\<close>): size and expiry, round trips, exclusiveness of leases.
  \<^item> \<open>Singleflight\<close>, \<open>Parallel\<close> (\<open>concurrent/\<close>, \<open>store/batch.rs\<close>): exclusive execution, two ways to block forever; the result of
    map-reduce in every schedule.
  \<^item> \<open>Discovery\<close> (\<open>discovery/mod.rs\<close>), \<open>Config\<close> (\<open>config/\<close>), \<open>Store\<close> (\<open>store/mod.rs\<close>, \<open>store/replica.rs\<close>), \<open>Migration\<close>
    (\<open>store/migration.rs\<close>): what discovery finds, validation and reloading, masking of the DSN, applied migrations.
  \<^item> \<open>Health\<close> (\<open>health/mod.rs\<close> and the probes): readiness follows the last report of every dependency.
  \<^item> \<open>Schema\<close>, \<open>Http_Middleware\<close>, \<open>Observability\<close> (\<open>middleware/\<close>), \<open>Trace_Context\<close> (\<open>trace/propagation.rs\<close>,
    \<open>utils/masking.rs\<close>): what is validated, which requests reach the handler, what is logged, how traces continue.
  \<^item> \<open>Rest_Server\<close> (\<open>rest/server.rs\<close>, response helpers), \<open>Openapi\<close> (\<open>openapi/\<close>: the document has what was documented), \<open>Websocket\<close> (\<open>rest/websocket.rs\<close>), \<open>Interceptors\<close>
    (\<open>rpc/interceptor.rs\<close>), \<open>Shedder\<close> (\<open>shedder/mod.rs\<close>): which layers wrap which routes, invariants of sockets and rooms, order of
    hooks, bounds of the rejection probability.
  \<^item> \<open>Rpc_Server\<close> (\<open>rpc/server.rs\<close>), \<open>Metrics\<close> (\<open>metrics/\<close>), \<open>Dashboard\<close> (\<open>dashboard/\<close>): readiness over the life of a server, the
    uses of a metric that panic, what the fragments show.
  \<^item> \<open>Request_Context\<close> (\<open>rest/context.rs\<close>, \<open>rest/param.rs\<close>), \<open>Upload\<close> (\<open>rest/upload.rs\<close>), \<open>Mock_Server\<close> (\<open>rest/mock.rs\<close>): contexts
    are typed maps and forks are separate; uploads stay in their directory; each mock route is answered by its own response.
  \<^item> \<open>Ctl_Templates\<close>, \<open>Ctl_Commands\<close> (\<open>src/rszeroctl/src/main.rs\<close>, \<open>cmd/\<close>): the texts and the file operations of every
    generator; a new project is complete on a free disk, the example description feeds the gateway command.
  \<^item> \<open>Load_Test\<close> (\<open>src/rszeroctl/src/cmd/loadtest.rs\<close>): accounting of requests in every schedule, order of the percentiles.
  \<^item> \<open>Tenant_Service\<close> (\<open>src/examples/tenant-management\<close>): isolation of tenants, quotas, rate limits, guarded routes;
    \<open>Tenant_Http\<close>: isolation over whole histories of HTTP requests through both middlewares.
  \<^item> \<open>Book_Store\<close>, \<open>Book_Orders\<close> (\<open>src/examples/bookstore\<close>): pages, coherence of the cache, conservation of stock, and the
    interleavings that break them; \<open>User_Service\<close> (\<open>src/examples/user-service\<close>): the service is a map;
    \<open>Startup\<close>: routes and servers of these two examples, and why both panic when they start.
  \<^item> \<open>Timeouts\<close> (\<open>timeout/mod.rs\<close>, \<open>utils/helpers.rs\<close>): deadlines are kept, short identifiers never panic.

  \<^bold>\<open>Termination.\<close>  Loops over data are structural recursion; those of the lexer and the parser have termination proofs with the
  number of remaining characters or tokens as the measure, and the cron search counts down the minutes of its own horizon of
  1460 days.  No fuel is used.  Endless tasks are steps, and what they can always still do is stated as a run that exists.

  \<^bold>\<open>Not modelled.\<close>  One-line helpers around uuid, chrono and tracing (the rest of \<open>utils/helpers.rs\<close>, \<open>log\<close>, \<open>trace/mod.rs\<close>),
  which have no state of their own; what the client libraries do while they connect, of which only the order of the calls and
  their error branches is kept; the fixed HTML of the dashboard; the texts that commands print; the start-up of the two gRPC
  programs of the bookstore and the reading of the environment, which are calls into tonic and tokio; \<open>Clone\<close> implementations
  that copy a handle; the benchmarks and the integration tests.
\<close>

end
